(* ===== verification/Prelude.thy ===== *)
theory Prelude
  imports Main "HOL-Library.Word" "HOL-Library.Signed_Division" "HOL-Library.AList"
    "HOL-Library.Code_Target_Numeral"
begin

text \<open>
  What every component shares: JavaScript strings and the part of the string library the
  sources use, results with errors as values, promises with an explicit state, and the
  generic lemmas about them.

  A JavaScript string is the list of its UTF-16 code units (\<open>jsstr\<close>), so a comparison
  with a character class of a regular expression is a comparison of numbers. A literal of
  the source is written \<open>js ''...''\<close>. A \<open>bigint\<close> is an \<open>int\<close>; its division truncates
  (\<open>sdiv\<close>). A \<open>number\<close> that the code checks with \<open>Number.isInteger\<close> is a \<open>jsnum\<close>.
\<close>

named_theorems js_defs "definitions of the JavaScript library operations"
named_theorems async_simps "rules that run the state and error monad"

section \<open>Results\<close>

text \<open>A function that may throw returns \<open>Inl\<close> of the error or \<open>Inr\<close> of the value.\<close>

definition res_bind :: "'e + 'a \<Rightarrow> ('a \<Rightarrow> 'e + 'b) \<Rightarrow> 'e + 'b" where
  "res_bind m f = (case m of Inl e \<Rightarrow> Inl e | Inr a \<Rightarrow> f a)"

definition guard_res :: "bool \<Rightarrow> 'e \<Rightarrow> 'e + unit" where
  "guard_res ok e = (if ok then Inr () else Inl e)"

text \<open>\<open>xs.map(f)\<close> with an \<open>f\<close> that may throw: the first error wins.\<close>

fun res_map :: "('a \<Rightarrow> 'e + 'b) \<Rightarrow> 'a list \<Rightarrow> 'e + 'b list" where
  "res_map f [] = Inr []"
| "res_map f (x # xs) = res_bind (f x) (\<lambda>y. res_bind (res_map f xs) (\<lambda>ys. Inr (y # ys)))"

lemma res_bind_simps [simp]:
  "res_bind (Inl e) f = Inl e" "res_bind (Inr a) f = f a"
  by (simp_all add: res_bind_def)

lemma res_bind_eq_Inr [simp]:
  "res_bind m f = Inr b \<longleftrightarrow> (\<exists>a. m = Inr a \<and> f a = Inr b)"
  by (cases m) auto

lemma res_bind_eq_Inl:
  "res_bind m f = Inl e \<longleftrightarrow> m = Inl e \<or> (\<exists>a. m = Inr a \<and> f a = Inl e)"
  by (cases m) auto

lemma guard_res_eq_Inr [simp]: "guard_res b e = Inr u \<longleftrightarrow> b"
  by (simp add: guard_res_def)

lemma guard_res_True [simp]: "guard_res True e = Inr ()"
  and guard_res_False [simp]: "guard_res False e = Inl e"
  by (simp_all add: guard_res_def)

lemma guard_res_eq_Inl [simp]: "guard_res b e = Inl e' \<longleftrightarrow> \<not> b \<and> e' = e"
  by (auto simp: guard_res_def)

lemma res_map_Inr_iff:
  "res_map f xs = Inr ys \<longleftrightarrow> list_all2 (\<lambda>x y. f x = Inr y) xs ys"
  by (induction xs arbitrary: ys) (auto simp: list_all2_Cons1)

lemma res_map_length: "res_map f xs = Inr ys \<Longrightarrow> length ys = length xs"
  by (auto simp: res_map_Inr_iff dest: list_all2_lengthD)

lemma res_map_all:
  assumes "res_map f xs = Inr ys" and "\<And>x y. x \<in> set xs \<Longrightarrow> f x = Inr y \<Longrightarrow> P y"
  shows "\<forall>y \<in> set ys. P y"
  using assms by (fastforce simp: res_map_Inr_iff list_all2_conv_all_nth in_set_conv_nth)

section \<open>JavaScript strings\<close>

type_synonym jsstr = "nat list"

definition js :: "string \<Rightarrow> jsstr" where
  "js s = map of_char s"

lemma js_Nil [simp]: "js [] = []"
  by (simp add: js_def)

lemma js_Cons [simp]: "js (c # s) = of_char c # js s"
  by (simp add: js_def)

definition is_digit :: "nat \<Rightarrow> bool" where
  "is_digit c \<longleftrightarrow> 48 \<le> c \<and> c \<le> 57"

definition is_upper :: "nat \<Rightarrow> bool" where
  "is_upper c \<longleftrightarrow> 65 \<le> c \<and> c \<le> 90"

definition is_lower :: "nat \<Rightarrow> bool" where
  "is_lower c \<longleftrightarrow> 97 \<le> c \<and> c \<le> 122"

text \<open>\<open>[A-Z0-9]\<close>\<close>

definition is_upnum :: "nat \<Rightarrow> bool" where
  "is_upnum c \<longleftrightarrow> is_upper c \<or> is_digit c"

text \<open>The code units that \<open>trim\<close> and \<open>\s\<close> take as white space.\<close>

definition is_space :: "nat \<Rightarrow> bool" where
  "is_space c \<longleftrightarrow> (9 \<le> c \<and> c \<le> 13) \<or> c = 32 \<or> c = 160 \<or> c = 0x1680 \<or>
     (0x2000 \<le> c \<and> c \<le> 0x200a) \<or> c = 0x2028 \<or> c = 0x2029 \<or> c = 0x202f \<or>
     c = 0x205f \<or> c = 0x3000 \<or> c = 0xfeff"

definition trim :: "jsstr \<Rightarrow> jsstr" where
  "trim s = rev (dropWhile is_space (rev (dropWhile is_space s)))"

definition padStart :: "nat \<Rightarrow> nat \<Rightarrow> jsstr \<Rightarrow> jsstr" where
  "padStart n c s = replicate (n - length s) c @ s"

definition padEnd :: "nat \<Rightarrow> nat \<Rightarrow> jsstr \<Rightarrow> jsstr" where
  "padEnd n c s = s @ replicate (n - length s) c"

text \<open>\<open>s.slice(a, b)\<close>: a negative index counts from the end, both are clamped.\<close>

definition slice_index :: "nat \<Rightarrow> int \<Rightarrow> nat" where
  "slice_index n i = (if i < 0 then nat (int n + i) else min (nat i) n)"

definition slice :: "'a list \<Rightarrow> int \<Rightarrow> int \<Rightarrow> 'a list" where
  "slice s a b = take (slice_index (length s) b - slice_index (length s) a)
     (drop (slice_index (length s) a) s)"

definition slice_from :: "'a list \<Rightarrow> int \<Rightarrow> 'a list" where
  "slice_from s a = drop (slice_index (length s) a) s"

text \<open>\<open>[...new Set(xs)]\<close>: the first occurrence of every value.\<close>

definition new_Set :: "'a list \<Rightarrow> 'a list" where
  "new_Set xs = rev (remdups (rev xs))"

text \<open>\<open>s.split(c)\<close> for a separator of one code unit.\<close>

fun split_on :: "nat \<Rightarrow> jsstr \<Rightarrow> jsstr list" where
  "split_on c [] = [[]]"
| "split_on c (x # xs) =
     (if x = c then [] # split_on c xs
      else (case split_on c xs of [] \<Rightarrow> [[x]] | y # ys \<Rightarrow> (x # y) # ys))"

text \<open>
  \<open>toUpperCase\<close>: the ASCII letters are spelled out; what Unicode's case table does with a
  code unit outside ASCII is the argument \<open>tbl\<close>.
\<close>

definition toUpperCase :: "(nat \<Rightarrow> jsstr) \<Rightarrow> jsstr \<Rightarrow> jsstr" where
  "toUpperCase tbl s =
     concat (map (\<lambda>c. if is_lower c then [c - 32] else if c < 128 then [c] else tbl c) s)"

text \<open>
  A regular expression anchored at both ends, as a sequence of character classes with the
  least and the greatest number of repetitions.
\<close>

fun rx :: "((nat \<Rightarrow> bool) \<times> nat \<times> nat) list \<Rightarrow> jsstr \<Rightarrow> bool" where
  "rx [] s = (s = [])"
| "rx ((p, lo, hi) # r) s =
     list_ex (\<lambda>n. n \<le> length s \<and> list_all p (take n s) \<and> rx r (drop n s)) [lo..<Suc hi]"

definition lit :: "nat \<Rightarrow> (nat \<Rightarrow> bool) \<times> nat \<times> nat" where
  "lit c = ((\<lambda>x. x = c), 1, 1)"

lemmas char_class_defs = is_digit_def is_upper_def is_lower_def is_upnum_def is_space_def

lemma digit_not_space: "is_digit c \<Longrightarrow> \<not> is_space c"
  by (auto simp: char_class_defs)

lemma upnum_not_space: "is_upnum c \<Longrightarrow> \<not> is_space c"
  by (auto simp: char_class_defs)

lemma trim_id:
  assumes "\<forall>c \<in> set s. \<not> is_space c"
  shows "trim s = s"
proof -
  have id: "dropWhile is_space t = t" if "\<forall>c \<in> set t. \<not> is_space c" for t
    using that by (cases t) auto
  from assms show ?thesis by (simp add: trim_def id)
qed

lemma set_new_Set [simp]: "set (new_Set xs) = set xs"
  and distinct_new_Set [simp]: "distinct (new_Set xs)"
  by (simp_all add: new_Set_def)

lemma split_on_nonempty [simp]: "split_on c s \<noteq> []"
  by (induction s) (auto split: list.splits)

lemma split_on_id: "c \<notin> set s \<Longrightarrow> split_on c s = [s]"
  by (induction s) auto

lemma split_on_append:
  "c \<notin> set s \<Longrightarrow> split_on c (s @ c # t) = s # split_on c t"
  by (induction s) auto

lemma sep_inj:
  assumes "c \<notin> set a" and "c \<notin> set b" and "a @ c # x = b @ c # y"
  shows "a = b \<and> x = y"
  using assms
proof (induction a arbitrary: b)
  case Nil
  then show ?case by (cases b) auto
next
  case (Cons z a)
  then show ?case by (cases b) auto
qed

lemma rx_fixed:
  "rx ((p, n, n) # r) s \<longleftrightarrow> n \<le> length s \<and> list_all p (take n s) \<and> rx r (drop n s)"
  by simp

section \<open>Decimal numerals\<close>

text \<open>\<open>BigInt(s)\<close> on a string of digits, and \<open>n.toString()\<close> on a natural number.\<close>

definition digits_val :: "jsstr \<Rightarrow> nat" where
  "digits_val s = foldl (\<lambda>a c. 10 * a + (c - 48)) 0 s"

fun nat_digits :: "nat \<Rightarrow> jsstr" where
  "nat_digits n = (if n < 10 then [48 + n] else nat_digits (n div 10) @ [48 + n mod 10])"

declare nat_digits.simps [simp del]

definition bigint_toString :: "int \<Rightarrow> jsstr" where
  "bigint_toString v = (if v < 0 then 45 # nat_digits (nat (- v)) else nat_digits (nat v))"

lemma digits_val_Nil [simp]: "digits_val [] = 0"
  by (simp add: digits_val_def)

lemma digits_val_snoc: "digits_val (s @ [c]) = 10 * digits_val s + (c - 48)"
  by (simp add: digits_val_def)

lemma digits_val_append:
  "digits_val (s @ t) = digits_val s * 10 ^ length t + digits_val t"
proof (induction t rule: rev_induct)
  case Nil
  show ?case by simp
next
  case (snoc c t)
  then show ?case
    by (simp add: digits_val_snoc append_assoc [symmetric] del: append_assoc)
qed

lemma digits_val_zeros [simp]: "digits_val (replicate n 48) = 0"
proof (induction n)
  case (Suc n)
  have "replicate (Suc n) (48::nat) = replicate n 48 @ [48]"
    by (simp add: replicate_append_same)
  with Suc show ?case by (simp only: digits_val_snoc)
qed simp

lemma digits_val_less:
  "\<forall>c \<in> set s. is_digit c \<Longrightarrow> digits_val s < 10 ^ length s"
proof (induction s rule: rev_induct)
  case (snoc c s)
  then have "digits_val s + 1 \<le> 10 ^ length s" and "c - 48 \<le> 9"
    by (auto simp: is_digit_def)
  then show ?case by (simp add: digits_val_snoc)
qed simp

lemma nat_digits_eval:
  "n < 10 \<Longrightarrow> nat_digits n = [48 + n]"
  "\<not> n < 10 \<Longrightarrow> nat_digits n = nat_digits (n div 10) @ [48 + n mod 10]"
  by (simp_all add: nat_digits.simps [of n])

lemma nat_digits_nonempty [simp]: "nat_digits n \<noteq> []"
  by (subst nat_digits.simps) simp

lemma nat_digits_are_digits: "c \<in> set (nat_digits n) \<Longrightarrow> is_digit c"
proof (induction n rule: nat_digits.induct)
  case (1 n)
  show ?case
  proof (cases "n < 10")
    case True
    with "1.prems" show ?thesis by (simp add: nat_digits.simps [of n] is_digit_def)
  next
    case False
    with "1" show ?thesis by (auto simp: nat_digits.simps [of n] is_digit_def)
  qed
qed

lemma digits_val_nat_digits [simp]: "digits_val (nat_digits n) = n"
proof (induction n rule: nat_digits.induct)
  case (1 n)
  then show ?case
    by (cases "n < 10")
      (simp_all add: nat_digits.simps [of n] digits_val_snoc digits_val_def [of "[48 + n]"])
qed

text \<open>A string with leading zeros removed by \<open>BigInt\<close> and padded again is the same string.\<close>

lemma nat_digits_length_le:
  assumes "n < 10 ^ k" and "0 < k"
  shows "length (nat_digits n) \<le> k"
  using assms
proof (induction n arbitrary: k rule: nat_digits.induct)
  case (1 n)
  show ?case
  proof (cases "n < 10")
    case True
    with "1.prems" show ?thesis by (simp add: nat_digits.simps [of n])
  next
    case False
    then obtain j where k: "k = Suc j" and j: "0 < j"
      using "1.prems" by (cases k; cases "k - 1") auto
    from "1.prems" k have "n div 10 < 10 ^ j" by (simp add: less_mult_imp_div_less mult.commute)
    with "1.IH" False j have "length (nat_digits (n div 10)) \<le> j" by simp
    with False k show ?thesis by (simp add: nat_digits.simps [of n])
  qed
qed

section \<open>Numbers\<close>

text \<open>
  A \<open>number\<close> as far as \<open>Number.isInteger\<close> tells: an integer, or one of the values (a
  fraction, NaN, an infinity) that are not integers.
\<close>

datatype jsnum = JsInt int | NonInteger

fun isIntegerIn :: "jsnum \<Rightarrow> int \<Rightarrow> int \<Rightarrow> bool" where
  "isIntegerIn (JsInt i) lo hi = (lo \<le> i \<and> i \<le> hi)"
| "isIntegerIn NonInteger lo hi = False"

lemma sdiv_nonneg: "0 \<le> a \<Longrightarrow> 0 < b \<Longrightarrow> a sdiv b = a div b" for a b :: int
  by (cases "a = 0") (auto simp: signed_divide_int_def)

section \<open>Promises over an explicit state\<close>

text \<open>
  An \<open>async\<close> function over a state \<open>'s\<close> is fulfilled with a value, rejected with an
  error, or pending: it never settles. Changes made before a rejection stay.
\<close>

datatype ('e, 'a) promise = Fulfilled 'a | Rejected 'e | Pending

type_synonym ('s, 'e, 'a) async = "'s \<Rightarrow> ('e, 'a) promise \<times> 's"

definition resolve :: "'a \<Rightarrow> ('s, 'e, 'a) async" where
  "resolve a = (\<lambda>s. (Fulfilled a, s))"

definition throw :: "'e \<Rightarrow> ('s, 'e, 'a) async" where
  "throw e = (\<lambda>s. (Rejected e, s))"

definition await :: "('s, 'e, 'a) async \<Rightarrow> ('a \<Rightarrow> ('s, 'e, 'b) async) \<Rightarrow> ('s, 'e, 'b) async" where
  "await m f = (\<lambda>s. case m s of
     (Fulfilled a, s') \<Rightarrow> f a s' | (Rejected e, s') \<Rightarrow> (Rejected e, s') | (Pending, s') \<Rightarrow> (Pending, s'))"

definition catch :: "('s, 'e, 'a) async \<Rightarrow> ('e \<Rightarrow> ('s, 'e, 'a) async) \<Rightarrow> ('s, 'e, 'a) async" where
  "catch m h = (\<lambda>s. case m s of
     (Fulfilled a, s') \<Rightarrow> (Fulfilled a, s') | (Rejected e, s') \<Rightarrow> h e s' | (Pending, s') \<Rightarrow> (Pending, s'))"

definition reads :: "('s \<Rightarrow> 'a) \<Rightarrow> ('s, 'e, 'a) async" where
  "reads f = (\<lambda>s. (Fulfilled (f s), s))"

definition writes :: "('s \<Rightarrow> 's) \<Rightarrow> ('s, 'e, unit) async" where
  "writes f = (\<lambda>s. (Fulfilled (), f s))"

definition require :: "bool \<Rightarrow> 'e \<Rightarrow> ('s, 'e, unit) async" where
  "require ok e = (if ok then resolve () else throw e)"

definition of_res :: "'e + 'a \<Rightarrow> ('s, 'e, 'a) async" where
  "of_res r = (case r of Inl e \<Rightarrow> throw e | Inr a \<Rightarrow> resolve a)"

lemmas async_defs = resolve_def throw_def await_def catch_def reads_def writes_def
  require_def of_res_def

lemma resolve_run [async_simps, simp]: "resolve a s = (Fulfilled a, s)"
  and throw_run [async_simps, simp]: "throw e s = (Rejected e, s)"
  and reads_run [async_simps, simp]: "reads f s = (Fulfilled (f s), s)"
  and writes_run [async_simps, simp]: "writes g s = (Fulfilled (), g s)"
  and require_run [async_simps, simp]: "require ok e s = (if ok then Fulfilled () else Rejected e, s)"
  and of_res_Inl [async_simps, simp]: "of_res (Inl e) = throw e"
  and of_res_Inr [async_simps, simp]: "of_res (Inr a) = resolve a"
  by (simp_all add: async_defs)

lemma await_run [async_simps]:
  "await m f s = (case m s of
     (Fulfilled a, s') \<Rightarrow> f a s' | (Rejected e, s') \<Rightarrow> (Rejected e, s') | (Pending, s') \<Rightarrow> (Pending, s'))"
  by (simp add: await_def)

lemma catch_run [async_simps]:
  "catch m h s = (case m s of
     (Fulfilled a, s') \<Rightarrow> (Fulfilled a, s') | (Rejected e, s') \<Rightarrow> h e s' | (Pending, s') \<Rightarrow> (Pending, s'))"
  by (simp add: catch_def)

lemma await_Fulfilled_iff:
  "await m f s = (Fulfilled b, t) \<longleftrightarrow> (\<exists>a s'. m s = (Fulfilled a, s') \<and> f a s' = (Fulfilled b, t))"
  by (auto simp: await_run split: prod.splits promise.splits)

lemma await_resolve [simp]: "await (resolve a) f = f a"
  and await_throw [simp]: "await (throw e) f = throw e"
  by (simp_all add: fun_eq_iff await_run)

section \<open>Rules for promises\<close>

text \<open>
  \<open>runs P m Q E\<close>: from a state with \<open>P\<close>, a fulfilled \<open>m\<close> ends with \<open>Q\<close> of its value and
  the state, a rejected one with \<open>E\<close> of its error and the state.
\<close>

definition runs :: "('s \<Rightarrow> bool) \<Rightarrow> ('s, 'e, 'a) async \<Rightarrow> ('a \<Rightarrow> 's \<Rightarrow> bool) \<Rightarrow> ('e \<Rightarrow> 's \<Rightarrow> bool) \<Rightarrow> bool" where
  "runs P m Q E \<longleftrightarrow> (\<forall>s. P s \<longrightarrow> (case m s of
     (Fulfilled a, s') \<Rightarrow> Q a s' | (Rejected e, s') \<Rightarrow> E e s' | (Pending, s') \<Rightarrow> True))"

lemma runs_weaken:
  "runs P' m Q' E' \<Longrightarrow> (\<And>s. P s \<Longrightarrow> P' s) \<Longrightarrow> (\<And>a s. Q' a s \<Longrightarrow> Q a s) \<Longrightarrow> (\<And>e s. E' e s \<Longrightarrow> E e s) \<Longrightarrow> runs P m Q E"
  unfolding runs_def by (fastforce split: prod.splits promise.splits)

lemma runs_await:
  assumes "runs P m R E" and "\<And>a. runs (R a) (f a) Q E"
  shows "runs P (await m f) Q E"
  unfolding runs_def
proof (intro allI impI)
  fix s assume "P s"
  then have m: "case m s of (Fulfilled a, s') \<Rightarrow> R a s' | (Rejected e, s') \<Rightarrow> E e s' | (Pending, s') \<Rightarrow> True"
    by (rule assms(1) [unfolded runs_def, THEN spec, THEN mp])
  obtain r s' where r: "m s = (r, s')" by fastforce
  show "case await m f s of (Fulfilled a, s') \<Rightarrow> Q a s' | (Rejected e, s') \<Rightarrow> E e s' | (Pending, s') \<Rightarrow> True"
    using m r assms(2) unfolding runs_def by (cases r) (simp_all add: await_run)
qed

lemma runs_catch:
  assumes "runs P m Q R" and "\<And>e. runs (R e) (h e) Q E"
  shows "runs P (catch m h) Q E"
  unfolding runs_def
proof (intro allI impI)
  fix s assume "P s"
  then have m: "case m s of (Fulfilled a, s') \<Rightarrow> Q a s' | (Rejected e, s') \<Rightarrow> R e s' | (Pending, s') \<Rightarrow> True"
    by (rule assms(1) [unfolded runs_def, THEN spec, THEN mp])
  obtain r s' where r: "m s = (r, s')" by fastforce
  show "case catch m h s of (Fulfilled a, s') \<Rightarrow> Q a s' | (Rejected e, s') \<Rightarrow> E e s' | (Pending, s') \<Rightarrow> True"
    using m r assms(2) unfolding runs_def by (cases r) (simp_all add: catch_run)
qed

lemma runs_resolve: "(\<And>s. P s \<Longrightarrow> Q a s) \<Longrightarrow> runs P (resolve a) Q E"
  by (simp add: runs_def)

lemma runs_throw: "(\<And>s. P s \<Longrightarrow> E e s) \<Longrightarrow> runs P (throw e) Q E"
  by (simp add: runs_def)

lemma runs_reads: "(\<And>s. P s \<Longrightarrow> Q (g s) s) \<Longrightarrow> runs P (reads g) Q E"
  by (simp add: runs_def)

lemma runs_writes: "(\<And>s. P s \<Longrightarrow> Q () (u s)) \<Longrightarrow> runs P (writes u) Q E"
  by (simp add: runs_def)

lemma runs_require:
  "(\<And>s. P s \<Longrightarrow> ok \<Longrightarrow> Q () s) \<Longrightarrow> (\<And>s. P s \<Longrightarrow> \<not> ok \<Longrightarrow> E e s) \<Longrightarrow> runs P (require ok e) Q E"
  by (simp add: runs_def)

lemma runs_of_res:
  "(\<And>s a. P s \<Longrightarrow> r = Inr a \<Longrightarrow> Q a s) \<Longrightarrow> (\<And>s x. P s \<Longrightarrow> r = Inl x \<Longrightarrow> E x s) \<Longrightarrow> runs P (of_res r) Q E"
  by (auto simp: runs_def of_res_def split: sum.splits)

lemma runs_if: "(b \<Longrightarrow> runs P m Q E) \<Longrightarrow> (\<not> b \<Longrightarrow> runs P n Q E) \<Longrightarrow> runs P (if b then m else n) Q E"
  by simp

lemma runs_pre: "(\<And>s. P s \<Longrightarrow> b) \<Longrightarrow> (b \<Longrightarrow> runs P m Q E) \<Longrightarrow> runs P m Q E"
  by (cases b) (auto simp: runs_def)

lemma runsD:
  "runs P m Q E \<Longrightarrow> P s \<Longrightarrow> m s = (r, s') \<Longrightarrow> (\<forall>a. r = Fulfilled a \<longrightarrow> Q a s') \<and> (\<forall>e. r = Rejected e \<longrightarrow> E e s')"
  unfolding runs_def by force

lemma runsI:
  "(\<And>s a s'. P s \<Longrightarrow> m s = (Fulfilled a, s') \<Longrightarrow> Q a s') \<Longrightarrow>
   (\<And>s e s'. P s \<Longrightarrow> m s = (Rejected e, s') \<Longrightarrow> E e s') \<Longrightarrow> runs P m Q E"
  unfolding runs_def by (auto split: prod.splits promise.splits)

section \<open>Types of the contracts that several parts use\<close>

datatype PosVatTreatment = Standard20 | Reduced9 | ZeroRate | Exempt | Ica

end
