(* ===== verification/Domain.thy ===== *)
theory Domain
  imports Prelude
begin

text \<open>
  \<open>packages/domain/src/index.ts\<close>: fixed-point money arithmetic on decimal strings, VAT and
  totals of a financial document, the corrected receivable balance, and the checks of
  business identifiers and telephone numbers.
\<close>

datatype domain_error =
    NotAUuid | NotANonNegativeDecimal | TooManyDecimals nat | NegativeAdjusted
  | NoLines | RateNotPositive | QuantityNotPositive | UnitPriceNegative
  | DiscountOutOfRange | VatRateOutOfRange | VatRateRequired

section \<open>Entity identifiers\<close>

definition is_hex_ci :: "nat \<Rightarrow> bool" where
  "is_hex_ci c \<longleftrightarrow> is_digit c \<or> (65 \<le> c \<and> c \<le> 70) \<or> (97 \<le> c \<and> c \<le> 102)"

definition uuidPattern :: "jsstr \<Rightarrow> bool" where
  "uuidPattern = rx [(is_hex_ci, 8, 8), lit 45, (is_hex_ci, 4, 4), lit 45,
     ((\<lambda>c. 49 \<le> c \<and> c \<le> 56), 1, 1), (is_hex_ci, 3, 3), lit 45,
     ((\<lambda>c. c \<in> {56, 57, 97, 98, 65, 66}), 1, 1), (is_hex_ci, 3, 3), lit 45, (is_hex_ci, 12, 12)]"

definition asEntityId :: "jsstr \<Rightarrow> domain_error + jsstr" where
  "asEntityId value = (if \<not> uuidPattern value then Inl NotAUuid else Inr value)"

section \<open>Fixed-point decimals\<close>

text \<open>\<open>^\d+(\.\d+)?$\<close>, and the two parts that \<open>value.split('.')\<close> then gives.\<close>

fun decimal_parts :: "jsstr list \<Rightarrow> (jsstr \<times> jsstr) option" where
  "decimal_parts [whole] =
     (if whole \<noteq> [] \<and> list_all is_digit whole then Some (whole, []) else None)"
| "decimal_parts [whole, fraction] =
     (if whole \<noteq> [] \<and> list_all is_digit whole \<and> fraction \<noteq> [] \<and> list_all is_digit fraction
      then Some (whole, fraction) else None)"
| "decimal_parts _ = None"

definition decimalUnits :: "jsstr \<Rightarrow> nat \<Rightarrow> domain_error + int" where
  "decimalUnits value scale =
     (case decimal_parts (split_on 46 value) of
        None \<Rightarrow> Inl NotANonNegativeDecimal
      | Some (whole, fraction) \<Rightarrow>
          if length fraction > scale then Inl (TooManyDecimals scale)
          else Inr (int (digits_val (whole @ padEnd scale 48 fraction))))"

definition formatUnits :: "int \<Rightarrow> nat \<Rightarrow> jsstr" where
  "formatUnits value scale =
     (let raw = padStart (scale + 1) 48 (bigint_toString value)
      in slice raw 0 (- int scale) @ js ''.'' @ slice_from raw (- int scale))"

definition divideHalfUp :: "int \<Rightarrow> int \<Rightarrow> int" where
  "divideHalfUp numerator denominator = (numerator + denominator sdiv 2) sdiv denominator"

definition moneyScale :: int where "moneyScale = 10000"
definition rateScale :: int where "rateScale = 100000000"
definition percentScale :: int where "percentScale = 10000"
definition oneHundredPercent :: int where "oneHundredPercent = 100 * percentScale"

lemmas scale_defs = moneyScale_def rateScale_def percentScale_def oneHundredPercent_def

section \<open>Corrected receivable balance\<close>

record receivable_balance =
  adjustedTotal :: jsstr
  outstandingTotal :: jsstr
  overpaidTotal :: jsstr

definition calculateReceivableBalance ::
  "jsstr \<Rightarrow> jsstr \<Rightarrow> jsstr \<Rightarrow> jsstr \<Rightarrow> domain_error + receivable_balance" where
  "calculateReceivableBalance original allocated credit debit =
     res_bind (decimalUnits original 4) (\<lambda>o'.
     res_bind (decimalUnits credit 4) (\<lambda>c.
     res_bind (decimalUnits debit 4) (\<lambda>d.
     let adjusted = o' - c + d in
     if adjusted < 0 then Inl NegativeAdjusted else
     res_bind (decimalUnits allocated 4) (\<lambda>a.
     let remaining = adjusted - a in
     Inr \<lparr>adjustedTotal = formatUnits adjusted 4,
          outstandingTotal = formatUnits (if remaining > 0 then remaining else 0) 4,
          overpaidTotal = formatUnits (if remaining < 0 then - remaining else 0) 4\<rparr>))))"

section \<open>Financial documents\<close>

datatype FinancialVatTreatment = Standard20 | Reduced9 | Zero | Exempt | Ica

fun treatment_str :: "FinancialVatTreatment \<Rightarrow> jsstr" where
  "treatment_str Standard20 = js ''standard_20''"
| "treatment_str Reduced9 = js ''reduced_9''"
| "treatment_str Zero = js ''zero''"
| "treatment_str Exempt = js ''exempt''"
| "treatment_str Ica = js ''ica''"

record FinancialCalculationLine =
  discountPercent :: jsstr
  quantity :: jsstr
  unitPrice :: jsstr
  vatRate :: "jsstr option"
  vatTreatment :: FinancialVatTreatment

record CalculatedFinancialLine =
  cl_discountPercent :: jsstr
  cl_grossTotal :: jsstr
  cl_netTotal :: jsstr
  cl_quantity :: jsstr
  cl_unitPrice :: jsstr
  cl_vatAmount :: jsstr
  cl_vatRate :: jsstr
  cl_vatTreatment :: FinancialVatTreatment

record vat_summary =
  vs_netTotal :: jsstr
  vs_vatAmount :: jsstr
  vs_vatRate :: jsstr
  vs_vatTreatment :: FinancialVatTreatment

record CalculatedFinancialDocument =
  eurGrossTotal :: jsstr
  eurNetTotal :: jsstr
  eurVatTotal :: jsstr
  grossTotal :: jsstr
  doc_lines :: "CalculatedFinancialLine list"
  netTotal :: jsstr
  vatSummary :: "vat_summary list"
  vatTotal :: jsstr

definition requiredVatRate :: "FinancialCalculationLine \<Rightarrow> domain_error + jsstr" where
  "requiredVatRate line =
     (case vatTreatment line of
        Standard20 \<Rightarrow> Inr (js ''20.0000'')
      | Reduced9 \<Rightarrow> Inr (js ''9.0000'')
      | Zero \<Rightarrow> Inr (js ''0.0000'')
      | Exempt \<Rightarrow> Inr (js ''0.0000'')
      | Ica \<Rightarrow>
         (case vatRate line of
            None \<Rightarrow> Inl VatRateRequired
          | Some r \<Rightarrow>
              if r = [] then Inl VatRateRequired
              else res_bind (decimalUnits r 4) (\<lambda>u. Inr (formatUnits u 4))))"

definition calculateFinancialLine ::
  "FinancialCalculationLine \<Rightarrow> domain_error + CalculatedFinancialLine" where
  "calculateFinancialLine line =
     res_bind (decimalUnits (quantity line) 4) (\<lambda>q.
     res_bind (decimalUnits (unitPrice line) 4) (\<lambda>p.
     res_bind (decimalUnits (discountPercent line) 4) (\<lambda>d.
     if q \<le> 0 then Inl QuantityNotPositive
     else if p < 0 then Inl UnitPriceNegative
     else if d < 0 \<or> d > oneHundredPercent then Inl DiscountOutOfRange else
     res_bind (requiredVatRate line) (\<lambda>rate.
     res_bind (decimalUnits rate 4) (\<lambda>rateUnits.
     if rateUnits < 0 \<or> rateUnits > oneHundredPercent then Inl VatRateOutOfRange else
     let beforeDiscount = divideHalfUp (q * p) moneyScale;
         net = divideHalfUp (beforeDiscount * (oneHundredPercent - d)) oneHundredPercent;
         vat = divideHalfUp (net * rateUnits) oneHundredPercent
     in Inr \<lparr>cl_discountPercent = formatUnits d 4,
             cl_grossTotal = formatUnits (net + vat) 4,
             cl_netTotal = formatUnits net 4,
             cl_quantity = formatUnits q 4,
             cl_unitPrice = formatUnits p 4,
             cl_vatAmount = formatUnits vat 4,
             cl_vatRate = rate,
             cl_vatTreatment = vatTreatment line\<rparr>)))))"

text \<open>An entry of the \<open>summaries\<close> map: net, rate, treatment and VAT of one key.\<close>

record summary_entry =
  se_net :: int
  se_rate :: jsstr
  se_treatment :: FinancialVatTreatment
  se_vat :: int

definition summary_key :: "CalculatedFinancialLine \<Rightarrow> jsstr" where
  "summary_key line = treatment_str (cl_vatTreatment line) @ js '':'' @ cl_vatRate line"

text \<open>The body of the loop over the calculated lines; the map keeps its insertion order.\<close>

definition add_to_summaries ::
  "CalculatedFinancialLine \<Rightarrow> (jsstr \<times> summary_entry) list \<Rightarrow>
     domain_error + (jsstr \<times> summary_entry) list" where
  "add_to_summaries line summaries =
     (let key = summary_key line;
          current = (case map_of summaries key of
             Some e \<Rightarrow> e
           | None \<Rightarrow> \<lparr>se_net = 0, se_rate = cl_vatRate line,
                      se_treatment = cl_vatTreatment line, se_vat = 0\<rparr>)
      in res_bind (decimalUnits (cl_netTotal line) 4) (\<lambda>n.
         res_bind (decimalUnits (cl_vatAmount line) 4) (\<lambda>v.
         Inr (AList.update key
                (current\<lparr>se_net := se_net current + n, se_vat := se_vat current + v\<rparr>) summaries))))"

fun summarize ::
  "CalculatedFinancialLine list \<Rightarrow> (jsstr \<times> summary_entry) list \<Rightarrow>
     domain_error + (jsstr \<times> summary_entry) list" where
  "summarize [] summaries = Inr summaries"
| "summarize (line # rest) summaries = res_bind (add_to_summaries line summaries) (summarize rest)"

definition format_summary :: "summary_entry \<Rightarrow> vat_summary" where
  "format_summary e = \<lparr>vs_netTotal = formatUnits (se_net e) 4,
     vs_vatAmount = formatUnits (se_vat e) 4, vs_vatRate = se_rate e,
     vs_vatTreatment = se_treatment e\<rparr>"

definition calculateFinancialDocument ::
  "FinancialCalculationLine list \<Rightarrow> jsstr \<Rightarrow> domain_error + CalculatedFinancialDocument" where
  "calculateFinancialDocument lines exchangeRate =
     (if lines = [] then Inl NoLines else
      res_bind (decimalUnits exchangeRate 8) (\<lambda>rate.
      if rate \<le> 0 then Inl RateNotPositive else
      res_bind (res_map calculateFinancialLine lines) (\<lambda>calculatedLines.
      res_bind (res_map (\<lambda>l. decimalUnits (cl_netTotal l) 4) calculatedLines) (\<lambda>nets.
      res_bind (res_map (\<lambda>l. decimalUnits (cl_vatAmount l) 4) calculatedLines) (\<lambda>vats.
      let net = sum_list nets; vat = sum_list vats; gross = net + vat in
      res_bind (summarize calculatedLines []) (\<lambda>summaries.
      Inr \<lparr>eurGrossTotal = formatUnits (divideHalfUp (gross * rate) rateScale) 4,
           eurNetTotal = formatUnits (divideHalfUp (net * rate) rateScale) 4,
           eurVatTotal = formatUnits (divideHalfUp (vat * rate) rateScale) 4,
           grossTotal = formatUnits gross 4,
           doc_lines = calculatedLines,
           netTotal = formatUnits net 4,
           vatSummary = map (format_summary \<circ> snd) summaries,
           vatTotal = formatUnits vat 4\<rparr>))))))"

section \<open>Business identifiers\<close>

fun weighted_sum :: "jsstr \<Rightarrow> nat list \<Rightarrow> nat" where
  "weighted_sum [] ws = 0"
| "weighted_sum (d # ds) [] = weighted_sum ds []"
| "weighted_sum (d # ds) (w # ws) = (d - 48) * w + weighted_sum ds ws"

definition weightedCheckDigit :: "jsstr \<Rightarrow> nat list \<Rightarrow> nat" where
  "weightedCheckDigit value weights = weighted_sum value weights mod 11"

definition checkBulgarianUicChecksum :: "jsstr \<Rightarrow> bool" where
  "checkBulgarianUicChecksum value =
     (let digits = slice value 0 8;
          check = value ! 8 - 48;
          primary = weightedCheckDigit digits [1, 2, 3, 4, 5, 6, 7, 8];
          expected = (if primary = 10 then weightedCheckDigit digits [3, 4, 5, 6, 7, 8, 9, 10]
                      else primary)
      in check = expected mod 10)"

definition isValidBulgarianUic :: "jsstr \<Rightarrow> bool" where
  "isValidBulgarianUic value =
     (let digits = trim value in
      if \<not> (rx [(is_digit, 9, 9)] digits \<or> rx [(is_digit, 9, 9), (is_digit, 4, 4)] digits) then False
      else
        let baseIsValid = checkBulgarianUicChecksum (slice digits 0 9) in
        if \<not> baseIsValid \<or> length digits = 9 then baseIsValid
        else
          let branchDigits = slice digits 9 13;
              primary = weightedCheckDigit branchDigits [2, 7, 3, 5];
              check = (if primary = 10 then weightedCheckDigit branchDigits [4, 9, 5, 7] else primary)
          in branchDigits ! 3 - 48 = check mod 10)"

text \<open>The table of country prefixes and the shapes of the rest of the number.\<close>

definition dg :: "nat \<Rightarrow> (nat \<Rightarrow> bool) \<times> nat \<times> nat" where
  "dg n = (is_digit, n, n)"

definition euVatSuffixPatterns ::
  "(string \<times> ((nat \<Rightarrow> bool) \<times> nat \<times> nat) list list) list" where
  "euVatSuffixPatterns =
    [(''AT'', [[lit 85, dg 8]]),
     (''BE'', [[((\<lambda>c. c = 48 \<or> c = 49), 1, 1), dg 9]]),
     (''BG'', [[(is_digit, 9, 10)]]),
     (''CY'', [[dg 8, (is_upper, 1, 1)]]),
     (''CZ'', [[(is_digit, 8, 10)]]),
     (''DE'', [[dg 9]]), (''DK'', [[dg 8]]), (''EE'', [[dg 9]]), (''EL'', [[dg 9]]),
     (''ES'', [[(is_upnum, 1, 1), dg 7, (is_upnum, 1, 1)]]),
     (''FI'', [[dg 8]]),
     (''FR'', [[(is_upnum, 2, 2), dg 9]]),
     (''HR'', [[dg 11]]), (''HU'', [[dg 8]]),
     (''IE'', [[dg 7, (is_upper, 1, 2)], [dg 1, (is_upper, 1, 1), dg 5, (is_upper, 1, 1)]]),
     (''IT'', [[dg 11]]),
     (''LT'', [[dg 9], [dg 12]]),
     (''LU'', [[dg 8]]), (''LV'', [[dg 11]]), (''MT'', [[dg 8]]),
     (''NL'', [[dg 9, lit 66, dg 2]]),
     (''PL'', [[dg 10]]), (''PT'', [[dg 9]]), (''RO'', [[(is_digit, 2, 10)]]),
     (''SE'', [[dg 12]]), (''SI'', [[dg 8]]), (''SK'', [[dg 10]]),
     (''XI'', [[dg 9], [dg 12], [lit 71, lit 68, dg 3], [lit 72, lit 65, dg 3]])]"

definition isValidEuVatNumber :: "(nat \<Rightarrow> jsstr) \<Rightarrow> jsstr \<Rightarrow> bool" where
  "isValidEuVatNumber tbl value =
     (let normalized = toUpperCase tbl (filter (\<lambda>c. \<not> is_space c) value);
          countryCode = slice normalized 0 2
      in case map_of (map (\<lambda>(k, v). (js k, v)) euVatSuffixPatterns) countryCode of
           Some shapes \<Rightarrow> list_ex (\<lambda>r. rx r (slice_from normalized 2)) shapes
         | None \<Rightarrow> False)"

datatype BusinessIdentifierIssue = InvalidBulgarianUic | InvalidEuVatNumber

definition businessIdentifierIssues ::
  "(nat \<Rightarrow> jsstr) \<Rightarrow> jsstr option \<Rightarrow> jsstr option \<Rightarrow> BusinessIdentifierIssue list" where
  "businessIdentifierIssues tbl uic vatNumber =
     (case uic of None \<Rightarrow> []
      | Some u \<Rightarrow> if trim u \<noteq> [] \<and> \<not> isValidBulgarianUic u then [InvalidBulgarianUic] else []) @
     (case vatNumber of None \<Rightarrow> []
      | Some v \<Rightarrow> if trim v \<noteq> [] \<and> \<not> isValidEuVatNumber tbl v then [InvalidEuVatNumber] else [])"

section \<open>Telephone numbers\<close>

definition tel_rest :: "nat \<Rightarrow> bool" where
  "tel_rest c \<longleftrightarrow> is_digit c \<or> c = 40 \<or> c = 41 \<or> c = 46 \<or> is_space c \<or> c = 45"

text \<open>\<open>^\+?(?:\([0-9]+\)|[0-9])[0-9().\s-]*$\<close>\<close>

definition tel_shape :: "jsstr \<Rightarrow> bool" where
  "tel_shape s =
     (let t = (case s of [] \<Rightarrow> [] | c # r \<Rightarrow> if c = 43 then r else s) in
      case t of
        [] \<Rightarrow> False
      | c # r \<Rightarrow>
          if is_digit c then list_all tel_rest r
          else c = 40 \<and> takeWhile is_digit r \<noteq> [] \<and>
            (case dropWhile is_digit r of [] \<Rightarrow> False | d # u \<Rightarrow> d = 41 \<and> list_all tel_rest u))"

text \<open>The loop over the characters; \<open>None\<close> is the early \<open>return false\<close>.\<close>

fun parenthesis_depth :: "jsstr \<Rightarrow> nat \<Rightarrow> nat option" where
  "parenthesis_depth [] depth = Some depth"
| "parenthesis_depth (c # cs) depth =
     (if c = 40 then (if depth + 1 > 1 then None else parenthesis_depth cs (depth + 1))
      else if c = 41 then (if depth \<noteq> 1 then None else parenthesis_depth cs 0)
      else parenthesis_depth cs depth)"

definition isValidTelephoneNumber :: "jsstr \<Rightarrow> bool" where
  "isValidTelephoneNumber value =
     (let telephone = trim value in
      if \<not> tel_shape telephone then False
      else
        let digitCount = length (filter is_digit telephone) in
        if digitCount < 7 \<or> digitCount > 15 then False
        else parenthesis_depth telephone 0 = Some 0)"

section \<open>Fixed-point decimals: lemmas\<close>

lemma bigint_toString_nonneg [simp]: "0 \<le> v \<Longrightarrow> bigint_toString v = nat_digits (nat v)"
  by (simp add: bigint_toString_def)

lemma digits_no_dot: "\<forall>c \<in> set s. is_digit c \<Longrightarrow> 46 \<notin> set s"
  by (auto simp: is_digit_def)

lemma slice_split_pos:
  assumes "0 < k" and "k \<le> length s"
  shows "slice s 0 (- int k) = take (length s - k) s"
    and "slice_from s (- int k) = drop (length s - k) s"
  using assms by (simp_all add: slice_def slice_from_def slice_index_def nat_diff_distrib')

lemma padStart_digits:
  assumes "\<forall>c \<in> set s. is_digit c"
  shows "\<forall>c \<in> set (padStart n 48 s). is_digit c"
  using assms by (auto simp: padStart_def is_digit_def)

lemma length_padStart [simp]: "length (padStart n c s) = max n (length s)"
  by (simp add: padStart_def)

lemma digits_val_padStart [simp]: "digits_val (padStart n 48 s) = digits_val s"
  by (simp add: padStart_def digits_val_append)

text \<open>A formatted amount is its digits, a dot, and exactly \<open>scale\<close> digits.\<close>

lemma formatUnits_shape:
  assumes "0 \<le> v" and "0 < scale"
  obtains w f where "formatUnits v scale = w @ 46 # f" and "w \<noteq> []" and "length f = scale"
    and "\<forall>c \<in> set w. is_digit c" and "\<forall>c \<in> set f. is_digit c" and "digits_val (w @ f) = nat v"
proof -
  let ?r = "padStart (scale + 1) 48 (nat_digits (nat v))"
  let ?w = "take (length ?r - scale) ?r" and ?f = "drop (length ?r - scale) ?r"
  have dig: "\<forall>c \<in> set ?r. is_digit c"
    by (rule padStart_digits) (blast intro: nat_digits_are_digits)
  have fmt: "formatUnits v scale = ?w @ 46 # ?f"
    using assms by (simp add: formatUnits_def Let_def slice_split_pos)
  have "length ?w = max (scale + 1) (length (nat_digits (nat v))) - scale" by simp
  then have "length ?w \<noteq> 0" by linarith
  then have w: "?w \<noteq> []" by (simp only: length_0_conv not_False_eq_True)
  have dw: "\<forall>c \<in> set ?w. is_digit c" and df: "\<forall>c \<in> set ?f. is_digit c"
    using dig by (meson in_set_takeD, meson in_set_dropD)
  show ?thesis by (rule that [OF fmt w _ dw df]) simp_all
qed

lemma decimalUnits_formatUnits [simp]:
  assumes "0 \<le> v" and "0 < scale"
  shows "decimalUnits (formatUnits v scale) scale = Inr v"
proof -
  obtain w f where s: "formatUnits v scale = w @ 46 # f" and "w \<noteq> []" and l: "length f = scale"
    and w: "\<forall>c \<in> set w. is_digit c" and f: "\<forall>c \<in> set f. is_digit c" and v: "digits_val (w @ f) = nat v"
    using assms by (rule formatUnits_shape)
  have "split_on 46 (formatUnits v scale) = [w, f]"
    using digits_no_dot [OF w] digits_no_dot [OF f] by (simp add: s split_on_append split_on_id)
  moreover have "f \<noteq> []" using l assms by auto
  ultimately show ?thesis
    using \<open>w \<noteq> []\<close> w f l v assms by (simp add: decimalUnits_def list_all_iff padEnd_def)
qed

lemma decimalUnits_nonneg: "decimalUnits s n = Inr v \<Longrightarrow> 0 \<le> v"
  by (auto simp: decimalUnits_def split: option.splits prod.splits if_splits)

text \<open>Formatting what was parsed gives back the canonical spelling: parsing it again agrees.\<close>

lemma formatUnits_decimalUnits:
  assumes "decimalUnits s n = Inr v" and "0 < n"
  shows "decimalUnits (formatUnits v n) n = decimalUnits s n"
  using assms decimalUnits_nonneg [OF assms(1)] by simp

lemma divideHalfUp_bounds:
  assumes "0 \<le> n" and "0 < d"
  shows "divideHalfUp n d * d \<le> n + d div 2" and "n + d div 2 < (divideHalfUp n d + 1) * d"
    and "0 \<le> divideHalfUp n d"
proof -
  have "d sdiv 2 = d div 2" using assms by (simp add: sdiv_nonneg)
  moreover have "0 \<le> n + d div 2" using assms by simp
  ultimately have q: "divideHalfUp n d = (n + d div 2) div d"
    using assms by (simp add: divideHalfUp_def sdiv_nonneg)
  have e: "(n + d div 2) div d * d + (n + d div 2) mod d = n + d div 2" by simp
  have "0 \<le> (n + d div 2) mod d" and "(n + d div 2) mod d < d" using assms by simp_all
  with e show "divideHalfUp n d * d \<le> n + d div 2" "n + d div 2 < (divideHalfUp n d + 1) * d"
    unfolding q distrib_right by linarith+
  show "0 \<le> divideHalfUp n d" using assms by (simp add: q pos_imp_zdiv_nonneg_iff)
qed

lemma divideHalfUp_mono:
  assumes "0 \<le> m" and "m \<le> n" and "0 < d"
  shows "divideHalfUp m d \<le> divideHalfUp n d"
  using assms by (simp add: divideHalfUp_def sdiv_nonneg zdiv_mono1)

lemma calculateFinancialLine_Inr:
  assumes "calculateFinancialLine l = Inr c"
  obtains q p d r before net vat where
    "decimalUnits (quantity l) 4 = Inr q" "decimalUnits (unitPrice l) 4 = Inr p"
    "decimalUnits (discountPercent l) 4 = Inr d" "decimalUnits (cl_vatRate c) 4 = Inr r"
    "0 < q" "0 \<le> p" "0 \<le> d" "d \<le> oneHundredPercent" "0 \<le> r" "r \<le> oneHundredPercent"
    "before = divideHalfUp (q * p) moneyScale"
    "net = divideHalfUp (before * (oneHundredPercent - d)) oneHundredPercent"
    "vat = divideHalfUp (net * r) oneHundredPercent"
    "0 \<le> before" "0 \<le> net" "0 \<le> vat"
    "cl_netTotal c = formatUnits net 4" "cl_vatAmount c = formatUnits vat 4"
    "cl_grossTotal c = formatUnits (net + vat) 4" "cl_vatTreatment c = vatTreatment l"
    "requiredVatRate l = Inr (cl_vatRate c)"
proof -
  from assms obtain q p d rate r where
    dec: "decimalUnits (quantity l) 4 = Inr q" "decimalUnits (unitPrice l) 4 = Inr p"
      "decimalUnits (discountPercent l) 4 = Inr d" and rr: "requiredVatRate l = Inr rate"
    and r: "decimalUnits rate 4 = Inr r"
    and rng: "0 < q" "0 \<le> p" "0 \<le> d" "d \<le> oneHundredPercent" "0 \<le> r" "r \<le> oneHundredPercent"
    and c: "c = (let beforeDiscount = divideHalfUp (q * p) moneyScale;
         net = divideHalfUp (beforeDiscount * (oneHundredPercent - d)) oneHundredPercent;
         vat = divideHalfUp (net * r) oneHundredPercent
     in \<lparr>cl_discountPercent = formatUnits d 4,
             cl_grossTotal = formatUnits (net + vat) 4,
             cl_netTotal = formatUnits net 4,
             cl_quantity = formatUnits q 4,
             cl_unitPrice = formatUnits p 4,
             cl_vatAmount = formatUnits vat 4,
             cl_vatRate = rate,
             cl_vatTreatment = vatTreatment l\<rparr>)"
    by (auto simp: calculateFinancialLine_def Let_def split: if_splits)
  define before where "before = divideHalfUp (q * p) moneyScale"
  define net where "net = divideHalfUp (before * (oneHundredPercent - d)) oneHundredPercent"
  define vat where "vat = divideHalfUp (net * r) oneHundredPercent"
  have b: "0 \<le> before" using rng by (simp add: before_def moneyScale_def divideHalfUp_bounds)
  have n: "0 \<le> net" using rng b by (simp add: net_def scale_defs divideHalfUp_bounds)
  have v: "0 \<le> vat" using rng n by (simp add: vat_def scale_defs divideHalfUp_bounds)
  show ?thesis
    by (rule that [OF dec, of r before net vat])
      (use dec rr r rng c b n v in \<open>simp_all add: before_def net_def vat_def Let_def\<close>)
qed

text \<open>The units an amount of the document stands for (\<open>-1\<close> if it is not a decimal).\<close>

definition units :: "jsstr \<Rightarrow> int" where
  "units s = (case decimalUnits s 4 of Inr u \<Rightarrow> u | Inl _ \<Rightarrow> -1)"

lemma units_formatUnits [simp]: "0 \<le> v \<Longrightarrow> units (formatUnits v 4) = v"
  by (simp add: units_def)

lemma decimalUnits_eq_units: "decimalUnits s 4 = Inr u \<longleftrightarrow> units s = u \<and> 0 \<le> u"
  by (auto simp: units_def dest: decimalUnits_nonneg split: sum.splits)

lemma res_map_units:
  "res_map (\<lambda>l. decimalUnits (f l) 4) ls = Inr us \<Longrightarrow>
     us = map (\<lambda>l. units (f l)) ls \<and> (\<forall>l \<in> set ls. 0 \<le> units (f l))"
  by (induction ls arbitrary: us) (auto simp: decimalUnits_eq_units)

lemma treatment_str_no_colon: "58 \<notin> set (treatment_str t)"
  by (cases t) simp_all

lemma treatment_str_inj: "treatment_str t = treatment_str u \<Longrightarrow> t = u"
  by (cases t; cases u) simp_all

lemma key_inj:
  assumes "treatment_str t @ 58 # r = treatment_str u @ 58 # q"
  shows "t = u \<and> r = q"
  using sep_inj [OF treatment_str_no_colon treatment_str_no_colon assms] treatment_str_inj by blast

lemma summary_key_eq:
  "summary_key l = summary_key m \<longleftrightarrow>
     cl_vatTreatment l = cl_vatTreatment m \<and> cl_vatRate l = cl_vatRate m"
  by (auto simp: summary_key_def dest: key_inj)

definition entry_key :: "summary_entry \<Rightarrow> jsstr" where
  "entry_key e = treatment_str (se_treatment e) @ js '':'' @ se_rate e"

definition summaries_ok :: "(jsstr \<times> summary_entry) list \<Rightarrow> bool" where
  "summaries_ok al \<longleftrightarrow> distinct (map fst al) \<and> 
     (\<forall>k e. map_of al k = Some e \<longrightarrow> k = entry_key e \<and> 0 \<le> se_net e \<and> 0 \<le> se_vat e)"

text \<open>What one key of the map has gathered after the lines \<open>ls\<close>.\<close>

definition gathered :: "CalculatedFinancialLine list \<Rightarrow> jsstr \<Rightarrow> (jsstr \<times> summary_entry) list \<Rightarrow> int \<times> int" where
  "gathered ls k al =
     (let g = filter (\<lambda>l. summary_key l = k) ls;
          base = (case map_of al k of Some e \<Rightarrow> (se_net e, se_vat e) | None \<Rightarrow> (0, 0))
      in (fst base + (\<Sum>l\<leftarrow>g. units (cl_netTotal l)), snd base + (\<Sum>l\<leftarrow>g. units (cl_vatAmount l))))"

lemma add_to_summaries_ok:
  assumes "add_to_summaries l al = Inr al'" and "summaries_ok al"
  shows "summaries_ok al'" and "fst ` set al' = insert (summary_key l) (fst ` set al)"
    and "gathered ls k al' = gathered (l # ls) k al"
proof -
  let ?k = "summary_key l"
  define cur where "cur = (case map_of al ?k of Some e \<Rightarrow> e
     | None \<Rightarrow> \<lparr>se_net = 0, se_rate = cl_vatRate l, se_treatment = cl_vatTreatment l, se_vat = 0\<rparr>)"
  define e' where "e' = cur\<lparr>se_net := se_net cur + units (cl_netTotal l), se_vat := se_vat cur + units (cl_vatAmount l)\<rparr>"
  have al': "al' = AList.update ?k e' al" and u: "0 \<le> units (cl_netTotal l)" "0 \<le> units (cl_vatAmount l)"
    using assms(1) by (auto simp: add_to_summaries_def Let_def decimalUnits_eq_units e'_def cur_def)
  have cur: "entry_key cur = ?k \<and> 0 \<le> se_net cur \<and> 0 \<le> se_vat cur"
    using assms(2)
    by (auto simp: cur_def summaries_ok_def entry_key_def summary_key_def split: option.splits)
  show "summaries_ok al'"
    using assms(2) cur u
    by (auto simp: summaries_ok_def al' distinct_update update_conv e'_def entry_key_def split: if_splits)
  show "fst ` set al' = insert ?k (fst ` set al)"
    unfolding al' by (simp add: dom_update) 
  show "gathered ls k al' = gathered (l # ls) k al"
    by (auto simp: gathered_def Let_def al' update_conv e'_def cur_def split: option.splits)
qed


lemma summarize_ok:
  assumes "summarize ls al = Inr out" and "summaries_ok al"
  shows "summaries_ok out \<and> fst ` set out = summary_key ` set ls \<union> fst ` set al \<and>
    (\<forall>k. gathered [] k out = gathered ls k al)"
  using assms
proof (induction ls arbitrary: al)
  case Nil
  then show ?case by simp
next
  case (Cons l ls)
  then obtain al' where al': "add_to_summaries l al = Inr al'" and out: "summarize ls al' = Inr out"
    by auto
  from Cons.IH [OF out] add_to_summaries_ok [OF al' Cons.prems(2)]
  show ?case by auto
qed

lemma summarize_entry:
  assumes "summarize ls [] = Inr out" and "(k, e) \<in> set out"
  shows "k = entry_key e" and "0 \<le> se_net e" and "0 \<le> se_vat e"
    and "se_net e = (\<Sum>l\<leftarrow>filter (\<lambda>l. summary_key l = k) ls. units (cl_netTotal l))"
    and "se_vat e = (\<Sum>l\<leftarrow>filter (\<lambda>l. summary_key l = k) ls. units (cl_vatAmount l))"
proof -
  have "summaries_ok out" and g: "gathered [] k out = gathered ls k []"
    using summarize_ok [OF assms(1)] by (simp_all add: summaries_ok_def)
  moreover from this assms(2) have m: "map_of out k = Some e"
    by (simp add: summaries_ok_def)
  ultimately show "k = entry_key e" "0 \<le> se_net e" "0 \<le> se_vat e"
    by (auto simp: summaries_ok_def)
  from g m show "se_net e = (\<Sum>l\<leftarrow>filter (\<lambda>l. summary_key l = k) ls. units (cl_netTotal l))"
    and "se_vat e = (\<Sum>l\<leftarrow>filter (\<lambda>l. summary_key l = k) ls. units (cl_vatAmount l))"
    by (simp_all add: gathered_def Let_def)
qed

lemma calculateFinancialDocument_Inr:
  assumes "calculateFinancialDocument lines rate = Inr doc"
  obtains r summaries net vat where
    "decimalUnits rate 8 = Inr r" "0 < r" "lines \<noteq> []"
    "res_map calculateFinancialLine lines = Inr (doc_lines doc)"
    "summarize (doc_lines doc) [] = Inr summaries"
    "vatSummary doc = map (format_summary \<circ> snd) summaries"
    "net = (\<Sum>l\<leftarrow>doc_lines doc. units (cl_netTotal l))" "0 \<le> net" "netTotal doc = formatUnits net 4"
    "vat = (\<Sum>l\<leftarrow>doc_lines doc. units (cl_vatAmount l))" "0 \<le> vat" "vatTotal doc = formatUnits vat 4"
    "grossTotal doc = formatUnits (net + vat) 4"
    "eurNetTotal doc = formatUnits (divideHalfUp (net * r) rateScale) 4"
    "eurVatTotal doc = formatUnits (divideHalfUp (vat * r) rateScale) 4"
    "eurGrossTotal doc = formatUnits (divideHalfUp ((net + vat) * r) rateScale) 4"
proof -
  from assms obtain r cls nets vats summaries where *:
    "decimalUnits rate 8 = Inr r" "0 < r" "lines \<noteq> []" "res_map calculateFinancialLine lines = Inr cls"
    "res_map (\<lambda>l. decimalUnits (cl_netTotal l) 4) cls = Inr nets"
    "res_map (\<lambda>l. decimalUnits (cl_vatAmount l) 4) cls = Inr vats"
    "summarize cls [] = Inr summaries"
    and doc: "doc = (let net = sum_list nets; vat = sum_list vats; gross = net + vat in
      \<lparr>eurGrossTotal = formatUnits (divideHalfUp (gross * r) rateScale) 4,
           eurNetTotal = formatUnits (divideHalfUp (net * r) rateScale) 4,
           eurVatTotal = formatUnits (divideHalfUp (vat * r) rateScale) 4,
           grossTotal = formatUnits gross 4,
           doc_lines = cls,
           netTotal = formatUnits net 4,
           vatSummary = map (format_summary \<circ> snd) summaries,
           vatTotal = formatUnits vat 4\<rparr>)"
    by (auto simp: calculateFinancialDocument_def Let_def split: if_splits)
  have n: "nets = map (\<lambda>l. units (cl_netTotal l)) cls" "0 \<le> sum_list nets"
    and v: "vats = map (\<lambda>l. units (cl_vatAmount l)) cls" "0 \<le> sum_list vats"
    using res_map_units [OF *(5)] res_map_units [OF *(6)] by (auto intro!: sum_list_nonneg)
  show ?thesis
    by (rule that [of r summaries "sum_list nets" "sum_list vats"])
      (use * doc n v in \<open>simp_all add: Let_def\<close>)
qed

lemma document_totals_parts:
  assumes "calculateFinancialDocument lines rate = Inr doc"
  shows "units (netTotal doc) = (\<Sum>l\<leftarrow>doc_lines doc. units (cl_netTotal l))"
    and "units (vatTotal doc) = (\<Sum>l\<leftarrow>doc_lines doc. units (cl_vatAmount l))"
    and "units (grossTotal doc) = units (netTotal doc) + units (vatTotal doc)"
    and "\<forall>s \<in> set (vatSummary doc).
      units (vs_netTotal s) = (\<Sum>l\<leftarrow>filter (\<lambda>l. cl_vatTreatment l = vs_vatTreatment s \<and>
         cl_vatRate l = vs_vatRate s) (doc_lines doc). units (cl_netTotal l)) \<and>
      units (vs_vatAmount s) = (\<Sum>l\<leftarrow>filter (\<lambda>l. cl_vatTreatment l = vs_vatTreatment s \<and>
         cl_vatRate l = vs_vatRate s) (doc_lines doc). units (cl_vatAmount l))"
    and "distinct (map (\<lambda>s. (vs_vatTreatment s, vs_vatRate s)) (vatSummary doc))"
    and "\<forall>l \<in> set (doc_lines doc). \<exists>s \<in> set (vatSummary doc).
      vs_vatTreatment s = cl_vatTreatment l \<and> vs_vatRate s = cl_vatRate l"
proof -
  from assms obtain r summaries net vat where
    sm: "summarize (doc_lines doc) [] = Inr summaries"
    and vs: "vatSummary doc = map (format_summary \<circ> snd) summaries"
    and tot: "net = (\<Sum>l\<leftarrow>doc_lines doc. units (cl_netTotal l))" "0 \<le> net" "netTotal doc = formatUnits net 4"
    "vat = (\<Sum>l\<leftarrow>doc_lines doc. units (cl_vatAmount l))" "0 \<le> vat" "vatTotal doc = formatUnits vat 4"
    "grossTotal doc = formatUnits (net + vat) 4"
    by (rule calculateFinancialDocument_Inr)
  show "units (netTotal doc) = (\<Sum>l\<leftarrow>doc_lines doc. units (cl_netTotal l))"
    and "units (vatTotal doc) = (\<Sum>l\<leftarrow>doc_lines doc. units (cl_vatAmount l))"
    and "units (grossTotal doc) = units (netTotal doc) + units (vatTotal doc)"
    using tot by simp_all
  have key: "summary_key l = entry_key e \<longleftrightarrow> cl_vatTreatment l = se_treatment e \<and> cl_vatRate l = se_rate e" for l e
    by (auto simp: summary_key_def entry_key_def dest: key_inj)
  show "\<forall>s \<in> set (vatSummary doc).
      units (vs_netTotal s) = (\<Sum>l\<leftarrow>filter (\<lambda>l. cl_vatTreatment l = vs_vatTreatment s \<and>
         cl_vatRate l = vs_vatRate s) (doc_lines doc). units (cl_netTotal l)) \<and>
      units (vs_vatAmount s) = (\<Sum>l\<leftarrow>filter (\<lambda>l. cl_vatTreatment l = vs_vatTreatment s \<and>
         cl_vatRate l = vs_vatRate s) (doc_lines doc). units (cl_vatAmount l))"
    using summarize_entry [OF sm] by (fastforce simp: vs format_summary_def key)
  have ok: "summaries_ok summaries" and dom: "fst ` set summaries = summary_key ` set (doc_lines doc)"
    using summarize_ok [OF sm] by (simp_all add: summaries_ok_def)
  have k: "map fst summaries = map (entry_key \<circ> snd) summaries"
    using summarize_entry(1) [OF sm] by auto
  have "distinct (map (entry_key \<circ> snd) summaries)"
    using ok by (simp add: summaries_ok_def k [symmetric])
  then have "distinct (map (\<lambda>(t, r). treatment_str t @ js '':'' @ r) (map (\<lambda>s. (vs_vatTreatment s, vs_vatRate s)) (vatSummary doc)))"
    by (simp add: vs comp_def format_summary_def entry_key_def)
  then show "distinct (map (\<lambda>s. (vs_vatTreatment s, vs_vatRate s)) (vatSummary doc))"
    by (rule distinct_map [THEN iffD1, THEN conjunct1])
  show "\<forall>l \<in> set (doc_lines doc). \<exists>s \<in> set (vatSummary doc).
      vs_vatTreatment s = cl_vatTreatment l \<and> vs_vatRate s = cl_vatRate l"
  proof
    fix l assume "l \<in> set (doc_lines doc)"
    then have "summary_key l \<in> fst ` set summaries" by (simp add: dom)
    then obtain e where e: "(summary_key l, e) \<in> set summaries" by auto
    with summarize_entry(1) [OF sm e] have "cl_vatTreatment l = se_treatment e \<and> cl_vatRate l = se_rate e"
      by (simp add: key [symmetric])
    with e show "\<exists>s \<in> set (vatSummary doc). vs_vatTreatment s = cl_vatTreatment l \<and> vs_vatRate s = cl_vatRate l"
      by (force simp: vs format_summary_def)
  qed
qed


section \<open>Properties\<close>

text \<open>
  C16: The totals of a calculated financial document are exact: its net and VAT totals are the
  sums over its lines, its gross total is their sum, every entry of the VAT summary holds
  exactly the net and VAT of the lines with its treatment and rate, no treatment and rate
  has two entries, and every line has one.
\<close>

theorem document_totals_exact:
  assumes "calculateFinancialDocument lines rate = Inr doc"
  shows "units (netTotal doc) = (\<Sum>l\<leftarrow>doc_lines doc. units (cl_netTotal l)) \<and>
    units (vatTotal doc) = (\<Sum>l\<leftarrow>doc_lines doc. units (cl_vatAmount l)) \<and>
    units (grossTotal doc) = units (netTotal doc) + units (vatTotal doc) \<and>
    (\<forall>s \<in> set (vatSummary doc).
      units (vs_netTotal s) = (\<Sum>l\<leftarrow>filter (\<lambda>l. cl_vatTreatment l = vs_vatTreatment s \<and>
         cl_vatRate l = vs_vatRate s) (doc_lines doc). units (cl_netTotal l)) \<and>
      units (vs_vatAmount s) = (\<Sum>l\<leftarrow>filter (\<lambda>l. cl_vatTreatment l = vs_vatTreatment s \<and>
         cl_vatRate l = vs_vatRate s) (doc_lines doc). units (cl_vatAmount l))) \<and>
    distinct (map (\<lambda>s. (vs_vatTreatment s, vs_vatRate s)) (vatSummary doc)) \<and>
    (\<forall>l \<in> set (doc_lines doc). \<exists>s \<in> set (vatSummary doc).
      vs_vatTreatment s = cl_vatTreatment l \<and> vs_vatRate s = cl_vatRate l)"
  by (intro conjI document_totals_parts [OF assms])

text \<open>A document of two lines, used by the witnesses.\<close>

definition sample_line1 :: FinancialCalculationLine where
  "sample_line1 = \<lparr>discountPercent = js ''10'', quantity = js ''3'', unitPrice = js ''2'',
     vatRate = None, vatTreatment = Standard20\<rparr>"

definition sample_line2 :: FinancialCalculationLine where
  "sample_line2 = \<lparr>discountPercent = js ''0'', quantity = js ''1.5'', unitPrice = js ''0.3333'',
     vatRate = Some (js ''7.5''), vatTreatment = Ica\<rparr>"

definition sample_lines :: "FinancialCalculationLine list" where
  "sample_lines = [sample_line1, sample_line2]"

definition sample_doc :: CalculatedFinancialDocument where
  "sample_doc = \<lparr>eurGrossTotal = js ''13.7250'', eurNetTotal = js ''11.5394'',
     eurVatTotal = js ''2.1856'', grossTotal = js ''7.0175'',
     doc_lines =
       [\<lparr>cl_discountPercent = js ''10.0000'', cl_grossTotal = js ''6.4800'', cl_netTotal = js ''5.4000'',
         cl_quantity = js ''3.0000'', cl_unitPrice = js ''2.0000'', cl_vatAmount = js ''1.0800'',
         cl_vatRate = js ''20.0000'', cl_vatTreatment = Standard20\<rparr>,
        \<lparr>cl_discountPercent = js ''0.0000'', cl_grossTotal = js ''0.5375'', cl_netTotal = js ''0.5000'',
         cl_quantity = js ''1.5000'', cl_unitPrice = js ''0.3333'', cl_vatAmount = js ''0.0375'',
         cl_vatRate = js ''7.5000'', cl_vatTreatment = Ica\<rparr>],
     netTotal = js ''5.9000'',
     vatSummary =
       [\<lparr>vs_netTotal = js ''5.4000'', vs_vatAmount = js ''1.0800'', vs_vatRate = js ''20.0000'',
         vs_vatTreatment = Standard20\<rparr>,
        \<lparr>vs_netTotal = js ''0.5000'', vs_vatAmount = js ''0.0375'', vs_vatRate = js ''7.5000'',
         vs_vatTreatment = Ica\<rparr>],
     vatTotal = js ''1.1175''\<rparr>"

lemma sample_document: "calculateFinancialDocument sample_lines (js ''1.95583'') = Inr sample_doc"
  by code_simp

theorem document_totals_exact_witness:
  "calculateFinancialDocument sample_lines (js ''1.95583'') = Inr sample_doc \<and>
   length (vatSummary sample_doc) = 2 \<and>
   units (grossTotal sample_doc) = units (netTotal sample_doc) + units (vatTotal sample_doc)"
proof -
  have "length (vatSummary sample_doc) = 2" by (simp add: sample_doc_def)
  moreover have "units (grossTotal sample_doc) = units (netTotal sample_doc) + units (vatTotal sample_doc)"
    using document_totals_exact [OF sample_document] by (elim conjE)
  ultimately show ?thesis using sample_document by (intro conjI)
qed

text \<open>
  C38: Printing an amount and reading it back gives the same amount, at every positive scale;
  reading any decimal and printing it gives a string that stands for the same amount.
\<close>

theorem decimal_roundtrip:
  assumes "0 < scale"
  shows "(\<forall>v \<ge> 0. decimalUnits (formatUnits v scale) scale = Inr v) \<and>
    (\<forall>s v. decimalUnits s scale = Inr v \<longrightarrow> 0 \<le> v \<and> decimalUnits (formatUnits v scale) scale = Inr v)"
  using assms by (auto dest: decimalUnits_nonneg)

theorem decimal_roundtrip_witness:
  "(0::nat) < 4 \<and> decimalUnits (formatUnits 1205 4) 4 = Inr 1205 \<and> formatUnits 1205 4 = js ''0.1205''"
proof -
  have "formatUnits 1205 4 = js ''0.1205''" by code_simp
  moreover have "decimalUnits (formatUnits 1205 4) 4 = Inr 1205"
    using decimal_roundtrip [of 4] by auto
  ultimately show ?thesis by simp
qed

text \<open>
  Every calculated line rounds half up to four places at each step: the discounted net and
  the VAT are within half a unit of the exact product, the net never exceeds the amount
  before discount, and the printed gross is net plus VAT.
\<close>

theorem line_rounding:
  assumes "calculateFinancialLine l = Inr c"
  shows "\<exists>before d r. 0 \<le> d \<and> d \<le> 1000000 \<and> 0 \<le> r \<and> r \<le> 1000000 \<and>
    decimalUnits (discountPercent l) 4 = Inr d \<and> decimalUnits (cl_vatRate c) 4 = Inr r \<and>
    \<bar>before * 10000 - units (quantity l) * units (unitPrice l)\<bar> \<le> 5000 \<and>
    \<bar>units (cl_netTotal c) * 1000000 - before * (1000000 - d)\<bar> \<le> 500000 \<and>
    \<bar>units (cl_vatAmount c) * 1000000 - units (cl_netTotal c) * r\<bar> \<le> 500000 \<and>
    units (cl_netTotal c) \<le> before \<and> 0 \<le> units (cl_vatAmount c) \<and>
    units (cl_grossTotal c) = units (cl_netTotal c) + units (cl_vatAmount c)"
proof -
  from assms obtain q p d r before net vat where dec:
    "decimalUnits (quantity l) 4 = Inr q" "decimalUnits (unitPrice l) 4 = Inr p"
    "decimalUnits (discountPercent l) 4 = Inr d" "decimalUnits (cl_vatRate c) 4 = Inr r"
    and rng: "0 < q" "0 \<le> p" "0 \<le> d" "d \<le> oneHundredPercent" "0 \<le> r" "r \<le> oneHundredPercent"
    and eq: "before = divideHalfUp (q * p) moneyScale"
    "net = divideHalfUp (before * (oneHundredPercent - d)) oneHundredPercent"
    "vat = divideHalfUp (net * r) oneHundredPercent"
    and nn: "0 \<le> before" "0 \<le> net" "0 \<le> vat"
    and c: "cl_netTotal c = formatUnits net 4" "cl_vatAmount c = formatUnits vat 4"
      "cl_grossTotal c = formatUnits (net + vat) 4"
    by (rule calculateFinancialLine_Inr)
  have u: "units (quantity l) = q" "units (unitPrice l) = p"
    using dec by (simp_all add: units_def)
  have "0 \<le> before * (1000000 - d)" "0 \<le> net * r" "0 \<le> q * p"
    using nn rng by (simp_all add: scale_defs)
  note b = this [THEN divideHalfUp_bounds(1)] this [THEN divideHalfUp_bounds(2)]
  have b1: "before * 10000 \<le> q * p + 5000" "q * p + 5000 < (before + 1) * 10000"
    using b(3) [of 10000] b(6) [of 10000] by (simp_all add: eq scale_defs)
  have b2: "net * 1000000 \<le> before * (1000000 - d) + 500000"
      "before * (1000000 - d) + 500000 < (net + 1) * 1000000"
    using b(1) [of 1000000] b(4) [of 1000000] by (simp_all add: eq scale_defs)
  have b3: "vat * 1000000 \<le> net * r + 500000" "net * r + 500000 < (vat + 1) * 1000000"
    using b(2) [of 1000000] b(5) [of 1000000] by (simp_all add: eq scale_defs)
  have "before * (1000000 - d) \<le> before * 1000000" using nn rng by (intro mult_left_mono) auto
  then have le: "net \<le> before" using b2(1) by linarith
  have abs1: "\<bar>before * 10000 - q * p\<bar> \<le> 5000" using b1 by (simp add: abs_le_iff)
  have abs2: "\<bar>net * 1000000 - before * (1000000 - d)\<bar> \<le> 500000" using b2 by (simp add: abs_le_iff)
  have abs3: "\<bar>vat * 1000000 - net * r\<bar> \<le> 500000" using b3 by (simp add: abs_le_iff)
  note abs = abs1 abs2 abs3
  show ?thesis
    by (rule exI [of _ before], rule exI [of _ d], rule exI [of _ r])
      (use dec rng nn abs le in \<open>simp add: u c oneHundredPercent_def percentScale_def\<close>)
qed

theorem line_rounding_witness:
  "\<exists>c. calculateFinancialLine sample_line2 = Inr c \<and> cl_netTotal c = js ''0.5000'' \<and>
     cl_vatAmount c = js ''0.0375'' \<and>
     units (cl_grossTotal c) = units (cl_netTotal c) + units (cl_vatAmount c)"
proof -
  let ?c = "projr (calculateFinancialLine sample_line2)"
  have c: "calculateFinancialLine sample_line2 = Inr ?c" and
    v: "cl_netTotal ?c = js ''0.5000''" "cl_vatAmount ?c = js ''0.0375''" by code_simp+
  from line_rounding [OF c] have "units (cl_grossTotal ?c) = units (cl_netTotal ?c) + units (cl_vatAmount ?c)"
    by blast
  with c v show ?thesis by blast
qed

text \<open>
  The three EUR totals are converted and rounded separately; the EUR gross differs from the
  sum of EUR net and EUR VAT by at most one unit of the fourth decimal.
\<close>

theorem eur_totals_within_one_unit:
  assumes "calculateFinancialDocument lines rate = Inr doc"
  shows "\<bar>units (eurGrossTotal doc) - (units (eurNetTotal doc) + units (eurVatTotal doc))\<bar> \<le> 1"
proof -
  from assms obtain r net vat where r: "0 < r" and nn: "0 \<le> net" "0 \<le> vat"
    and d: "eurNetTotal doc = formatUnits (divideHalfUp (net * r) rateScale) 4"
      "eurVatTotal doc = formatUnits (divideHalfUp (vat * r) rateScale) 4"
      "eurGrossTotal doc = formatUnits (divideHalfUp ((net + vat) * r) rateScale) 4"
    by (rule calculateFinancialDocument_Inr)
  have pos: "0 \<le> net * r" "0 \<le> vat * r" "0 \<le> (net + vat) * r" "(0::int) < 100000000"
    using r nn by simp_all
  note b = divideHalfUp_bounds [OF pos(1,4)] divideHalfUp_bounds [OF pos(2,4)] divideHalfUp_bounds [OF pos(3,4)]
  have u: "units (eurNetTotal doc) = divideHalfUp (net * r) 100000000"
      "units (eurVatTotal doc) = divideHalfUp (vat * r) 100000000"
      "units (eurGrossTotal doc) = divideHalfUp ((net + vat) * r) 100000000"
    using b by (simp_all add: d rateScale_def)
  show ?thesis using b unfolding u by (simp add: distrib_right abs_le_iff)
qed

theorem eur_totals_within_one_unit_witness:
  "calculateFinancialDocument sample_lines (js ''1.95583'') = Inr sample_doc \<and>
   eurGrossTotal sample_doc = js ''13.7250'' \<and>
   \<bar>units (eurGrossTotal sample_doc) - (units (eurNetTotal sample_doc) + units (eurVatTotal sample_doc))\<bar> \<le> 1"
proof -
  have "eurGrossTotal sample_doc = js ''13.7250''" by (simp add: sample_doc_def)
  with eur_totals_within_one_unit [OF sample_document] sample_document show ?thesis by blast
qed

text \<open>
  A corrected receivable balance loses no money: the outstanding amount minus the overpaid
  amount is the corrected invoice minus what was allocated, and at most one of them is
  positive.
\<close>

theorem receivable_balance_conserved:
  assumes "calculateReceivableBalance original allocated credit debit = Inr b"
  shows "units (adjustedTotal b) = units original - units credit + units debit \<and>
    units (outstandingTotal b) - units (overpaidTotal b) = units (adjustedTotal b) - units allocated \<and>
    0 \<le> units (outstandingTotal b) \<and> 0 \<le> units (overpaidTotal b) \<and>
    (units (outstandingTotal b) = 0 \<or> units (overpaidTotal b) = 0)"
proof -
  from assms obtain o' c d a where u: "units original = o'" "units credit = c" "units debit = d"
      "units allocated = a" and nn: "0 \<le> o' - c + d"
    and b: "b = \<lparr>adjustedTotal = formatUnits (o' - c + d) 4,
      outstandingTotal = formatUnits (if o' - c + d - a > 0 then o' - c + d - a else 0) 4,
      overpaidTotal = formatUnits (if o' - c + d - a < 0 then - (o' - c + d - a) else 0) 4\<rparr>"
    by (auto simp: calculateReceivableBalance_def Let_def decimalUnits_eq_units split: if_splits)
  show ?thesis using nn by (auto simp: b u)
qed

theorem receivable_balance_conserved_witness:
  "\<exists>b. calculateReceivableBalance (js ''120'') (js ''108'') (js ''36'') (js ''12'') = Inr b \<and>
     overpaidTotal b = js ''12.0000'' \<and> units (outstandingTotal b) = 0"
proof -
  let ?b = "projr (calculateReceivableBalance (js ''120'') (js ''108'') (js ''36'') (js ''12''))"
  have b: "calculateReceivableBalance (js ''120'') (js ''108'') (js ''36'') (js ''12'') = Inr ?b"
    and o: "overpaidTotal ?b = js ''12.0000''" and u: "units (overpaidTotal ?b) \<noteq> 0" by code_simp+
  from receivable_balance_conserved [OF b] u have "units (outstandingTotal ?b) = 0" by blast
  with b o show ?thesis by blast
qed

lemma uic9_valid_iff:
  assumes "length ds = 8" and "\<forall>c \<in> set ds. is_digit c" and "is_digit c"
  shows "isValidBulgarianUic (ds @ [c]) \<longleftrightarrow> checkBulgarianUicChecksum (ds @ [c])"
proof -
  have sp: "trim (ds @ [c]) = ds @ [c]" using assms by (intro trim_id) (auto dest: digit_not_space)
  have "list_all is_digit (take 9 (ds @ [c]))" using assms by (simp add: list_all_iff)
  then have "rx [(is_digit, 9, 9)] (ds @ [c])" using assms by simp
  then show ?thesis using assms sp
    by (simp add: isValidBulgarianUic_def Let_def slice_def slice_index_def)
qed

text \<open>
  A nine-digit Bulgarian UIC has exactly one valid check digit for each eight digits before
  it, so every single wrong check digit is found.
\<close>

theorem uic9_unique_check_digit:
  assumes "length ds = 8" and "\<forall>c \<in> set ds. is_digit c"
  shows "\<exists>!c. is_digit c \<and> isValidBulgarianUic (ds @ [c])"
proof -
  define e where "e = (if weightedCheckDigit ds [1, 2, 3, 4, 5, 6, 7, 8] = 10
    then weightedCheckDigit ds [3, 4, 5, 6, 7, 8, 9, 10]
    else weightedCheckDigit ds [1, 2, 3, 4, 5, 6, 7, 8]) mod 10"
  have "checkBulgarianUicChecksum (ds @ [c]) \<longleftrightarrow> c - 48 = e" for c
    using assms(1) by (simp add: checkBulgarianUicChecksum_def Let_def slice_def slice_index_def e_def nth_append)
  then have v: "isValidBulgarianUic (ds @ [c]) \<longleftrightarrow> c - 48 = e" if "is_digit c" for c
    using uic9_valid_iff [OF assms that] by simp
  have "e < 10" by (simp add: e_def)
  then show ?thesis by (intro ex1I [of _ "48 + e"]) (auto simp: v is_digit_def)
qed

theorem uic9_unique_check_digit_witness:
  "length (js ''13128235'') = 8 \<and> isValidBulgarianUic (js ''131282355'') \<and>
   \<not> isValidBulgarianUic (js ''131282354'')"
proof -
  have d: "length (js ''13128235'') = 8" "\<forall>c \<in> set (js ''13128235''). is_digit c" by code_simp+
  have v: "isValidBulgarianUic (js ''13128235'' @ [53])" and j: "is_digit 53" "is_digit 52" by code_simp+
  from uic9_unique_check_digit [OF d] v j have "\<not> isValidBulgarianUic (js ''13128235'' @ [52])" by fastforce
  with v d show ?thesis by simp
qed

text \<open>
  The thirteenth digit of a branch UIC is not a check digit of the twelve before it: it enters
  its own weighted sum, so one branch has two accepted values and another has none.
\<close>

theorem uic13_check_digit_ambiguous:
  "isValidBulgarianUic (js ''1312823550044'') \<and> isValidBulgarianUic (js ''1312823550048'') \<and>
   \<not> list_ex (\<lambda>c. isValidBulgarianUic (js ''131282355005'' @ [c])) (js ''0123456789'')"
  by code_simp

end
