(* ===== verification/DatecsProtocol.thy ===== *)
theory DatecsProtocol
  imports Prelude
begin

unbundle bit_operations_syntax

text \<open>
  \<open>apps/pos-web/src/fiscal/datecs-protocol.ts\<close>: the frames of the DATECS FP-2000 fiscal
  printer. Commands are encoded, replies are decoded; both carry a sequence number and a
  checksum. A \<open>Uint8Array\<close> is a list of \<open>8 word\<close>.

  The lemmas characterise the accepted replies exactly (\<open>decode_response_iff\<close>), and show that
  a reply with one changed byte is never accepted.
\<close>

type_synonym u8 = "8 word"

datatype datecs_error =
    SequenceRange | CommandRange | CommandDataTooLong | CommandControlByte
  | FrameBoundary | LengthOrPostamble | MissingSeparator | InvalidStatusByte
  | InvalidCommandByte | ResponseDataTooLong | ResponseControlByte
  | ChecksumMalformed | ChecksumMismatch | ResponseMismatch

definition STX :: u8 where "STX = 0x01"
definition ETX :: u8 where "ETX = 0x03"
definition NAK :: u8 where "NAK = 0x15"
definition SYN :: u8 where "SYN = 0x16"
definition DATA_SEPARATOR :: u8 where "DATA_SEPARATOR = 0x04"
definition POSTAMBLE :: u8 where "POSTAMBLE = 0x05"
definition MIN_SEQUENCE :: int where "MIN_SEQUENCE = 0x20"
definition MAX_SEQUENCE :: int where "MAX_SEQUENCE = 0x7f"
definition MAX_COMMAND_DATA :: nat where "MAX_COMMAND_DATA = 218"
definition MAX_RESPONSE_DATA :: nat where "MAX_RESPONSE_DATA = 213"

lemmas frame_bytes = STX_def ETX_def NAK_def SYN_def DATA_SEPARATOR_def POSTAMBLE_def

record DatecsFiscalResponse =
  command :: u8
  data :: "u8 list"
  sequence :: u8
  status :: "u8 list"

datatype DatecsProtocolMessage = MNak | MSyn | MResponse DatecsFiscalResponse

definition validateSequence :: "jsnum \<Rightarrow> datecs_error + unit" where
  "validateSequence s = guard_res (isIntegerIn s MIN_SEQUENCE MAX_SEQUENCE) SequenceRange"

text \<open>A control byte other than tab and line feed.\<close>

definition unsupported :: "u8 \<Rightarrow> bool" where
  "unsupported b \<longleftrightarrow> b < 0x20 \<and> b \<noteq> 0x09 \<and> b \<noteq> 0x0a"

text \<open>The digits of \<open>checksum.toString(16)\<close>, as their values.\<close>

fun hex_digits :: "nat \<Rightarrow> nat list" where
  "hex_digits n = (if n < 16 then [n] else hex_digits (n div 16) @ [n mod 16])"

declare hex_digits.simps [simp del]

definition encodeChecksum :: "nat \<Rightarrow> u8 list" where
  "encodeChecksum c = map (\<lambda>d. word_of_nat (d + 0x30)) (padStart 4 0 (hex_digits c))"

definition decodeChecksum :: "u8 list \<Rightarrow> datecs_error + nat" where
  "decodeChecksum bytes =
     (if length bytes \<noteq> 4 \<or> list_ex (\<lambda>b. b < 0x30 \<or> b > 0x3f) bytes then Inl ChecksumMalformed
      else Inr (foldl (\<lambda>v d. push_bit 4 v OR d) 0 (map (\<lambda>b. unat b - 0x30) bytes)))"

text \<open>\<open>reduce((sum, byte) => (sum + byte) & 0xffff, 0)\<close>\<close>

definition checksum16 :: "u8 list \<Rightarrow> nat" where
  "checksum16 bytes = foldl (\<lambda>s b. (s + unat b) AND 0xffff) 0 bytes"

definition jsnum_byte :: "jsnum \<Rightarrow> u8" where
  "jsnum_byte n = (case n of JsInt i \<Rightarrow> word_of_int i | NonInteger \<Rightarrow> 0)"

definition encodeDatecsCommand :: "jsnum \<Rightarrow> jsnum \<Rightarrow> u8 list \<Rightarrow> datecs_error + u8 list" where
  "encodeDatecsCommand s c d =
     res_bind (validateSequence s) (\<lambda>_.
     if \<not> isIntegerIn c 0x20 0xff then Inl CommandRange
     else if length d > MAX_COMMAND_DATA then Inl CommandDataTooLong
     else if list_ex unsupported d then Inl CommandControlByte
     else
       let len = word_of_nat (0x20 + length d + 4);
           checksumInput = [len, jsnum_byte s, jsnum_byte c] @ d @ [POSTAMBLE];
           checksum = checksum16 checksumInput
       in Inr ([STX] @ checksumInput @ encodeChecksum checksum @ [ETX]))"

definition decodeDatecsMessage :: "u8 list \<Rightarrow> datecs_error + DatecsProtocolMessage" where
  "decodeDatecsMessage frame =
     (if length frame = 1 \<and> frame ! 0 = NAK then Inr MNak
      else if length frame = 1 \<and> frame ! 0 = SYN then Inr MSyn
      else if length frame < 17 \<or> frame ! 0 \<noteq> STX \<or> last frame \<noteq> ETX then Inl FrameBoundary
      else
        let declaredLength = uint (frame ! 1);
            postambleIndex = declaredLength - 0x20
        in
        if postambleIndex < 11 \<or> postambleIndex + 6 \<noteq> int (length frame) \<or>
           frame ! nat postambleIndex \<noteq> POSTAMBLE
        then Inl LengthOrPostamble
        else
          let statusEnd = postambleIndex - 1;
              statusStart = statusEnd - 5;
              separatorIndex = statusStart - 1
          in
          if frame ! nat separatorIndex \<noteq> DATA_SEPARATOR then Inl MissingSeparator
          else
            let st = slice frame statusStart (statusEnd + 1) in
            if list_ex (\<lambda>b. b < 0x80) st then Inl InvalidStatusByte
            else
              res_bind (validateSequence (JsInt (uint (frame ! 2)))) (\<lambda>_.
              if frame ! 3 < 0x20 then Inl InvalidCommandByte
              else
                let dat = slice frame 4 separatorIndex in
                if length dat > MAX_RESPONSE_DATA then Inl ResponseDataTooLong
                else if list_ex unsupported dat then Inl ResponseControlByte
                else
                  res_bind (decodeChecksum (slice frame (postambleIndex + 1) (postambleIndex + 5)))
                    (\<lambda>receivedChecksum.
                  if receivedChecksum \<noteq> checksum16 (slice frame 1 (postambleIndex + 1))
                  then Inl ChecksumMismatch
                  else Inr (MResponse \<lparr>command = frame ! 3, data = dat,
                         sequence = frame ! 2, status = st\<rparr>))))"

definition nextDatecsSequence :: "jsnum \<Rightarrow> datecs_error + int" where
  "nextDatecsSequence s =
     res_bind (validateSequence s) (\<lambda>_. case s of
        JsInt i \<Rightarrow> Inr (if i = MAX_SEQUENCE then MIN_SEQUENCE else i + 1)
      | NonInteger \<Rightarrow> Inl SequenceRange)"

definition validateDatecsResponse ::
  "DatecsFiscalResponse \<Rightarrow> int \<Rightarrow> int \<Rightarrow> datecs_error + unit" where
  "validateDatecsResponse response expectedCommand expectedSequence =
     (if uint (command response) \<noteq> expectedCommand \<or> uint (sequence response) \<noteq> expectedSequence
      then Inl ResponseMismatch
      else if length (data response) > MAX_RESPONSE_DATA then Inl ResponseDataTooLong
      else Inr ())"

section \<open>Checksums\<close>

lemma or_hex:
  fixes v d :: nat
  assumes "d < 16"
  shows "push_bit 4 v OR d = 16 * v + d"
proof -
  have d: "take_bit 4 d = d" using assms by (simp add: take_bit_eq_mod)
  have "\<not> bit (push_bit 4 v) n \<or> \<not> bit d n" for n
  proof (cases "n < 4")
    case True
    then show ?thesis by (simp add: bit_simps)
  next
    case False
    then have "\<not> bit (take_bit 4 d) n" by (simp add: bit_take_bit_iff)
    then show ?thesis by (simp add: d)
  qed
  then have "push_bit 4 v + d = push_bit 4 v OR d" by (rule disjunctive_add)
  then show ?thesis by (simp add: push_bit_eq_mult)
qed

lemma and_ffff: "n AND 0xffff = n mod 65536" for n :: nat
  using take_bit_eq_mask [of 16 n] by (simp add: take_bit_eq_mod mask_eq_exp_minus_1)

lemma checksum16_Nil [simp]: "checksum16 [] = 0"
  by (simp add: checksum16_def)

lemma checksum16_snoc: "checksum16 (bs @ [b]) = (checksum16 bs + unat b) mod 65536"
  by (simp add: checksum16_def and_ffff)

lemma checksum16_sum: "checksum16 bs = (\<Sum>b\<leftarrow>bs. unat b) mod 65536"
  by (induction bs rule: rev_induct) (simp_all add: checksum16_snoc mod_add_left_eq)

lemma checksum16_less: "checksum16 bs < 65536"
  by (simp add: checksum16_sum)

lemma byte_le: "unat (b :: u8) \<le> 255"
  using unsigned_less [of b, where ?'a = nat] by simp

lemma sum_bytes_le: "(\<Sum>b\<leftarrow>bs. unat b) \<le> 255 * length (bs :: u8 list)"
  by (induction bs) (use byte_le in \<open>auto intro: add_mono\<close>)

text \<open>A frame has at most 257 bytes, so its checksum never wraps.\<close>

lemma checksum16_small:
  assumes "length bs \<le> 257"
  shows "checksum16 bs = (\<Sum>b\<leftarrow>bs. unat b)"
proof -
  have "(\<Sum>b\<leftarrow>bs. unat b) < 65536" using sum_bytes_le [of bs] assms by linarith
  then show ?thesis by (simp add: checksum16_sum)
qed

lemma hex_digits_props:
  "n < 16 ^ k \<Longrightarrow> 0 < k \<Longrightarrow> length (hex_digits n) \<le> k \<and> (\<forall>d \<in> set (hex_digits n). d < 16) \<and>
     foldl (\<lambda>v d. 16 * v + d) 0 (hex_digits n) = n"
proof (induction n arbitrary: k rule: hex_digits.induct)
  case (1 n)
  show ?case
  proof (cases "n < 16")
    case True
    with "1.prems" show ?thesis by (simp add: hex_digits.simps [of n])
  next
    case False
    then obtain j where k: "k = Suc j" and j: "0 < j"
      using "1.prems" by (cases k; cases "k - 1") auto
    from "1.prems" k have "n div 16 < 16 ^ j" by (simp add: less_mult_imp_div_less mult.commute)
    then have IH: "length (hex_digits (n div 16)) \<le> j \<and> (\<forall>d \<in> set (hex_digits (n div 16)). d < 16) \<and>
        foldl (\<lambda>v d. 16 * v + d) 0 (hex_digits (n div 16)) = n div 16"
      using "1.IH" [OF False] j by blast
    have "hex_digits n = hex_digits (n div 16) @ [n mod 16]"
      using False by (simp add: hex_digits.simps [of n])
    with IH k show ?thesis by auto
  qed
qed

lemma fold_hex_zeros [simp]: "foldl (\<lambda>v d. 16 * v + d) 0 (replicate n (0::nat)) = 0"
  by (induction n) simp_all

lemma fold_or_hex:
  "\<forall>d \<in> set ds. d < 16 \<Longrightarrow> foldl (\<lambda>v d. push_bit 4 v OR d) (a::nat) ds = foldl (\<lambda>v d. 16 * v + d) a ds"
  by (induction ds arbitrary: a) (auto simp: or_hex)

lemma hex_byte:
  assumes "d < (16::nat)"
  shows "unat (word_of_nat (d + 0x30) :: u8) = d + 0x30"
  using assms by (simp add: unat_of_nat take_bit_eq_mod del: of_nat_add)

lemma length_encodeChecksum: "c < 65536 \<Longrightarrow> length (encodeChecksum c) = 4"
  using hex_digits_props [of c 4] by (simp add: encodeChecksum_def padStart_def)

lemma decode_encodeChecksum [simp]:
  assumes "c < 65536"
  shows "decodeChecksum (encodeChecksum c) = Inr c"
proof -
  let ?ds = "padStart 4 0 (hex_digits c)"
  have h: "\<forall>d \<in> set ?ds. d < 16" and v: "foldl (\<lambda>v d. 16 * v + d) 0 ?ds = c"
    using hex_digits_props [of c 4] assms by (auto simp: padStart_def)
  have m: "map (\<lambda>b. unat b - 0x30) (encodeChecksum c) = ?ds"
    using h hex_byte by (simp add: encodeChecksum_def map_idI)
  have "\<not> list_ex (\<lambda>b. b < 0x30 \<or> b > 0x3f) (encodeChecksum c)"
    using h hex_byte by (fastforce simp: encodeChecksum_def list_ex_iff word_less_nat_alt)
  then show ?thesis
    using v h by (simp add: decodeChecksum_def length_encodeChecksum assms m fold_or_hex)
qed

lemma nibble_eq:
  fixes a b c d :: nat
  assumes "a * 16 + b = c * 16 + d" and "b < 16" and "d < 16"
  shows "a = c \<and> b = d"
proof -
  have "(a * 16 + b) div 16 = a" "(c * 16 + d) div 16 = c" using assms(2,3) by simp_all
  with assms(1) show ?thesis by simp
qed

lemma byte_of_digit:
  assumes "48 \<le> b" and "b \<le> (63 :: u8)"
  shows "b = word_of_nat (unat b - 48 + 48) \<and> unat b - 48 < 16"
  using assms by (auto simp: word_le_nat_alt)

lemma decodeChecksum_Inr:
  assumes "decodeChecksum bs = Inr c"
  obtains d0 d1 d2 d3 where "bs = map (\<lambda>d. word_of_nat (d + 48)) [d0, d1, d2, d3]"
    and "d0 < 16" "d1 < 16" "d2 < 16" "d3 < 16" and "c = ((d0 * 16 + d1) * 16 + d2) * 16 + d3"
proof -
  from assms have l: "length bs = 4" and r: "\<forall>b \<in> set bs. 48 \<le> b \<and> b \<le> 63"
    and c: "c = foldl (\<lambda>v d. push_bit 4 v OR d) 0 (map (\<lambda>b. unat b - 0x30) bs)"
    by (auto simp: decodeChecksum_def list_ex_iff not_less split: if_splits)
  from l obtain b0 b1 b2 b3 where bs: "bs = [b0, b1, b2, b3]"
    by (auto simp: length_Suc_conv numeral_eq_Suc)
  have u: "b = word_of_nat (unat b - 48 + 48) \<and> unat b - 48 < 16" if "b \<in> set bs" for b
    using r that by (intro byte_of_digit) auto
  then have "c = foldl (\<lambda>v d. 16 * v + d) 0 (map (\<lambda>b. unat b - 48) bs)"
    unfolding c by (intro fold_or_hex) auto
  then show ?thesis
    by (intro that [of "unat b0 - 48" "unat b1 - 48" "unat b2 - 48" "unat b3 - 48"])
      (use u in \<open>auto simp: bs mult.commute\<close>)
qed

lemma decodeChecksum_inj:
  assumes "decodeChecksum bs = Inr c" and "decodeChecksum cs = Inr c"
  shows "bs = cs"
  by (rule decodeChecksum_Inr [OF assms(1)], rule decodeChecksum_Inr [OF assms(2)])
    (metis nibble_eq)

lemma encode_decodeChecksum:
  assumes "decodeChecksum bs = Inr c"
  shows "bs = encodeChecksum c \<and> c < 65536"
proof -
  have c: "c < 65536" by (rule decodeChecksum_Inr [OF assms]) simp
  with decodeChecksum_inj [OF assms decode_encodeChecksum] show ?thesis by simp
qed


section \<open>Frames\<close>

lemma slice_int [simp]: "slice s (int a) (int b) = take (b - a) (drop a s)"
  by (auto simp: slice_def slice_index_def min_def)

text \<open>
  The reply the printer sends for a response, by the layout of the protocol: start byte,
  length, sequence, command, data, separator, six status bytes, postamble, four checksum
  digits, end byte.
\<close>

definition response_body :: "DatecsFiscalResponse \<Rightarrow> u8 list" where
  "response_body r = [word_of_nat (0x20 + length (data r) + 11), sequence r, command r] @ data r @
     [DATA_SEPARATOR] @ status r @ [POSTAMBLE]"

definition response_frame :: "DatecsFiscalResponse \<Rightarrow> u8 list" where
  "response_frame r = [STX] @ response_body r @ encodeChecksum (checksum16 (response_body r)) @ [ETX]"

text \<open>The responses that a frame can carry: 212 data bytes is what the length byte can declare.\<close>

definition wf_response :: "DatecsFiscalResponse \<Rightarrow> bool" where
  "wf_response r \<longleftrightarrow> 0x20 \<le> uint (sequence r) \<and> uint (sequence r) \<le> 0x7f \<and> 0x20 \<le> command r \<and>
     length (data r) \<le> 212 \<and> \<not> list_ex unsupported (data r) \<and>
     length (status r) = 6 \<and> list_all (\<lambda>b. 0x80 \<le> b) (status r)"

lemma length_response_body: "length (status r) = 6 \<Longrightarrow> length (response_body r) = length (data r) + 11"
  by (simp add: response_body_def)

lemma length_response_frame: "length (status r) = 6 \<Longrightarrow> length (response_frame r) = length (data r) + 17"
  by (simp add: response_frame_def length_response_body length_encodeChecksum checksum16_less)

lemma length_byte:
  assumes "n \<le> 212"
  shows "uint (word_of_nat (0x20 + n + 11) :: u8) = 43 + int n"
  using assms by (simp add: unsigned_of_nat take_bit_eq_mod del: of_nat_add)


lemma take_drop_mid: "length pre = k \<Longrightarrow> length xs = m \<Longrightarrow> take m (drop k (pre @ xs @ post)) = xs"
  by simp

lemma nth_mid: "length pre = k \<Longrightarrow> (pre @ x # post) ! k = x"
  by (auto simp: nth_append)

text \<open>A frame cut into its fields: what the decoder finds at each index it reads.\<close>

lemma decode_fields:
  fixes d st ck :: "u8 list" and len sq c :: u8
  defines "n \<equiv> length d"
  defines "f \<equiv> [STX, len, sq, c] @ d @ [DATA_SEPARATOR] @ st @ [POSTAMBLE] @ ck @ [ETX]"
  assumes st: "length st = 6" and ck: "length ck = 4" and len: "uint len = 43 + int n"
  shows "decodeDatecsMessage f =
     (if list_ex (\<lambda>b. b < 0x80) st then Inl InvalidStatusByte
      else if \<not> (0x20 \<le> uint sq \<and> uint sq \<le> 0x7f) then Inl SequenceRange
      else if c < 0x20 then Inl InvalidCommandByte
      else if n > 213 then Inl ResponseDataTooLong
      else if list_ex unsupported d then Inl ResponseControlByte
      else res_bind (decodeChecksum ck) (\<lambda>k.
        if k \<noteq> checksum16 ([len, sq, c] @ d @ [DATA_SEPARATOR] @ st @ [POSTAMBLE]) then Inl ChecksumMismatch
        else Inr (MResponse \<lparr>command = c, data = d, sequence = sq, status = st\<rparr>)))"
proof -
  have l: "length f = n + 17" using st ck by (simp add: f_def n_def)
  have i: "f ! 0 = STX" "f ! 1 = len" "f ! 2 = sq" "f ! 3 = c" "last f = ETX"
    by (simp_all add: f_def)
  have sep: "f ! (n + 4) = DATA_SEPARATOR"
    unfolding f_def using nth_mid [of "[STX, len, sq, c] @ d" "n + 4"] by (simp add: n_def)
  have post: "f ! (n + 11) = POSTAMBLE"
    unfolding f_def using nth_mid [of "[STX, len, sq, c] @ d @ [DATA_SEPARATOR] @ st" "n + 11"] st
    by (simp add: n_def)
  have s1: "take n (drop 4 f) = d"
    unfolding f_def using take_drop_mid [of "[STX, len, sq, c]" 4 d n] by (simp add: n_def)
  have s2: "take 6 (drop (n + 5) f) = st"
    unfolding f_def using take_drop_mid [of "[STX, len, sq, c] @ d @ [DATA_SEPARATOR]" "n + 5" st 6] st
    by (simp add: n_def)
  have s3: "take 4 (drop (n + 12) f) = ck"
    unfolding f_def using ck st
      take_drop_mid [of "[STX, len, sq, c] @ d @ [DATA_SEPARATOR] @ st @ [POSTAMBLE]" "n + 12" ck 4]
    by (simp add: n_def)
  have s4: "take (n + 11) (drop 1 f) = [len, sq, c] @ d @ [DATA_SEPARATOR] @ st @ [POSTAMBLE]"
    unfolding f_def using st
      take_drop_mid [of "[STX]" 1 "[len, sq, c] @ d @ [DATA_SEPARATOR] @ st @ [POSTAMBLE]" "n + 11"]
    by (simp add: n_def)
  have p: "uint len - 0x20 = int (n + 11)" by (simp add: len)
  have q: "int (n + 11) - 1 - 5 = int (n + 5)" "int (n + 5) - 1 = int (n + 4)"
    "int (n + 11) - 1 + 1 = int (n + 11)" "int (n + 11) + 1 = int (n + 12)"
    "int (n + 11) + 5 = int (n + 16)" "(4::int) = int 4" "(1::int) = int 1" by simp_all
  have sl: "slice f (int (n + 5)) (int (n + 11)) = st" "slice f 4 (int (n + 4)) = d"
    "slice f (int (n + 12)) (int (n + 16)) = ck"
    "slice f 1 (int (n + 12)) = [len, sq, c] @ d @ [DATA_SEPARATOR] @ st @ [POSTAMBLE]"
    using slice_int [of f "n + 5" "n + 11"] slice_int [of f 4 "n + 4"] slice_int [of f "n + 12" "n + 16"]
      slice_int [of f 1 "n + 12"] s1 s2 s3 s4 by (simp_all add: add.commute)
  show ?thesis
    unfolding decodeDatecsMessage_def Let_def i p q(1-5) sl nat_int sep post
    by (cases "0x20 \<le> uint sq \<and> uint sq \<le> 0x7f")
      (auto simp: l validateSequence_def guard_res_def MIN_SEQUENCE_def MAX_SEQUENCE_def
        MAX_RESPONSE_DATA_def n_def)
qed

lemma drop_step: "k < length xs \<Longrightarrow> drop k xs = xs ! k # drop (k + 1) xs"
  by (simp add: Cons_nth_drop_Suc)

lemma drop_chunk: "drop k xs = take m (drop k xs) @ drop (k + m) xs"
  by (metis append_take_drop_id drop_drop add.commute)

lemma cut_frame:
  assumes "length f = n + 17"
  shows "f = [f ! 0, f ! 1, f ! 2, f ! 3] @ take n (drop 4 f) @ [f ! (n + 4)] @ take 6 (drop (n + 5) f) @
     [f ! (n + 11)] @ take 4 (drop (n + 12) f) @ [f ! (n + 16)]"
proof -
  have "f = drop 0 f" by simp
  also have "\<dots> = [f ! 0, f ! 1, f ! 2, f ! 3] @ drop 4 f"
    using drop_step [of 0 f] drop_step [of 1 f] drop_step [of 2 f] drop_step [of 3 f] assms
    by (simp add: numeral_eq_Suc)
  also have "drop 4 f = take n (drop 4 f) @ drop (n + 4) f"
    using drop_chunk [of 4 f n] by (simp add: add.commute)
  also have "drop (n + 4) f = [f ! (n + 4)] @ drop (n + 5) f"
    using drop_step [of "n + 4" f] assms by (simp add: add.commute)
  also have "drop (n + 5) f = take 6 (drop (n + 5) f) @ drop (n + 11) f"
    using drop_chunk [of "n + 5" f 6] by (simp add: add.commute)
  also have "drop (n + 11) f = [f ! (n + 11)] @ drop (n + 12) f"
    using drop_step [of "n + 11" f] assms by (simp add: add.commute)
  also have "drop (n + 12) f = take 4 (drop (n + 12) f) @ drop (n + 16) f"
    using drop_chunk [of "n + 12" f 4] by (simp add: add.commute)
  also have "drop (n + 16) f = [f ! (n + 16)]"
    using drop_step [of "n + 16" f] assms by simp
  finally show ?thesis by simp
qed

lemma decode_shape:
  assumes "decodeDatecsMessage f = Inr (MResponse r)"
  obtains d st ck len sq c where
    "f = [STX, len, sq, c] @ d @ [DATA_SEPARATOR] @ st @ [POSTAMBLE] @ ck @ [ETX]"
    "length st = 6" "length ck = 4" "uint len = 43 + int (length d)"
proof -
  define n where "n = length f - 17"
  have g: "17 \<le> length f" "f ! 0 = STX" "last f = ETX"
    "uint (f ! 1) - 0x20 + 6 = int (length f)" "f ! nat (uint (f ! 1) - 0x20) = POSTAMBLE"
    "f ! nat (uint (f ! 1) - 0x20 - 1 - 5 - 1) = DATA_SEPARATOR"
    using assms by (auto simp: decodeDatecsMessage_def Let_def split: if_splits)
  then have l: "length f = n + 17" and u: "uint (f ! 1) = 43 + int n" by (simp_all add: n_def)
  have i: "nat (uint (f ! 1) - 0x20) = n + 11" "nat (uint (f ! 1) - 0x20 - 1 - 5 - 1) = n + 4"
    unfolding u by simp_all
  have "f ! (n + 11) = POSTAMBLE" "f ! (n + 4) = DATA_SEPARATOR" "f ! (n + 16) = ETX"
    using g(3,5,6) l unfolding i by (simp_all add: last_conv_nth add.commute flip: length_greater_0_conv)
  with cut_frame [OF l] g(2) have
    "f = [STX, f ! 1, f ! 2, f ! 3] @ take n (drop 4 f) @ [DATA_SEPARATOR] @ take 6 (drop (n + 5) f) @
     [POSTAMBLE] @ take 4 (drop (n + 12) f) @ [ETX]" by simp
  then show ?thesis by (rule that) (use l u in simp_all)
qed

lemma length_byte_eq:
  assumes "uint (len :: u8) = 43 + int n"
  shows "len = word_of_nat (0x20 + n + 11) \<and> n \<le> 212"
proof -
  have "uint len < 256" using unsigned_less [of len, where ?'a = int] by simp
  with assms have n: "n \<le> 212" by simp
  then have "uint len = uint (word_of_nat (0x20 + n + 11) :: u8)"
    using assms length_byte by simp
  with n show ?thesis by (simp add: word_uint_eq_iff)
qed

lemma decode_response_frame:
  assumes "wf_response r"
  shows "decodeDatecsMessage (response_frame r) = Inr (MResponse r)"
proof -
  let ?len = "word_of_nat (0x20 + length (data r) + 11) :: u8"
  let ?ck = "encodeChecksum (checksum16 (response_body r))"
  from assms have w: "length (status r) = 6" "length (data r) \<le> 212" by (simp_all add: wf_response_def)
  have "response_frame r = [STX, ?len, sequence r, command r] @ data r @ [DATA_SEPARATOR] @ status r @
      [POSTAMBLE] @ ?ck @ [ETX]"
    by (simp add: response_frame_def response_body_def)
  then have "decodeDatecsMessage (response_frame r) = decodeDatecsMessage ([STX, ?len, sequence r, command r] @ data r @ [DATA_SEPARATOR] @ status r @
      [POSTAMBLE] @ ?ck @ [ETX])" by simp
  also have "\<dots> = Inr (MResponse r)"
    using assms w by (subst decode_fields [OF w(1) length_encodeChecksum [OF checksum16_less] length_byte [OF w(2)]])
      (auto simp: checksum16_less wf_response_def list_ex_iff list_all_iff response_body_def not_less)
  finally show ?thesis .
qed

lemma decode_response_inv:
  assumes "decodeDatecsMessage f = Inr (MResponse r)"
  shows "wf_response r \<and> f = response_frame r"
proof -
  obtain d st ck len sq c where
    f: "f = [STX, len, sq, c] @ d @ [DATA_SEPARATOR] @ st @ [POSTAMBLE] @ ck @ [ETX]"
    and l: "length st = 6" "length ck = 4" "uint len = 43 + int (length d)"
    by (rule decode_shape [OF assms])
  have b: "len = word_of_nat (0x20 + length d + 11)" "length d \<le> 212" using length_byte_eq [OF l(3)] by auto
  from assms have w: "wf_response r" and
    r: "r = \<lparr>command = c, data = d, sequence = sq, status = st\<rparr>" and
    ck: "decodeChecksum ck = Inr (checksum16 ([len, sq, c] @ d @ [DATA_SEPARATOR] @ st @ [POSTAMBLE]))"
    unfolding f decode_fields [OF l]
    by (auto simp: wf_response_def list_ex_iff list_all_iff b l not_less split: if_splits)
  from encode_decodeChecksum [OF ck] have "f = response_frame r"
    unfolding f response_frame_def response_body_def r b by simp
  with w show ?thesis by simp
qed

text \<open>
  C31: The replies that the decoder accepts are exactly the frames of the protocol layout with
  a well-formed response inside, and the accepted reply returns that response.
\<close>

theorem decode_response_iff:
  "decodeDatecsMessage f = Inr (MResponse r) \<longleftrightarrow> wf_response r \<and> f = response_frame r"
  using decode_response_inv decode_response_frame by blast

lemma sum_bytes_update:
  assumes "j < length bs"
  shows "(\<Sum>b\<leftarrow>bs[j := b]. unat b) + unat (bs ! j) = (\<Sum>b\<leftarrow>bs. unat b) + unat (b :: u8)"
  using assms by (induction bs arbitrary: j) (auto simp: nth_Cons split: nat.splits)

lemma checksum16_update:
  assumes "length bs \<le> 257" and "j < length bs" and "b \<noteq> bs ! j"
  shows "checksum16 (bs[j := b]) \<noteq> checksum16 bs"
proof -
  have "unat b \<noteq> unat (bs ! j)" using assms(3) by (metis word_unat_eq_iff)
  with sum_bytes_update [OF assms(2), of b] assms(1) show ?thesis by (simp add: checksum16_small)
qed

lemma frame_body:
  assumes "length (status r) = 6"
  shows "response_body r = take (length (data r) + 11) (drop 1 (response_frame r))"
  using assms by (simp add: length_response_body response_frame_def)

lemma frame_tail:
  assumes "length (status r) = 6"
  shows "encodeChecksum (checksum16 (response_body r)) =
     take 4 (drop (length (data r) + 12) (response_frame r))"
  using take_drop_mid [of "[STX] @ response_body r" "length (data r) + 12"
      "encodeChecksum (checksum16 (response_body r))" 4 "[ETX]"] assms
  by (simp add: length_response_body response_frame_def length_encodeChecksum checksum16_less)

lemma frames_differ_twice:
  assumes r: "wf_response r" "wf_response r'" and e: "response_frame r' = (response_frame r)[i := b]"
  shows "response_frame r' = response_frame r"
proof -
  let ?f = "response_frame r"
  from r have s: "length (status r) = 6" "length (status r') = 6" "length (data r) \<le> 212"
    by (simp_all add: wf_response_def)
  have n: "length (data r') = length (data r)"
    using e length_response_frame [OF s(1)] length_response_frame [OF s(2)] by simp
  have body': "response_body r' = take (length (data r) + 11) (drop 1 (?f[i := b]))"
    using frame_body [OF s(2)] e n by simp
  show ?thesis
  proof (cases "1 \<le> i \<and> i - 1 < length (data r) + 11")
    case False
    then have "response_body r' = response_body r"
      using body' frame_body [OF s(1)] by (cases "i = 0") (auto simp: drop_update_swap)
    then show ?thesis by (simp add: response_frame_def)
  next
    case True
    then have upd: "response_body r' = (response_body r)[i - 1 := b]"
      using body' frame_body [OF s(1)] by (simp add: drop_update_swap take_update_swap)
    have "encodeChecksum (checksum16 (response_body r')) = encodeChecksum (checksum16 (response_body r))"
    proof -
      have "drop (length (data r) + 12) (?f[i := b]) = drop (length (data r) + 12) ?f"
        using True by (intro drop_update_cancel) auto
      then show ?thesis using frame_tail [OF s(1)] frame_tail [OF s(2)] e n by simp
    qed
    then have "checksum16 (response_body r') = checksum16 (response_body r)"
      using decode_encodeChecksum checksum16_less by (metis sum.inject(2))
    then have "b = response_body r ! (i - 1)"
      using checksum16_update [of "response_body r" "i - 1" b] True upd s(1,3)
      by (auto simp: length_response_body)
    then show ?thesis using upd by (simp add: response_frame_def)
  qed
qed

text \<open>
  C32: If the decoder accepts a reply, it rejects every frame that differs from it in one byte.
\<close>

theorem single_byte_corruption_detected:
  assumes "decodeDatecsMessage f = Inr (MResponse r)" and "i < length f" and "b \<noteq> f ! i"
  shows "\<exists>e. decodeDatecsMessage (f[i := b]) = Inl e"
proof -
  from decode_response_inv [OF assms(1)] have f: "wf_response r" "f = response_frame r" by auto
  have n: "f[i := b] \<noteq> f" using assms(2,3) by (metis nth_list_update_eq)
  have "decodeDatecsMessage (f[i := b]) \<noteq> Inr (MResponse r')" for r'
    using decode_response_inv [of "f[i := b]" r'] frames_differ_twice [of r r' i b] f n by auto
  moreover have "decodeDatecsMessage (f[i := b]) \<noteq> Inr MNak" "decodeDatecsMessage (f[i := b]) \<noteq> Inr MSyn"
    using f by (auto simp: decodeDatecsMessage_def Let_def length_response_frame wf_response_def split: if_splits)
  ultimately show ?thesis
    by (cases "decodeDatecsMessage (f[i := b])"; cases "projr (decodeDatecsMessage (f[i := b]))") auto
qed

definition sample_response :: DatecsFiscalResponse where
  "sample_response = \<lparr>command = 0x4a, data = [0x31, 0x2c], sequence = 0x21,
     status = [0x80, 0x80, 0x88, 0x80, 0x86, 0x9a]\<rparr>"

lemma wf_sample_response: "wf_response sample_response"
  by (simp add: wf_response_def sample_response_def unsupported_def)

theorem single_byte_corruption_detected_witness:
  "decodeDatecsMessage (response_frame sample_response) = Inr (MResponse sample_response) \<and>
   (\<exists>e. decodeDatecsMessage ((response_frame sample_response)[4 := 0x39]) = Inl e)"
proof
  show d: "decodeDatecsMessage (response_frame sample_response) = Inr (MResponse sample_response)"
    by (rule decode_response_frame [OF wf_sample_response])
  show "\<exists>e. decodeDatecsMessage ((response_frame sample_response)[4 := 0x39]) = Inl e"
    by (rule single_byte_corruption_detected [OF d])
      (simp_all add: response_frame_def response_body_def sample_response_def)
qed

section \<open>Commands\<close>

lemma validateSequence_Inr:
  "validateSequence s = Inr u \<longleftrightarrow> (\<exists>i. s = JsInt i \<and> 0x20 \<le> i \<and> i \<le> 0x7f)"
  by (cases s) (auto simp: validateSequence_def MIN_SEQUENCE_def MAX_SEQUENCE_def)

definition command_body :: "int \<Rightarrow> int \<Rightarrow> u8 list \<Rightarrow> u8 list" where
  "command_body i k d = [word_of_nat (0x20 + length d + 4), word_of_int i, word_of_int k] @ d @ [POSTAMBLE]"

definition command_frame :: "int \<Rightarrow> int \<Rightarrow> u8 list \<Rightarrow> u8 list" where
  "command_frame i k d = [STX] @ command_body i k d @ encodeChecksum (checksum16 (command_body i k d)) @ [ETX]"

definition wf_command :: "int \<Rightarrow> int \<Rightarrow> u8 list \<Rightarrow> bool" where
  "wf_command i k d \<longleftrightarrow> 0x20 \<le> i \<and> i \<le> 0x7f \<and> 0x20 \<le> k \<and> k \<le> 0xff \<and> length d \<le> 218 \<and>
     \<not> list_ex unsupported d"

lemma encode_iff:
  "encodeDatecsCommand s c d = Inr f \<longleftrightarrow>
     (\<exists>i k. s = JsInt i \<and> c = JsInt k \<and> wf_command i k d \<and> f = command_frame i k d)"
  by (cases s; cases c)
    (auto simp: encodeDatecsCommand_def validateSequence_Inr wf_command_def command_frame_def
      command_body_def jsnum_byte_def MAX_COMMAND_DATA_def Let_def validateSequence_def
      MIN_SEQUENCE_def MAX_SEQUENCE_def split: if_splits)

lemma uint_small_byte: "0 \<le> i \<Longrightarrow> i < 256 \<Longrightarrow> uint (word_of_int i :: u8) = i"
  by (simp add: unsigned_of_int take_bit_eq_mod)

lemma command_frame_inj:
  assumes "wf_command i k d" "wf_command i' k' d'" "command_frame i k d = command_frame i' k' d'"
  shows "i = i' \<and> k = k' \<and> d = d'"
proof -
  have l: "length (command_frame i k d) = length d + 10" for i k d
    by (simp add: command_frame_def command_body_def length_encodeChecksum checksum16_less)
  then have n: "length d = length d'" using assms(3) by (metis add_right_cancel)
  have "word_of_int i = (word_of_int i' :: u8) \<and> word_of_int k = (word_of_int k' :: u8) \<and> d = d'"
    using assms(3) n unfolding command_frame_def command_body_def by (simp only: append_Cons append_Nil
      append_assoc list.inject append_eq_append_conv simp_thms)
  moreover have "uint (word_of_int x :: u8) = x" if "x \<in> {i, i', k, k'}" for x
    using that assms(1,2) by (intro uint_small_byte) (auto simp: wf_command_def)
  ultimately show ?thesis by (metis insertCI)
qed

lemma command_frame_fields:
  "take (length d + 4) (drop 1 (command_frame i k d)) = command_body i k d"
  "take 4 (drop (length d + 5) (command_frame i k d)) = encodeChecksum (checksum16 (command_body i k d))"
proof -
  have l: "length (command_body i k d) = length d + 4" by (simp add: command_body_def)
  show "take (length d + 4) (drop 1 (command_frame i k d)) = command_body i k d"
    using take_drop_mid [of "[STX]" 1 "command_body i k d"] l by (simp add: command_frame_def)
  show "take 4 (drop (length d + 5) (command_frame i k d)) = encodeChecksum (checksum16 (command_body i k d))"
    using take_drop_mid [of "[STX] @ command_body i k d" "length d + 5"
      "encodeChecksum (checksum16 (command_body i k d))" 4 "[ETX]"] l
    by (simp add: command_frame_def length_encodeChecksum checksum16_less)
qed

lemma command_checksum:
  assumes "wf_command i k d"
  shows "checksum16 (command_body i k d) = (\<Sum>b\<leftarrow>command_body i k d. unat b)"
  using assms by (intro checksum16_small) (simp add: wf_command_def command_body_def)

lemma checksum_bytes_range:
  assumes "c < 65536" "b \<in> set (encodeChecksum c)"
  shows "0x30 \<le> b \<and> b \<le> 0x3f"
  using decode_encodeChecksum [OF assms(1)] assms(2)
  by (auto simp: decodeChecksum_def list_ex_iff not_less split: if_splits)

lemma no_delimiter_inside:
  assumes "wf_command i k d" and "b \<in> set (butlast (tl (command_frame i k d)))"
  shows "b \<noteq> STX \<and> b \<noteq> ETX"
proof -
  have "b \<in> set (encodeChecksum (checksum16 (command_body i k d))) \<or> b \<in> set d \<or> b = POSTAMBLE \<or>
     b = word_of_nat (0x20 + length d + 4) \<or> b = word_of_int i \<or> b = word_of_int k"
    using assms(2) by (auto simp: command_frame_def command_body_def butlast_append)
  moreover have "0x20 \<le> uint (word_of_int i :: u8)" "0x20 \<le> uint (word_of_int k :: u8)"
    using assms(1) by (simp_all add: wf_command_def uint_small_byte)
  moreover have "0x20 \<le> uint (word_of_nat (0x20 + length d + 4) :: u8)"
    using assms(1) by (simp add: wf_command_def unsigned_of_nat take_bit_eq_mod del: of_nat_add)
  moreover have "\<not> unsupported b" if "b \<in> set d"
    using assms(1) that by (auto simp: wf_command_def list_ex_iff)
  ultimately show ?thesis
    using checksum_bytes_range [OF checksum16_less, of b "command_body i k d"]
    by (auto simp: frame_bytes unsupported_def word_le_nat_alt)
qed

text \<open>
  C39: The encoder accepts exactly the commands in range. The frame starts with STX, ends with
  ETX, has neither byte in between, its checksum field decodes to the plain sum of the bytes
  from the length to the postamble, and no two different commands have the same frame.
\<close>

theorem command_frame_unambiguous:
  "(encodeDatecsCommand s c d = Inr f \<longleftrightarrow>
      (\<exists>i k. s = JsInt i \<and> c = JsInt k \<and> wf_command i k d \<and> f = command_frame i k d)) \<and>
   (encodeDatecsCommand s c d = Inr f \<longrightarrow>
      hd f = STX \<and> last f = ETX \<and> STX \<notin> set (butlast (tl f)) \<and> ETX \<notin> set (butlast (tl f)) \<and>
      decodeChecksum (take 4 (drop (length d + 5) f)) = Inr (\<Sum>b\<leftarrow>take (length d + 4) (drop 1 f). unat b) \<and>
      (\<forall>s' c' d'. encodeDatecsCommand s' c' d' = Inr f \<longrightarrow> s' = s \<and> c' = c \<and> d' = d))"
proof (intro conjI impI allI)
  show "encodeDatecsCommand s c d = Inr f \<longleftrightarrow>
      (\<exists>i k. s = JsInt i \<and> c = JsInt k \<and> wf_command i k d \<and> f = command_frame i k d)"
    by (rule encode_iff)
next
  assume "encodeDatecsCommand s c d = Inr f"
  then obtain i k where ik: "s = JsInt i" "c = JsInt k" "wf_command i k d" "f = command_frame i k d"
    by (auto simp: encode_iff)
  show "hd f = STX" "last f = ETX" by (simp_all add: ik command_frame_def)
  show "STX \<notin> set (butlast (tl f))" "ETX \<notin> set (butlast (tl f))"
    using no_delimiter_inside [OF ik(3)] ik(4) by auto
  show "decodeChecksum (take 4 (drop (length d + 5) f)) = Inr (\<Sum>b\<leftarrow>take (length d + 4) (drop 1 f). unat b)"
    unfolding ik(4) command_frame_fields
    using decode_encodeChecksum [OF checksum16_less] command_checksum [OF ik(3)] by metis
  fix s' c' d' assume "encodeDatecsCommand s' c' d' = Inr f"
  with ik command_frame_inj show "s' = s" "c' = c" "d' = d" by (auto simp: encode_iff)
qed

theorem command_frame_unambiguous_witness:
  "\<exists>f. encodeDatecsCommand (JsInt 0x20) (JsInt 0x4a) [0x57] = Inr f \<and> hd f = STX \<and> last f = ETX"
  using command_frame_unambiguous [of "JsInt 0x20" "JsInt 0x4a" "[0x57]" "command_frame 0x20 0x4a [0x57]"]
  by (simp add: wf_command_def unsupported_def)

section \<open>Sequence numbers\<close>

lemma nextDatecsSequence_eq:
  "nextDatecsSequence (JsInt i) = (if 0x20 \<le> i \<and> i \<le> 0x7f then Inr (0x20 + (i - 0x1f) mod 96) else Inl SequenceRange)"
proof (cases "0x20 \<le> i \<and> i \<le> 0x7f")
  case True
  then have "(i - 0x1f) mod 96 = (if i = 0x7f then 0 else i - 0x1f)" by (auto intro: mod_pos_pos_trivial)
  with True show ?thesis
    by (simp add: nextDatecsSequence_def validateSequence_def MIN_SEQUENCE_def MAX_SEQUENCE_def)
qed (auto simp: nextDatecsSequence_def validateSequence_def guard_res_def MIN_SEQUENCE_def MAX_SEQUENCE_def)

lemma nextDatecsSequence_range:
  "nextDatecsSequence s = Inr i \<Longrightarrow> 0x20 \<le> i \<and> i \<le> 0x7f"
  by (cases s) (auto simp: nextDatecsSequence_def validateSequence_Inr MIN_SEQUENCE_def MAX_SEQUENCE_def
      split: if_splits)

end
