(* ===== verification/DatecsText.thy ===== *)
theory DatecsText
  imports DatecsProtocol
begin

text \<open>
  The text and number formats of \<open>apps/pos-web/src/fiscal/datecs-fiscal-sale.ts\<close>: the
  Windows-1251 code page of the printer, non-negative decimals with a scale, and cents.

  The lemmas show that text survives encoding and decoding, that a printed amount is read back
  as the same amount, and that a price times a quantity is rounded to the nearest cent.
\<close>

datatype config_problem =
    NotEncodable | NamePrintable | NameTooLong | NotDecimal | PaymentAmount | UniqueSaleIdFormat
  | OperatorNumber | OperatorPassword | RegisterNumber | TenderTooSmall | LineCount
  | VatGroupMissing | VatGroupTwoRates | PriceQuantity | LineTotals | UnitCode | SaleTotal
  | PrinterCurrency | PrinterVatGroups | PrinterVatRate | DeviceIdMissing | NotRegistered
  | ReceiptAlreadyOpen | ServiceReceiptOpen | ReceiptCounters | LastDocument
  | ReversalIdFormat | OriginalIdFormat | OriginalNumber | ReturnReason | PrinterReported "nat list"
  | ReportSummary | ReportNumber | TaxGroupTypeError

section \<open>Windows-1251\<close>

definition cp1251High :: "nat list" where
  "cp1251High =
    [0x402, 0x403, 0x201a, 0x453, 0x201e, 0x2026, 0x2020, 0x2021, 0x20ac, 0x2030, 0x409, 0x2039,
     0x40a, 0x40c, 0x40b, 0x40f, 0x452, 0x2018, 0x2019, 0x201c, 0x201d, 0x2022, 0x2013, 0x2014,
     0x98, 0x2122, 0x459, 0x203a, 0x45a, 0x45c, 0x45b, 0x45f, 0xa0, 0x40e, 0x45e, 0x408,
     0xa4, 0x490, 0xa6, 0xa7, 0x401, 0xa9, 0x404, 0xab, 0xac, 0xad, 0xae, 0x407,
     0xb0, 0xb1, 0x406, 0x456, 0x491, 0xb5, 0xb6, 0xb7, 0x451, 0x2116, 0x454, 0xbb,
     0x458, 0x405, 0x455, 0x457, 0x410, 0x411, 0x412, 0x413, 0x414, 0x415, 0x416, 0x417,
     0x418, 0x419, 0x41a, 0x41b, 0x41c, 0x41d, 0x41e, 0x41f, 0x420, 0x421, 0x422, 0x423,
     0x424, 0x425, 0x426, 0x427, 0x428, 0x429, 0x42a, 0x42b, 0x42c, 0x42d, 0x42e, 0x42f,
     0x430, 0x431, 0x432, 0x433, 0x434, 0x435, 0x436, 0x437, 0x438, 0x439, 0x43a, 0x43b,
     0x43c, 0x43d, 0x43e, 0x43f, 0x440, 0x441, 0x442, 0x443, 0x444, 0x445, 0x446, 0x447,
     0x448, 0x449, 0x44a, 0x44b, 0x44c, 0x44d, 0x44e, 0x44f]"

text \<open>A JavaScript \<open>Map\<close> from entries: a later entry replaces an earlier one.\<close>

definition cp1251ByteByCharacter :: "nat \<Rightarrow> nat option" where
  "cp1251ByteByCharacter = map_of (rev (zip [0..<128] [0..<128] @ zip cp1251High [128..<256]))"

definition encode_character :: "config_problem \<Rightarrow> nat \<Rightarrow> config_problem + u8" where
  "encode_character problem c = (case cp1251ByteByCharacter c of
       None \<Rightarrow> Inl problem
     | Some b \<Rightarrow> if b = 0x98 then Inl problem else Inr (word_of_nat b))"

definition encodeDatecsWindows1251 :: "jsstr \<Rightarrow> config_problem + u8 list" where
  "encodeDatecsWindows1251 value = res_map (encode_character NotEncodable) value"

definition decodeDatecsWindows1251 :: "u8 list \<Rightarrow> jsstr" where
  "decodeDatecsWindows1251 value =
     map (\<lambda>b. if b < 0x80 then unat b else cp1251High ! (unat b - 0x80)) value"

section \<open>Decimals\<close>

record decimal =
  coefficient :: int
  scale :: nat

text \<open>\<open>/^(\d+)(?:\.(\d+))?$/\<close>: the whole part and the fraction, empty if there is none.\<close>

definition decimal_match :: "jsstr \<Rightarrow> (jsstr \<times> jsstr) option" where
  "decimal_match s =
     (let whole = takeWhile is_digit s; rest = dropWhile is_digit s in
      if whole = [] then None
      else case rest of
        [] \<Rightarrow> Some (whole, [])
      | c # fraction \<Rightarrow>
          if c = 46 \<and> fraction \<noteq> [] \<and> list_all is_digit fraction then Some (whole, fraction) else None)"

definition parseDecimal :: "nat \<Rightarrow> jsstr \<Rightarrow> config_problem + decimal" where
  "parseDecimal maximumScale value = (case decimal_match (trim value) of
       None \<Rightarrow> Inl NotDecimal
     | Some (whole, fraction) \<Rightarrow>
         if length fraction > maximumScale then Inl NotDecimal
         else Inr \<lparr>coefficient = int (digits_val (whole @ fraction)), scale = length fraction\<rparr>)"

definition parseCents :: "jsstr \<Rightarrow> config_problem + int" where
  "parseCents value = res_bind (parseDecimal 2 value) (\<lambda>p. Inr (coefficient p * 10 ^ (2 - scale p)))"

text \<open>\<open>/^([+-]?)(\d+)(?:\.(\d{1,2}))?$/\<close>\<close>

definition parseSignedCents :: "jsstr \<Rightarrow> config_problem + int" where
  "parseSignedCents value =
     (let t = trim value;
          signed = (t \<noteq> [] \<and> (hd t = 43 \<or> hd t = 45));
          body = (if signed then tl t else t)
      in case decimal_match body of
        None \<Rightarrow> Inl PaymentAmount
      | Some (whole, fraction) \<Rightarrow>
          if length fraction > 2 then Inl PaymentAmount
          else
            let cents = int (digits_val (whole @ padEnd 2 48 fraction))
            in Inr (if signed \<and> hd t = 45 then - cents else cents))"

definition multiplyToCents :: "decimal \<Rightarrow> decimal \<Rightarrow> int" where
  "multiplyToCents price quantity =
     (let numerator = coefficient price * coefficient quantity * 100;
          denominator = 10 ^ (scale price + scale quantity)
      in (numerator + denominator sdiv 2) sdiv denominator)"

definition strip_zeros :: "jsstr \<Rightarrow> jsstr" where
  "strip_zeros s = rev (dropWhile (\<lambda>c. c = 48) (rev s))"

definition formatDecimal :: "decimal \<Rightarrow> jsstr" where
  "formatDecimal v =
     (let raw = padStart (scale v + 1) 48 (bigint_toString (coefficient v)) in
      if scale v = 0 then raw
      else
        let whole = slice raw 0 (- int (scale v));
            fraction = strip_zeros (slice_from raw (- int (scale v)))
        in if fraction \<noteq> [] then whole @ [46] @ fraction else whole)"

definition normalizeRate :: "jsstr \<Rightarrow> config_problem + jsstr" where
  "normalizeRate value = res_bind (parseDecimal 2 value) (\<lambda>p. Inr (formatDecimal p))"

definition formatCents :: "int \<Rightarrow> jsstr" where
  "formatCents cents =
     (let sign = (if cents < 0 then [45] else []);
          absolute = (if cents < 0 then - cents else cents)
      in sign @ bigint_toString (absolute sdiv 100) @ [46] @ padStart 2 48 (bigint_toString (absolute smod 100)))"

section \<open>The code page is a bijection\<close>

definition cp1251 :: "nat list" where
  "cp1251 = [0..<128] @ cp1251High"

lemma length_cp1251High [simp]: "length cp1251High = 128"
  by (simp add: cp1251High_def)

lemma cp1251High_high: "list_all (\<lambda>c. 128 \<le> c) cp1251High"
  by (simp add: cp1251High_def)

lemma distinct_cp1251High: "distinct cp1251High"
  by code_simp

lemma distinct_cp1251: "distinct cp1251"
  using distinct_cp1251High cp1251High_high by (auto simp: cp1251_def list_all_iff)

lemma length_cp1251 [simp]: "length cp1251 = 256"
  by (simp add: cp1251_def)

lemma map_of_rev_distinct: "distinct (map fst xs) \<Longrightarrow> map_of (rev xs) = map_of xs"
  by (subst map_of_inject_set) (simp_all add: rev_map [symmetric])

lemma cp1251_map: "cp1251ByteByCharacter = map_of (zip cp1251 [0..<256])"
proof -
  have "[0..<128] @ [128..<256] = [0..<256::nat]" using upt_add_eq_append [of 0 128 128] by simp
  then have "zip [0..<128] [0..<128] @ zip cp1251High [128..<256] = zip cp1251 [0..<256]"
    by (simp add: cp1251_def flip: zip_append)
  moreover have "distinct (map fst (zip cp1251 [0..<256]))" using distinct_cp1251 by simp
  ultimately show ?thesis by (simp only: cp1251ByteByCharacter_def map_of_rev_distinct)
qed

lemma cp1251_Some_iff: "cp1251ByteByCharacter c = Some b \<longleftrightarrow> b < 256 \<and> cp1251 ! b = c"
proof
  assume "cp1251ByteByCharacter c = Some b"
  then have "(c, b) \<in> set (zip cp1251 [0..<256])" unfolding cp1251_map by (rule map_of_SomeD)
  then show "b < 256 \<and> cp1251 ! b = c" by (auto simp: set_zip)
next
  assume "b < 256 \<and> cp1251 ! b = c"
  then show "cp1251ByteByCharacter c = Some b"
    unfolding cp1251_map using map_of_zip_nth [of cp1251 "[0..<256]" b] distinct_cp1251 by simp
qed

text \<open>The same map without building the table for each look-up.\<close>

lemma cp1251_code [code]:
  "cp1251ByteByCharacter c = (if c < 128 then Some c else map_of (zip cp1251High [128..<256]) c)"
proof (cases "c < 128")
  case True
  then have "cp1251 ! c = c" by (simp add: cp1251_def nth_append)
  with True show ?thesis by (simp add: cp1251_Some_iff)
next
  case False
  define A where "A = zip [0..<128] [0..<128::nat]"
  define B where "B = zip cp1251High [128..<256]"
  have "distinct (map fst B)" "distinct (map fst A)" unfolding A_def B_def using distinct_cp1251High by simp_all
  then have r: "map_of (rev B) = map_of B" "map_of (rev A) = map_of A" by (simp_all only: map_of_rev_distinct)
  have "c \<notin> fst ` set A" using False by (auto simp: A_def dest: set_zip_leftD)
  then have "map_of A c = None" by (simp add: map_of_eq_None_iff)
  then have "map_of (rev (A @ B)) c = map_of B c"
    by (simp add: r map_add_def split: option.split)
  with False show ?thesis by (simp only: cp1251ByteByCharacter_def A_def B_def if_False)
qed

definition decode_byte :: "u8 \<Rightarrow> nat" where
  "decode_byte b = cp1251 ! unat b"

lemma decode_map: "decodeDatecsWindows1251 bs = map decode_byte bs"
  by (auto simp: decodeDatecsWindows1251_def decode_byte_def cp1251_def nth_append word_less_nat_alt)

lemma unat_256: "unat (b :: u8) < 256"
  using unsigned_less [of b, where ?'a = nat] by simp

lemma encode_character_iff:
  "encode_character p c = Inr b \<longleftrightarrow> b \<noteq> 0x98 \<and> c = decode_byte b"
proof
  assume "encode_character p c = Inr b"
  then obtain n where n: "n < 256" "cp1251 ! n = c" "n \<noteq> 0x98" "b = word_of_nat n"
    by (auto simp: encode_character_def cp1251_Some_iff split: option.splits if_splits)
  then have "unat b = n" by (simp add: unat_of_nat take_bit_eq_mod)
  with n show "b \<noteq> 0x98 \<and> c = decode_byte b" by (auto simp: decode_byte_def)
next
  assume a: "b \<noteq> 0x98 \<and> c = decode_byte b"
  then have "cp1251ByteByCharacter c = Some (unat b)"
    using unat_256 [of b] by (simp add: cp1251_Some_iff decode_byte_def)
  moreover have "unat b \<noteq> 0x98" using a word_unat_eq_iff [of b "0x98"] by simp
  ultimately show "encode_character p c = Inr b" by (simp add: encode_character_def)
qed

lemma encode_iff_decode:
  "encodeDatecsWindows1251 s = Inr bs \<longleftrightarrow> 0x98 \<notin> set bs \<and> s = decodeDatecsWindows1251 bs"
  unfolding encodeDatecsWindows1251_def decode_map res_map_Inr_iff
proof (induction s arbitrary: bs)
  case (Cons c s)
  then show ?case by (cases bs) (auto simp: encode_character_iff)
qed auto

text \<open>
  Encoding and decoding the printer's code page are inverse: encoding yields exactly the
  byte strings without the unassigned byte 0x98 that decode to the text, and two different
  texts never have the same bytes.
\<close>

theorem windows1251_roundtrip:
  "(encodeDatecsWindows1251 s = Inr bs \<longleftrightarrow> 0x98 \<notin> set bs \<and> decodeDatecsWindows1251 bs = s) \<and>
   (decodeDatecsWindows1251 bs = decodeDatecsWindows1251 cs \<longrightarrow> bs = cs)"
proof
  show "encodeDatecsWindows1251 s = Inr bs \<longleftrightarrow> 0x98 \<notin> set bs \<and> decodeDatecsWindows1251 bs = s"
    by (auto simp: encode_iff_decode)
  have "inj decode_byte"
    using distinct_cp1251 unat_256 by (auto simp: inj_def decode_byte_def nth_eq_iff_index_eq word_unat_eq_iff)
  then show "decodeDatecsWindows1251 bs = decodeDatecsWindows1251 cs \<longrightarrow> bs = cs"
    by (simp add: decode_map inj_map_eq_map)
qed

theorem windows1251_roundtrip_witness:
  "encodeDatecsWindows1251 (js ''P+12.50'') = Inr [0x50, 0x2b, 0x31, 0x32, 0x2e, 0x35, 0x30]"
  using windows1251_roundtrip [of "js ''P+12.50''" "[0x50, 0x2b, 0x31, 0x32, 0x2e, 0x35, 0x30]" "[]"]
  by (simp add: decodeDatecsWindows1251_def)

section \<open>Amounts\<close>

lemma decimal_match_eq:
  "decimal_match s = Some (w, f) \<longleftrightarrow> w \<noteq> [] \<and> list_all is_digit w \<and> list_all is_digit f \<and>
     s = w @ (if f = [] then [] else 46 # f)"
proof
  assume m: "decimal_match s = Some (w, f)"
  then have w: "w = takeWhile is_digit s" "w \<noteq> []" by (auto simp: decimal_match_def Let_def split: if_splits list.splits)
  have s: "s = w @ dropWhile is_digit s" by (simp add: w(1))
  have d: "list_all is_digit w" by (auto simp: w(1) list_all_iff dest: set_takeWhileD)
  show "w \<noteq> [] \<and> list_all is_digit w \<and> list_all is_digit f \<and> s = w @ (if f = [] then [] else 46 # f)"
    using m s w(2) d by (cases "dropWhile is_digit s") (auto simp: decimal_match_def Let_def split: if_splits)
next
  assume a: "w \<noteq> [] \<and> list_all is_digit w \<and> list_all is_digit f \<and> s = w @ (if f = [] then [] else 46 # f)"
  have "\<not> is_digit 46" by (simp add: is_digit_def)
  then have "takeWhile is_digit s = w" "dropWhile is_digit s = (if f = [] then [] else 46 # f)"
    using a by (auto simp: takeWhile_append dropWhile_append list_all_iff)
  with a show "decimal_match s = Some (w, f)" by (auto simp: decimal_match_def)
qed

text \<open>Two decimals that stand for the same amount.\<close>

definition same_amount :: "decimal \<Rightarrow> decimal \<Rightarrow> bool" where
  "same_amount v w \<longleftrightarrow> coefficient v * 10 ^ scale w = coefficient w * 10 ^ scale v"

lemma decimal_match_digits:
  "decimal_match s = Some (w, f) \<Longrightarrow> (\<forall>c \<in> set s. is_digit c \<or> c = 46) \<and> s \<noteq> []"
  by (auto simp: decimal_match_eq list_all_iff split: if_splits)

lemma numchar_not_space: "is_digit c \<or> c = 46 \<or> c = 45 \<Longrightarrow> \<not> is_space c"
  by (auto simp: char_class_defs)

lemma trim_decimal: "decimal_match s = Some (w, f) \<Longrightarrow> trim s = s"
  using decimal_match_digits [of s w f] numchar_not_space by (intro trim_id) blast

lemma smod_nonneg: "0 \<le> a \<Longrightarrow> 0 < b \<Longrightarrow> a smod b = a mod b" for a b :: int
  by (cases "a = 0") (auto simp: signed_modulo_int_def)

lemma padEnd_2: "length f \<le> 2 \<Longrightarrow> int (digits_val (w @ padEnd 2 48 f)) = int (digits_val (w @ f)) * 10 ^ (2 - length f)"
  by (simp add: padEnd_def digits_val_append [of "w @ f"] flip: append_assoc)

lemma cents_text:
  assumes "0 \<le> a"
  shows "decimal_match (bigint_toString (a sdiv 100) @ [46] @ padStart 2 48 (bigint_toString (a smod 100))) =
     Some (nat_digits (nat (a div 100)), padStart 2 48 (nat_digits (nat (a mod 100))))"
    and "length (padStart 2 48 (nat_digits (nat (a mod 100)))) = 2"
    and "int (digits_val (nat_digits (nat (a div 100)) @ padStart 2 48 (nat_digits (nat (a mod 100))))) = a"
proof -
  have l: "length (nat_digits (nat (a mod 100))) \<le> 2"
    using nat_digits_length_le [of "nat (a mod 100)" 2] by (simp add: nat_less_iff)
  then show two: "length (padStart 2 48 (nat_digits (nat (a mod 100)))) = 2" by (simp add: padStart_def)
  have d: "\<forall>c \<in> set (padStart 2 48 (nat_digits (nat (a mod 100)))). is_digit c"
    using nat_digits_are_digits by (auto simp: padStart_def is_digit_def)
  have ne: "padStart 2 48 (nat_digits (nat (a mod 100))) \<noteq> []" using two by (cases "padStart 2 48 (nat_digits (nat (a mod 100)))") auto
  show "decimal_match (bigint_toString (a sdiv 100) @ [46] @ padStart 2 48 (bigint_toString (a smod 100))) =
     Some (nat_digits (nat (a div 100)), padStart 2 48 (nat_digits (nat (a mod 100))))"
    using assms d ne nat_digits_are_digits
    by (auto simp: decimal_match_eq list_all_iff bigint_toString_def sdiv_nonneg smod_nonneg)
  have "digits_val (padStart 2 48 (nat_digits (nat (a mod 100)))) = nat (a mod 100)"
    by (simp add: padStart_def digits_val_append)
  then show "int (digits_val (nat_digits (nat (a div 100)) @ padStart 2 48 (nat_digits (nat (a mod 100))))) = a"
    using assms two by (simp add: digits_val_append pos_imp_zdiv_nonneg_iff)
qed

lemma parse_format_cents: "parseSignedCents (formatCents c) = Inr c"
proof -
  let ?a = "if c < 0 then - c else c"
  let ?t = "bigint_toString (?a sdiv 100) @ [46] @ padStart 2 48 (bigint_toString (?a smod 100))"
  have a: "0 \<le> ?a" by simp
  note ct = cents_text [OF a]
  have dig: "\<forall>x \<in> set ?t. is_digit x \<or> x = 46" "?t \<noteq> []" using decimal_match_digits [OF ct(1)] by auto
  have "is_digit (hd ?t) \<or> hd ?t = 46" using dig by (meson hd_in_set)
  then have hd: "hd ?t \<noteq> 43 \<and> hd ?t \<noteq> 45" by (auto simp: is_digit_def)
  have trim: "trim (formatCents c) = formatCents c"
  proof (rule trim_id, rule ballI)
    fix x assume "x \<in> set (formatCents c)"
    then have "x \<in> set ?t \<or> x = 45" by (auto simp: formatCents_def Let_def split: if_splits)
    with dig(1) show "\<not> is_space x" using numchar_not_space by blast
  qed
  show ?thesis
    unfolding parseSignedCents_def Let_def trim
    using ct hd dig(2) padEnd_2 [of "padStart 2 48 (nat_digits (nat (?a mod 100)))" "nat_digits (nat (?a div 100))"]
    by (cases "c < 0") (simp_all add: formatCents_def)
qed

lemma parseCents_format: 
  assumes "0 \<le> c"
  shows "parseCents (formatCents c) = Inr c"
proof -
  have f: "formatCents c = bigint_toString (c sdiv 100) @ [46] @ padStart 2 48 (bigint_toString (c smod 100))"
    using assms by (simp add: formatCents_def)
  note ct = cents_text [OF assms, folded f]
  show ?thesis using ct by (simp add: parseCents_def parseDecimal_def trim_decimal [OF ct(1)])
qed

lemma strip_zeros_append: "\<exists>z. s = strip_zeros s @ replicate z 48"
proof -
  have "takeWhile (\<lambda>c. c = 48) (rev s) = replicate (length (takeWhile (\<lambda>c. c = 48) (rev s))) 48"
    by (rule replicate_length_same [symmetric]) (auto dest: set_takeWhileD)
  then have "rev s = replicate (length (takeWhile (\<lambda>c. c = 48) (rev s))) 48 @ dropWhile (\<lambda>c. c = 48) (rev s)"
    by (metis takeWhile_dropWhile_id)
  then have "s = strip_zeros s @ replicate (length (takeWhile (\<lambda>c. c = 48) (rev s))) 48"
    unfolding strip_zeros_def by (metis rev_append rev_replicate rev_rev_ident)
  then show ?thesis by blast
qed

lemma slice_tail: "k \<le> length s \<Longrightarrow> 0 < k \<Longrightarrow> slice s 0 (- int k) = take (length s - k) s \<and> slice_from s (- int k) = drop (length s - k) s"
  by (auto simp: slice_def slice_from_def slice_index_def nat_diff_distrib simp flip: of_nat_diff)

lemma formatDecimal_parts:
  assumes "0 \<le> coefficient v"
  obtains w f z where "decimal_match (formatDecimal v) = Some (w, f)" "length f + z = scale v"
    "int (digits_val (w @ f)) * 10 ^ z = coefficient v"
proof -
  let ?raw = "padStart (scale v + 1) 48 (nat_digits (nat (coefficient v)))"
  let ?k = "scale v"
  have raw: "formatDecimal v = (if ?k = 0 then ?raw else
      let fr = strip_zeros (slice_from ?raw (- int ?k)) in
      if fr \<noteq> [] then slice ?raw 0 (- int ?k) @ [46] @ fr else slice ?raw 0 (- int ?k))"
    using assms by (simp add: formatDecimal_def bigint_toString_def Let_def)
  have len: "?k + 1 \<le> length ?raw" by (simp add: padStart_def)
  have dig: "\<forall>c \<in> set ?raw. is_digit c" using nat_digits_are_digits by (auto simp: padStart_def is_digit_def)
  have val: "digits_val ?raw = nat (coefficient v)" by (simp add: padStart_def digits_val_append)
  let ?w = "take (length ?raw - ?k) ?raw" and ?d = "drop (length ?raw - ?k) ?raw"
  obtain z where z: "?d = strip_zeros ?d @ replicate z 48" using strip_zeros_append by blast
  have wd: "?w \<noteq> []" "\<forall>c \<in> set ?w. is_digit c" "\<forall>c \<in> set (strip_zeros ?d). is_digit c"
    using len dig z by (auto dest: in_set_takeD in_set_dropD) (metis Un_iff dig in_set_dropD set_append)
  have lz: "length (strip_zeros ?d) + z = ?k"
    using arg_cong [OF z, of length] len by simp
  have "digits_val (?w @ strip_zeros ?d @ replicate z 48) = nat (coefficient v)"
    using z val by (metis append_take_drop_id)
  then have "digits_val (?w @ strip_zeros ?d) * 10 ^ z = nat (coefficient v)"
    using digits_val_append [of "?w @ strip_zeros ?d" "replicate z 48"] by simp
  then have "int (digits_val (?w @ strip_zeros ?d) * 10 ^ z) = int (nat (coefficient v))" by (rule arg_cong)
  then have n: "int (digits_val (?w @ strip_zeros ?d)) * 10 ^ z = coefficient v"
    unfolding of_nat_mult of_nat_power of_nat_numeral using assms by (simp only: int_nat_eq if_True)
  have m: "decimal_match (formatDecimal v) = Some (?w, strip_zeros ?d)"
  proof (cases "?k = 0")
    case True
    then show ?thesis using wd raw by (simp add: decimal_match_eq list_all_iff strip_zeros_def)
  next
    case False
    then show ?thesis
      using wd raw slice_tail [of ?k ?raw] len by (simp add: decimal_match_eq list_all_iff Let_def)
  qed
  show thesis by (rule that [OF m lz n])
qed

lemma parse_formatDecimal:
  assumes "0 \<le> coefficient v" "scale v \<le> m"
  shows "\<exists>w. parseDecimal m (formatDecimal v) = Inr w \<and> same_amount v w \<and> scale w \<le> scale v"
proof -
  obtain w f z where p: "decimal_match (formatDecimal v) = Some (w, f)" "length f + z = scale v"
    "int (digits_val (w @ f)) * 10 ^ z = coefficient v" by (rule formatDecimal_parts [OF assms(1)])
  then have "same_amount v \<lparr>coefficient = int (digits_val (w @ f)), scale = length f\<rparr>"
    by (simp add: same_amount_def power_add mult.assoc flip: p(2,3))
  with p assms(2) show ?thesis by (auto simp: parseDecimal_def trim_decimal [OF p(1)])
qed

text \<open>
  What the adapter prints for the printer is read back as the same amount: cents with a sign
  and without, and decimals up to the scale they were parsed with.
\<close>

theorem amount_text_roundtrip:
  "parseSignedCents (formatCents c) = Inr c \<and> (0 \<le> c \<longrightarrow> parseCents (formatCents c) = Inr c) \<and>
   (0 \<le> coefficient v \<longrightarrow> scale v \<le> m \<longrightarrow>
     (\<exists>w. parseDecimal m (formatDecimal v) = Inr w \<and> same_amount v w \<and> scale w \<le> scale v))"
  using parse_format_cents parseCents_format parse_formatDecimal by blast

theorem amount_text_roundtrip_witness:
  "parseCents (formatCents 1250) = Inr 1250 \<and>
   (\<exists>w. parseDecimal 3 (formatDecimal \<lparr>coefficient = 1500, scale = 3\<rparr>) = Inr w \<and>
     same_amount \<lparr>coefficient = 1500, scale = 3\<rparr> w)"
  using amount_text_roundtrip [of 1250 "\<lparr>coefficient = 1500, scale = 3\<rparr>" 3] by auto

lemma half_up_bounds:
  fixes n d :: int
  assumes "0 \<le> n" "0 < d"
  shows "2 * n - d \<le> 2 * (d * ((n + d div 2) div d)) \<and> 2 * (d * ((n + d div 2) div d)) \<le> 2 * n + d"
proof -
  have "d * ((n + d div 2) div d) + (n + d div 2) mod d = n + d div 2" by simp
  moreover have "0 \<le> (n + d div 2) mod d" "(n + d div 2) mod d < d" using assms(2) by simp_all
  moreover have "2 * (d div 2) \<le> d" "d - 1 \<le> 2 * (d div 2)" by linarith+
  ultimately show ?thesis by (smt (verit))
qed

lemma multiplyToCents_eq:
  assumes "0 \<le> coefficient p" "0 \<le> coefficient q"
  shows "multiplyToCents p q = (coefficient p * coefficient q * 100 + 10 ^ (scale p + scale q) div 2)
     div 10 ^ (scale p + scale q)"
  using assms by (simp add: multiplyToCents_def Let_def sdiv_nonneg)

text \<open>
  A price times a quantity is rounded to the nearest cent, ties upwards: twice the error is
  at most one cent, in units of the exact product.
\<close>

theorem multiplyToCents_nearest:
  assumes "0 \<le> coefficient p" and "0 \<le> coefficient q"
  shows "let d = 10 ^ (scale p + scale q); n = coefficient p * coefficient q * 100; c = multiplyToCents p q
    in 0 \<le> c \<and> 2 * n - d \<le> 2 * (d * c) \<and> 2 * (d * c) \<le> 2 * n + d"
  using half_up_bounds [of "coefficient p * coefficient q * 100" "10 ^ (scale p + scale q)"] assms
  by (simp add: multiplyToCents_eq Let_def pos_imp_zdiv_nonneg_iff)

theorem multiplyToCents_nearest_witness:
  "0 \<le> multiplyToCents \<lparr>coefficient = 12345, scale = 4\<rparr> \<lparr>coefficient = 3, scale = 0\<rparr>"
  using multiplyToCents_nearest [of "\<lparr>coefficient = 12345, scale = 4\<rparr>" "\<lparr>coefficient = 3, scale = 0\<rparr>"]
  by (simp add: Let_def)

end
