(* ===== verification/DatecsTransport.thy ===== *)
theory DatecsTransport
  imports Complex_Main DatecsProtocol
begin

text \<open>
  \<open>apps/pos-web/src/fiscal/datecs-transport.ts\<close>: the byte transport over a serial port.
  Bytes arrive in chunks of any size; \<open>appendBytes\<close> cuts them into messages and hands each
  message to the oldest waiting reader or queues it. The class is a record; every method and
  every callback that can run (a chunk read, a timer, the two halves of \<open>close\<close>) is a function
  on it, and \<open>transport_step\<close> interleaves them.

  The promise that \<open>readMessage\<close> returns is named by a number; \<open>settled\<close> is the log of the
  promises settled so far. The serial port itself is outside: whether it opens, whether it has
  its two streams, and what each read returns are arguments of the steps.
\<close>

section \<open>State\<close>

datatype transport_error =
    TransportClosed | NoStreams | NotOpen | TimeoutNotPositive | Disconnected
  | DeviceFailed | PortOpenFailed | PortRequestFailed | ConnectionWasClosed | ResponseTimeout | SerialUnsupported

datatype read_outcome = Message "u8 list" | Failed transport_error

datatype read_loop = NoLoop | Reading | LoopEnded

text \<open>A \<open>number\<close> with \<open>Number.isFinite\<close>.\<close>

datatype jsfloat = Finite rat | NotFinite

record WebSerialDatecsTransport =
  reader :: bool
  writer :: bool
  readBuffer :: "u8 list"
  messages :: "u8 list list"
  waiters :: "nat list"
  timers :: "nat list"
  settled :: "(nat \<times> read_outcome) list"
  nextWaiter :: nat
  readFailure :: "transport_error option"
  readLoop :: read_loop
  opened :: bool
  closed :: bool
  written :: "u8 list list"

definition new_transport :: WebSerialDatecsTransport where
  "new_transport = \<lparr>reader = False, writer = False, readBuffer = [], messages = [], waiters = [],
     timers = [], settled = [], nextWaiter = 0, readFailure = None, readLoop = NoLoop,
     opened = False, closed = False, written = []\<rparr>"

definition MIN_FRAME_LENGTH :: int where "MIN_FRAME_LENGTH = 17"
definition MAX_FRAME_LENGTH :: int where "MAX_FRAME_LENGTH = 229"

section \<open>Waiters\<close>

definition clearTimeout :: "nat \<Rightarrow> WebSerialDatecsTransport \<Rightarrow> WebSerialDatecsTransport" where
  "clearTimeout w t = t\<lparr>timers := remove1 w (timers t)\<rparr>"

definition settle :: "nat \<Rightarrow> read_outcome \<Rightarrow> WebSerialDatecsTransport \<Rightarrow> WebSerialDatecsTransport" where
  "settle w v t = t\<lparr>settled := settled t @ [(w, v)]\<rparr>"

definition deliver :: "u8 list \<Rightarrow> WebSerialDatecsTransport \<Rightarrow> WebSerialDatecsTransport" where
  "deliver m t = (case waiters t of
       [] \<Rightarrow> t\<lparr>messages := messages t @ [m]\<rparr>
     | w # ws \<Rightarrow> settle w (Message m) (clearTimeout w (t\<lparr>waiters := ws\<rparr>)))"

definition rejectWaiters :: "transport_error \<Rightarrow> WebSerialDatecsTransport \<Rightarrow> WebSerialDatecsTransport" where
  "rejectWaiters e t =
     fold (\<lambda>w t. settle w (Failed e) (clearTimeout w t)) (waiters t) (t\<lparr>waiters := []\<rparr>)"

definition removeWaiter :: "nat \<Rightarrow> WebSerialDatecsTransport \<Rightarrow> WebSerialDatecsTransport" where
  "removeWaiter w t = t\<lparr>waiters := remove1 w (waiters t)\<rparr>"

section \<open>Cutting the byte stream into messages\<close>

definition start_byte :: "u8 \<Rightarrow> bool" where
  "start_byte b \<longleftrightarrow> b = STX \<or> b = NAK \<or> b = SYN"

fun findIndex :: "('a \<Rightarrow> bool) \<Rightarrow> 'a list \<Rightarrow> int" where
  "findIndex P [] = - 1"
| "findIndex P (x # xs) = (if P x then 0 else let i = findIndex P xs in if i < 0 then i else i + 1)"

definition declared_length_bad :: "u8 \<Rightarrow> bool" where
  "declared_length_bad b \<longleftrightarrow> uint b < 0x20 \<or> uint b - 0x20 + 6 < MIN_FRAME_LENGTH \<or>
     uint b - 0x20 + 6 > MAX_FRAME_LENGTH"

lemma drop_findIndex:
  "findIndex P xs = - 1 \<and> dropWhile (\<lambda>x. \<not> P x) xs = [] \<or>
   0 \<le> findIndex P xs \<and> dropWhile (\<lambda>x. \<not> P x) xs \<noteq> [] \<and>
   drop (nat (findIndex P xs)) xs = dropWhile (\<lambda>x. \<not> P x) xs"
proof (induction xs)
  case (Cons x xs)
  then show ?case
    by (cases "P x"; cases "findIndex P xs < 0") (auto simp: Let_def nat_add_distrib)
qed simp

text \<open>The body of the loop: \<open>Inl\<close> for a \<open>return\<close>, \<open>Inr\<close> for the next turn of the \<open>while\<close>.\<close>

definition append_turn ::
  "WebSerialDatecsTransport \<Rightarrow> WebSerialDatecsTransport + WebSerialDatecsTransport" where
  "append_turn t0 =
     (let start = findIndex start_byte (readBuffer t0) in
      if start < 0 then Inl (t0\<lparr>readBuffer := []\<rparr>)
      else
        let t = (if start > 0 then t0\<lparr>readBuffer := drop (nat start) (readBuffer t0)\<rparr> else t0);
            firstByte = readBuffer t ! 0
        in
        if firstByte = NAK \<or> firstByte = SYN then
          Inr ((deliver (take 1 (readBuffer t)) t)\<lparr>readBuffer := drop 1 (readBuffer t)\<rparr>)
        else if length (readBuffer t) < 2 then Inl t
        else
          let declaredLength = readBuffer t ! 1;
              frameLength = uint declaredLength - 0x20 + 6
          in
          if declared_length_bad declaredLength then Inr (t\<lparr>readBuffer := drop 1 (readBuffer t)\<rparr>)
          else if int (length (readBuffer t)) < frameLength then Inl t
          else
            let message = take (nat frameLength) (readBuffer t);
                t' = t\<lparr>readBuffer := drop (nat frameLength) (readBuffer t)\<rparr>
            in Inr (if last message = ETX then deliver message t' else t'))"

lemma deliver_readBuffer [simp]: "readBuffer (deliver m t) = readBuffer t"
  by (simp add: deliver_def settle_def clearTimeout_def split: list.splits)

text \<open>The buffer from its first start byte on.\<close>

definition align :: "WebSerialDatecsTransport \<Rightarrow> WebSerialDatecsTransport" where
  "align t = t\<lparr>readBuffer := dropWhile (\<lambda>b. \<not> start_byte b) (readBuffer t)\<rparr>"

definition aligned_turn ::
  "WebSerialDatecsTransport \<Rightarrow> WebSerialDatecsTransport + WebSerialDatecsTransport" where
  "aligned_turn t = (case readBuffer t of
       [] \<Rightarrow> Inl t
     | b # rest \<Rightarrow>
         if b = NAK \<or> b = SYN then Inr ((deliver [b] t)\<lparr>readBuffer := rest\<rparr>)
         else case rest of [] \<Rightarrow> Inl t | d # _ \<Rightarrow>
           (if declared_length_bad d then Inr (t\<lparr>readBuffer := rest\<rparr>)
            else
              let n = nat (uint d - 26) in
              if length (readBuffer t) < n then Inl t
              else
                let m = take n (readBuffer t); t' = t\<lparr>readBuffer := drop n (readBuffer t)\<rparr>
                in Inr (if last m = ETX then deliver m t' else t')))"

lemma append_turn_eq: "append_turn t = aligned_turn (align t)"
proof -
  let ?i = "findIndex start_byte (readBuffer t)"
  consider "?i < 0" "dropWhile (\<lambda>b. \<not> start_byte b) (readBuffer t) = []"
    | b rest where "0 \<le> ?i" "drop (nat ?i) (readBuffer t) = b # rest"
        "dropWhile (\<lambda>b. \<not> start_byte b) (readBuffer t) = b # rest"
    using drop_findIndex [of start_byte "readBuffer t"]
    by (cases "dropWhile (\<lambda>b. \<not> start_byte b) (readBuffer t)") auto
  then show ?thesis
  proof cases
    case 1
    have "align t = t\<lparr>readBuffer := []\<rparr>" using 1(2) by (simp only: align_def)
    with 1(1) show ?thesis by (simp add: append_turn_def aligned_turn_def)
  next
    case 2
    let ?t = "if ?i > 0 then t\<lparr>readBuffer := drop (nat ?i) (readBuffer t)\<rparr> else t"
    have "?t = align t" using 2 by (cases "?i = 0") (auto simp: align_def)
    moreover have "readBuffer (align t) = b # rest" using 2 by (simp add: align_def)
    ultimately show ?thesis
      using 2(1) by (cases rest)
        (auto simp: append_turn_def aligned_turn_def Let_def not_less declared_length_bad_def
          MIN_FRAME_LENGTH_def)
  qed
qed

lemma align_le: "length (readBuffer (align t)) \<le> length (readBuffer t)"
  by (simp add: align_def length_dropWhile_le)

lemma append_turn_decreases:
  assumes "append_turn t = Inr t'"
  shows "length (readBuffer t') < length (readBuffer t)"
proof -
  have "length (readBuffer t') < length (readBuffer (align t))"
    using assms unfolding append_turn_eq aligned_turn_def
    by (auto simp: Let_def declared_length_bad_def MIN_FRAME_LENGTH_def split: list.splits if_splits)
  with align_le [of t] show ?thesis by simp
qed

function append_loop :: "WebSerialDatecsTransport \<Rightarrow> WebSerialDatecsTransport" where
  "append_loop t =
     (if readBuffer t = [] then t
      else case append_turn t of Inl t' \<Rightarrow> t' | Inr t' \<Rightarrow> append_loop t')"
  by pat_completeness auto
termination
  by (relation "measure (\<lambda>t. length (readBuffer t))") (auto intro: append_turn_decreases)

declare append_loop.simps [simp del]

definition appendBytes :: "u8 list \<Rightarrow> WebSerialDatecsTransport \<Rightarrow> WebSerialDatecsTransport" where
  "appendBytes bytes t = append_loop (t\<lparr>readBuffer := readBuffer t @ bytes\<rparr>)"

section \<open>Methods\<close>

text \<open>The port's \<open>open\<close> may reject, and its streams may be missing.\<close>

definition open_transport :: "bool \<Rightarrow> bool \<Rightarrow> WebSerialDatecsTransport \<Rightarrow>
    (transport_error + unit) \<times> WebSerialDatecsTransport" where
  "open_transport portOpens hasStreams t =
     (if opened t then (Inr (), t)
      else if closed t then (Inl TransportClosed, t)
      else if \<not> portOpens then (Inl PortOpenFailed, t)
      else if \<not> hasStreams then (Inl NoStreams, t)
      else (Inr (), t\<lparr>reader := True, writer := True, opened := True, readLoop := Reading\<rparr>))"

definition write_frame :: "u8 list \<Rightarrow> WebSerialDatecsTransport \<Rightarrow>
    (transport_error + unit) \<times> WebSerialDatecsTransport" where
  "write_frame frame t =
     (if \<not> opened t \<or> \<not> writer t \<or> closed t then (Inl NotOpen, t)
      else (Inr (), t\<lparr>written := written t @ [frame]\<rparr>))"

definition timeout_ok :: "jsfloat \<Rightarrow> bool" where
  "timeout_ok timeoutMs \<longleftrightarrow> (case timeoutMs of Finite ms \<Rightarrow> 0 < ms | NotFinite \<Rightarrow> False)"

text \<open>The promise returned is number \<open>nextWaiter t\<close>.\<close>

definition readMessage :: "jsfloat \<Rightarrow> WebSerialDatecsTransport \<Rightarrow> WebSerialDatecsTransport" where
  "readMessage timeoutMs t0 =
     (let w = nextWaiter t0; t = t0\<lparr>nextWaiter := w + 1\<rparr> in
      if \<not> timeout_ok timeoutMs then settle w (Failed TimeoutNotPositive) t
      else case messages t of
        queued # rest \<Rightarrow> settle w (Message queued) (t\<lparr>messages := rest\<rparr>)
      | [] \<Rightarrow>
          (case readFailure t of
             Some e \<Rightarrow> settle w (Failed e) t
           | None \<Rightarrow>
               if \<not> opened t \<or> closed t then settle w (Failed NotOpen) t
               else t\<lparr>waiters := waiters t @ [w], timers := timers t @ [w]\<rparr>))"

definition timer_fires :: "nat \<Rightarrow> WebSerialDatecsTransport \<Rightarrow> WebSerialDatecsTransport" where
  "timer_fires w t = settle w (Failed ResponseTimeout) (removeWaiter w (clearTimeout w t))"

text \<open>What a read of the port returns to \<open>pumpMessages\<close>: bytes, the end, or an error.\<close>

datatype read_result = Chunk "u8 list" | Done | ReadError

definition pump_failed :: "transport_error \<Rightarrow> WebSerialDatecsTransport \<Rightarrow> WebSerialDatecsTransport" where
  "pump_failed e t =
     (if closed t then t\<lparr>readLoop := LoopEnded\<rparr>
      else rejectWaiters e (t\<lparr>readFailure := Some e, readLoop := LoopEnded\<rparr>))"

definition pumpMessages :: "read_result \<Rightarrow> WebSerialDatecsTransport \<Rightarrow> WebSerialDatecsTransport" where
  "pumpMessages result t = (case result of
       Done \<Rightarrow> if \<not> closed t then pump_failed Disconnected t else t\<lparr>readLoop := LoopEnded\<rparr>
     | ReadError \<Rightarrow> pump_failed DeviceFailed t
     | Chunk bytes \<Rightarrow>
         let t' = (if bytes \<noteq> [] then appendBytes bytes t else t)
         in if closed t' then t'\<lparr>readLoop := LoopEnded\<rparr> else t')"

definition close_start :: "WebSerialDatecsTransport \<Rightarrow> WebSerialDatecsTransport" where
  "close_start t = (if closed t then t else rejectWaiters ConnectionWasClosed (t\<lparr>closed := True\<rparr>))"

text \<open>After the reader is cancelled and the writer closed (their errors are ignored).\<close>

definition close_end :: "WebSerialDatecsTransport \<Rightarrow> WebSerialDatecsTransport" where
  "close_end t = t\<lparr>reader := False, writer := False, opened := False\<rparr>"

definition requestDatecsSerialTransport :: "bool \<Rightarrow> bool \<Rightarrow> bool \<Rightarrow> bool \<Rightarrow>
    transport_error + WebSerialDatecsTransport" where
  "requestDatecsSerialTransport hasProvider portGranted portOpens hasStreams =
     (if \<not> hasProvider then Inl SerialUnsupported
      else if \<not> portGranted then Inl PortRequestFailed
      else case open_transport portOpens hasStreams new_transport of
        (Inr _, t) \<Rightarrow> Inr t
      | (Inl e, t) \<Rightarrow> Inl e)"

section \<open>The messages of a byte stream\<close>

text \<open>
  The reference: the messages that a whole byte stream contains, and the bytes left over.
\<close>

function scan :: "u8 list \<Rightarrow> u8 list list \<times> u8 list" where
  "scan buf = (case dropWhile (\<lambda>b. \<not> start_byte b) buf of
       [] \<Rightarrow> ([], [])
     | b # rest \<Rightarrow>
         if b = NAK \<or> b = SYN then (let (ms, r) = scan rest in ([b] # ms, r))
         else (case rest of [] \<Rightarrow> ([], [b]) | d # _ \<Rightarrow>
           if declared_length_bad d then scan rest
           else if length (b # rest) < nat (uint d - 26) then ([], b # rest)
           else
             let m = take (nat (uint d - 26)) (b # rest);
                 (ms, r) = scan (drop (nat (uint d - 26)) (b # rest))
             in (if last m = ETX then m # ms else ms, r)))"
  by pat_completeness auto

lemma dropWhile_shorter: "dropWhile P xs = y # ys \<Longrightarrow> length ys < length xs"
  using length_dropWhile_le [of P xs] by simp

lemma good_length: "\<not> declared_length_bad d \<Longrightarrow> 17 \<le> nat (uint d - 26) \<and> nat (uint d - 26) \<le> 229"
  unfolding declared_length_bad_def MIN_FRAME_LENGTH_def MAX_FRAME_LENGTH_def by linarith

termination scan
  by (relation "measure length") (auto dest!: dropWhile_shorter good_length)

declare scan.simps [simp del]

lemma scan_Nil [simp]: "scan [] = ([], [])"
  by (simp add: scan.simps)

lemma scan_dropWhile: "scan (dropWhile (\<lambda>b. \<not> start_byte b) xs) = scan xs"
  by (subst (1 2) scan.simps) simp

lemma scan_garbage: "\<forall>b \<in> set g. \<not> start_byte b \<Longrightarrow> scan (g @ xs) = scan xs"
  by (metis scan_dropWhile dropWhile_append2)

lemma start_byte_cases: "start_byte b \<Longrightarrow> b \<noteq> NAK \<Longrightarrow> b \<noteq> SYN \<Longrightarrow> b = STX"
  by (auto simp: start_byte_def)

lemma scan_signal: "b = NAK \<or> b = SYN \<Longrightarrow> scan (b # xs) = ([b] # fst (scan xs), snd (scan xs))"
  by (subst scan.simps) (auto simp: start_byte_def split: prod.split)

lemma not_signal [simp]: "STX \<noteq> NAK" "STX \<noteq> SYN"
  by (simp_all add: frame_bytes)

lemma scan_stx [simp]: "scan [STX] = ([], [STX])"
  by (subst scan.simps) (simp add: start_byte_def)

lemma scan_bad: "declared_length_bad d \<Longrightarrow> scan (STX # d # xs) = scan (d # xs)"
  by (subst scan.simps) (simp add: start_byte_def)

lemma scan_short:
  "\<not> declared_length_bad d \<Longrightarrow> length (STX # d # xs) < nat (uint d - 26) \<Longrightarrow> scan (STX # d # xs) = ([], STX # d # xs)"
  by (subst scan.simps) (simp add: start_byte_def)

lemma scan_frame:
  assumes "\<not> declared_length_bad d" and "nat (uint d - 26) \<le> length (STX # d # xs)"
  shows "scan (STX # d # xs) =
    (let m = take (nat (uint d - 26)) (STX # d # xs); (ms, r) = scan (drop (nat (uint d - 26)) (STX # d # xs))
     in (if last m = ETX then m # ms else ms, r))"
  using assms by (subst scan.simps) (simp add: start_byte_def)

lemmas scan_rules = scan_signal scan_bad scan_short scan_frame

text \<open>An induction that follows the scanner over an aligned buffer.\<close>

lemma scan_cases:
  obtains (none) "dropWhile (\<lambda>b. \<not> start_byte b) xs = []"
  | (signal) b rest where "dropWhile (\<lambda>b. \<not> start_byte b) xs = b # rest" "b = NAK \<or> b = SYN"
  | (stx) "dropWhile (\<lambda>b. \<not> start_byte b) xs = [STX]"
  | (bad) d rest where "dropWhile (\<lambda>b. \<not> start_byte b) xs = STX # d # rest" "declared_length_bad d"
  | (short) d rest where "dropWhile (\<lambda>b. \<not> start_byte b) xs = STX # d # rest"
      "\<not> declared_length_bad d" "length (STX # d # rest) < nat (uint d - 26)"
  | (frame) d rest where "dropWhile (\<lambda>b. \<not> start_byte b) xs = STX # d # rest"
      "\<not> declared_length_bad d" "nat (uint d - 26) \<le> length (STX # d # rest)"
proof (cases "dropWhile (\<lambda>b. \<not> start_byte b) xs")
  case Nil
  then show ?thesis by (rule none)
next
  case (Cons b rest)
  then have "start_byte b" by (metis dropWhile_eq_Cons_conv)
  then consider "b = NAK \<or> b = SYN" | "b = STX" using start_byte_cases by blast
  then show ?thesis
  proof cases
    case 1
    with Cons show ?thesis by (rule signal)
  next
    case 2
    with Cons show ?thesis using stx bad short frame
      by (cases rest) (simp, metis linorder_not_less)
  qed
qed

lemma dropWhile_append_eq:
  "dropWhile P xs = y # ys \<Longrightarrow> dropWhile P (xs @ zs) = y # ys @ zs"
  by (metis append_Cons dropWhile_append1 dropWhile_eq_Nil_conv list.distinct(1))

lemma scan_append:
  "scan (xs @ ys) = (let (ms, r) = scan xs; (ns, r') = scan (r @ ys) in (ms @ ns, r'))"
proof (induction "length xs" arbitrary: xs rule: less_induct)
  case less
  have whole: "scan (xs @ ys) = scan (z # zs @ ys)" "scan xs = scan (z # zs)"
    if "dropWhile (\<lambda>b. \<not> start_byte b) xs = z # zs" for z zs
    using that scan_dropWhile [of "xs @ ys"] scan_dropWhile [of xs] by (simp_all add: dropWhile_append_eq)
  show ?case
  proof (cases xs rule: scan_cases)
    case none
    then have "\<forall>b \<in> set xs. \<not> start_byte b" by simp
    then show ?thesis using scan_garbage [of xs "[]"] scan_garbage [of xs ys] by (simp split: prod.split)
  next
    case (signal b rest)
    with less dropWhile_shorter [OF signal(1)] show ?thesis
      by (simp add: whole [OF signal(1)] scan_signal split: prod.splits)
  next
    case stx
    then show ?thesis using whole [OF stx] by (simp split: prod.splits)
  next
    case (bad d rest)
    with less [of "d # rest"] dropWhile_shorter [OF bad(1)] show ?thesis
      by (simp add: whole [OF bad(1)] scan_bad)
  next
    case (short d rest)
    then show ?thesis using whole [OF short(1)] by (simp add: scan_short split: prod.splits)
  next
    case (frame d rest)
    let ?n = "nat (uint d - 26)"
    have lt: "length (drop ?n (STX # d # rest)) < length xs"
      using good_length [OF frame(2)] dropWhile_shorter [OF frame(1)] by (simp, linarith)
    have split: "take ?n (STX # d # rest @ ys) = take ?n (STX # d # rest)"
      "drop ?n (STX # d # rest @ ys) = drop ?n (STX # d # rest) @ ys"
      using frame(3) by (metis append_Cons take_append append_Nil2 take_0 diff_is_0_eq,
          metis append_Cons drop_append drop_0 diff_is_0_eq)
    show ?thesis
      using less [OF lt] frame(2,3) whole [OF frame(1)]
      by (auto simp: scan_frame split Let_def split: prod.splits)
  qed
qed

text \<open>Every delivered message is a signal byte or a complete frame of its declared length.\<close>

definition is_message :: "u8 list \<Rightarrow> bool" where
  "is_message m \<longleftrightarrow> m = [NAK] \<or> m = [SYN] \<or>
     17 \<le> length m \<and> hd m = STX \<and> last m = ETX \<and> \<not> declared_length_bad (m ! 1) \<and>
     uint (m ! 1) - 26 = int (length m)"

lemma scan_message:
  assumes "is_message m"
  shows "scan (m @ xs) = (m # fst (scan xs), snd (scan xs))"
proof (cases "m = [NAK] \<or> m = [SYN]")
  case True
  then show ?thesis by (auto simp: scan_signal)
next
  case False
  with assms have m: "17 \<le> length m" "hd m = STX" "last m = ETX" "\<not> declared_length_bad (m ! 1)"
    "nat (uint (m ! 1) - 26) = length m" by (auto simp: is_message_def)
  then obtain d rest where e: "m = STX # d # rest" by (cases m; cases "tl m") auto
  with m show ?thesis by (simp add: scan_frame [of d "rest @ xs"] split: prod.split)
qed

lemma scan_messages_valid: "m \<in> set (fst (scan xs)) \<Longrightarrow> is_message m"
proof (induction "length xs" arbitrary: xs rule: less_induct)
  case less
  have whole: "scan xs = scan (z # zs)" if "dropWhile (\<lambda>b. \<not> start_byte b) xs = z # zs" for z zs
    using that scan_dropWhile [of xs] by simp
  show ?case
  proof (cases xs rule: scan_cases)
    case none
    then show ?thesis using less.prems scan_dropWhile [of xs] scan_Nil by (metis empty_iff fst_conv list.set(1))
  next
    case (signal b rest)
    with less dropWhile_shorter [OF signal(1)] show ?thesis
      by (auto simp: whole [OF signal(1)] scan_signal is_message_def)
  next
    case stx
    then show ?thesis using less.prems by (simp add: whole [OF stx])
  next
    case (bad d rest)
    with less.hyps [of "d # rest"] less.prems dropWhile_shorter [OF bad(1)] show ?thesis
      by (simp add: whole [OF bad(1)] scan_bad)
  next
    case (short d rest)
    then show ?thesis using less.prems by (simp add: whole [OF short(1)] scan_short)
  next
    case (frame d rest)
    let ?n = "nat (uint d - 26)"
    have lt: "length (drop ?n (STX # d # rest)) < length xs"
      using good_length [OF frame(2)] dropWhile_shorter [OF frame(1)] by (simp, linarith)
    have "is_message (take ?n (STX # d # rest))" if "last (take ?n (STX # d # rest)) = ETX"
    proof -
      define k where "k = ?n - 2"
      then have k: "?n = Suc (Suc k)" "15 \<le> k" using good_length [OF frame(2)] by linarith+
      then have "uint d - 26 = int (Suc (Suc k))" by simp
      with that k frame(2,3) show ?thesis by (simp add: is_message_def)
    qed
    with less.hyps [OF lt] less.prems frame(2,3) show ?thesis
      by (auto simp: whole [OF frame(1)] scan_frame Let_def split: prod.splits if_splits)
  qed
qed

text \<open>
  The interface of a splitter, and what its clients get from it: the result does not depend on
  how the stream was cut into chunks.
\<close>

locale stream_splitter =
  fixes split :: "'b list \<Rightarrow> 'm list \<times> 'b list"
  assumes split_Nil: "split [] = ([], [])"
    and split_append: "split (xs @ ys) = (let (ms, r) = split xs; (ns, r') = split (r @ ys) in (ms @ ns, r'))"
begin

lemma rest_is_final: "split (snd (split xs)) = ([], snd (split xs))"
proof -
  obtain ms r where 1: "split xs = (ms, r)" by fastforce
  obtain ns r' where 2: "split r = (ns, r')" by fastforce
  have "ns = [] \<and> r' = r" using split_append [of xs "[]"] by (simp add: 1 2)
  with 1 2 show ?thesis by simp
qed

lemma chunked:
  "foldl (\<lambda>(ms, r) c. let (ns, r') = split (r @ c) in (ms @ ns, r')) (split xs) cs = split (xs @ concat cs)"
proof (induction cs arbitrary: xs)
  case (Cons c cs)
  have "(\<lambda>(ms, r) c. let (ns, r') = split (r @ c) in (ms @ ns, r')) (split xs) c = split (xs @ c)"
    by (simp add: split_append [of xs c] split: prod.splits)
  with Cons [of "xs @ c"] show ?case by simp
qed simp

lemma chunks_irrelevant:
  "concat cs = concat ds \<Longrightarrow>
   foldl (\<lambda>(ms, r) c. let (ns, r') = split (r @ c) in (ms @ ns, r')) ([], []) cs =
   foldl (\<lambda>(ms, r) c. let (ns, r') = split (r @ c) in (ms @ ns, r')) ([], []) ds"
  using chunked [of "[]" cs] chunked [of "[]" ds] by (simp add: split_Nil)

end

interpretation frames: stream_splitter scan
  by unfold_locales (rule scan_Nil, rule scan_append)

section \<open>The loop delivers what the scanner finds\<close>

lemma deliver_upd [simp]: "deliver m (t\<lparr>readBuffer := b\<rparr>) = (deliver m t)\<lparr>readBuffer := b\<rparr>"
  by (simp add: deliver_def settle_def clearTimeout_def split: list.splits)

lemma fold_deliver_upd [simp]:
  "fold deliver ms (t\<lparr>readBuffer := b\<rparr>) = (fold deliver ms t)\<lparr>readBuffer := b\<rparr>"
  by (induction ms arbitrary: t) simp_all

lemma append_loop_scan:
  "append_loop t = (fold deliver (fst (scan (readBuffer t))) t)\<lparr>readBuffer := snd (scan (readBuffer t))\<rparr>"
proof (induction t rule: append_loop.induct)
  case (1 t)
  let ?b = "readBuffer t"
  show ?case
  proof (cases "?b = []")
    case True
    then show ?thesis by (simp add: append_loop.simps [of t])
  next
    case False
    note step = append_loop.simps [of t] append_turn_eq [of t] aligned_turn_def align_def
    have whole: "scan ?b = scan (z # zs)" if "dropWhile (\<lambda>b. \<not> start_byte b) ?b = z # zs" for z zs
      using that scan_dropWhile [of ?b] by simp
    have IH: "append_turn t = Inr t' \<Longrightarrow> append_loop t' =
        (fold deliver (fst (scan (readBuffer t'))) t')\<lparr>readBuffer := snd (scan (readBuffer t'))\<rparr>" for t'
      using 1 [OF False] by simp
    show ?thesis
    proof (cases ?b rule: scan_cases)
      case none
      then have "scan ?b = ([], [])" using scan_dropWhile [of ?b] by (metis scan_Nil)
      then show ?thesis using False none by (simp add: step del: dropWhile_eq_Nil_conv)
    next
      case (signal b rest)
      then have "append_turn t = Inr ((deliver [b] t)\<lparr>readBuffer := rest\<rparr>)"
        by (auto simp: step)
      from IH [OF this] this show ?thesis
        using False signal(2) by (simp add: append_loop.simps [of t] whole [OF signal(1)] scan_signal)
    next
      case stx
      then show ?thesis using False by (simp add: step whole [OF stx])
    next
      case (bad d rest)
      then have "append_turn t = Inr (t\<lparr>readBuffer := d # rest\<rparr>)" by (simp add: step)
      from IH [OF this] this show ?thesis
        using False bad(2) by (simp add: append_loop.simps [of t] whole [OF bad(1)] scan_bad)
    next
      case (short d rest)
      then have "append_turn t = Inl (t\<lparr>readBuffer := STX # d # rest\<rparr>)" by (simp add: step)
      then show ?thesis
        using False short by (simp add: append_loop.simps [of t] whole [OF short(1)] scan_short)
    next
      case (frame d rest)
      let ?n = "nat (uint d - 26)"
      let ?m = "take ?n (STX # d # rest)"
      have "append_turn t = Inr ((if last ?m = ETX then deliver ?m t else t)\<lparr>readBuffer := drop ?n (STX # d # rest)\<rparr>)"
        using frame by (simp add: step Let_def)
      from IH [OF this] this show ?thesis
        using False frame(2,3)
        by (simp add: append_loop.simps [of t] whole [OF frame(1)] scan_frame split: prod.splits)
    qed
  qed
qed

lemma appendBytes_scan:
  "appendBytes bytes t = (fold deliver (fst (scan (readBuffer t @ bytes))) t)
     \<lparr>readBuffer := snd (scan (readBuffer t @ bytes))\<rparr>"
  by (simp add: appendBytes_def append_loop_scan)

section \<open>Interleavings\<close>

datatype transport_event =
    EOpen bool bool | EWrite "u8 list" | ERead jsfloat | EPump read_result | ETimer nat
  | EClose | ECloseEnd

text \<open>
  Any method may be called at any time; the read loop continues when a read returns, a timer
  fires while it is set, and the second half of \<open>close\<close> follows the first.
\<close>

inductive transport_step ::
  "WebSerialDatecsTransport \<Rightarrow> transport_event \<Rightarrow> WebSerialDatecsTransport \<Rightarrow> bool" where
  step_open: "transport_step t (EOpen p s) (snd (open_transport p s t))"
| step_write: "transport_step t (EWrite f) (snd (write_frame f t))"
| step_read: "transport_step t (ERead ms) (readMessage ms t)"
| step_pump: "readLoop t = Reading \<Longrightarrow> transport_step t (EPump r) (pumpMessages r t)"
| step_timer: "w \<in> set (timers t) \<Longrightarrow> transport_step t (ETimer w) (timer_fires w t)"
| step_close: "transport_step t EClose (close_start t)"
| step_close_end: "closed t \<Longrightarrow> transport_step t ECloseEnd (close_end t)"

inductive_cases transport_stepE: "transport_step t e t'"

inductive transport_run :: "transport_event list \<Rightarrow> WebSerialDatecsTransport \<Rightarrow> bool" where
  run_new: "transport_run [] new_transport"
| run_step: "transport_run es t \<Longrightarrow> transport_step t e t' \<Longrightarrow> transport_run (es @ [e]) t'"

fun chunk_of :: "transport_event \<Rightarrow> u8 list" where
  "chunk_of (EPump (Chunk bytes)) = bytes"
| "chunk_of _ = []"

definition received :: "transport_event list \<Rightarrow> u8 list" where
  "received es = concat (map chunk_of es)"

fun message_of :: "nat \<times> read_outcome \<Rightarrow> u8 list list" where
  "message_of (w, Message m) = [m]"
| "message_of (w, Failed e) = []"

text \<open>The messages given to the callers of \<open>readMessage\<close>, in the order they got them.\<close>

definition handed :: "WebSerialDatecsTransport \<Rightarrow> u8 list list" where
  "handed t = concat (map message_of (settled t))"

text \<open>
  Every promise returned so far is settled once or waits, never both; a waiting one has its
  timer set, and waits only while nothing is queued and the read loop runs.
\<close>

definition wf_transport :: "WebSerialDatecsTransport \<Rightarrow> bool" where
  "wf_transport t \<longleftrightarrow>
     timers t = waiters t \<and>
     distinct (map fst (settled t) @ waiters t) \<and>
     set (map fst (settled t) @ waiters t) = {..<nextWaiter t} \<and>
     (waiters t \<noteq> [] \<longrightarrow> messages t = [] \<and> opened t \<and> \<not> closed t \<and> readFailure t = None) \<and>
     (opened t \<and> \<not> closed t \<and> readFailure t = None \<longrightarrow> readLoop t = Reading)"

definition fifo :: "u8 list \<Rightarrow> WebSerialDatecsTransport \<Rightarrow> bool" where
  "fifo bytes t \<longleftrightarrow> (handed t @ messages t, readBuffer t) = scan bytes"

lemmas transport_ops = settle_def clearTimeout_def removeWaiter_def deliver_def handed_def

lemma wf_deliver: "wf_transport t \<Longrightarrow> wf_transport (deliver m t)"
  by (auto simp: wf_transport_def transport_ops split: list.splits)

lemma wf_fold_deliver: "wf_transport t \<Longrightarrow> wf_transport (fold deliver ms t)"
  by (induction ms arbitrary: t) (simp_all add: wf_deliver)

lemma wf_readBuffer [simp]: "wf_transport (t\<lparr>readBuffer := b\<rparr>) = wf_transport t"
  by (simp add: wf_transport_def)

lemma wf_appendBytes: "wf_transport t \<Longrightarrow> wf_transport (appendBytes bs t)"
  by (simp add: appendBytes_scan wf_fold_deliver)

lemma handed_deliver:
  "wf_transport t \<Longrightarrow> handed (deliver m t) @ messages (deliver m t) = handed t @ messages t @ [m]"
  by (auto simp: wf_transport_def transport_ops split: list.splits)

lemma handed_fold_deliver:
  "wf_transport t \<Longrightarrow> handed (fold deliver ms t) @ messages (fold deliver ms t) = handed t @ messages t @ ms"
  by (induction ms arbitrary: t) (simp_all add: wf_deliver handed_deliver)

lemma fold_reject:
  "fold (\<lambda>w t. settle w (Failed e) (clearTimeout w t)) ws t =
     t\<lparr>timers := fold remove1 ws (timers t), settled := settled t @ map (\<lambda>w. (w, Failed e)) ws\<rparr>"
  by (induction ws arbitrary: t) (simp_all add: settle_def clearTimeout_def)

lemma fold_remove1_self [simp]: "fold remove1 ws ws = []"
  by (induction ws) simp_all

lemma rejectWaiters_eq:
  "timers t = waiters t \<Longrightarrow> rejectWaiters e t =
     t\<lparr>waiters := [], timers := [], settled := settled t @ map (\<lambda>w. (w, Failed e)) (waiters t)\<rparr>"
  by (simp add: rejectWaiters_def fold_reject)

lemma concat_failed [simp]: "concat (map (message_of \<circ> (\<lambda>w. (w, Failed e))) ws) = []"
  by (induction ws) simp_all

lemma wf_open: "wf_transport t \<Longrightarrow> wf_transport (snd (open_transport p s t))"
  by (auto simp: wf_transport_def open_transport_def)

lemma wf_write: "wf_transport t \<Longrightarrow> wf_transport (snd (write_frame f t))"
  by (auto simp: wf_transport_def write_frame_def)

lemma wf_read: "wf_transport t \<Longrightarrow> wf_transport (readMessage ms t)"
  by (cases "messages t"; cases "readFailure t")
    (auto simp: wf_transport_def readMessage_def settle_def Let_def lessThan_Suc)

lemma wf_pump_failed: "wf_transport t \<Longrightarrow> wf_transport (pump_failed e t)"
  by (auto simp: wf_transport_def pump_failed_def rejectWaiters_eq comp_def image_Un image_image)

lemma wf_pump: "wf_transport t \<Longrightarrow> wf_transport (pumpMessages r t)"
  using wf_appendBytes [of t] wf_pump_failed [of t]
  by (cases r) (auto simp: pumpMessages_def Let_def wf_transport_def)

lemma wf_timer: "wf_transport t \<Longrightarrow> w \<in> set (timers t) \<Longrightarrow> wf_transport (timer_fires w t)"
  by (auto simp: wf_transport_def timer_fires_def transport_ops dest: in_set_remove1)

lemma wf_close: "wf_transport t \<Longrightarrow> wf_transport (close_start t)"
  by (auto simp: wf_transport_def close_start_def rejectWaiters_eq comp_def image_Un image_image)

lemma wf_close_end: "wf_transport t \<Longrightarrow> closed t \<Longrightarrow> wf_transport (close_end t)"
  by (auto simp: wf_transport_def close_end_def)

lemma wf_step: "transport_step t e t' \<Longrightarrow> wf_transport t \<Longrightarrow> wf_transport t'"
  by (induction rule: transport_step.induct)
    (simp_all add: wf_open wf_write wf_read wf_pump wf_timer wf_close wf_close_end)

lemma fifo_pump:
  assumes "wf_transport t" and "fifo bytes t"
  shows "fifo (bytes @ chunk_of (EPump r)) (pumpMessages r t)"
proof (cases r)
  case (Chunk bs)
  have s: "scan bytes = (handed t @ messages t, readBuffer t)" using assms(2) by (simp add: fifo_def)
  obtain ns r' where n: "scan (readBuffer t @ bs) = (ns, r')" by fastforce
  have "scan (bytes @ bs) = (handed t @ messages t @ ns, r')"
    using scan_append [of bytes bs] by (simp add: s n)
  moreover have "scan (readBuffer t) = ([], readBuffer t)"
    using frames.rest_is_final [of bytes] s by simp
  ultimately show ?thesis
    using handed_fold_deliver [OF assms(1), of ns] s n
    by (cases "bs = []") (simp_all add: Chunk pumpMessages_def fifo_def appendBytes_scan handed_def Let_def)
qed (use assms in \<open>auto simp: fifo_def pumpMessages_def pump_failed_def rejectWaiters_eq handed_def wf_transport_def\<close>)

lemma fifo_step:
  assumes "transport_step t e t'" and "wf_transport t" and "fifo bytes t"
  shows "fifo (bytes @ chunk_of e) t'"
  using assms
proof (induction rule: transport_step.induct)
  case (step_read t ms)
  then show ?case
    by (cases "messages t"; cases "readFailure t") (auto simp: fifo_def readMessage_def settle_def handed_def Let_def)
next
  case (step_pump t r)
  then show ?case using fifo_pump by blast
qed (auto simp: fifo_def open_transport_def write_frame_def timer_fires_def close_start_def close_end_def
      rejectWaiters_eq transport_ops wf_transport_def)

lemma run_invariant: "transport_run es t \<Longrightarrow> wf_transport t \<and> fifo (received es) t"
proof (induction rule: transport_run.induct)
  case run_new
  show ?case by (simp add: wf_transport_def fifo_def new_transport_def received_def handed_def lessThan_0)
next
  case (run_step es t e t')
  then show ?case using wf_step fifo_step by (auto simp: received_def)
qed

text \<open>
  C12: In every interleaving of calls, reads, timers and \<open>close\<close>, the messages given to readers
  followed by the messages still queued are exactly the messages of the bytes received so far,
  in order; none is lost, doubled or reordered, and the unread rest is the scanner's rest.
\<close>

theorem transport_lossless_fifo:
  assumes "transport_run es t"
  shows "(handed t @ messages t, readBuffer t) = scan (received es)"
  using run_invariant [OF assms] by (simp add: fifo_def)

text \<open>A run: open, one read that waits, and a NAK that the port delivers.\<close>

definition sample_events :: "transport_event list" where
  "sample_events = [EOpen True True, ERead (Finite 5), EPump (Chunk [0x55, NAK])]"

definition sample_transport :: WebSerialDatecsTransport where
  "sample_transport = pumpMessages (Chunk [0x55, NAK])
     (readMessage (Finite 5) (snd (open_transport True True new_transport)))"

lemma sample_reading: "readLoop (readMessage (Finite 5) (snd (open_transport True True new_transport))) = Reading"
  by (simp add: readMessage_def open_transport_def new_transport_def timeout_ok_def Let_def)

lemma sample_run: "transport_run sample_events sample_transport"
proof -
  let ?t1 = "snd (open_transport True True new_transport)"
  have "transport_run ([] @ [EOpen True True]) ?t1"
    by (rule run_step [OF run_new step_open])
  then have "transport_run (([] @ [EOpen True True]) @ [ERead (Finite 5)]) (readMessage (Finite 5) ?t1)"
    by (rule run_step [OF _ step_read])
  then have "transport_run ((([] @ [EOpen True True]) @ [ERead (Finite 5)]) @ [EPump (Chunk [0x55, NAK])]) sample_transport"
    unfolding sample_transport_def by (rule run_step [OF _ step_pump [OF sample_reading]])
  then show ?thesis by (simp add: sample_events_def)
qed

theorem transport_lossless_fifo_witness:
  "transport_run sample_events sample_transport \<and>
   (handed sample_transport @ messages sample_transport, readBuffer sample_transport) = ([[NAK]], [])"
proof
  show "transport_run sample_events sample_transport" by (rule sample_run)
  have "scan [0x55, NAK] = ([[NAK]], [])"
    using scan_garbage [of "[0x55]" "[NAK]"] scan_signal [of NAK "[]"]
    by (simp add: start_byte_def frame_bytes)
  then show "(handed sample_transport @ messages sample_transport, readBuffer sample_transport) = ([[NAK]], [])"
    using transport_lossless_fifo [OF sample_run] by (simp add: sample_events_def received_def)
qed

text \<open>
  C29: In every reachable state each promise of \<open>readMessage\<close> is settled exactly once or still
  waits; a waiting one has its timer set, nothing is queued, and the read loop is running.
\<close>

theorem transport_waiters_served:
  assumes "transport_run es t"
  shows "distinct (map fst (settled t) @ waiters t) \<and> set (map fst (settled t) @ waiters t) = {..<nextWaiter t} \<and>
    timers t = waiters t \<and>
    (waiters t \<noteq> [] \<longrightarrow> messages t = [] \<and> \<not> closed t \<and> readFailure t = None \<and> readLoop t = Reading)"
  using run_invariant [OF assms] by (auto simp: wf_transport_def)

theorem transport_waiters_served_witness:
  "transport_run sample_events sample_transport \<and> timers sample_transport = waiters sample_transport"
  using sample_run transport_waiters_served [OF sample_run] by blast

section \<open>Replies of the printer reach the decoder\<close>

lemma response_frame_is_message: "wf_response r \<Longrightarrow> is_message (response_frame r)"
proof -
  assume r: "wf_response r"
  then have l: "length (data r) \<le> 212" "length (status r) = 6" by (simp_all add: wf_response_def)
  have "response_frame r ! 1 = word_of_nat (0x20 + length (data r) + 11)"
    by (simp add: response_frame_def response_body_def)
  then have "uint (response_frame r ! 1) = 43 + int (length (data r))" using length_byte [OF l(1)] by simp
  then show ?thesis
    using l length_response_frame [OF l(2)]
    by (simp add: is_message_def declared_length_bad_def MIN_FRAME_LENGTH_def MAX_FRAME_LENGTH_def)
      (simp add: response_frame_def)
qed

lemma scan_reply_stream:
  "\<forall>(g, r) \<in> set rs. (\<forall>b \<in> set g. \<not> start_byte b) \<and> wf_response r \<Longrightarrow>
   scan (concat (map (\<lambda>(g, r). g @ response_frame r) rs)) = (map (response_frame \<circ> snd) rs, [])"
proof (induction rs)
  case (Cons x rs)
  then show ?case
    by (cases x) (simp add: scan_garbage scan_message response_frame_is_message)
qed simp

text \<open>
  C30: When the port receives well-formed replies, with noise free of start bytes before each and
  cut into chunks anyhow, then in every interleaving the messages that reach the readers or the
  queue decode to exactly those replies in order, and nothing is left in the buffer.
\<close>

theorem printer_replies_decoded:
  assumes "transport_run es t"
    and "\<forall>(g, r) \<in> set rs. (\<forall>b \<in> set g. \<not> start_byte b) \<and> wf_response r"
    and "received es = concat (map (\<lambda>(g, r). g @ response_frame r) rs)"
  shows "map decodeDatecsMessage (handed t @ messages t) = map (Inr \<circ> MResponse \<circ> snd) rs \<and> readBuffer t = []"
proof -
  have "(handed t @ messages t, readBuffer t) = (map (response_frame \<circ> snd) rs, [])"
    using run_invariant [OF assms(1)] scan_reply_stream [OF assms(2)] assms(3) by (simp add: fifo_def)
  with assms(2) show ?thesis by (auto simp: decode_response_frame simp flip: map_append)
qed

definition reply_events :: "transport_event list" where
  "reply_events = [EOpen True True, EPump (Chunk (take 9 (response_frame sample_response))),
     EPump (Chunk (drop 9 (response_frame sample_response)))]"

lemma reply_run: "\<exists>t. transport_run reply_events t"
proof -
  let ?t1 = "snd (open_transport True True new_transport)"
  let ?a = "take 9 (response_frame sample_response)" and ?b = "drop 9 (response_frame sample_response)"
  have r1: "transport_run [EOpen True True] ?t1"
    using run_step [OF run_new step_open] by simp
  have o: "opened ?t1" "\<not> closed ?t1" "readLoop ?t1 = Reading"
    by (simp_all add: open_transport_def new_transport_def)
  have r2: "transport_run [EOpen True True, EPump (Chunk ?a)] (pumpMessages (Chunk ?a) ?t1)"
    using run_step [OF r1 step_pump [OF o(3)]] by simp
  have keep: "opened (fold deliver ms t) = opened t \<and> closed (fold deliver ms t) = closed t \<and>
      readLoop (fold deliver ms t) = readLoop t" for ms t
    by (induction ms arbitrary: t) (auto simp: transport_ops split: list.splits)
  have "readLoop (pumpMessages (Chunk ?a) ?t1) = Reading"
    using o keep by (simp add: pumpMessages_def appendBytes_scan Let_def)
  from run_step [OF r2 step_pump [OF this]] show ?thesis
    by (auto simp: reply_events_def)
qed

theorem printer_replies_decoded_witness:
  "\<exists>t. transport_run reply_events t \<and> map decodeDatecsMessage (handed t @ messages t) = [Inr (MResponse sample_response)]"
proof -
  obtain t where t: "transport_run reply_events t" using reply_run by blast
  have "received reply_events = concat (map (\<lambda>(g, r). g @ response_frame r) [([], sample_response)])"
    by (simp add: received_def reply_events_def)
  with printer_replies_decoded [OF t, of "[([], sample_response)]"] wf_sample_response t show ?thesis
    by auto
qed

end
