(* ===== verification/IndexedDb.thy ===== *)
theory IndexedDb
  imports Prelude "HOL-Library.List_Lexorder"
begin

text \<open>
  The part of the browser's IndexedDB that \<open>apps/pos-web/src/offline-store.ts\<close> uses. An object
  store is the list of its records with their keys, in key order (IndexedDB orders string keys
  by code units, which is the order of \<open>jsstr\<close>). A transaction that aborts leaves the stores
  as they were; a transaction may also abort for a reason of the browser (no space, a blocked
  upgrade), which is the boolean that every operation takes.
\<close>

section \<open>Object stores\<close>

type_synonym ('k, 'v) object_store = "('k \<times> 'v) list"

abbreviation idb_get :: "('k, 'v) object_store \<Rightarrow> 'k \<Rightarrow> 'v option" where
  "idb_get \<equiv> map_of"

fun idb_put :: "'k :: linorder \<Rightarrow> 'v \<Rightarrow> ('k, 'v) object_store \<Rightarrow> ('k, 'v) object_store" where
  "idb_put k v [] = [(k, v)]"
| "idb_put k v ((k', v') # s) =
     (if k < k' then (k, v) # (k', v') # s
      else if k = k' then (k, v) # s
      else (k', v') # idb_put k v s)"

definition idb_delete :: "'k \<Rightarrow> ('k, 'v) object_store \<Rightarrow> ('k, 'v) object_store" where
  "idb_delete k s = filter (\<lambda>(k', _). k' \<noteq> k) s"

text \<open>\<open>index(...).getAll(...)\<close>: the records with the indexed property, in key order.\<close>

definition idb_getAll :: "('v \<Rightarrow> bool) \<Rightarrow> ('k, 'v) object_store \<Rightarrow> 'v list" where
  "idb_getAll p s = filter p (map snd s)"

text \<open>\<open>add\<close> fails when the key exists; the failed request aborts its transaction.\<close>

definition idb_add :: "'e \<Rightarrow> 'k :: linorder \<Rightarrow> 'v \<Rightarrow> ('k, 'v) object_store \<Rightarrow> 'e + ('k, 'v) object_store" where
  "idb_add constraintError k v s = (if idb_get s k = None then Inr (idb_put k v s) else Inl constraintError)"

definition idb_wf :: "('k :: linorder, 'v) object_store \<Rightarrow> bool" where
  "idb_wf s \<longleftrightarrow> sorted_wrt (<) (map fst s)"

lemma idb_get_put [simp]: "idb_get (idb_put k v s) = (idb_get s)(k \<mapsto> v)"
  by (induction s) (auto simp: fun_eq_iff)

lemma idb_get_delete [simp]: "idb_get (idb_delete k s) = (idb_get s)(k := None)"
  by (induction s) (auto simp: idb_delete_def fun_eq_iff)

lemma idb_put_keys: "set (map fst (idb_put k v s)) = insert k (set (map fst s))"
  by (induction k v s rule: idb_put.induct) (simp_all add: insert_commute)

lemma idb_wf_put [simp]: "idb_wf s \<Longrightarrow> idb_wf (idb_put k v s)"
  unfolding idb_wf_def
proof (induction s)
  case (Cons x s)
  obtain k' v' where x: "x = (k', v')" by fastforce
  have keys: "\<forall>y \<in> set (map fst (idb_put k v s)). k' < y" if "\<not> k < k'" "k \<noteq> k'"
    using Cons.prems that by (auto simp: x idb_put_keys simp del: set_map)
  show ?case using Cons keys by (auto simp: x)
qed simp

lemma idb_wf_delete [simp]: "idb_wf s \<Longrightarrow> idb_wf (idb_delete k s)"
  unfolding idb_wf_def idb_delete_def by (induction s) auto

lemma idb_wf_Nil [simp]: "idb_wf []"
  by (simp add: idb_wf_def)

lemma idb_wf_distinct: "idb_wf s \<Longrightarrow> distinct (map fst s)"
  unfolding idb_wf_def using strict_sorted_iff by blast

lemma idb_get_iff: "idb_wf s \<Longrightarrow> idb_get s k = Some v \<longleftrightarrow> (k, v) \<in> set s"
  by (simp add: idb_wf_distinct)

lemma idb_getAll_iff: "idb_wf s \<Longrightarrow> v \<in> set (idb_getAll p s) \<longleftrightarrow> p v \<and> (\<exists>k. idb_get s k = Some v)"
  by (force simp: idb_getAll_def idb_get_iff image_iff)

lemma idb_set_put:
  assumes "idb_wf s"
  shows "(k', v') \<in> set (idb_put k v s) \<longleftrightarrow> (if k' = k then v' = v else (k', v') \<in> set s)"
proof -
  have "(k', v') \<in> set (idb_put k v s) \<longleftrightarrow> idb_get (idb_put k v s) k' = Some v'"
    using idb_get_iff [OF idb_wf_put [OF assms]] by metis
  then show ?thesis using idb_get_iff [OF assms, of k' v'] by auto
qed

text \<open>
  Counting records: a put replaces at most the record with its key.
\<close>

lemma count_put_new:
  "idb_get s k = None \<Longrightarrow> length (idb_getAll p (idb_put k v s)) = length (idb_getAll p s) + (if p v then 1 else 0)"
  unfolding idb_getAll_def by (induction s) (auto split: if_splits)

lemma count_put_old:
  "idb_wf s \<Longrightarrow> idb_get s k = Some w \<Longrightarrow>
   length (idb_getAll p (idb_put k v s)) + (if p w then 1 else 0) = length (idb_getAll p s) + (if p v then 1 else 0)"
  unfolding idb_getAll_def
proof (induction s)
  case (Cons x s)
  obtain k' v' where x: "x = (k', v')" by fastforce
  have wf: "idb_wf s" "\<forall>y \<in> set s. k' < fst y" using Cons.prems(1) by (auto simp: x idb_wf_def)
  have "\<not> k < k'" using Cons.prems(2) wf(2) by (force simp: x dest: map_of_SomeD split: if_splits)
  with Cons wf show ?case by (auto simp: x split: if_splits)
qed simp

section \<open>Transactions\<close>

definition transaction ::
  "bool \<Rightarrow> 'e \<Rightarrow> ('s \<Rightarrow> 'e + 'a \<times> 's) \<Rightarrow> 's \<Rightarrow> ('e + 'a) \<times> 's" where
  "transaction available unavailable body s =
     (if \<not> available then (Inl unavailable, s)
      else case body s of Inl e \<Rightarrow> (Inl e, s) | Inr (a, s') \<Rightarrow> (Inr a, s'))"

lemma transaction_cases:
  "transaction b u body s = (r, s') \<Longrightarrow> (\<exists>e. r = Inl e \<and> s' = s) \<or> b \<and> (\<exists>a. r = Inr a \<and> body s = Inr (a, s'))"
  by (auto simp: transaction_def split: if_splits sum.splits)

lemma transaction_Inl: "transaction b u body s = (Inl e, s') \<Longrightarrow> s' = s"
  by (auto simp: transaction_def split: if_splits sum.splits)

lemma transaction_Inr:
  "transaction b u body s = (Inr a, s') \<longleftrightarrow> b \<and> body s = Inr (a, s')"
  by (auto simp: transaction_def split: if_splits sum.splits)

lemma transaction_keeps:
  assumes "\<And>a s'. body s = Inr (a, s') \<Longrightarrow> P s'" and "P s"
  shows "P (snd (transaction b u body s))"
  using assms by (auto simp: transaction_def split: sum.splits)

section \<open>Key-value interface\<close>

text \<open>What the components below rely on of an object store.\<close>

locale keyed_store =
  fixes ok :: "'s \<Rightarrow> bool"
    and get :: "'s \<Rightarrow> 'k \<Rightarrow> 'v option"
    and put :: "'k \<Rightarrow> 'v \<Rightarrow> 's \<Rightarrow> 's"
    and remove :: "'k \<Rightarrow> 's \<Rightarrow> 's"
    and all :: "('v \<Rightarrow> bool) \<Rightarrow> 's \<Rightarrow> 'v list"
  assumes ok_put: "ok s \<Longrightarrow> ok (put k v s)"
    and ok_remove: "ok s \<Longrightarrow> ok (remove k s)"
    and get_put: "ok s \<Longrightarrow> get (put k v s) = (get s)(k \<mapsto> v)"
    and get_remove: "ok s \<Longrightarrow> get (remove k s) = (get s)(k := None)"
    and in_all: "ok s \<Longrightarrow> v \<in> set (all p s) \<longleftrightarrow> p v \<and> (\<exists>k. get s k = Some v)"
begin

lemma find_None: "ok s \<Longrightarrow> find q (all p s) = None \<longleftrightarrow> (\<forall>k v. get s k = Some v \<longrightarrow> p v \<longrightarrow> \<not> q v)"
  using in_all by (fastforce simp: find_None_iff)

lemma find_Some: "ok s \<Longrightarrow> find q (all p s) = Some v \<Longrightarrow> p v \<and> q v \<and> (\<exists>k. get s k = Some v)"
  using in_all by (metis find_Some_iff nth_mem)

lemma put_puts: "ok s \<Longrightarrow> ok (fold (\<lambda>(k, v). put k v) kvs s) \<and>
   get (fold (\<lambda>(k, v). put k v) kvs s) = (get s)(map fst kvs [\<mapsto>] map snd kvs)"
  by (induction kvs arbitrary: s) (auto simp: ok_put get_put)

lemma removes: "ok s \<Longrightarrow> ok (fold remove ks s) \<and>
   get (fold remove ks s) = (\<lambda>k. if k \<in> set ks then None else get s k)"
  by (induction ks arbitrary: s) (auto simp: ok_remove get_remove fun_eq_iff)

end

interpretation idb: keyed_store idb_wf idb_get idb_put idb_delete idb_getAll
  by unfold_locales (simp_all add: idb_getAll_iff)

section \<open>\<open>Array.prototype.sort\<close>\<close>

text \<open>A stable sort by a comparison function, as insertion sort.\<close>

fun js_insert :: "('a \<Rightarrow> 'a \<Rightarrow> int) \<Rightarrow> 'a \<Rightarrow> 'a list \<Rightarrow> 'a list" where
  "js_insert cmp x [] = [x]"
| "js_insert cmp x (y # ys) = (if cmp x y \<le> 0 then x # y # ys else y # js_insert cmp x ys)"

definition js_sort :: "('a \<Rightarrow> 'a \<Rightarrow> int) \<Rightarrow> 'a list \<Rightarrow> 'a list" where
  "js_sort cmp xs = foldr (js_insert cmp) xs []"

lemma js_sort_simps [simp]: "js_sort cmp [] = []" "js_sort cmp (x # xs) = js_insert cmp x (js_sort cmp xs)"
  by (simp_all add: js_sort_def)

lemma set_js_insert [simp]: "set (js_insert cmp x xs) = insert x (set xs)"
  by (induction xs) auto

lemma set_js_sort [simp]: "set (js_sort cmp xs) = set xs"
  by (induction xs) simp_all

lemma length_js_insert [simp]: "length (js_insert cmp x xs) = Suc (length xs)"
  by (induction xs) auto

lemma length_js_sort [simp]: "length (js_sort cmp xs) = length xs"
  by (induction xs) simp_all

lemma distinct_js_insert: "distinct (map f (js_insert cmp x xs)) = distinct (map f (x # xs))"
  by (induction xs) auto

lemma distinct_js_sort [simp]: "distinct (map f (js_sort cmp xs)) = distinct (map f xs)"
  by (induction xs) (simp_all add: distinct_js_insert)

text \<open>A comparison that is a total preorder.\<close>

definition cmp_total :: "('a \<Rightarrow> 'a \<Rightarrow> int) \<Rightarrow> bool" where
  "cmp_total cmp \<longleftrightarrow> (\<forall>x y. cmp x y \<le> 0 \<or> cmp y x \<le> 0) \<and>
     (\<forall>x y z. cmp x y \<le> 0 \<longrightarrow> cmp y z \<le> 0 \<longrightarrow> cmp x z \<le> 0)"

lemma sorted_js_insert:
  assumes "cmp_total cmp" and "sorted_wrt (\<lambda>x y. cmp x y \<le> 0) xs"
  shows "sorted_wrt (\<lambda>x y. cmp x y \<le> 0) (js_insert cmp x xs)"
  using assms(2)
proof (induction xs)
  case (Cons y ys)
  have tot: "cmp y x \<le> 0" if "\<not> cmp x y \<le> 0" using assms(1) that unfolding cmp_total_def by blast
  have trans: "cmp x z \<le> 0" if "cmp x y \<le> 0" "cmp y z \<le> 0" for z
    using assms(1) that unfolding cmp_total_def by blast
  show ?case using Cons by (auto intro: tot trans)
qed simp

lemma sorted_js_sort: "cmp_total cmp \<Longrightarrow> sorted_wrt (\<lambda>x y. cmp x y \<le> 0) (js_sort cmp xs)"
  by (induction xs) (simp_all add: sorted_js_insert)

end
