(* ===== verification/FiscalOutcomes.thy ===== *)
theory FiscalOutcomes
  imports IndexedDb
begin

text \<open>
  The lock store of \<open>apps/pos-web/src/offline-store.ts\<close>: fiscal commands whose outcome is
  unknown. A register with an unresolved outcome is closed until a reviewer decides.

  The lemmas show that a register has at most one unresolved outcome in every sequence of
  operations, that a recorded outcome is found until it is reviewed, and that a reviewed
  outcome never changes again.
\<close>

section \<open>Data\<close>

datatype FiscalOutcomeReview =
    ReceiptConfirmed (rv_fiscalReceiptNumber: "jsstr option") (rv_note: jsstr) (rv_reviewedAt: jsstr)
      (rv_reviewerAccountId: jsstr) (rv_uniqueSaleId: "jsstr option")
  | NoReceipt (rv_note: jsstr) (rv_reviewedAt: jsstr) (rv_reviewerAccountId: jsstr)
  | ReceiptReversed (rv_reversedReceiptNumber: jsstr) (rv_fiscalReversalNumber: jsstr) (rv_note: jsstr)
      (rv_reviewedAt: jsstr) (rv_reviewerAccountId: jsstr)

datatype outcome_status = Unresolved | Reviewed

record UnresolvedFiscalOutcome =
  o_accountId :: jsstr
  o_clientTransactionId :: jsstr
  o_commandCode :: jsnum
  o_createdAt :: jsstr
  o_id :: jsstr
  o_registerId :: jsstr
  o_status :: outcome_status
  o_review :: "FiscalOutcomeReview option"

type_synonym outcome_store = "(jsstr, UnresolvedFiscalOutcome) object_store"

datatype outcome_error =
    StorageUnavailable | AnotherOutcomeWaiting | OutcomeExists | ReviewerRequired
  | ReceiptNumberRequired | NotWaitingForReview

section \<open>Operations\<close>

definition outcome_key :: "jsstr \<Rightarrow> jsstr \<Rightarrow> jsstr" where
  "outcome_key registerId clientTransactionId = registerId @ [58] @ clientTransactionId"

definition is_unresolved :: "UnresolvedFiscalOutcome \<Rightarrow> bool" where
  "is_unresolved o1 \<longleftrightarrow> o_status o1 = Unresolved"

abbreviation of_register :: "jsstr \<Rightarrow> UnresolvedFiscalOutcome \<Rightarrow> bool" where
  "of_register registerId \<equiv> (\<lambda>o1. o_registerId o1 = registerId)"

definition findUnresolved :: "bool \<Rightarrow> jsstr \<Rightarrow> outcome_store \<Rightarrow>
    (outcome_error + UnresolvedFiscalOutcome option) \<times> outcome_store" where
  "findUnresolved available registerId =
     transaction available StorageUnavailable
       (\<lambda>s. Inr (find is_unresolved (idb_getAll (of_register registerId) s), s))"

text \<open>The argument is the outcome without \<open>id\<close>, \<open>status\<close> and \<open>review\<close>.\<close>

definition recordUnresolved :: "bool \<Rightarrow> jsstr \<Rightarrow> jsstr \<Rightarrow> jsnum \<Rightarrow> jsstr \<Rightarrow> jsstr \<Rightarrow> outcome_store \<Rightarrow>
    (outcome_error + unit) \<times> outcome_store" where
  "recordUnresolved available accountId clientTransactionId commandCode createdAt registerId =
     transaction available StorageUnavailable (\<lambda>s.
       case find is_unresolved (idb_getAll (of_register registerId) s) of
         Some existing \<Rightarrow>
           if o_clientTransactionId existing \<noteq> clientTransactionId then Inl AnotherOutcomeWaiting
           else Inr ((), s)
       | None \<Rightarrow>
           res_bind (idb_add OutcomeExists (outcome_key registerId clientTransactionId)
             \<lparr>o_accountId = accountId, o_clientTransactionId = clientTransactionId,
              o_commandCode = commandCode, o_createdAt = createdAt,
              o_id = outcome_key registerId clientTransactionId, o_registerId = registerId,
              o_status = Unresolved, o_review = None\<rparr> s) (\<lambda>s'. Inr ((), s')))"

definition reviewed :: "FiscalOutcomeReview \<Rightarrow> UnresolvedFiscalOutcome \<Rightarrow> UnresolvedFiscalOutcome" where
  "reviewed review o1 = o1\<lparr>o_review := Some review, o_status := Reviewed\<rparr>"

definition markReviewed :: "bool \<Rightarrow> jsstr \<Rightarrow> jsstr \<Rightarrow> FiscalOutcomeReview \<Rightarrow> outcome_store \<Rightarrow>
    (outcome_error + unit) \<times> outcome_store" where
  "markReviewed available registerId clientTransactionId review =
     transaction available StorageUnavailable (\<lambda>s.
       case find (\<lambda>o1. o_clientTransactionId o1 = clientTransactionId \<and> is_unresolved o1)
              (idb_getAll (of_register registerId) s) of
         Some o1 \<Rightarrow> Inr ((), idb_put (o_id o1) (reviewed review o1) s)
       | None \<Rightarrow> Inr ((), s))"

text \<open>\<open>localeCompare\<close> is the argument \<open>lc\<close>.\<close>

definition readFiscalOutcomeHistory :: "(jsstr \<Rightarrow> jsstr \<Rightarrow> int) \<Rightarrow> bool \<Rightarrow> jsstr \<Rightarrow> outcome_store \<Rightarrow>
    (outcome_error + UnresolvedFiscalOutcome list) \<times> outcome_store" where
  "readFiscalOutcomeHistory lc available registerId =
     transaction available StorageUnavailable (\<lambda>s.
       Inr (js_sort (\<lambda>a b. lc (o_createdAt a) (o_createdAt b)) (idb_getAll (of_register registerId) s), s))"

definition blank :: "jsstr option \<Rightarrow> bool" where
  "blank v \<longleftrightarrow> (case v of None \<Rightarrow> True | Some w \<Rightarrow> trim w = [])"

fun with_note :: "jsstr \<Rightarrow> FiscalOutcomeReview \<Rightarrow> FiscalOutcomeReview" where
  "with_note n (ReceiptConfirmed f _ at r u) = ReceiptConfirmed f n at r u"
| "with_note n (NoReceipt _ at r) = NoReceipt n at r"
| "with_note n (ReceiptReversed f v _ at r) = ReceiptReversed f v n at r"

definition review_problem :: "FiscalOutcomeReview \<Rightarrow> outcome_error option" where
  "review_problem review =
     (if trim (rv_note review) = [] \<or> trim (rv_reviewerAccountId review) = [] then Some ReviewerRequired
      else case review of
        ReceiptConfirmed f _ _ _ u \<Rightarrow> if blank f \<and> blank u then Some ReceiptNumberRequired else None
      | _ \<Rightarrow> None)"

definition reviewFiscalOutcome :: "bool \<Rightarrow> jsstr \<Rightarrow> jsstr \<Rightarrow> FiscalOutcomeReview \<Rightarrow> outcome_store \<Rightarrow>
    (outcome_error + UnresolvedFiscalOutcome) \<times> outcome_store" where
  "reviewFiscalOutcome available registerId clientTransactionId review s0 =
     (case review_problem review of
        Some e \<Rightarrow> (Inl e, s0)
      | None \<Rightarrow>
          transaction available StorageUnavailable (\<lambda>s.
            case idb_get s (outcome_key registerId clientTransactionId) of
              None \<Rightarrow> Inl NotWaitingForReview
            | Some existing \<Rightarrow>
                if \<not> is_unresolved existing then Inl NotWaitingForReview
                else
                  let r = reviewed (with_note (trim (rv_note review)) review) existing
                  in Inr (r, idb_put (o_id r) r s)) s0)"

section \<open>Invariant\<close>

definition open_outcomes :: "jsstr \<Rightarrow> outcome_store \<Rightarrow> UnresolvedFiscalOutcome list" where
  "open_outcomes registerId = idb_getAll (\<lambda>o1. o_registerId o1 = registerId \<and> is_unresolved o1)"

definition wf_outcomes :: "outcome_store \<Rightarrow> bool" where
  "wf_outcomes s \<longleftrightarrow> idb_wf s \<and>
     (\<forall>k o1. idb_get s k = Some o1 \<longrightarrow> o_id o1 = k \<and> k = outcome_key (o_registerId o1) (o_clientTransactionId o1)) \<and>
     (\<forall>r. length (open_outcomes r s) \<le> 1)"

lemma find_open: "find is_unresolved (idb_getAll (of_register r) s) = (case open_outcomes r s of [] \<Rightarrow> None | o1 # _ \<Rightarrow> Some o1)"
  unfolding idb_getAll_def open_outcomes_def by (induction s) (auto simp: is_unresolved_def)

lemma put_open:
  assumes wf: "wf_outcomes s" and get: "idb_get s k = Some o1" and un: "is_unresolved o1"
  shows "wf_outcomes (idb_put k (reviewed v o1) s)"
proof -
  have "length (open_outcomes r (idb_put k (reviewed v o1) s)) \<le> 1" for r
  proof -
    have "idb_wf s" "length (open_outcomes r s) \<le> 1" using wf by (simp_all add: wf_outcomes_def)
    then show ?thesis
      using count_put_old [OF _ get, of "\<lambda>o1. o_registerId o1 = r \<and> is_unresolved o1" "reviewed v o1"]
      by (simp add: open_outcomes_def reviewed_def is_unresolved_def)
  qed
  with wf get show ?thesis by (auto simp: wf_outcomes_def reviewed_def)
qed

lemma wf_record: "wf_outcomes s \<Longrightarrow> wf_outcomes (snd (recordUnresolved b a t c d r s))"
  unfolding recordUnresolved_def
proof (rule transaction_keeps, goal_cases)
  case (1 u s')
  let ?p = "\<lambda>r o1. o_registerId o1 = r \<and> is_unresolved o1"
  show ?case
  proof (cases "open_outcomes r s")
    case Nil
    let ?k = "outcome_key r t"
    let ?new = "\<lparr>o_accountId = a, o_clientTransactionId = t, o_commandCode = c, o_createdAt = d,
              o_id = ?k, o_registerId = r, o_status = Unresolved, o_review = None\<rparr>"
    from Nil 1 have new: "idb_get s ?k = None" "s' = idb_put ?k ?new s"
      by (auto simp: find_open idb_add_def split: if_splits)
    have "length (open_outcomes r' s') \<le> 1" for r'
      using count_put_new [OF new(1), of "?p r'" ?new] 1(1) Nil
      by (cases "r' = r") (auto simp: new(2) wf_outcomes_def open_outcomes_def)
    with 1(1) show ?thesis by (auto simp: wf_outcomes_def new(2))
  next
    case (Cons o1 os)
    with 1 show ?thesis by (auto simp: find_open split: if_splits)
  qed
qed

lemma wf_mark: "wf_outcomes s \<Longrightarrow> wf_outcomes (snd (markReviewed b r t v s))"
  unfolding markReviewed_def
proof (rule transaction_keeps, goal_cases)
  case (1 u s')
  then have wf: "idb_wf s" by (simp add: wf_outcomes_def)
  from 1(2) show ?case
  proof (cases "find (\<lambda>o1. o_clientTransactionId o1 = t \<and> is_unresolved o1) (idb_getAll (of_register r) s)")
    case (Some o1)
    from idb.find_Some [OF wf this] obtain k where k: "is_unresolved o1" "idb_get s k = Some o1" by blast
    moreover have "o_id o1 = k" using 1(1) k(2) by (simp add: wf_outcomes_def)
    ultimately show ?thesis using 1 Some put_open [OF 1(1), of k o1 v] by simp
  qed (use 1 in simp)
qed

lemma wf_review: "wf_outcomes s \<Longrightarrow> wf_outcomes (snd (reviewFiscalOutcome b r t v s))"
  unfolding reviewFiscalOutcome_def
proof (cases "review_problem v", simp_all, rule transaction_keeps, goal_cases)
  case (1 u s')
  then obtain o1 where o1: "idb_get s (outcome_key r t) = Some o1" "is_unresolved o1"
    "s' = idb_put (o_id o1) (reviewed (with_note (trim (rv_note v)) v) o1) s"
    by (auto simp: Let_def reviewed_def split: option.splits if_splits)
  moreover have "o_id o1 = outcome_key r t" using 1(1) o1(1) by (simp add: wf_outcomes_def)
  ultimately show ?case using 1(1) put_open by simp
qed

section \<open>Sequences of operations\<close>

text \<open>One operation of any tab; a reader changes nothing.\<close>

inductive outcome_step :: "outcome_store \<Rightarrow> outcome_store \<Rightarrow> bool" where
  step_find: "outcome_step s (snd (findUnresolved b r s))"
| step_record: "outcome_step s (snd (recordUnresolved b a t c d r s))"
| step_mark: "outcome_step s (snd (markReviewed b r t v s))"
| step_review: "outcome_step s (snd (reviewFiscalOutcome b r t v s))"
| step_history: "outcome_step s (snd (readFiscalOutcomeHistory lc b r s))"

inductive_cases outcome_stepE: "outcome_step s s'"

lemma find_readonly [simp]: "snd (findUnresolved b r s) = s"
  by (simp add: findUnresolved_def transaction_def)

lemma history_readonly [simp]: "snd (readFiscalOutcomeHistory lc b r s) = s"
  by (simp add: readFiscalOutcomeHistory_def transaction_def)

lemma wf_outcome_step: "outcome_step s s' \<Longrightarrow> wf_outcomes s \<Longrightarrow> wf_outcomes s'"
  by (induction rule: outcome_step.induct) (simp_all add: wf_record wf_mark wf_review)

lemma wf_outcomes_Nil [simp]: "wf_outcomes []"
  by (simp add: wf_outcomes_def open_outcomes_def idb_getAll_def)

lemma reachable_wf: "outcome_step\<^sup>*\<^sup>* [] s \<Longrightarrow> wf_outcomes s"
  by (induction rule: rtranclp_induct) (auto intro: wf_outcome_step)

text \<open>A reviewed record is never written again: a review looks for an unresolved one.\<close>

lemma put_reviewed_keeps:
  assumes "idb_get s k = Some o1" "\<not> is_unresolved o1" "idb_get s k' = Some o2" "is_unresolved o2"
  shows "idb_get (idb_put k' v s) k = Some o1"
  using assms by auto

lemma reviewed_step:
  assumes "outcome_step s s'" "wf_outcomes s" "idb_get s k = Some o1" "\<not> is_unresolved o1"
  shows "idb_get s' k = Some o1"
  using assms
proof (induction rule: outcome_step.induct)
  case (step_record s b a t c d r)
  show ?case unfolding recordUnresolved_def
    by (rule transaction_keeps)
      (use step_record in \<open>auto simp: idb_add_def split: option.splits if_splits\<close>)
next
  case (step_mark s b r t v)
  then have wf: "idb_wf s" "\<And>k o1. idb_get s k = Some o1 \<Longrightarrow> o_id o1 = k" by (simp_all add: wf_outcomes_def)
  show ?case unfolding markReviewed_def
    by (rule transaction_keeps)
      (use step_mark wf in \<open>auto split: option.splits dest!: idb.find_Some [OF wf(1)]\<close>)
next
  case (step_review s b r t v)
  then have wf: "\<And>k o1. idb_get s k = Some o1 \<Longrightarrow> o_id o1 = k" by (simp_all add: wf_outcomes_def)
  show ?case unfolding reviewFiscalOutcome_def
    by (cases "review_problem v"; simp; (rule transaction_keeps)?)
      (use step_review wf in \<open>auto simp: Let_def reviewed_def split: option.splits if_splits\<close>)
qed simp_all

text \<open>
  C23: In every sequence of operations from an empty store a register has at most one unresolved
  outcome, \<open>findUnresolved\<close> returns it, and it returns nothing only if there is none.
\<close>

theorem one_unresolved_per_register:
  assumes "outcome_step\<^sup>*\<^sup>* [] s"
  shows "length (open_outcomes r s) \<le> 1 \<and>
    fst (findUnresolved True r s) = Inr (case open_outcomes r s of [] \<Rightarrow> None | o1 # _ \<Rightarrow> Some o1)"
  using reachable_wf [OF assms] by (simp add: wf_outcomes_def findUnresolved_def transaction_def find_open)

text \<open>
  A reviewed outcome is final: in every further sequence of operations its record stays in
  the store unchanged.
\<close>

theorem reviewed_outcome_is_final:
  assumes "outcome_step\<^sup>*\<^sup>* [] s" and "idb_get s k = Some o1" and "o_status o1 = Reviewed"
    and "outcome_step\<^sup>*\<^sup>* s s'"
  shows "idb_get s' k = Some o1"
proof -
  have "wf_outcomes s' \<and> idb_get s' k = Some o1"
    using assms(4)
  proof (induction rule: rtranclp_induct)
    case base
    show ?case using reachable_wf [OF assms(1)] assms(2) by simp
  next
    case (step t u)
    then show ?case using wf_outcome_step reviewed_step assms(3) by (auto simp: is_unresolved_def)
  qed
  then show ?thesis by simp
qed

lemma open_of_get:
  assumes "wf_outcomes s" "idb_get s k = Some o1" "o_registerId o1 = r" "is_unresolved o1"
  shows "open_outcomes r s = [o1]"
proof -
  have "o1 \<in> set (open_outcomes r s)"
    using assms idb_getAll_iff [of s o1] by (auto simp: open_outcomes_def wf_outcomes_def)
  moreover have "length (open_outcomes r s) \<le> 1" using assms(1) by (simp add: wf_outcomes_def)
  ultimately show ?thesis by (cases "open_outcomes r s") auto
qed

lemma record_result:
  assumes "wf_outcomes s"
  shows "fst (recordUnresolved True a t c d r s) =
    (case open_outcomes r s of
       o1 # _ \<Rightarrow> if o_clientTransactionId o1 = t then Inr () else Inl AnotherOutcomeWaiting
     | [] \<Rightarrow> if idb_get s (outcome_key r t) = None then Inr () else Inl OutcomeExists)"
  by (auto simp: recordUnresolved_def transaction_def find_open idb_add_def split: list.splits)

lemma record_then_find:
  assumes wf: "wf_outcomes s" and rec: "recordUnresolved b a t c d r s = (Inr (), s')"
  shows "\<exists>o1. open_outcomes r s' = [o1] \<and> o_clientTransactionId o1 = t"
proof (cases "open_outcomes r s")
  case Nil
  have wf': "wf_outcomes s'" using wf_record [OF wf] rec by (metis snd_conv)
  from Nil rec obtain o1 where "idb_get s' (outcome_key r t) = Some o1" "o_registerId o1 = r"
      "is_unresolved o1" "o_clientTransactionId o1 = t"
    by (auto simp: recordUnresolved_def transaction_Inr find_open idb_add_def is_unresolved_def split: if_splits)
  with open_of_get [OF wf'] show ?thesis by blast
next
  case (Cons o1 os)
  moreover have "length (open_outcomes r s) \<le> 1" using wf by (simp add: wf_outcomes_def)
  ultimately show ?thesis
    using rec by (auto simp: recordUnresolved_def transaction_Inr find_open split: if_splits)
qed

text \<open>
  Recording succeeds exactly if the register's waiting outcome is of the same transaction,
  or none waits and the transaction has no record yet; then that transaction is the one that
  \<open>findUnresolved\<close> returns. A failed recording changes nothing. In particular, once a reviewer
  closed the transaction's outcome, a second unknown outcome of it cannot be recorded.
\<close>

theorem record_locks_register:
  assumes "outcome_step\<^sup>*\<^sup>* [] s" and "recordUnresolved b a t c d r s = (res, s')"
  shows "(res = Inr () \<longrightarrow> (\<exists>o1. fst (findUnresolved True r s') = Inr (Some o1) \<and> o_clientTransactionId o1 = t)) \<and>
    (res \<noteq> Inr () \<longrightarrow> s' = s) \<and>
    (b \<longrightarrow> (res = Inr () \<longleftrightarrow> (\<exists>o1. open_outcomes r s = [o1] \<and> o_clientTransactionId o1 = t) \<or>
       open_outcomes r s = [] \<and> idb_get s (outcome_key r t) = None))"
proof (intro conjI impI)
  have wf: "wf_outcomes s" by (rule reachable_wf [OF assms(1)])
  show "\<exists>o1. fst (findUnresolved True r s') = Inr (Some o1) \<and> o_clientTransactionId o1 = t" if "res = Inr ()"
    using record_then_find [OF wf, of b a t c d r s'] assms(2) that
    by (auto simp: findUnresolved_def transaction_def find_open)
  show "s' = s" if "res \<noteq> Inr ()"
    using assms(2) that unfolding recordUnresolved_def by (cases res) (auto dest: transaction_Inl)
  assume b
  then have res: "res = fst (recordUnresolved True a t c d r s)" using assms(2) by simp
  have "length (open_outcomes r s) \<le> 1" using wf by (simp add: wf_outcomes_def)
  then show "res = Inr () \<longleftrightarrow> (\<exists>o1. open_outcomes r s = [o1] \<and> o_clientTransactionId o1 = t) \<or>
       open_outcomes r s = [] \<and> idb_get s (outcome_key r t) = None"
    by (cases "open_outcomes r s") (auto simp: res record_result [OF wf])
qed

text \<open>A store after one unknown outcome, and after its review.\<close>

definition sample_locked :: outcome_store where
  "sample_locked = snd (recordUnresolved True (js ''acc'') (js ''t1'') (JsInt 0x35) (js ''2026-01-01'') (js ''reg'') [])"

definition sample_review :: FiscalOutcomeReview where
  "sample_review = NoReceipt (js ''no paper'') (js ''2026-01-02'') (js ''boss'')"

definition sample_reviewed :: outcome_store where
  "sample_reviewed = snd (reviewFiscalOutcome True (js ''reg'') (js ''t1'') sample_review sample_locked)"

lemma sample_reachable: "outcome_step\<^sup>*\<^sup>* [] sample_locked" "outcome_step\<^sup>*\<^sup>* sample_locked sample_reviewed"
  unfolding sample_locked_def sample_reviewed_def
  by (blast intro: r_into_rtranclp step_record step_review)+

theorem one_unresolved_per_register_witness:
  "outcome_step\<^sup>*\<^sup>* [] sample_locked \<and> length (open_outcomes (js ''reg'') sample_locked) \<le> 1"
  using one_unresolved_per_register [OF sample_reachable(1)] sample_reachable(1) by blast

lemma sample_reviewed_record:
  "\<exists>o1. idb_get sample_reviewed (js ''reg:t1'') = Some o1 \<and> o_status o1 = Reviewed \<and>
     open_outcomes (js ''reg'') sample_reviewed = []"
proof -
  have "map_option o_status (idb_get sample_reviewed (js ''reg:t1'')) = Some Reviewed" by code_simp
  moreover have "open_outcomes (js ''reg'') sample_reviewed = []" by code_simp
  ultimately show ?thesis by (cases "idb_get sample_reviewed (js ''reg:t1'')") simp_all
qed

theorem reviewed_outcome_is_final_witness:
  "\<exists>o1. idb_get sample_reviewed (js ''reg:t1'') = Some o1 \<and>
     idb_get (snd (markReviewed True (js ''reg'') (js ''t1'') sample_review sample_reviewed)) (js ''reg:t1'') = Some o1"
proof -
  obtain o1 where o1: "idb_get sample_reviewed (js ''reg:t1'') = Some o1" "o_status o1 = Reviewed"
    using sample_reviewed_record by blast
  have s: "outcome_step\<^sup>*\<^sup>* [] sample_reviewed" using sample_reachable by (rule rtranclp_trans)
  have "outcome_step\<^sup>*\<^sup>* sample_reviewed (snd (markReviewed True (js ''reg'') (js ''t1'') sample_review sample_reviewed))"
    by (rule r_into_rtranclp) (rule step_mark)
  from reviewed_outcome_is_final [OF s o1 this] o1(1) show ?thesis by blast
qed

theorem record_locks_register_witness:
  "fst (recordUnresolved True (js ''acc'') (js ''t1'') (JsInt 0x35) (js ''2026-01-03'') (js ''reg'') sample_reviewed) \<noteq> Inr ()"
proof -
  let ?r = "recordUnresolved True (js ''acc'') (js ''t1'') (JsInt 0x35) (js ''2026-01-03'') (js ''reg'') sample_reviewed"
  have s: "outcome_step\<^sup>*\<^sup>* [] sample_reviewed" using sample_reachable by (rule rtranclp_trans)
  have k: "outcome_key (js ''reg'') (js ''t1'') = js ''reg:t1''" by code_simp
  have n: "idb_get sample_reviewed (outcome_key (js ''reg'') (js ''t1'')) \<noteq> None"
    and e: "open_outcomes (js ''reg'') sample_reviewed = []"
    using sample_reviewed_record unfolding k by blast+
  have "fst ?r = Inr () \<longleftrightarrow> (\<exists>o1. open_outcomes (js ''reg'') sample_reviewed = [o1] \<and>
      o_clientTransactionId o1 = js ''t1'') \<or> open_outcomes (js ''reg'') sample_reviewed = [] \<and>
      idb_get sample_reviewed (outcome_key (js ''reg'') (js ''t1'')) = None"
    by (rule record_locks_register [OF s prod.collapse [symmetric], THEN conjunct2, THEN conjunct2, THEN mp]) simp
  with n e show ?thesis by (simp only: list.distinct) simp
qed

end
