(* ===== verification/DatecsClient.thy ===== *)
theory DatecsClient
  imports DatecsTransport FiscalOutcomes
begin

text \<open>
  \<open>apps/pos-web/src/fiscal/datecs-command-client.ts\<close>: one command at a time to the fiscal
  printer, with bounded retries of the same frame, and the outcome lock when a command's result
  is not certain.

  The transport, the clock and the browser's storage are outside the class. They are the fields
  of \<open>environment\<close>: functions of everything that happened before (\<open>trace\<close>), so that they may
  answer differently every time. The operations of the client are \<open>async\<close> functions on
  \<open>client_state\<close>; \<open>exclusive\<close> lets one run at a time, so they do not interleave. The loop that
  waits for a reply has no bound of its own; its fuel counts the messages read in one attempt,
  and \<open>Pending\<close> is the result when it is used up.
\<close>

section \<open>State\<close>

datatype read_reply = Bytes "u8 list" | TimedOut | Broken

datatype io_event = Wrote "u8 list" | ReadOne read_reply | LookedAtClock | UsedStorage

record environment =
  env_write :: "io_event list \<Rightarrow> bool"
  env_read :: "io_event list \<Rightarrow> int \<Rightarrow> read_reply"
  env_now :: "io_event list \<Rightarrow> int"
  env_storage :: "io_event list \<Rightarrow> bool"
  env_iso :: "io_event list \<Rightarrow> jsstr"

datatype unknown_reason =
    PriorOutcome | UncertainOutcome | WaitingForReview | WriteUnconfirmed | ConnectionEnded
  | NotConfirmed | ReplyMismatch

datatype client_error =
    SequenceOption | TimeoutOption | AttemptsOption | DurationOption
  | NotSynchronized | UnexpectedSequence | CouldNotSynchronize
  | ProtocolRejected | OutcomeUnknown unknown_reason | LockPersistence
  | FrameError datecs_error | StorageError outcome_error | WriteFailed

record client_options =
  accountId :: jsstr
  clientTransactionId :: jsstr
  registerId :: jsstr
  responseTimeoutMs :: int
  maxAttempts :: int
  maxCommandDurationMs :: int

record client_state =
  sequenceNumber :: int
  synchronized :: bool
  outcomeUnknown :: bool
  outcomes :: outcome_store
  trace :: "io_event list"

type_synonym 'a client = "(client_state, client_error, 'a) async"

definition GET_PRINTER_STATUS :: int where "GET_PRINTER_STATUS = 0x4a"
definition SEQUENCE_COUNT :: nat where "SEQUENCE_COUNT = 0x60"

section \<open>Constructor\<close>

definition randomSequence :: "u8 \<Rightarrow> int" where
  "randomSequence byte = MIN_SEQUENCE + uint byte mod int SEQUENCE_COUNT"

fun int_of :: "jsnum \<Rightarrow> int" where
  "int_of (JsInt i) = i"
| "int_of NonInteger = 0"

definition positive_int :: "jsnum \<Rightarrow> bool" where
  "positive_int n \<longleftrightarrow> (case n of JsInt i \<Rightarrow> i > 0 | NonInteger \<Rightarrow> False)"

definition at_least_500 :: "jsnum \<Rightarrow> bool" where
  "at_least_500 n \<longleftrightarrow> (case n of JsInt i \<Rightarrow> i \<ge> 500 | NonInteger \<Rightarrow> False)"

text \<open>\<open>byte\<close> is what \<open>crypto.getRandomValues\<close> filled in.\<close>

definition new_client :: "u8 \<Rightarrow> jsstr \<Rightarrow> jsstr \<Rightarrow> jsstr \<Rightarrow> jsnum option \<Rightarrow> jsnum option \<Rightarrow> jsnum option \<Rightarrow>
    jsnum option \<Rightarrow> outcome_store \<Rightarrow> client_error + client_options \<times> client_state" where
  "new_client byte account transactionId register initialSequence responseTimeout attempts commandDuration store =
     (let sequence = case_option (JsInt (randomSequence byte)) id initialSequence;
          timeout = case_option (JsInt 500) id responseTimeout;
          maxA = case_option (JsInt 3) id attempts;
          maxD = case_option (JsInt 30000) id commandDuration
      in
      if \<not> isIntegerIn sequence 0x20 0x7f then Inl SequenceOption
      else if \<not> positive_int timeout then Inl TimeoutOption
      else if \<not> isIntegerIn maxA 1 5 then Inl AttemptsOption
      else if \<not> at_least_500 maxD then Inl DurationOption
      else Inr (\<lparr>accountId = account, clientTransactionId = transactionId, registerId = register,
                 responseTimeoutMs = int_of timeout, maxAttempts = int_of maxA,
                 maxCommandDurationMs = int_of maxD\<rparr>,
                \<lparr>sequenceNumber = int_of sequence, synchronized = False, outcomeUnknown = False,
                 outcomes = store, trace = []\<rparr>))"

section \<open>The outside world\<close>

definition logs :: "io_event \<Rightarrow> client_state \<Rightarrow> client_state" where
  "logs e s = s\<lparr>trace := trace s @ [e]\<rparr>"

definition date_now :: "environment \<Rightarrow> int client" where
  "date_now env = (\<lambda>s. (Fulfilled (env_now env (trace s)), logs LookedAtClock s))"

text \<open>Bytes may have left even if the write is rejected.\<close>

definition transport_write :: "environment \<Rightarrow> u8 list \<Rightarrow> unit client" where
  "transport_write env frame = (\<lambda>s.
     (if env_write env (trace s) then Fulfilled () else Rejected WriteFailed, logs (Wrote frame) s))"

text \<open>\<open>readMessage\<close> rejects a timeout that is not positive before it looks at the queue.\<close>

definition transport_read :: "environment \<Rightarrow> int \<Rightarrow> read_reply client" where
  "transport_read env timeoutMs = (\<lambda>s.
     if \<not> timeout_ok (Finite (rat_of_int timeoutMs)) then (Fulfilled Broken, s)
     else let reply = env_read env (trace s) timeoutMs in (Fulfilled reply, logs (ReadOne reply) s))"

definition find_lock :: "environment \<Rightarrow> client_options \<Rightarrow> UnresolvedFiscalOutcome option client" where
  "find_lock env opt = (\<lambda>s.
     case findUnresolved (env_storage env (trace s)) (registerId opt) (outcomes s) of
       (Inr found, _) \<Rightarrow> (Fulfilled found, logs UsedStorage s)
     | (Inl e, _) \<Rightarrow> (Rejected (StorageError e), logs UsedStorage s))"

definition record_lock :: "environment \<Rightarrow> client_options \<Rightarrow> jsnum \<Rightarrow> unit client" where
  "record_lock env opt commandCode = (\<lambda>s.
     case recordUnresolved (env_storage env (trace s)) (accountId opt) (clientTransactionId opt) commandCode
            (env_iso env (trace s)) (registerId opt) (outcomes s) of
       (Inr _, store) \<Rightarrow> (Fulfilled (), (logs UsedStorage s)\<lparr>outcomes := store\<rparr>)
     | (Inl e, store) \<Rightarrow> (Rejected (StorageError e), (logs UsedStorage s)\<lparr>outcomes := store\<rparr>))"

section \<open>Operations\<close>

definition markOutcomeUnknown :: "environment \<Rightarrow> client_options \<Rightarrow> jsnum \<Rightarrow> unit client" where
  "markOutcomeUnknown env opt commandCode =
     await (writes (\<lambda>s. s\<lparr>outcomeUnknown := True\<rparr>)) (\<lambda>_.
     catch (record_lock env opt commandCode) (\<lambda>_. throw LockPersistence))"

datatype attempt = GotReply DatecsFiscalResponse | GotNak | NoReply

primrec read_loop :: "environment \<Rightarrow> client_options \<Rightarrow> int \<Rightarrow> nat \<Rightarrow> attempt client" where
  "read_loop env opt deadline 0 = (\<lambda>s. (Pending, s))"
| "read_loop env opt deadline (Suc fuel) =
     await (date_now env) (\<lambda>now.
     if \<not> now < deadline then resolve NoReply
     else
       await (date_now env) (\<lambda>now'.
       await (transport_read env (min (responseTimeoutMs opt) (deadline - now'))) (\<lambda>reply.
       case reply of
         TimedOut \<Rightarrow> resolve NoReply
       | Broken \<Rightarrow> throw (OutcomeUnknown ConnectionEnded)
       | Bytes bytes \<Rightarrow>
           if length bytes = 1 \<and> bytes ! 0 = SYN then read_loop env opt deadline fuel
           else if length bytes = 1 \<and> bytes ! 0 = NAK then resolve GotNak
           else
             (case decodeDatecsMessage bytes of
                Inr MSyn \<Rightarrow> read_loop env opt deadline fuel
              | Inr MNak \<Rightarrow> resolve GotNak
              | Inr (MResponse value) \<Rightarrow> resolve (GotReply value)
              | Inl _ \<Rightarrow> resolve NoReply))))"

primrec attempt_loop ::
  "environment \<Rightarrow> client_options \<Rightarrow> nat \<Rightarrow> u8 list \<Rightarrow> nat \<Rightarrow> bool \<Rightarrow> DatecsProtocolMessage client" where
  "attempt_loop env opt fuel frame 0 lastAttemptWasNak =
     throw (if lastAttemptWasNak then ProtocolRejected else OutcomeUnknown NotConfirmed)"
| "attempt_loop env opt fuel frame (Suc attempts) lastAttemptWasNak =
     await (catch (transport_write env frame) (\<lambda>_. throw (OutcomeUnknown WriteUnconfirmed))) (\<lambda>_.
     await (date_now env) (\<lambda>now.
     await (read_loop env opt (now + maxCommandDurationMs opt) fuel) (\<lambda>result.
     case result of
       GotReply value \<Rightarrow> resolve (MResponse value)
     | GotNak \<Rightarrow> attempt_loop env opt fuel frame attempts True
     | NoReply \<Rightarrow> attempt_loop env opt fuel frame attempts False)))"

definition frame_result :: "datecs_error + 'a \<Rightarrow> 'a client" where
  "frame_result r = of_res (case r of Inl e \<Rightarrow> Inl (FrameError e) | Inr a \<Rightarrow> Inr a)"

definition exchange :: "environment \<Rightarrow> client_options \<Rightarrow> nat \<Rightarrow> jsnum \<Rightarrow> jsnum \<Rightarrow> u8 list \<Rightarrow>
    DatecsProtocolMessage client" where
  "exchange env opt fuel sq cmd dat =
     await (frame_result (encodeDatecsCommand sq cmd dat)) (\<lambda>frame.
     attempt_loop env opt fuel frame (nat (maxAttempts opt)) False)"

primrec probe_loop :: "environment \<Rightarrow> client_options \<Rightarrow> nat \<Rightarrow> nat \<Rightarrow> DatecsFiscalResponse client" where
  "probe_loop env opt fuel 0 = throw CouldNotSynchronize"
| "probe_loop env opt fuel (Suc probes) =
     await (reads sequenceNumber) (\<lambda>sequence.
     await (exchange env opt fuel (JsInt sequence) (JsInt GET_PRINTER_STATUS) []) (\<lambda>reply.
     case reply of
       MResponse value \<Rightarrow>
         if uint (DatecsFiscalResponse.sequence value) \<noteq> sequence then throw UnexpectedSequence
         else
           await (frame_result (nextDatecsSequence (JsInt sequence))) (\<lambda>next.
           await (writes (\<lambda>s. s\<lparr>sequenceNumber := next\<rparr>)) (\<lambda>_.
           if uint (command value) = GET_PRINTER_STATUS then
             await (writes (\<lambda>s. s\<lparr>synchronized := True\<rparr>)) (\<lambda>_. resolve value)
           else probe_loop env opt fuel probes))
     | _ \<Rightarrow> throw ProtocolRejected))"

definition synchronize :: "environment \<Rightarrow> client_options \<Rightarrow> nat \<Rightarrow> DatecsFiscalResponse client" where
  "synchronize env opt fuel =
     await (find_lock env opt) (\<lambda>persistedOutcome.
     await (reads outcomeUnknown) (\<lambda>unknown.
     if unknown \<or> persistedOutcome \<noteq> None then
       await (writes (\<lambda>s. s\<lparr>outcomeUnknown := True\<rparr>)) (\<lambda>_. throw (OutcomeUnknown PriorOutcome))
     else
       await (writes (\<lambda>s. s\<lparr>synchronized := False\<rparr>)) (\<lambda>_.
       probe_loop env opt fuel SEQUENCE_COUNT)))"

definition execute :: "environment \<Rightarrow> client_options \<Rightarrow> nat \<Rightarrow> int \<Rightarrow> u8 list \<Rightarrow> DatecsFiscalResponse client" where
  "execute env opt fuel cmd dat =
     await (reads synchronized) (\<lambda>sync.
     if \<not> sync then throw NotSynchronized
     else await (reads outcomeUnknown) (\<lambda>unknown.
     if unknown then throw (OutcomeUnknown UncertainOutcome)
     else await (find_lock env opt) (\<lambda>persistedOutcome.
     if persistedOutcome \<noteq> None then
       await (writes (\<lambda>s. s\<lparr>outcomeUnknown := True\<rparr>)) (\<lambda>_. throw (OutcomeUnknown WaitingForReview))
     else await (reads sequenceNumber) (\<lambda>sequence.
     await (catch (exchange env opt fuel (JsInt sequence) (JsInt cmd) dat) (\<lambda>error.
        if error \<noteq> ProtocolRejected then
          await (markOutcomeUnknown env opt (JsInt cmd)) (\<lambda>_. throw error)
        else throw error)) (\<lambda>reply.
     case reply of
       MResponse value \<Rightarrow>
         await (catch (frame_result (validateDatecsResponse value cmd sequence)) (\<lambda>error.
           await (markOutcomeUnknown env opt (JsInt cmd)) (\<lambda>_. throw (OutcomeUnknown ReplyMismatch)))) (\<lambda>_.
         await (frame_result (nextDatecsSequence (JsInt sequence))) (\<lambda>next.
         await (writes (\<lambda>s. s\<lparr>sequenceNumber := next\<rparr>)) (\<lambda>_. resolve value)))
     | _ \<Rightarrow> throw ProtocolRejected)))))"

definition isSynchronized :: "client_state \<Rightarrow> bool" where
  "isSynchronized s \<longleftrightarrow> synchronized s \<and> \<not> outcomeUnknown s"

section \<open>Frame conditions\<close>

text \<open>The frames written in a trace.\<close>

fun wrote1 :: "io_event \<Rightarrow> u8 list list" where
  "wrote1 (Wrote f) = [f]"
| "wrote1 _ = []"

definition wrote :: "io_event list \<Rightarrow> u8 list list" where
  "wrote tr = concat (map wrote1 tr)"

lemma wrote_simps [simp]: "wrote [] = []" "wrote (a @ b) = wrote a @ wrote b" "wrote (e # b) = wrote1 e @ wrote b"
  by (simp_all add: wrote_def)

text \<open>
  \<open>only_talks P m\<close>: whatever \<open>m\<close> does, it only adds to the trace, and \<open>P\<close> holds of the frames
  it wrote and of its result.
\<close>

definition only_talks :: "(u8 list list \<Rightarrow> (client_error, 'a) promise \<Rightarrow> bool) \<Rightarrow> 'a client \<Rightarrow> bool" where
  "only_talks P m \<longleftrightarrow> (\<forall>s. \<exists>ext. snd (m s) = s\<lparr>trace := trace s @ ext\<rparr> \<and> P (wrote ext) (fst (m s)))"

lemma only_talksD:
  assumes "only_talks P m" and "m s = (r, s')"
  obtains ext where "s' = s\<lparr>trace := trace s @ ext\<rparr>" "P (wrote ext) r"
  using assms unfolding only_talks_def by (metis fst_conv snd_conv)

lemma only_talks_mono: "only_talks P m \<Longrightarrow> (\<And>w r. P w r \<Longrightarrow> Q w r) \<Longrightarrow> only_talks Q m"
  unfolding only_talks_def by meson

lemma only_talks_resolve: "P [] (Fulfilled a) \<Longrightarrow> only_talks P (resolve a)"
  and only_talks_throw: "P [] (Rejected e) \<Longrightarrow> only_talks P (throw e)"
  unfolding only_talks_def by (auto intro!: exI [of _ "[]"])

lemma only_talks_await:
  assumes "only_talks P m" and "\<And>w e. P w (Rejected e) \<Longrightarrow> R w (Rejected e)" and "\<And>w. P w Pending \<Longrightarrow> R w Pending"
    and "\<And>a. only_talks (\<lambda>w' r. \<forall>w. P w (Fulfilled a) \<longrightarrow> R (w @ w') r) (f a)"
  shows "only_talks R (await m f)"
  unfolding only_talks_def
proof
  fix s
  obtain r s1 where m: "m s = (r, s1)" by fastforce
  obtain ext where e: "s1 = s\<lparr>trace := trace s @ ext\<rparr>" "P (wrote ext) r" by (rule only_talksD [OF assms(1) m])
  show "\<exists>ext. snd (await m f s) = s\<lparr>trace := trace s @ ext\<rparr> \<and> R (wrote ext) (fst (await m f s))"
  proof (cases r)
    case (Fulfilled a)
    obtain r2 s2 where f: "f a s1 = (r2, s2)" by fastforce
    obtain ext2 where e2: "s2 = s1\<lparr>trace := trace s1 @ ext2\<rparr>" "\<forall>w. P w (Fulfilled a) \<longrightarrow> R (w @ wrote ext2) r2"
      by (rule only_talksD [OF assms(4) f])
    show ?thesis using m f e e2 Fulfilled
      by (intro exI [of _ "ext @ ext2"]) (simp add: await_run)
  qed (use m e assms(2,3) in \<open>auto simp: await_run\<close>)
qed

lemma talks_now: "only_talks (\<lambda>w r. w = [] \<and> (\<exists>t. r = Fulfilled t)) (date_now env)"
  by (auto simp: only_talks_def date_now_def logs_def intro!: exI [of _ "[LookedAtClock]"])

lemma talks_read: "only_talks (\<lambda>w r. w = [] \<and> (\<exists>t. r = Fulfilled t)) (transport_read env ms)"
proof (cases "timeout_ok (Finite (rat_of_int ms))")
  case True
  then show ?thesis
    by (auto simp: only_talks_def transport_read_def logs_def Let_def
        intro!: exI [of _ "[ReadOne (env_read env _ _)]"])
qed (auto simp: only_talks_def transport_read_def intro!: exI [of _ "[]"])

lemma talks_write: "only_talks (\<lambda>w r. w = [frame] \<and> r \<noteq> Pending) (transport_write env frame)"
  by (auto simp: only_talks_def transport_write_def logs_def intro!: exI [of _ "[Wrote frame]"])

lemma talks_write_caught:
  "only_talks (\<lambda>w r. w = [frame] \<and> (r = Fulfilled () \<or> r = Rejected (OutcomeUnknown WriteUnconfirmed)))
     (catch (transport_write env frame) (\<lambda>_. throw (OutcomeUnknown WriteUnconfirmed)))"
  by (auto simp: only_talks_def transport_write_def catch_run logs_def intro!: exI [of _ "[Wrote frame]"])

text \<open>Waiting for a reply writes nothing and never reports a rejection by the printer.\<close>

lemma talks_read_loop:
  "only_talks (\<lambda>w r. w = [] \<and> r \<noteq> Rejected ProtocolRejected \<and> (\<forall>v. r = Fulfilled (GotReply v) \<longrightarrow> wf_response v))
     (read_loop env opt deadline fuel)"
proof (induction fuel)
  case 0
  show ?case by (auto simp: only_talks_def intro!: exI [of _ "[]"])
next
  case (Suc fuel)
  note loop = only_talks_mono [OF Suc]
  show ?case
    unfolding read_loop.simps
    apply (rule only_talks_await [OF talks_now], simp, simp)
    subgoal for now
      apply (cases "now < deadline"; simp)
       apply (rule only_talks_await [OF talks_now], simp, simp)
      subgoal
        apply (rule only_talks_await [OF talks_read], simp, simp)
        subgoal for reply
          by (cases reply)
            (auto intro!: only_talks_resolve only_talks_throw intro: loop dest: decode_response_inv
              split: sum.splits DatecsProtocolMessage.splits)
        done
      by (auto intro!: only_talks_resolve)
    done
qed

section \<open>Exchanges\<close>

definition same_frame :: "nat \<Rightarrow> u8 list \<Rightarrow> u8 list list \<Rightarrow> (client_error, DatecsProtocolMessage) promise \<Rightarrow> bool" where
  "same_frame n frame w r \<longleftrightarrow> (\<exists>k \<le> n. w = replicate k frame \<and> (0 < n \<longrightarrow> 0 < k)) \<and>
     (\<forall>m. r = Fulfilled m \<longrightarrow> (\<exists>v. m = MResponse v \<and> wf_response v))"

lemma same_frame_Suc: "same_frame n frame w r \<Longrightarrow> same_frame (Suc n) frame (frame # w) r"
  unfolding same_frame_def by (metis Suc_le_mono replicate_Suc zero_less_Suc)

lemma same_frame_one: "(\<forall>m. r = Fulfilled m \<longrightarrow> (\<exists>v. m = MResponse v \<and> wf_response v)) \<Longrightarrow> same_frame (Suc n) frame [frame] r"
  unfolding same_frame_def by (auto intro!: exI [of _ 1])

lemma talks_attempts: "only_talks (same_frame n frame) (attempt_loop env opt fuel frame n nak)"
proof (induction n arbitrary: nak)
  case 0
  show ?case unfolding attempt_loop.simps by (rule only_talks_throw) (simp add: same_frame_def)
next
  case (Suc n)
  have loop: "only_talks (\<lambda>w r. same_frame (Suc n) frame (frame # w) r) (attempt_loop env opt fuel frame n nak)" for nak
    by (rule only_talks_mono [OF Suc]) (rule same_frame_Suc)
  show ?case
    unfolding attempt_loop.simps
    apply (rule only_talks_await [OF talks_write_caught])
      apply (auto intro!: same_frame_one)[2]
    apply (rule only_talks_await [OF talks_now], simp, simp)
    apply (rule only_talks_await [OF talks_read_loop])
      apply (auto intro!: same_frame_one)[2]
    subgoal for u now result
      by (cases result) (auto intro!: only_talks_resolve same_frame_one only_talks_mono [OF loop])
    done
qed

lemma talks_exchange:
  "only_talks (\<lambda>w r. case encodeDatecsCommand sq c d of
       Inl e \<Rightarrow> w = [] \<and> r = Rejected (FrameError e)
     | Inr frame \<Rightarrow> same_frame (nat (maxAttempts opt)) frame w r) (exchange env opt fuel sq c d)"
  by (auto simp: exchange_def frame_result_def talks_attempts intro!: only_talks_throw split: sum.splits)

text \<open>
  An exchange with the printer writes only one frame, the encoding of the command, between
  one and \<open>maxAttempts\<close> times; it changes nothing but the trace, and what it returns is a
  response that the decoder accepted.
\<close>

theorem exchange_repeats_one_frame:
  assumes "encodeDatecsCommand sq c d = Inr frame" and "0 < maxAttempts opt"
    and "exchange env opt fuel sq c d s = (r, s')"
  shows "\<exists>ext k. s' = s\<lparr>trace := trace s @ ext\<rparr> \<and> wrote ext = replicate k frame \<and> 1 \<le> k \<and>
    int k \<le> maxAttempts opt \<and> (\<forall>m. r = Fulfilled m \<longrightarrow> (\<exists>v. m = MResponse v \<and> wf_response v))"
proof -
  obtain ext where e: "s' = s\<lparr>trace := trace s @ ext\<rparr>" "same_frame (nat (maxAttempts opt)) frame (wrote ext) r"
    by (rule only_talksD [OF talks_exchange assms(3)]) (use assms(1) in auto)
  then obtain k where "k \<le> nat (maxAttempts opt)" "wrote ext = replicate k frame" "0 < k"
    using assms(2) by (auto simp: same_frame_def)
  with e assms(2) show ?thesis by (intro exI [of _ ext] exI [of _ k]) (auto simp: same_frame_def)
qed

section \<open>The outcome lock\<close>

definition locked :: "client_options \<Rightarrow> client_state \<Rightarrow> bool" where
  "locked opt s \<longleftrightarrow> open_outcomes (registerId opt) (outcomes s) \<noteq> []"

lemma find_lock_run:
  "find_lock env opt s = (if env_storage env (trace s)
     then Fulfilled (case open_outcomes (registerId opt) (outcomes s) of [] \<Rightarrow> None | o1 # _ \<Rightarrow> Some o1)
     else Rejected (StorageError StorageUnavailable), logs UsedStorage s)"
  by (auto simp: find_lock_def findUnresolved_def transaction_def find_open)

lemma logs_simps [simp]:
  "sequenceNumber (logs e s) = sequenceNumber s" "synchronized (logs e s) = synchronized s"
  "outcomeUnknown (logs e s) = outcomeUnknown s" "outcomes (logs e s) = outcomes s"
  "trace (logs e s) = trace s @ [e]"
  by (simp_all add: logs_def)

lemma mark_run:
  assumes "wf_outcomes (outcomes s)" and "markOutcomeUnknown env opt c s = (r, s')"
  shows "outcomeUnknown s' \<and> trace s' = trace s @ [UsedStorage] \<and> sequenceNumber s' = sequenceNumber s \<and>
    synchronized s' = synchronized s \<and> wf_outcomes (outcomes s') \<and>
    (r = Fulfilled () \<and> locked opt s' \<or> r = Rejected LockPersistence)"
proof -
  let ?s = "s\<lparr>outcomeUnknown := True\<rparr>"
  obtain q st where q: "recordUnresolved (env_storage env (trace s)) (accountId opt) (clientTransactionId opt) c
      (env_iso env (trace s)) (registerId opt) (outcomes s) = (q, st)" by fastforce
  have wf: "wf_outcomes st" using wf_record [OF assms(1)] q by (metis snd_conv)
  have "locked opt (s\<lparr>outcomes := st\<rparr>)" if "q = Inr ()"
    using record_then_find [OF assms(1)] q that by (fastforce simp: locked_def)
  with assms(2) q wf show ?thesis
    by (cases q) (auto simp: markOutcomeUnknown_def await_run catch_run record_lock_def locked_def)
qed

text \<open>
  C22: While an earlier outcome is unknown, in memory or in the store, neither \<open>execute\<close> nor
  \<open>synchronize\<close> writes anything to the printer, and both reject.
\<close>

theorem unknown_outcome_blocks_printer:
  assumes "locked opt s \<or> outcomeUnknown s"
  shows "(\<exists>e. fst (execute env opt fuel c d s) = Rejected e) \<and>
    wrote (trace (snd (execute env opt fuel c d s))) = wrote (trace s) \<and>
    (\<exists>e. fst (synchronize env opt fuel s) = Rejected e) \<and>
    wrote (trace (snd (synchronize env opt fuel s))) = wrote (trace s) \<and>
    locked opt (snd (execute env opt fuel c d s)) = locked opt s \<and>
    (outcomeUnknown s \<longrightarrow> outcomeUnknown (snd (execute env opt fuel c d s)))"
  using assms by (auto simp: execute_def synchronize_def await_run find_lock_run locked_def split: list.splits)

section \<open>Commands fail closed\<close>

definition client_ok :: "client_state \<Rightarrow> bool" where
  "client_ok s \<longleftrightarrow> 0x20 \<le> sequenceNumber s \<and> sequenceNumber s \<le> 0x7f \<and> wf_outcomes (outcomes s)"

lemma client_ok_trace [simp]:
  "client_ok (s\<lparr>trace := tr\<rparr>) = client_ok s" "client_ok (logs e s) = client_ok s"
  "client_ok (s\<lparr>outcomeUnknown := u\<rparr>) = client_ok s" "client_ok (s\<lparr>synchronized := u\<rparr>) = client_ok s"
  by (simp_all add: client_ok_def)

lemma next_ok:
  "0x20 \<le> i \<Longrightarrow> i \<le> 0x7f \<Longrightarrow> \<exists>j. nextDatecsSequence (JsInt i) = Inr j \<and> 0x20 \<le> j \<and> j \<le> 0x7f"
  using nextDatecsSequence_range nextDatecsSequence_eq [of i] by simp

lemma mark_ok:
  assumes "client_ok s" and "markOutcomeUnknown env opt c s = (r, s')"
  shows "client_ok s' \<and> outcomeUnknown s' \<and> wrote (trace s') = wrote (trace s) \<and>
    (r = Fulfilled () \<and> locked opt s' \<or> r = Rejected LockPersistence)"
  using mark_run [OF _ assms(2)] assms(1) by (auto simp: client_ok_def)

text \<open>What an \<open>execute\<close> that got past its guards does with the result of the exchange.\<close>

definition after_exchange :: "environment \<Rightarrow> client_options \<Rightarrow> int \<Rightarrow> int \<Rightarrow>
    (client_error, DatecsProtocolMessage) promise \<Rightarrow> client_state \<Rightarrow>
    (client_error, DatecsFiscalResponse) promise \<times> client_state" where
  "after_exchange env opt c sq r s = (case r of
       Pending \<Rightarrow> (Pending, s)
     | Rejected e \<Rightarrow>
         if e = ProtocolRejected then (Rejected e, s)
         else (case markOutcomeUnknown env opt (JsInt c) s of
             (Fulfilled _, s') \<Rightarrow> (Rejected e, s') | (Rejected e', s') \<Rightarrow> (Rejected e', s') | (Pending, s') \<Rightarrow> (Pending, s'))
     | Fulfilled (MResponse v) \<Rightarrow>
         (case validateDatecsResponse v c sq of
            Inl _ \<Rightarrow> (case markOutcomeUnknown env opt (JsInt c) s of
               (Fulfilled _, s') \<Rightarrow> (Rejected (OutcomeUnknown ReplyMismatch), s')
             | (Rejected e', s') \<Rightarrow> (Rejected e', s') | (Pending, s') \<Rightarrow> (Pending, s'))
          | Inr _ \<Rightarrow> (case nextDatecsSequence (JsInt sq) of
               Inl e \<Rightarrow> (Rejected (FrameError e), s)
             | Inr n \<Rightarrow> (Fulfilled v, s\<lparr>sequenceNumber := n\<rparr>)))
     | Fulfilled _ \<Rightarrow> (Rejected ProtocolRejected, s))"

lemma execute_run:
  "execute env opt fuel c d s =
    (if \<not> synchronized s then (Rejected NotSynchronized, s)
     else if outcomeUnknown s then (Rejected (OutcomeUnknown UncertainOutcome), s)
     else if \<not> env_storage env (trace s) then (Rejected (StorageError StorageUnavailable), logs UsedStorage s)
     else if locked opt s then (Rejected (OutcomeUnknown WaitingForReview), (logs UsedStorage s)\<lparr>outcomeUnknown := True\<rparr>)
     else case exchange env opt fuel (JsInt (sequenceNumber s)) (JsInt c) d (logs UsedStorage s) of
       (r, s') \<Rightarrow> after_exchange env opt c (sequenceNumber s) r s')"
proof (cases "synchronized s \<and> \<not> outcomeUnknown s \<and> env_storage env (trace s) \<and> \<not> locked opt s")
  case False
  then show ?thesis by (auto simp: execute_def await_run find_lock_run locked_def split: list.split)
next
  case True
  obtain r s1 where x: "exchange env opt fuel (JsInt (sequenceNumber s)) (JsInt c) d (logs UsedStorage s) = (r, s1)"
    by fastforce
  obtain m s2 where m: "markOutcomeUnknown env opt (JsInt c) s1 = (m, s2)" by fastforce
  have none: "open_outcomes (registerId opt) (outcomes s) = []" using True by (simp add: locked_def)
  have e: "execute env opt fuel c d s = after_exchange env opt c (sequenceNumber s) r s1"
  proof (cases r)
    case (Fulfilled msg)
    then show ?thesis
      using True none x m
      by (cases msg; cases "validateDatecsResponse (case msg of MResponse v \<Rightarrow> v) c (sequenceNumber s)";
          cases "nextDatecsSequence (JsInt (sequenceNumber s))"; cases m)
        (simp_all add: execute_def after_exchange_def await_run catch_run find_lock_run frame_result_def)
  next
    case (Rejected e)
    then show ?thesis
      using True none x m
      by (cases m; cases "e = ProtocolRejected")
        (simp_all add: execute_def after_exchange_def await_run catch_run find_lock_run)
  next
    case Pending
    then show ?thesis
      using True none x by (simp add: execute_def after_exchange_def await_run catch_run find_lock_run)
  qed
  with True x show ?thesis by simp
qed

lemma after_exchange_props:
  assumes "client_ok s" "\<not> outcomeUnknown s" "0x20 \<le> sq" "sq \<le> 0x7f" "after_exchange env opt c sq r s = (q, s')"
  shows "client_ok s' \<and> wrote (trace s') = wrote (trace s) \<and>
    (\<forall>e. q = Rejected e \<longrightarrow> e \<noteq> ProtocolRejected \<longrightarrow> outcomeUnknown s' \<and> (locked opt s' \<or> e = LockPersistence)) \<and>
    (\<forall>v. q = Fulfilled v \<longrightarrow> r = Fulfilled (MResponse v) \<and> uint (command v) = c \<and> uint (sequence v) = sq \<and>
       nextDatecsSequence (JsInt sq) = Inr (sequenceNumber s') \<and> \<not> outcomeUnknown s')"
proof -
  obtain m s1 where m: "markOutcomeUnknown env opt (JsInt c) s = (m, s1)" by fastforce
  note mk = mark_ok [OF assms(1) m]
  obtain j where j: "nextDatecsSequence (JsInt sq) = Inr j" "0x20 \<le> j" "j \<le> 0x7f"
    using next_ok assms(3,4) by blast
  show ?thesis
  proof (cases r)
    case (Fulfilled msg)
    show ?thesis
    proof (cases msg)
      case (MResponse v)
      then show ?thesis
        using assms mk j Fulfilled m
        by (cases "validateDatecsResponse v c sq")
          (auto simp: after_exchange_def client_ok_def validateDatecsResponse_def split: if_splits)
    qed (use Fulfilled assms in \<open>auto simp: after_exchange_def\<close>)
  qed (use assms mk m in \<open>auto simp: after_exchange_def split: if_splits\<close>)
qed

lemma execute_parts:
  assumes "client_ok s" "0 < maxAttempts opt" "execute env opt fuel c d s = (q, s')"
  shows "client_ok s' \<and>
    (\<exists>k f. wrote (trace s') = wrote (trace s) @ replicate k f \<and> int k \<le> maxAttempts opt \<and>
       (0 < k \<longrightarrow> encodeDatecsCommand (JsInt (sequenceNumber s)) (JsInt c) d = Inr f) \<and>
       (\<forall>v. q = Fulfilled v \<longrightarrow> 0 < k \<and> wf_response v \<and> uint (command v) = c \<and> uint (sequence v) = sequenceNumber s \<and>
         nextDatecsSequence (JsInt (sequenceNumber s)) = Inr (sequenceNumber s') \<and> \<not> outcomeUnknown s') \<and>
       (\<forall>e. q = Rejected e \<longrightarrow> 0 < k \<longrightarrow> e \<noteq> ProtocolRejected \<longrightarrow> outcomeUnknown s' \<and> (locked opt s' \<or> e = LockPersistence)))"
proof (cases "synchronized s \<and> \<not> outcomeUnknown s \<and> env_storage env (trace s) \<and> \<not> locked opt s")
  case False
  then show ?thesis using assms unfolding execute_run by (auto split: if_splits intro!: exI [of _ 0])
next
  case True
  obtain r s1 where x: "exchange env opt fuel (JsInt (sequenceNumber s)) (JsInt c) d (logs UsedStorage s) = (r, s1)"
    by fastforce
  obtain ext where e: "s1 = (logs UsedStorage s)\<lparr>trace := trace (logs UsedStorage s) @ ext\<rparr>"
      "case encodeDatecsCommand (JsInt (sequenceNumber s)) (JsInt c) d of
       Inl e \<Rightarrow> wrote ext = [] \<and> r = Rejected (FrameError e)
     | Inr frame \<Rightarrow> same_frame (nat (maxAttempts opt)) frame (wrote ext) r"
    by (rule only_talksD [OF talks_exchange x])
  have a: "after_exchange env opt c (sequenceNumber s) r s1 = (q, s')"
    using True assms(3) x unfolding execute_run by simp
  have s1: "client_ok s1" "\<not> outcomeUnknown s1" "wrote (trace s1) = wrote (trace s) @ wrote ext"
    using e(1) assms(1) True by simp_all
  have sq: "0x20 \<le> sequenceNumber s" "sequenceNumber s \<le> 0x7f" using assms(1) by (simp_all add: client_ok_def)
  note p = after_exchange_props [OF s1(1,2) sq a]
  show ?thesis
  proof (cases "encodeDatecsCommand (JsInt (sequenceNumber s)) (JsInt c) d")
    case (Inl e)
    then show ?thesis using p e(2) s1 assms(2) by (auto intro!: exI [of _ 0])
  next
    case (Inr frame)
    then obtain k where "k \<le> nat (maxAttempts opt)" "wrote ext = replicate k frame" "0 < k"
      using e(2) assms(2) by (auto simp: same_frame_def)
    moreover have "\<forall>v. r = Fulfilled (MResponse v) \<longrightarrow> wf_response v" using e(2) Inr by (auto simp: same_frame_def)
    ultimately show ?thesis using p s1 Inr assms(2) by (auto intro!: exI [of _ k] exI [of _ frame])
  qed
qed

text \<open>
  C7: A command fails closed. At most \<open>maxAttempts\<close> frames are written, all the encoding of
  this command under the current sequence number. If it succeeds, the reply is for this command
  and sequence number, and the sequence number advances. If it fails after a frame was written
  and the printer did not reject the frame, the client is closed and the register is locked in
  the store, or the failure to lock is what is reported.
\<close>

theorem execute_fails_closed:
  assumes "client_ok s" and "0 < maxAttempts opt" and "execute env opt fuel c d s = (q, s')"
  shows "client_ok s' \<and>
    (\<exists>k f. wrote (trace s') = wrote (trace s) @ replicate k f \<and> int k \<le> maxAttempts opt \<and>
       (0 < k \<longrightarrow> encodeDatecsCommand (JsInt (sequenceNumber s)) (JsInt c) d = Inr f) \<and>
       (\<forall>v. q = Fulfilled v \<longrightarrow> 0 < k \<and> wf_response v \<and> uint (command v) = c \<and> uint (sequence v) = sequenceNumber s \<and>
         nextDatecsSequence (JsInt (sequenceNumber s)) = Inr (sequenceNumber s') \<and> \<not> outcomeUnknown s') \<and>
       (\<forall>e. q = Rejected e \<longrightarrow> 0 < k \<longrightarrow> e \<noteq> ProtocolRejected \<longrightarrow> outcomeUnknown s' \<and> (locked opt s' \<or> e = LockPersistence)))"
  by (rule execute_parts [OF assms])

text \<open>A printer that never answers.\<close>

definition silent_printer :: environment where
  "silent_printer = \<lparr>env_write = (\<lambda>_. True), env_read = (\<lambda>_ _. TimedOut), env_now = (\<lambda>tr. int (length tr)),
     env_storage = (\<lambda>_. True), env_iso = (\<lambda>_. js ''2026'')\<rparr>"

definition sample_options :: client_options where
  "sample_options = \<lparr>accountId = js ''acc'', clientTransactionId = js ''t1'', registerId = js ''reg'',
     responseTimeoutMs = 500, maxAttempts = 3, maxCommandDurationMs = 30000\<rparr>"

definition sample_client :: client_state where
  "sample_client = \<lparr>sequenceNumber = 0x20, synchronized = True, outcomeUnknown = False, outcomes = [], trace = []\<rparr>"

definition sample_frame :: "u8 list" where
  "sample_frame = command_frame 0x20 0x35 []"

lemma sample_encode: "encodeDatecsCommand (JsInt 0x20) (JsInt 0x35) [] = Inr sample_frame"
  by (simp add: encode_iff sample_frame_def wf_command_def)

lemma sample_client_ok: "client_ok sample_client" "0 < maxAttempts sample_options"
  by (simp_all add: client_ok_def sample_client_def sample_options_def)

theorem exchange_repeats_one_frame_witness:
  "\<exists>k. wrote (trace (snd (exchange silent_printer sample_options 9 (JsInt 0x20) (JsInt 0x35) [] sample_client))) =
     replicate k sample_frame \<and> 1 \<le> k \<and> k \<le> 3"
  using exchange_repeats_one_frame [OF sample_encode sample_client_ok(2) prod.collapse [symmetric],
      of silent_printer 9 sample_client]
  by (auto simp: sample_client_def sample_options_def)

theorem unknown_outcome_blocks_printer_witness:
  "wrote (trace (snd (execute silent_printer sample_options 9 0x35 [] (sample_client\<lparr>outcomeUnknown := True\<rparr>)))) = []"
  using unknown_outcome_blocks_printer [of sample_options "sample_client\<lparr>outcomeUnknown := True\<rparr>"]
  by (simp add: sample_client_def)

lemma silent_exchange:
  "fst (execute silent_printer sample_options 9 0x35 [] sample_client) = Rejected (OutcomeUnknown NotConfirmed) \<and>
   length (wrote (trace (snd (execute silent_printer sample_options 9 0x35 [] sample_client)))) = 3"
  by code_simp

theorem execute_fails_closed_witness:
  "outcomeUnknown (snd (execute silent_printer sample_options 9 0x35 [] sample_client)) \<and>
   locked sample_options (snd (execute silent_printer sample_options 9 0x35 [] sample_client))"
  using execute_fails_closed [where env = silent_printer and fuel = 9 and c = "0x35" and d = "[]",
      OF sample_client_ok prod.collapse [symmetric]] silent_exchange
  by (auto simp: sample_client_def)

section \<open>Synchronisation\<close>

definition status_query :: "u8 list \<Rightarrow> bool" where
  "status_query f \<longleftrightarrow> (\<exists>i. encodeDatecsCommand (JsInt i) (JsInt GET_PRINTER_STATUS) [] = Inr f)"

lemma status_encodes:
  "0x20 \<le> i \<Longrightarrow> i \<le> 0x7f \<Longrightarrow> \<exists>f. encodeDatecsCommand (JsInt i) (JsInt GET_PRINTER_STATUS) [] = Inr f"
  by (simp add: encode_iff wf_command_def GET_PRINTER_STATUS_def)

lemma probe_parts:
  assumes "client_ok s" "0 < maxAttempts opt" "probe_loop env opt fuel n s = (q, s')"
  shows "\<exists>ws. wrote (trace s') = wrote (trace s) @ ws \<and> int (length ws) \<le> int n * maxAttempts opt \<and>
     (\<forall>f \<in> set ws. status_query f) \<and> client_ok s' \<and> outcomes s' = outcomes s \<and> outcomeUnknown s' = outcomeUnknown s \<and>
     (\<forall>v. q = Fulfilled v \<longrightarrow> synchronized s' \<and> uint (command v) = GET_PRINTER_STATUS \<and>
        nextDatecsSequence (JsInt (uint (sequence v))) = Inr (sequenceNumber s'))"
  using assms
proof (induction n arbitrary: s)
  case 0
  then show ?case by auto
next
  case (Suc n)
  let ?sq = "sequenceNumber s"
  have sq: "0x20 \<le> ?sq" "?sq \<le> 0x7f" using Suc.prems(1) by (simp_all add: client_ok_def)
  obtain f where f: "encodeDatecsCommand (JsInt ?sq) (JsInt GET_PRINTER_STATUS) [] = Inr f"
    using status_encodes sq by blast
  obtain j where j: "nextDatecsSequence (JsInt ?sq) = Inr j" "0x20 \<le> j" "j \<le> 0x7f" using next_ok sq by blast
  obtain r s1 where x: "exchange env opt fuel (JsInt ?sq) (JsInt GET_PRINTER_STATUS) [] s = (r, s1)" by fastforce
  obtain ext where e: "s1 = s\<lparr>trace := trace s @ ext\<rparr>"
      "case encodeDatecsCommand (JsInt ?sq) (JsInt GET_PRINTER_STATUS) [] of
       Inl e \<Rightarrow> wrote ext = [] \<and> r = Rejected (FrameError e)
     | Inr frame \<Rightarrow> same_frame (nat (maxAttempts opt)) frame (wrote ext) r"
    by (rule only_talksD [OF talks_exchange x])
  then obtain k where "k \<le> nat (maxAttempts opt)" and k2: "wrote ext = replicate k f"
    by (auto simp: f same_frame_def)
  with Suc.prems(2) have k: "int k \<le> maxAttempts opt" "wrote ext = replicate k f" by simp_all
  have ws: "\<forall>f \<in> set (wrote ext). status_query f" using k(2) f by (auto simp: status_query_def)
  have len: "int (length (wrote ext)) \<le> int (Suc n) * maxAttempts opt"
  proof -
    have "1 * maxAttempts opt \<le> int (Suc n) * maxAttempts opt" using Suc.prems(2) by (intro mult_right_mono) auto
    with k show ?thesis by simp
  qed
  note run = Suc.prems(3) [unfolded probe_loop.simps]
  show ?case
  proof (cases "\<exists>v. r = Fulfilled (MResponse v) \<and> uint (sequence v) = ?sq \<and> uint (command v) \<noteq> GET_PRINTER_STATUS")
    case True
    let ?s = "s1\<lparr>sequenceNumber := j\<rparr>"
    from True have "probe_loop env opt fuel n ?s = (q, s')"
      using run x j by (auto simp: await_run frame_result_def)
    moreover have "client_ok ?s" using Suc.prems(1) e(1) j by (simp add: client_ok_def)
    ultimately obtain ws where IH: "wrote (trace s') = wrote (trace ?s) @ ws" "int (length ws) \<le> int n * maxAttempts opt"
        "\<forall>f \<in> set ws. status_query f" "client_ok s'" "outcomes s' = outcomes ?s" "outcomeUnknown s' = outcomeUnknown ?s"
        "\<forall>v. q = Fulfilled v \<longrightarrow> synchronized s' \<and> uint (command v) = GET_PRINTER_STATUS \<and>
          nextDatecsSequence (JsInt (uint (sequence v))) = Inr (sequenceNumber s')"
      using Suc.IH [of ?s] Suc.prems(2) by blast
    have "int (length (wrote ext @ ws)) \<le> int (Suc n) * maxAttempts opt"
      using IH(2) k by (simp add: algebra_simps)
    with IH ws e(1) show ?thesis by (intro exI [of _ "wrote ext @ ws"]) auto
  next
    case False
    show ?thesis
    proof (cases "r")
      case (Fulfilled m)
      then show ?thesis
        using False run x j e(1) ws len Suc.prems(1)
        by (cases m) (auto simp: await_run frame_result_def client_ok_def split: if_splits intro!: exI [of _ "wrote ext"])
    qed (use run x e(1) ws len Suc.prems(1) in \<open>auto simp: await_run client_ok_def intro!: exI [of _ "wrote ext"]\<close>)
  qed
qed

lemma synchronize_parts:
  assumes "client_ok s" and "0 < maxAttempts opt" and "synchronize env opt fuel s = (q, s')"
  shows "client_ok s' \<and> outcomes s' = outcomes s \<and>
    (\<exists>ws. wrote (trace s') = wrote (trace s) @ ws \<and> int (length ws) \<le> 96 * maxAttempts opt \<and> (\<forall>f \<in> set ws. status_query f)) \<and>
    (\<forall>v. q = Fulfilled v \<longrightarrow> isSynchronized s' \<and> uint (command v) = GET_PRINTER_STATUS \<and>
       nextDatecsSequence (JsInt (uint (sequence v))) = Inr (sequenceNumber s'))"
proof (cases "env_storage env (trace s) \<and> \<not> outcomeUnknown s \<and> \<not> locked opt s")
  case False
  then show ?thesis using assms
    by (auto simp: synchronize_def await_run find_lock_run locked_def split: if_splits list.splits)
next
  case True
  let ?s = "(logs UsedStorage s)\<lparr>synchronized := False\<rparr>"
  have "open_outcomes (registerId opt) (outcomes s) = []" using True by (simp add: locked_def)
  with True assms(3) have p: "probe_loop env opt fuel SEQUENCE_COUNT ?s = (q, s')"
    by (simp add: synchronize_def await_run find_lock_run)
  have "client_ok ?s" using assms(1) by simp
  from probe_parts [OF this assms(2) p] True show ?thesis
    by (auto simp: isSynchronized_def SEQUENCE_COUNT_def)
qed

text \<open>
  Synchronisation only asks for the printer status, at most 96 times \<open>maxAttempts\<close> frames,
  and never touches the outcome store. When it succeeds, the printer answered the status
  command, and the client continues with the sequence number after the one in that answer.
\<close>

theorem synchronize_only_probes:
  assumes "client_ok s" and "0 < maxAttempts opt" and "synchronize env opt fuel s = (q, s')"
  shows "client_ok s' \<and> outcomes s' = outcomes s \<and>
    (\<exists>ws. wrote (trace s') = wrote (trace s) @ ws \<and> int (length ws) \<le> 96 * maxAttempts opt \<and> (\<forall>f \<in> set ws. status_query f)) \<and>
    (\<forall>v. q = Fulfilled v \<longrightarrow> isSynchronized s' \<and> uint (command v) = GET_PRINTER_STATUS \<and>
       nextDatecsSequence (JsInt (uint (sequence v))) = Inr (sequenceNumber s'))"
  by (rule synchronize_parts [OF assms])

theorem synchronize_only_probes_witness:
  "\<exists>ws. wrote (trace (snd (synchronize silent_printer sample_options 9 sample_client))) = ws \<and>
     length ws \<le> 288 \<and> (\<forall>f \<in> set ws. status_query f)"
  using synchronize_only_probes [where env = silent_printer and fuel = 9, OF sample_client_ok prod.collapse [symmetric]]
  by (auto simp: sample_client_def sample_options_def)

section \<open>Waiting for the printer\<close>

text \<open>
  The only messages that the driver reads on after are single SYN bytes: the printer is busy. Reading
  \<open>bs\<close> leaves two looks at the clock and the read of each message in the trace.
\<close>

definition busy_message :: "u8 list \<Rightarrow> bool" where
  "busy_message bytes \<longleftrightarrow> bytes = [SYN] \<or> decodeDatecsMessage bytes = Inr MSyn"

definition waits :: "u8 list list \<Rightarrow> io_event list" where
  "waits bs = concat (map (\<lambda>b. [LookedAtClock, LookedAtClock, ReadOne (Bytes b)]) bs)"

lemma waits_simps [simp]: "waits [] = []" "waits (b # bs) = [LookedAtClock, LookedAtClock, ReadOne (Bytes b)] @ waits bs"
  by (simp_all add: waits_def)

text \<open>The trace ends with \<open>n\<close> such messages of one attempt, each of them read before its deadline.\<close>

definition kept_busy :: "environment \<Rightarrow> client_options \<Rightarrow> nat \<Rightarrow> io_event list \<Rightarrow> bool" where
  "kept_busy env opt n tr \<longleftrightarrow> (\<exists>start bs. tr = start @ [LookedAtClock] @ waits bs \<and> length bs = n \<and> (\<forall>b \<in> set bs. busy_message b) \<and>
     (\<forall>k < n. env_now env (start @ [LookedAtClock] @ waits (take k bs)) < env_now env start + maxCommandDurationMs opt))"

lemma read_loop_pending:
  assumes "read_loop env opt deadline fuel s = (Pending, s')"
  shows "\<exists>bs. trace s' = trace s @ waits bs \<and> length bs = fuel \<and> (\<forall>b \<in> set bs. busy_message b) \<and>
    (\<forall>k < fuel. env_now env (trace s @ waits (take k bs)) < deadline)"
  using assms
proof (induction fuel arbitrary: s)
  case (Suc fuel)
  let ?t2 = "trace s @ [LookedAtClock, LookedAtClock]"
  let ?ms = "min (responseTimeoutMs opt) (deadline - env_now env (trace s @ [LookedAtClock]))"
  let ?r = "env_read env ?t2 ?ms"
  let ?s = "s\<lparr>trace := ?t2 @ [ReadOne ?r]\<rparr>"
  have early: "env_now env (trace s) < deadline" and ok: "timeout_ok (Finite (rat_of_int ?ms))"
    using Suc.prems by (auto simp: await_run date_now_def transport_read_def split: if_splits)
  obtain b where b: "?r = Bytes b" "busy_message b" and run: "read_loop env opt deadline fuel ?s = (Pending, s')"
    using Suc.prems early ok
    by (cases ?r) (auto simp: await_run date_now_def transport_read_def Let_def logs_def busy_message_def length_Suc_conv
        split: if_splits sum.splits DatecsProtocolMessage.splits)
  from Suc.IH [OF run] obtain bs where bs: "trace s' = trace ?s @ waits bs" "length bs = fuel" "\<forall>x \<in> set bs. busy_message x"
      "\<forall>k < fuel. env_now env (trace ?s @ waits (take k bs)) < deadline" by blast
  have "env_now env (trace s @ waits (take k (b # bs))) < deadline" if "k < Suc fuel" for k
    using that bs(4) early b(1) by (cases k) auto
  then show ?case using bs(1-3) b by (intro exI [of _ "b # bs"]) simp
qed simp

lemma attempts_pending:
  assumes "attempt_loop env opt fuel frame n nak s = (Pending, s')"
  shows "kept_busy env opt fuel (trace s')"
  using assms
proof (induction n arbitrary: nak s)
  case (Suc n)
  let ?s1 = "logs (Wrote frame) s"
  let ?d = "env_now env (trace ?s1) + maxCommandDurationMs opt"
  obtain r s2 where r: "read_loop env opt ?d fuel (logs LookedAtClock ?s1) = (r, s2)" by fastforce
  show ?case
  proof (cases "r = Pending")
    case True
    then have "s' = s2" using Suc.prems r by (auto simp: await_run catch_run transport_write_def date_now_def split: if_splits)
    then show ?thesis
      using read_loop_pending [of env opt ?d fuel "logs LookedAtClock ?s1" s2] r True
      unfolding kept_busy_def by (intro exI [of _ "trace ?s1"]) auto
  next
    case False
    then show ?thesis using Suc r
      by (cases r) (auto simp: await_run catch_run transport_write_def date_now_def split: attempt.splits if_splits)
  qed
qed simp

lemma exchange_pending: "exchange env opt fuel sq c d s = (Pending, s') \<Longrightarrow> kept_busy env opt fuel (trace s')"
  by (auto simp: exchange_def frame_result_def split: sum.splits dest: attempts_pending)

lemma mark_settles: "fst (markOutcomeUnknown env opt c s) \<noteq> Pending"
  by (auto simp: markOutcomeUnknown_def await_run catch_run record_lock_def split: prod.splits sum.splits)

lemma after_exchange_pending: "after_exchange env opt c sq r s = (Pending, s') \<Longrightarrow> r = Pending \<and> s' = s"
  using mark_settles [of env opt "JsInt c" s]
  by (auto simp: after_exchange_def split: promise.splits prod.splits DatecsProtocolMessage.splits sum.splits if_splits)

lemma probes_pending: "probe_loop env opt fuel n s = (Pending, s') \<Longrightarrow> kept_busy env opt fuel (trace s')"
proof (induction n arbitrary: s)
  case (Suc n)
  obtain r s1 where "exchange env opt fuel (JsInt (sequenceNumber s)) (JsInt GET_PRINTER_STATUS) [] s = (r, s1)" by fastforce
  with exchange_pending [of env opt fuel "JsInt (sequenceNumber s)" "JsInt GET_PRINTER_STATUS" "[]" s s1] Suc show ?case
    by (auto simp: await_run frame_result_def split: promise.splits DatecsProtocolMessage.splits sum.splits if_splits)
qed simp


text \<open>A printer that is always busy, on a clock that stands still.\<close>

definition busy_printer :: environment where
  "busy_printer = silent_printer\<lparr>env_read := (\<lambda>_ _. Bytes [SYN]), env_now := (\<lambda>_. 0)\<rparr>"

lemma busy_pending: "fst (execute busy_printer sample_options 2 0x35 [] sample_client) = Pending"
  by code_simp


section \<open>The reply of a command\<close>

text \<open>The last thing that a successful command did was to read the message of its reply.\<close>

definition answered :: "DatecsFiscalResponse \<Rightarrow> io_event list \<Rightarrow> bool" where
  "answered v tr \<longleftrightarrow> (\<exists>before bytes. tr = before @ [ReadOne (Bytes bytes)] \<and> decodeDatecsMessage bytes = Inr (MResponse v))"

lemma read_loop_reply: "read_loop env opt deadline fuel s = (Fulfilled (GotReply v), s') \<Longrightarrow> answered v (trace s')"
proof (induction fuel arbitrary: s)
  case (Suc fuel)
  then show ?case
    by (auto simp: await_run date_now_def transport_read_def Let_def logs_def answered_def
        split: if_splits read_reply.splits sum.splits DatecsProtocolMessage.splits)
qed simp

lemma attempts_reply: "attempt_loop env opt fuel frame n nak s = (Fulfilled (MResponse v), s') \<Longrightarrow> answered v (trace s')"
proof (induction n arbitrary: nak s)
  case (Suc n)
  then show ?case
    by (auto simp: await_run catch_run transport_write_def date_now_def split: attempt.splits if_splits promise.splits prod.splits
        dest: read_loop_reply)
qed simp

lemma execute_reply: "execute env opt fuel c d s = (Fulfilled v, s') \<Longrightarrow> answered v (trace s')"
  unfolding execute_run
  by (auto simp: after_exchange_def exchange_def frame_result_def split: if_splits prod.splits promise.splits DatecsProtocolMessage.splits
      sum.splits dest!: attempts_reply)

end
