(* ===== verification/FiscalSale.thy ===== *)
theory FiscalSale
  imports DatecsClient DatecsText
begin

text \<open>
  \<open>apps/pos-web/src/fiscal/datecs-fiscal-sale.ts\<close>: one EUR cash receipt as a sequence of
  printer commands. The adapter talks to its command port through an interface of three
  operations (\<open>fiscal_port\<close>), which \<open>DatecsCommandClient\<close> provides. The local variables
  of \<open>issueCashReceipt\<close> that its \<open>catch\<close> reads are a record beside the port's state.
\<close>

unbundle bit_operations_syntax

section \<open>Commands and errors\<close>

definition COMMAND_OPEN_RECEIPT :: int where "COMMAND_OPEN_RECEIPT = 0x30"
definition COMMAND_ENTER_SALE :: int where "COMMAND_ENTER_SALE = 0x31"
definition COMMAND_TOTAL :: int where "COMMAND_TOTAL = 0x35"
definition COMMAND_CLOSE_RECEIPT :: int where "COMMAND_CLOSE_RECEIPT = 0x38"
definition COMMAND_CANCEL_RECEIPT :: int where "COMMAND_CANCEL_RECEIPT = 0x3c"
definition COMMAND_READ_CURRENCY_AND_TAXES :: int where "COMMAND_READ_CURRENCY_AND_TAXES = 0x53"

lemmas sale_commands = COMMAND_OPEN_RECEIPT_def COMMAND_ENTER_SALE_def COMMAND_TOTAL_def
  COMMAND_CLOSE_RECEIPT_def COMMAND_CANCEL_RECEIPT_def COMMAND_READ_CURRENCY_AND_TAXES_def

text \<open>
  The errors of the adapters. A \<open>DatecsCommandOutcomeUnknownError\<close> comes from the port or from
  the adapter itself (\<open>Unconfirmed\<close>) and has a field for the command code.
\<close>

datatype fiscal_error =
    PortError client_error "int option"
  | Unconfirmed "int option"
  | ConfigurationError config_problem
  | DeviceStatusError "nat list"
  | SaleCancelled
  | HookFailed nat

fun is_outcome_unknown :: "fiscal_error \<Rightarrow> bool" where
  "is_outcome_unknown (PortError (OutcomeUnknown _) _) = True"
| "is_outcome_unknown (Unconfirmed _) = True"
| "is_outcome_unknown _ = False"

text \<open>\<open>if (error.commandCode === undefined) error.commandCode = currentCommand\<close>\<close>

fun with_command_code :: "int \<Rightarrow> fiscal_error \<Rightarrow> fiscal_error" where
  "with_command_code c (PortError (OutcomeUnknown r) None) = PortError (OutcomeUnknown r) (Some c)"
| "with_command_code c (Unconfirmed None) = Unconfirmed (Some c)"
| "with_command_code c e = e"

record 's fiscal_port =
  port_execute :: "int \<Rightarrow> u8 list \<Rightarrow> ('s, client_error, DatecsFiscalResponse) async"
  port_markOutcomeUnknown :: "int \<Rightarrow> ('s, client_error, unit) async"
  port_synchronize :: "('s, client_error, DatecsFiscalResponse) async"

section \<open>Requests\<close>

record DatecsTaxGroupConfiguration =
  tg_group :: jsstr
  tg_ratePercent :: jsstr

text \<open>The object \<open>taxGroups\<close> with its keys in their order.\<close>

record DatecsFiscalSaleConfiguration =
  operatorNumber :: jsnum
  operatorPassword :: jsstr
  registerLocationNumber :: jsnum
  taxGroups :: "(PosVatTreatment \<times> DatecsTaxGroupConfiguration) list"

record DatecsFiscalSaleLine =
  description :: jsstr
  discountEur :: "jsstr option"
  grossTotalEur :: jsstr
  quantity :: jsstr
  unitCode :: "jsstr option"
  unitPriceEur :: jsstr
  vatTreatment :: PosVatTreatment

record DatecsFiscalCashSaleRequest =
  cashTenderedEur :: jsstr
  lines :: "DatecsFiscalSaleLine list"
  totalGrossEur :: jsstr
  uniqueSaleId :: jsstr

record DatecsFiscalCashSaleResult =
  changeEur :: jsstr
  fiscalDocumentNumber :: jsstr
  fiscalReceiptsSinceDailyReport :: jsstr
  resultUniqueSaleId :: jsstr

record validated_sale =
  cashTenderedCents :: int
  changeCents :: int
  saleLines :: "(u8 list \<times> int) list"

text \<open>\<open>/^[A-Z0-9]{8}-[A-Z0-9]{4}-\d{7}$/\<close>\<close>

definition unp_format :: "jsstr \<Rightarrow> bool" where
  "unp_format s \<longleftrightarrow> rx [(is_upnum, 8, 8), lit 45, (is_upnum, 4, 4), lit 45, (is_digit, 7, 7)] s"

definition group_format :: "jsstr \<Rightarrow> bool" where
  "group_format s \<longleftrightarrow> rx [(\<lambda>c. 65 \<le> c \<and> c \<le> 72, 1, 1)] s"

definition printable_name :: "jsstr \<Rightarrow> bool" where
  "printable_name value \<longleftrightarrow> trim value \<noteq> [] \<and> list_all (\<lambda>c. \<not> (c \<le> 0x1f \<or> c = 0x7f)) value"

definition splitDescription :: "jsstr \<Rightarrow> config_problem + u8 list \<times> u8 list option" where
  "splitDescription value =
     (if \<not> printable_name value then Inl NamePrintable
      else res_bind (res_map (encode_character NotEncodable) value) (\<lambda>bytes.
        if length bytes > 84 then Inl NameTooLong
        else Inr (if length bytes \<le> 42 then (bytes, None)
                  else (slice bytes 0 42, Some (slice_from bytes 42)))))"

definition concatBytes :: "u8 list list \<Rightarrow> u8 list" where
  "concatBytes parts = concat parts"

text \<open>One VAT group never stands for two rates; \<open>groups\<close> is the \<open>Map\<close> filled so far.\<close>

fun check_tax_groups :: "(PosVatTreatment \<times> DatecsTaxGroupConfiguration) list \<Rightarrow> (jsstr \<rightharpoonup> jsstr) \<Rightarrow>
    config_problem + (jsstr \<rightharpoonup> jsstr)" where
  "check_tax_groups [] groups = Inr groups"
| "check_tax_groups ((treatment, setting) # rest) groups =
     (if \<not> group_format (tg_group setting) then Inl VatGroupMissing
      else res_bind (normalizeRate (tg_ratePercent setting)) (\<lambda>rate.
        if groups (tg_group setting) \<noteq> None \<and> groups (tg_group setting) \<noteq> Some rate then Inl VatGroupTwoRates
        else check_tax_groups rest (groups(tg_group setting \<mapsto> rate))))"

definition unit_bytes_ok :: "u8 list \<Rightarrow> bool" where
  "unit_bytes_ok bytes \<longleftrightarrow> length bytes \<le> 8 \<and> list_all (\<lambda>b. \<not> (b < 0x21 \<or> b > 0x7e \<or> b = 0x23)) bytes"

definition validate_line :: "(PosVatTreatment \<times> DatecsTaxGroupConfiguration) list \<Rightarrow> DatecsFiscalSaleLine \<Rightarrow>
    config_problem + u8 list \<times> int" where
  "validate_line groups line =
     res_bind (parseDecimal 4 (unitPriceEur line)) (\<lambda>unitPrice.
     res_bind (parseDecimal 3 (quantity line)) (\<lambda>qty.
     res_bind (parseCents (grossTotalEur line)) (\<lambda>grossCents.
     res_bind (parseCents (case discountEur line of None \<Rightarrow> [48] | Some d \<Rightarrow> d)) (\<lambda>discountCents.
     if coefficient unitPrice \<le> 0 \<or> coefficient qty \<le> 0 then Inl PriceQuantity
     else
       let baseCents = multiplyToCents unitPrice qty in
       if discountCents > baseCents \<or> baseCents - discountCents \<noteq> grossCents then Inl LineTotals
       else
         res_bind (splitDescription (description line)) (\<lambda>(first, second).
         let unitText = (case unitCode line of None \<Rightarrow> [] | Some u \<Rightarrow> u) in
         res_bind (encodeDatecsWindows1251 unitText) (\<lambda>unitBytes.
         if \<not> unit_bytes_ok unitBytes then Inl UnitCode
         else
           let prefix = (case second of
                 Some sec \<Rightarrow> concatBytes [first, [0x0a], sec, [0x09]]
               | None \<Rightarrow> concatBytes [first, [0x09]]);
               quantitySuffix = [42] @ formatDecimal qty;
               unitSuffix = (if unitBytes \<noteq> [] then [35] @ unitText else []);
               discountSuffix = (if discountCents > 0 then [59] @ formatCents discountCents else [])
           in case map_of groups (vatTreatment line) of
                None \<Rightarrow> Inl TaxGroupTypeError
              | Some grp \<Rightarrow>
                  res_bind (encodeDatecsWindows1251
                    (tg_group grp @ formatDecimal unitPrice @ quantitySuffix @ unitSuffix @ discountSuffix))
                    (\<lambda>rest. Inr (concatBytes [prefix, rest], grossCents))))))))"

definition validateSaleRequest :: "DatecsFiscalCashSaleRequest \<Rightarrow> DatecsFiscalSaleConfiguration \<Rightarrow>
    config_problem + validated_sale" where
  "validateSaleRequest request config =
     (if \<not> unp_format (uniqueSaleId request) then Inl UniqueSaleIdFormat
      else if \<not> isIntegerIn (operatorNumber config) 1 16 then Inl OperatorNumber
      else if \<not> rx [(is_digit, 4, 8)] (operatorPassword config) then Inl OperatorPassword
      else if \<not> isIntegerIn (registerLocationNumber config) 1 99999 then Inl RegisterNumber
      else
        res_bind (parseCents (totalGrossEur request)) (\<lambda>totalGrossCents.
        res_bind (parseCents (cashTenderedEur request)) (\<lambda>tendered.
        if totalGrossCents \<le> 0 \<or> tendered < totalGrossCents then Inl TenderTooSmall
        else if length (lines request) = 0 \<or> length (lines request) > 512 then Inl LineCount
        else
          res_bind (check_tax_groups (taxGroups config) Map.empty) (\<lambda>_.
          res_bind (res_map (validate_line (taxGroups config)) (lines request)) (\<lambda>lns.
          if foldl (\<lambda>sum line. sum + snd line) 0 lns \<noteq> totalGrossCents then Inl SaleTotal
          else Inr \<lparr>cashTenderedCents = tendered, changeCents = tendered - totalGrossCents,
                 saleLines = lns\<rparr>)))))"

section \<open>Replies\<close>

text \<open>\<open>status[i]! & mask\<close>: an index past the end gives 0.\<close>

definition status_bits :: "u8 list \<Rightarrow> nat \<Rightarrow> u8 \<Rightarrow> u8" where
  "status_bits st i bits = (if i < length st then st ! i AND bits else 0)"

definition isReceiptOpen :: "u8 list \<Rightarrow> bool" where
  "isReceiptOpen st \<longleftrightarrow> status_bits st 2 0x08 \<noteq> 0"

text \<open>The indices of the messages that \<open>assertHealthyStatus\<close> collects.\<close>

definition health_errors :: "u8 list \<Rightarrow> nat list" where
  "health_errors st =
     (if status_bits st 0 0x33 \<noteq> 0 then [0] else []) @
     (if status_bits st 1 0x0f \<noteq> 0 then [1] else []) @
     (if status_bits st 2 0x05 \<noteq> 0 then [2] else []) @
     (if status_bits st 4 0x71 \<noteq> 0 then [4] else []) @
     (if status_bits st 5 0x05 \<noteq> 0 then [5] else [])"

definition assertHealthyStatus :: "DatecsFiscalResponse \<Rightarrow> fiscal_error + unit" where
  "assertHealthyStatus response =
     guard_res (health_errors (status response) = []) (DeviceStatusError (health_errors (status response)))"

definition assertFiscalReadyStatus :: "DatecsFiscalResponse \<Rightarrow> fiscal_error + unit" where
  "assertFiscalReadyStatus response =
     (let st = status response in
      if status_bits st 4 0x06 \<noteq> 0x06 then Inl (ConfigurationError DeviceIdMissing)
      else if status_bits st 5 0x1a \<noteq> 0x1a then Inl (ConfigurationError NotRegistered)
      else if isReceiptOpen st then Inl (ConfigurationError ReceiptAlreadyOpen)
      else if status_bits st 2 0x20 \<noteq> 0 then Inl (ConfigurationError ServiceReceiptOpen)
      else Inr ())"

definition isReceiptClosedWithoutFault :: "DatecsFiscalResponse \<Rightarrow> bool" where
  "isReceiptClosedWithoutFault response \<longleftrightarrow>
     length (data response) = 0 \<and> \<not> isReceiptOpen (status response) \<and>
     status_bits (status response) 0 0x33 = 0 \<and> status_bits (status response) 1 0x0f = 0 \<and>
     status_bits (status response) 2 0x05 = 0 \<and> status_bits (status response) 4 0x71 = 0 \<and>
     status_bits (status response) 5 0x05 = 0"

fun verify_groups :: "jsstr \<Rightarrow> jsstr list \<Rightarrow> (PosVatTreatment \<times> DatecsTaxGroupConfiguration) list \<Rightarrow>
    config_problem + unit" where
  "verify_groups enabled rates [] = Inr ()"
| "verify_groups enabled rates ((treatment, mapping) # rest) =
     (let index = int (hd (tg_group mapping)) - 65 in
      if index < 0 \<or> int (length enabled) \<le> index \<or> enabled ! nat index \<noteq> 49 then Inl PrinterVatRate
      else res_bind (normalizeRate (tg_ratePercent mapping)) (\<lambda>rate.
        if int (length rates) \<le> index \<or> rates ! nat index \<noteq> rate then Inl PrinterVatRate
        else verify_groups enabled rates rest))"

definition verifyCurrencyAndTaxGroups :: "(nat \<Rightarrow> jsstr) \<Rightarrow> DatecsFiscalResponse \<Rightarrow>
    (PosVatTreatment \<times> DatecsTaxGroupConfiguration) list \<Rightarrow> config_problem + unit" where
  "verifyCurrencyAndTaxGroups tbl response config =
     (let values = split_on 44 (decodeDatecsWindows1251 (data response)) in
      if length values \<noteq> 12 \<or> trim (values ! 1) \<noteq> [50] \<or> toUpperCase tbl (trim (values ! 2)) \<noteq> js ''EUR''
      then Inl PrinterCurrency
      else
        let enabled = trim (values ! 3) in
        res_bind (res_map normalizeRate (slice_from values 4)) (\<lambda>rates.
        if \<not> rx [(\<lambda>c. c = 48 \<or> c = 49, 8, 8)] enabled then Inl PrinterVatGroups
        else verify_groups enabled rates config))"

definition parsePaymentResult :: "u8 list \<Rightarrow> config_problem + jsstr \<times> int option" where
  "parsePaymentResult dat =
     (let text = trim (decodeDatecsWindows1251 dat);
          code = slice text 0 1;
          amount = trim (slice_from text 1)
      in
      if code = js ''P'' then
        (if amount \<noteq> [] then res_bind (parseSignedCents amount) (\<lambda>a. Inr (code, Some a)) else Inr (code, None))
      else if code = js ''D'' \<or> code = js ''R'' then res_bind (parseSignedCents amount) (\<lambda>a. Inr (code, Some a))
      else Inr (code, None))"

definition parseReceiptCounts :: "u8 list \<Rightarrow> config_problem + jsstr" where
  "parseReceiptCounts dat = (case split_on 44 (decodeDatecsWindows1251 dat) of
       all # fiscal # _ \<Rightarrow>
         if \<not> rx [(is_digit, 1, 4)] all \<or> \<not> rx [(is_digit, 1, 4)] fiscal then Inl ReceiptCounters
         else Inr fiscal
     | _ \<Rightarrow> Inl ReceiptCounters)"

definition parseLastFiscalDocument :: "u8 list \<Rightarrow> config_problem + jsstr \<times> jsstr" where
  "parseLastFiscalDocument dat = (case split_on 44 (decodeDatecsWindows1251 dat) of
       documentNumber # saleId # _ \<Rightarrow>
         if \<not> rx [(is_digit, 1, 10)] documentNumber \<or> \<not> unp_format saleId then Inl LastDocument
         else Inr (documentNumber, saleId)
     | _ \<Rightarrow> Inl LastDocument)"

section \<open>Issuing a receipt\<close>

record sale_locals =
  currentCommand :: int
  receiptOpened :: bool
  paymentAttempted :: bool

type_synonym ('s, 'a) sale = "('s \<times> sale_locals, fiscal_error, 'a) async"

text \<open>A call of the port from a function with local variables.\<close>

definition lift_port :: "('s, client_error, 'a) async \<Rightarrow> ('s \<times> 'l, fiscal_error, 'a) async" where
  "lift_port m = (\<lambda>(s, l). case m s of
       (Fulfilled a, s') \<Rightarrow> (Fulfilled a, (s', l))
     | (Rejected e, s') \<Rightarrow> (Rejected (PortError e None), (s', l))
     | (Pending, s') \<Rightarrow> (Pending, (s', l)))"

definition lift_hook :: "('s, nat, unit) async option \<Rightarrow> ('s \<times> 'l, fiscal_error, unit) async" where
  "lift_hook hook = (case hook of None \<Rightarrow> resolve () | Some m \<Rightarrow> (\<lambda>(s, l). case m s of
       (Fulfilled a, s') \<Rightarrow> (Fulfilled a, (s', l))
     | (Rejected e, s') \<Rightarrow> (Rejected (HookFailed e), (s', l))
     | (Pending, s') \<Rightarrow> (Pending, (s', l))))"

definition config_res :: "config_problem + 'a \<Rightarrow> ('s, fiscal_error, 'a) async" where
  "config_res r = of_res (case r of Inl p \<Rightarrow> Inl (ConfigurationError p) | Inr a \<Rightarrow> Inr a)"

definition exec :: "'s fiscal_port \<Rightarrow> int \<Rightarrow> u8 list \<Rightarrow> ('s \<times> 'l, fiscal_error, DatecsFiscalResponse) async" where
  "exec port c d = lift_port (port_execute port c d)"

definition set_command :: "int \<Rightarrow> ('s, unit) sale" where
  "set_command c = writes (\<lambda>(s, l). (s, l\<lparr>currentCommand := c\<rparr>))"

text \<open>\<open>await markOutcomeUnknown(c); throw new DatecsCommandOutcomeUnknownError(...)\<close>\<close>

definition unconfirmed :: "'s fiscal_port \<Rightarrow> int \<Rightarrow> ('s \<times> 'l, fiscal_error, 'a) async" where
  "unconfirmed port c = await (lift_port (port_markOutcomeUnknown port c)) (\<lambda>_. throw (Unconfirmed None))"

primrec enter_lines :: "'s fiscal_port \<Rightarrow> (u8 list \<times> int) list \<Rightarrow> ('s, unit) sale" where
  "enter_lines port [] = resolve ()"
| "enter_lines port (line # rest) =
     await (set_command COMMAND_ENTER_SALE) (\<lambda>_.
     await (exec port COMMAND_ENTER_SALE (fst line)) (\<lambda>response.
     await (of_res (assertHealthyStatus response)) (\<lambda>_.
     if length (data response) \<noteq> 0 then unconfirmed port COMMAND_ENTER_SALE
     else enter_lines port rest)))"

definition payment_confirmed :: "int \<Rightarrow> jsstr \<times> int option \<Rightarrow> bool" where
  "payment_confirmed change payment \<longleftrightarrow>
     (fst payment = js ''R'' \<and> snd payment = Some change) \<or>
     (fst payment = js ''P'' \<and> change = 0 \<and> (snd payment = None \<or> snd payment = Some 0))"

definition open_text :: "DatecsFiscalSaleConfiguration \<Rightarrow> jsstr \<Rightarrow> jsstr" where
  "open_text config saleId = bigint_toString (int_of (operatorNumber config)) @ [44] @ operatorPassword config @
     [44] @ bigint_toString (int_of (registerLocationNumber config)) @ [44, 44] @ saleId"

definition prepare_printer :: "(nat \<Rightarrow> jsstr) \<Rightarrow> 's fiscal_port \<Rightarrow> DatecsFiscalSaleConfiguration \<Rightarrow> ('s, unit) sale" where
  "prepare_printer tbl port config =
     await (lift_port (port_synchronize port)) (\<lambda>initialStatus.
     await (of_res (assertHealthyStatus initialStatus)) (\<lambda>_.
     await (of_res (assertFiscalReadyStatus initialStatus)) (\<lambda>_.
     await (set_command COMMAND_READ_CURRENCY_AND_TAXES) (\<lambda>_.
     await (exec port COMMAND_READ_CURRENCY_AND_TAXES []) (\<lambda>currencyAndTaxResponse.
     await (of_res (assertHealthyStatus currencyAndTaxResponse)) (\<lambda>_.
     config_res (verifyCurrencyAndTaxGroups tbl currencyAndTaxResponse (taxGroups config))))))))"

definition open_receipt :: "'s fiscal_port \<Rightarrow> DatecsFiscalSaleConfiguration \<Rightarrow> jsstr \<Rightarrow>
    ('s, nat, unit) async option \<Rightarrow> ('s, unit) sale" where
  "open_receipt port config saleId beforeReceiptOpen =
     await (set_command COMMAND_OPEN_RECEIPT) (\<lambda>_.
     await (lift_hook beforeReceiptOpen) (\<lambda>_.
     await (config_res (encodeDatecsWindows1251 (open_text config saleId))) (\<lambda>bytes.
     await (exec port COMMAND_OPEN_RECEIPT bytes) (\<lambda>opened.
     await (writes (\<lambda>(s, l). (s, l\<lparr>receiptOpened := isReceiptOpen (status opened)\<rparr>))) (\<lambda>_.
     await (of_res (assertHealthyStatus opened)) (\<lambda>_.
     if \<not> isReceiptOpen (status opened) then unconfirmed port COMMAND_OPEN_RECEIPT else resolve ()))))))"

definition pay_receipt :: "'s fiscal_port \<Rightarrow> validated_sale \<Rightarrow> ('s, unit) sale" where
  "pay_receipt port sale =
     await (writes (\<lambda>(s, l). (s, l\<lparr>currentCommand := COMMAND_TOTAL, paymentAttempted := True\<rparr>))) (\<lambda>_.
     await (config_res (encodeDatecsWindows1251 ([9] @ js ''P+'' @ formatCents (cashTenderedCents sale)))) (\<lambda>bytes.
     await (exec port COMMAND_TOTAL bytes) (\<lambda>paymentResponse.
     await (of_res (assertHealthyStatus paymentResponse)) (\<lambda>_.
     await (config_res (parsePaymentResult (data paymentResponse))) (\<lambda>payment.
     if payment_confirmed (changeCents sale) payment then resolve ()
     else unconfirmed port COMMAND_TOTAL)))))"

definition close_receipt :: "'s fiscal_port \<Rightarrow> ('s, jsstr) sale" where
  "close_receipt port =
     await (set_command COMMAND_CLOSE_RECEIPT) (\<lambda>_.
     await (exec port COMMAND_CLOSE_RECEIPT []) (\<lambda>closedResponse.
     await (of_res (assertHealthyStatus closedResponse)) (\<lambda>_.
     if isReceiptOpen (status closedResponse) then unconfirmed port COMMAND_CLOSE_RECEIPT
     else config_res (parseReceiptCounts (data closedResponse)))))"

definition confirm_document :: "'s fiscal_port \<Rightarrow> jsstr \<Rightarrow> ('s, jsstr \<times> jsstr) sale" where
  "confirm_document port saleId =
     await (set_command COMMAND_OPEN_RECEIPT) (\<lambda>_.
     await (config_res (encodeDatecsWindows1251 [42])) (\<lambda>bytes.
     await (exec port COMMAND_OPEN_RECEIPT bytes) (\<lambda>lastDocument.
     await (of_res (assertHealthyStatus lastDocument)) (\<lambda>_.
     await (config_res (parseLastFiscalDocument (data lastDocument))) (\<lambda>document.
     if snd document \<noteq> saleId then unconfirmed port COMMAND_OPEN_RECEIPT else resolve document)))))"

definition receipt_body :: "(nat \<Rightarrow> jsstr) \<Rightarrow> 's fiscal_port \<Rightarrow> DatecsFiscalSaleConfiguration \<Rightarrow>
    DatecsFiscalCashSaleRequest \<Rightarrow> validated_sale \<Rightarrow> ('s, nat, unit) async option \<Rightarrow>
    ('s, DatecsFiscalCashSaleResult) sale" where
  "receipt_body tbl port config request sale beforeReceiptOpen =
     await (prepare_printer tbl port config) (\<lambda>_.
     await (open_receipt port config (uniqueSaleId request) beforeReceiptOpen) (\<lambda>_.
     await (enter_lines port (saleLines sale)) (\<lambda>_.
     await (pay_receipt port sale) (\<lambda>_.
     await (close_receipt port) (\<lambda>fiscalReceiptCount.
     await (confirm_document port (uniqueSaleId request)) (\<lambda>document.
     resolve \<lparr>changeEur = formatCents (changeCents sale), fiscalDocumentNumber = fst document,
       fiscalReceiptsSinceDailyReport = fiscalReceiptCount, resultUniqueSaleId = snd document\<rparr>))))))"

definition is_protocol_rejected :: "fiscal_error \<Rightarrow> bool" where
  "is_protocol_rejected e \<longleftrightarrow> (\<exists>c. e = PortError ProtocolRejected c)"

lemma is_protocol_rejected_code [code]:
  "is_protocol_rejected e = (case e of PortError ProtocolRejected _ \<Rightarrow> True | _ \<Rightarrow> False)"
  by (auto simp: is_protocol_rejected_def split: fiscal_error.splits client_error.splits)

text \<open>\<open>execute(COMMAND_CANCEL_RECEIPT).catch(() => undefined)\<close>\<close>

definition try_cancel :: "'s fiscal_port \<Rightarrow> ('s, DatecsFiscalResponse option) sale" where
  "try_cancel port = catch (await (exec port COMMAND_CANCEL_RECEIPT []) (\<lambda>r. resolve (Some r))) (\<lambda>_. resolve None)"

definition receipt_failed :: "'s fiscal_port \<Rightarrow> fiscal_error \<Rightarrow> ('s, 'a) sale" where
  "receipt_failed port error0 =
     await (reads snd) (\<lambda>l.
     let error1 = with_command_code (currentCommand l) error0 in
     if \<not> receiptOpened l then throw error1
     else
       await (if is_protocol_rejected error1 \<and> \<not> paymentAttempted l then
                await (try_cancel port) (\<lambda>cancelled. case cancelled of
                  Some r \<Rightarrow> if isReceiptClosedWithoutFault r then throw SaleCancelled else resolve ()
                | None \<Rightarrow> resolve ())
              else resolve ()) (\<lambda>_.
       if is_outcome_unknown error1 then throw error1
       else unconfirmed port (currentCommand l)))"

definition issue_receipt :: "(nat \<Rightarrow> jsstr) \<Rightarrow> 's fiscal_port \<Rightarrow> DatecsFiscalSaleConfiguration \<Rightarrow>
    DatecsFiscalCashSaleRequest \<Rightarrow> ('s, nat, unit) async option \<Rightarrow> ('s, DatecsFiscalCashSaleResult) sale" where
  "issue_receipt tbl port config request beforeReceiptOpen =
     await (config_res (validateSaleRequest request config)) (\<lambda>sale.
     catch (receipt_body tbl port config request sale beforeReceiptOpen) (receipt_failed port))"

definition initial_locals :: sale_locals where
  "initial_locals = \<lparr>currentCommand = COMMAND_OPEN_RECEIPT, receiptOpened = False, paymentAttempted = False\<rparr>"

definition issueCashReceipt :: "(nat \<Rightarrow> jsstr) \<Rightarrow> 's fiscal_port \<Rightarrow> DatecsFiscalSaleConfiguration \<Rightarrow>
    DatecsFiscalCashSaleRequest \<Rightarrow> ('s, nat, unit) async option \<Rightarrow>
    ('s, fiscal_error, DatecsFiscalCashSaleResult) async" where
  "issueCashReceipt tbl port config request beforeReceiptOpen = (\<lambda>s.
     case issue_receipt tbl port config request beforeReceiptOpen (s, initial_locals) of (r, s', _) \<Rightarrow> (r, s'))"

definition inspectLastFiscalDocument :: "'s fiscal_port \<Rightarrow> ('s \<times> 'l, fiscal_error, jsstr \<times> jsstr) async" where
  "inspectLastFiscalDocument port =
     await (lift_port (port_synchronize port)) (\<lambda>st.
     await (of_res (assertHealthyStatus st)) (\<lambda>_.
     await (config_res (encodeDatecsWindows1251 [42])) (\<lambda>bytes.
     await (exec port COMMAND_OPEN_RECEIPT bytes) (\<lambda>response.
     await (of_res (assertHealthyStatus response)) (\<lambda>_.
     config_res (parseLastFiscalDocument (data response)))))))"

text \<open>The command client is the port of the browser application.\<close>

definition client_port :: "environment \<Rightarrow> client_options \<Rightarrow> nat \<Rightarrow> client_state fiscal_port" where
  "client_port env opt fuel = \<lparr>port_execute = execute env opt fuel,
     port_markOutcomeUnknown = (\<lambda>c. markOutcomeUnknown env opt (JsInt c)),
     port_synchronize = synchronize env opt fuel\<rparr>"

section \<open>What the adapters rely on of their port\<close>

text \<open>
  \<open>ready\<close>: a command may be sent; \<open>safe\<close>: the uncertain outcome is recorded and no command
  will be sent; \<open>shut\<close>: this session sends no command.
\<close>

fun unknown_error :: "client_error \<Rightarrow> bool" where
  "unknown_error (OutcomeUnknown _) = True"
| "unknown_error _ = False"

definition failing_with :: "('s \<Rightarrow> bool) \<Rightarrow> ('s \<Rightarrow> bool) \<Rightarrow> ('s \<Rightarrow> bool) \<Rightarrow> fiscal_error \<Rightarrow> 's \<Rightarrow> bool" where
  "failing_with ok ready safe e s \<longleftrightarrow> ok s \<and> (is_outcome_unknown e \<longrightarrow> safe s) \<and> (is_protocol_rejected e \<longrightarrow> ready s)"

text \<open>The callback before the receipt is opened leaves the port ready.\<close>

definition hook_keeps :: "('s \<Rightarrow> bool) \<Rightarrow> ('s, nat, unit) async option \<Rightarrow> bool" where
  "hook_keeps ready hook \<longleftrightarrow> (\<forall>m. hook = Some m \<longrightarrow> runs ready m (\<lambda>_. ready) (\<lambda>_. ready))"

locale fiscal_port_laws =
  fixes port :: "'s fiscal_port" and ok ready safe shut :: "'s \<Rightarrow> bool"
  assumes ready_ok: "ready s \<Longrightarrow> ok s"
    and sync_law: "runs ok (port_synchronize port) (\<lambda>r s. ready s) (\<lambda>e s. ok s)"
    and exec_law: "runs ready (port_execute port c d) (\<lambda>r s. ready s)
      (\<lambda>e s. ok s \<and> (e = ProtocolRejected \<longrightarrow> ready s) \<and> (unknown_error e \<longrightarrow> safe s))"
    and mark_law: "runs ok (port_markOutcomeUnknown port c) (\<lambda>_ s. safe s)
      (\<lambda>e s. e = LockPersistence \<and> shut s \<and> ok s)"
    and safe_ok: "safe s \<Longrightarrow> ok s"
begin

text \<open>What is known after an error that leaves the receipt open.\<close>

abbreviation failing :: "fiscal_error \<Rightarrow> 's \<Rightarrow> bool" where
  "failing \<equiv> failing_with ok ready safe"

lemma lift_runs:
  "runs P m Q E \<Longrightarrow> runs (\<lambda>p. P (fst p) \<and> L (snd p)) (lift_port m) (\<lambda>a p. Q a (fst p) \<and> L (snd p))
     (\<lambda>e p. (\<exists>e'. e = PortError e' None \<and> E e' (fst p)) \<and> L (snd p))"
  unfolding runs_def lift_port_def by (fastforce split: prod.splits promise.splits)

lemma exec_runs:
  "runs (\<lambda>p. ready (fst p) \<and> L (snd p)) (exec port c d) (\<lambda>r p. ready (fst p) \<and> L (snd p))
     (\<lambda>e p. failing e (fst p) \<and> L (snd p))"
  unfolding exec_def
  by (rule runs_weaken [OF lift_runs [OF exec_law], of _ L], simp, simp)
    (auto simp: failing_with_def is_protocol_rejected_def elim!: unknown_error.elims is_outcome_unknown.elims)

lemma failing_status: "ready s \<Longrightarrow> failing (DeviceStatusError x) s"
  and failing_config: "ready s \<Longrightarrow> failing (ConfigurationError x') s"
  and failing_hook: "ready s \<Longrightarrow> failing (HookFailed x'') s"
  by (simp_all add: failing_with_def ready_ok is_protocol_rejected_def)

lemma status_runs:
  "runs (\<lambda>p. ready (fst p) \<and> L (snd p)) (of_res (assertHealthyStatus r)) (\<lambda>_ p. ready (fst p) \<and> L (snd p))
     (\<lambda>e p. failing e (fst p) \<and> L (snd p))"
  by (rule runs_of_res) (auto simp: assertHealthyStatus_def failing_status)

lemma config_runs:
  "runs (\<lambda>p. ready (fst p) \<and> L (snd p)) (config_res r) (\<lambda>a p. r = Inr a \<and> ready (fst p) \<and> L (snd p))
     (\<lambda>e p. failing e (fst p) \<and> L (snd p))"
  unfolding config_res_def by (rule runs_of_res) (auto simp: failing_config split: sum.splits)

lemma unconfirmed_runs:
  "runs (\<lambda>p. ok (fst p) \<and> L (snd p)) (unconfirmed port c) Q
     (\<lambda>e p. failing e (fst p) \<and> L (snd p) \<and>
        (e = Unconfirmed None \<and> safe (fst p) \<or> e = PortError LockPersistence None \<and> shut (fst p)))"
  unfolding unconfirmed_def
  by (rule runs_await [OF runs_weaken [OF lift_runs [OF mark_law, of L c]]], simp, assumption)
    (auto simp: failing_with_def is_protocol_rejected_def safe_ok intro!: runs_throw)

text \<open>The rules without a condition on the local variables.\<close>

abbreviation at_ready :: "'s \<times> 'l \<Rightarrow> bool" where "at_ready \<equiv> (\<lambda>p. ready (fst p))"
abbreviation at_failing :: "fiscal_error \<Rightarrow> 's \<times> 'l \<Rightarrow> bool" where "at_failing \<equiv> (\<lambda>e p. failing e (fst p))"

lemma step_exec: "runs at_ready (exec port c d) (\<lambda>r. at_ready) at_failing"
  using exec_runs [of "\<lambda>_. True"] by simp

lemma step_status: "runs at_ready (of_res (assertHealthyStatus r)) (\<lambda>_. at_ready) at_failing"
  using status_runs [of "\<lambda>_. True"] by simp

lemma step_config: "runs at_ready (config_res r) (\<lambda>a. at_ready) at_failing"
  by (rule runs_weaken [OF config_runs [of "\<lambda>_. True"]]) simp_all

lemma step_unconfirmed: "runs at_ready (unconfirmed port c) Q at_failing"
  by (rule runs_weaken [OF unconfirmed_runs [of "\<lambda>_. True"]]) (simp_all add: ready_ok)

lemma step_command: "runs at_ready (set_command c) (\<lambda>_. at_ready) at_failing"
  unfolding set_command_def by (rule runs_writes) auto

lemmas steps = step_exec step_status step_config step_unconfirmed step_command

lemma enter_lines_runs: "runs at_ready (enter_lines port ls) (\<lambda>_. at_ready) at_failing"
proof (induction ls)
  case Nil
  show ?case unfolding enter_lines.simps by (rule runs_resolve)
next
  case (Cons x ls)
  show ?case unfolding enter_lines.simps by (rule runs_await runs_if steps Cons)+
qed

lemma pay_runs: "runs at_ready (pay_receipt port sale) (\<lambda>_. at_ready) at_failing"
proof -
  have set: "runs at_ready (writes (\<lambda>(s, l). (s, l\<lparr>currentCommand := COMMAND_TOTAL, paymentAttempted := True\<rparr>)))
      (\<lambda>_. at_ready) at_failing" by (rule runs_writes) auto
  show ?thesis unfolding pay_receipt_def
    by (rule runs_await runs_if steps set | rule runs_resolve, assumption)+
qed

lemma close_runs: "runs at_ready (close_receipt port) (\<lambda>_. at_ready) at_failing"
  unfolding close_receipt_def by (rule runs_await runs_if steps)+

lemma confirm_runs: "runs at_ready (confirm_document port uid) (\<lambda>d p. ready (fst p) \<and> snd d = uid) at_failing"
  unfolding confirm_document_def
  by (rule runs_await runs_if steps | rule runs_resolve, simp)+

lemma prepare_runs:
  "runs (\<lambda>p. ok (fst p) \<and> \<not> receiptOpened (snd p)) (prepare_printer tbl port config)
     (\<lambda>_ p. ready (fst p) \<and> \<not> receiptOpened (snd p)) (\<lambda>e p. \<not> receiptOpened (snd p))"
proof -
  let ?L = "\<lambda>l. \<not> receiptOpened l"
  have sync: "runs (\<lambda>p. ok (fst p) \<and> ?L (snd p)) (lift_port (port_synchronize port))
      (\<lambda>_ p. ready (fst p) \<and> ?L (snd p)) (\<lambda>e p. ?L (snd p))"
    by (rule runs_weaken [OF lift_runs [OF sync_law, of ?L]]) auto
  have step: "runs (\<lambda>p. ready (fst p) \<and> ?L (snd p)) (of_res (assertHealthyStatus r))
      (\<lambda>_ p. ready (fst p) \<and> ?L (snd p)) (\<lambda>e p. ?L (snd p))"
    "runs (\<lambda>p. ready (fst p) \<and> ?L (snd p)) (exec port c d)
      (\<lambda>_ p. ready (fst p) \<and> ?L (snd p)) (\<lambda>e p. ?L (snd p))" for r c d
    by (rule runs_weaken [OF status_runs [of ?L]]; simp) (rule runs_weaken [OF exec_runs [of ?L]]; simp)
  have conf: "runs (\<lambda>p. ready (fst p) \<and> ?L (snd p)) (config_res r)
      (\<lambda>_ p. ready (fst p) \<and> ?L (snd p)) (\<lambda>e p. ?L (snd p))" for r :: "config_problem + unit"
    by (rule runs_weaken [OF config_runs [of ?L]]) auto
  have rdy: "runs (\<lambda>p. ready (fst p) \<and> ?L (snd p)) (of_res (assertFiscalReadyStatus r))
      (\<lambda>_ p. ready (fst p) \<and> ?L (snd p)) (\<lambda>e p. ?L (snd p))" for r
    by (rule runs_of_res) auto
  have cmd: "runs (\<lambda>p. ready (fst p) \<and> ?L (snd p)) (set_command c)
      (\<lambda>_ p. ready (fst p) \<and> ?L (snd p)) (\<lambda>e p. ?L (snd p))" for c
    unfolding set_command_def by (rule runs_writes) auto
  show ?thesis unfolding prepare_printer_def by (rule runs_await sync step conf rdy cmd)+
qed

lemma hook_runs:
  assumes "hook_keeps ready hook"
  shows "runs (\<lambda>p. ready (fst p) \<and> L (snd p)) (lift_hook hook) (\<lambda>_ p. ready (fst p) \<and> L (snd p))
     (\<lambda>e p. failing e (fst p) \<and> L (snd p))"
proof (cases hook)
  case None
  then show ?thesis by (auto simp: lift_hook_def intro: runs_resolve)
next
  case (Some m)
  with assms have "runs ready m (\<lambda>_. ready) (\<lambda>_. ready)" by (simp add: hook_keeps_def)
  then show ?thesis unfolding Some lift_hook_def runs_def
    by (fastforce simp: failing_hook split: prod.splits promise.splits)
qed

abbreviation body_error :: "fiscal_error \<Rightarrow> 's \<times> sale_locals \<Rightarrow> bool" where
  "body_error \<equiv> (\<lambda>e p. receiptOpened (snd p) \<longrightarrow> failing e (fst p))"

lemma open_runs:
  assumes "hook_keeps ready hook"
  shows "runs (\<lambda>p. ready (fst p) \<and> \<not> receiptOpened (snd p)) (open_receipt port config uid hook)
     (\<lambda>_ p. ready (fst p) \<and> receiptOpened (snd p)) body_error"
proof -
  let ?L = "\<lambda>l. \<not> receiptOpened l"
  have cmd: "runs (\<lambda>p. ready (fst p) \<and> ?L (snd p)) (set_command c)
      (\<lambda>_ p. ready (fst p) \<and> ?L (snd p)) body_error" for c
    unfolding set_command_def by (rule runs_writes) auto
  have hk: "runs (\<lambda>p. ready (fst p) \<and> ?L (snd p)) (lift_hook hook)
      (\<lambda>_ p. ready (fst p) \<and> ?L (snd p)) body_error"
    by (rule runs_weaken [OF hook_runs [OF assms, of ?L]]) auto
  have enc: "runs (\<lambda>p. ready (fst p) \<and> ?L (snd p)) (config_res r)
      (\<lambda>_ p. ready (fst p) \<and> ?L (snd p)) body_error" for r :: "config_problem + u8 list"
    by (rule runs_weaken [OF config_runs [of ?L]]) auto
  have ex: "runs (\<lambda>p. ready (fst p) \<and> ?L (snd p)) (exec port c d) (\<lambda>_ p. ready (fst p)) body_error" for c d
    by (rule runs_weaken [OF exec_runs [of ?L]]) auto
  have set: "runs (\<lambda>p. ready (fst p)) (writes (\<lambda>(s, l). (s, l\<lparr>receiptOpened := b\<rparr>)))
      (\<lambda>_ p. ready (fst p) \<and> receiptOpened (snd p) = b) body_error" for b
    by (rule runs_writes) auto
  have st: "runs (\<lambda>p. ready (fst p) \<and> receiptOpened (snd p) = b) (of_res (assertHealthyStatus r))
      (\<lambda>_ p. ready (fst p) \<and> receiptOpened (snd p) = b) body_error" for b r
    by (rule runs_weaken [OF status_runs [of "\<lambda>l. receiptOpened l = b"]]) auto
  have un: "runs (\<lambda>p. ready (fst p) \<and> receiptOpened (snd p) = b) (unconfirmed port c) Q body_error" for b c Q
    by (rule runs_weaken [OF unconfirmed_runs [of "\<lambda>l. receiptOpened l = b"]]) (auto simp: ready_ok)
  show ?thesis unfolding open_receipt_def
    by (rule runs_await cmd hk enc ex set st runs_if un | rule runs_resolve, simp)+
qed

lemma body_runs:
  assumes "hook_keeps ready hook"
  shows "runs (\<lambda>p. ok (fst p) \<and> \<not> receiptOpened (snd p)) (receipt_body tbl port config request sale hook)
     (\<lambda>r p. ready (fst p) \<and> resultUniqueSaleId r = uniqueSaleId request \<and> changeEur r = formatCents (changeCents sale))
     body_error"
proof -
  have weak: "runs at_ready m Q at_failing \<Longrightarrow> runs (\<lambda>p. ready (fst p) \<and> L p) m Q body_error" for m Q L
    by (erule runs_weaken) auto
  have weak2: "runs at_ready m Q at_failing \<Longrightarrow> runs at_ready m Q body_error" for m Q
    by (erule runs_weaken) auto
  have prep: "runs (\<lambda>p. ok (fst p) \<and> \<not> receiptOpened (snd p)) (prepare_printer tbl port config)
     (\<lambda>_ p. ready (fst p) \<and> \<not> receiptOpened (snd p)) body_error"
    by (rule runs_weaken [OF prepare_runs]) auto
  show ?thesis unfolding receipt_body_def
    by (rule runs_await prep open_runs [OF assms] weak [OF enter_lines_runs] weak2 [OF pay_runs]
        weak2 [OF close_runs] weak2 [OF confirm_runs] | rule runs_resolve, simp)+
qed

lemma with_command_code_same [simp]:
  "is_outcome_unknown (with_command_code c e) = is_outcome_unknown e"
  "is_protocol_rejected (with_command_code c e) = is_protocol_rejected e"
  by (induction c e rule: with_command_code.induct) (auto simp: is_protocol_rejected_def)

lemma failing_code [simp]: "failing (with_command_code c e) s = failing e s"
  by (simp add: failing_with_def)

text \<open>The end of a failed sale with the receipt open.\<close>

abbreviation cancelled_with :: "DatecsFiscalResponse \<Rightarrow> 's \<Rightarrow> bool" where
  "cancelled_with r s \<equiv> \<exists>s1. ready s1 \<and> port_execute port COMMAND_CANCEL_RECEIPT [] s1 = (Fulfilled r, s)"

abbreviation ended :: "fiscal_error \<Rightarrow> 's \<times> sale_locals \<Rightarrow> bool" where
  "ended \<equiv> (\<lambda>e p. e = SaleCancelled \<and> ready (fst p) \<and> \<not> paymentAttempted (snd p) \<and>
       (\<exists>r. cancelled_with r (fst p) \<and> isReceiptClosedWithoutFault r) \<or>
     is_outcome_unknown e \<and> safe (fst p) \<or> e = PortError LockPersistence None \<and> shut (fst p))"

lemma cancel_runs:
  "runs (\<lambda>p. ready (fst p) \<and> L (snd p)) (try_cancel port)
     (\<lambda>c p. ok (fst p) \<and> L (snd p) \<and> (\<forall>r. c = Some r \<longrightarrow> ready (fst p) \<and> cancelled_with r (fst p))) (\<lambda>_ _. False)"
proof -
  have "runs ready (port_execute port COMMAND_CANCEL_RECEIPT []) (\<lambda>r s. ready s \<and> cancelled_with r s) (\<lambda>_. ok)"
    using exec_law [of COMMAND_CANCEL_RECEIPT "[]"] unfolding runs_def by (fastforce split: prod.splits promise.splits)
  from lift_runs [OF this, of L] show ?thesis unfolding try_cancel_def exec_def
    by (rule_tac runs_catch, rule_tac runs_await, assumption) (auto simp: ready_ok intro!: runs_resolve)
qed

lemma failed_runs:
  "runs (body_error error) (receipt_failed port error) Q
     (\<lambda>e p. receiptOpened (snd p) \<longrightarrow> ended e p)"
  unfolding runs_def
proof (intro allI impI)
  fix p :: "'s \<times> sale_locals"
  assume p: "receiptOpened (snd p) \<longrightarrow> failing error (fst p)"
  let ?l = "snd p" and ?e = "with_command_code (currentCommand (snd p)) error"
  let ?E = "\<lambda>e q. receiptOpened (snd q) \<longrightarrow> ended e q"
  let ?first = "if is_protocol_rejected ?e \<and> \<not> paymentAttempted ?l then
                await (try_cancel port) (\<lambda>cancelled. case cancelled of
                  Some r \<Rightarrow> if isReceiptClosedWithoutFault r then throw SaleCancelled else resolve ()
                | None \<Rightarrow> resolve ())
              else resolve ()"
  let ?rest = "await ?first (\<lambda>_. if is_outcome_unknown ?e then throw ?e else unconfirmed port (currentCommand ?l))"
  have first: "runs (\<lambda>q. failing ?e (fst q) \<and> snd q = ?l) ?first (\<lambda>_ q. ok (fst q) \<and> (is_outcome_unknown ?e \<longrightarrow> safe (fst q))) ?E"
  proof (cases "is_protocol_rejected ?e \<and> \<not> paymentAttempted ?l")
    case True
    then have "is_protocol_rejected error" by simp
    then have "\<not> is_outcome_unknown error" by (auto simp: is_protocol_rejected_def)
    then have nu: "\<not> is_outcome_unknown ?e" by simp
    have "runs (\<lambda>q. failing ?e (fst q) \<and> snd q = ?l) (try_cancel port)
        (\<lambda>c q. ok (fst q) \<and> snd q = ?l \<and> (\<forall>r. c = Some r \<longrightarrow> ready (fst q) \<and> cancelled_with r (fst q))) ?E"
      by (rule runs_weaken [OF cancel_runs [of "\<lambda>l. l = ?l"]]) (use True in \<open>auto simp: failing_with_def\<close>)
    then show ?thesis
      unfolding if_P [OF True]
      by (rule runs_await) (use nu True in \<open>auto split: option.split intro!: runs_if runs_throw runs_resolve\<close>)
  next
    case False
    then show ?thesis unfolding if_not_P [OF False] by (intro runs_resolve) (auto simp: failing_with_def)
  qed
  have un: "runs (\<lambda>q. ok (fst q) \<and> (is_outcome_unknown ?e \<longrightarrow> safe (fst q))) (unconfirmed port c) Q ?E" for c
    by (rule runs_weaken [OF unconfirmed_runs [of "\<lambda>_. True"]]) auto
  have rest: "runs (\<lambda>q. failing ?e (fst q) \<and> snd q = ?l) ?rest Q ?E"
    by (rule runs_await [OF first], rule runs_if, rule runs_throw, force, rule un)
  have run: "receipt_failed port error p = (if \<not> receiptOpened ?l then throw ?e else ?rest) p"
    unfolding receipt_failed_def by (simp only: await_run reads_run Let_def prod.case promise.case)
  show "case receipt_failed port error p of (Fulfilled a, s') \<Rightarrow> Q a s' | (Rejected e, s') \<Rightarrow> ?E e s' | (Pending, s') \<Rightarrow> True"
  proof (cases "receiptOpened ?l")
    case False
    then show ?thesis unfolding run by simp
  next
    case True
    with p have f: "failing ?e (fst p) \<and> snd p = ?l" by simp
    show ?thesis unfolding run using True
      by (simp only: not_True_eq_False if_False) (rule rest [unfolded runs_def, THEN spec, THEN mp, OF f])
  qed
qed

lemma issue_runs:
  assumes "hook_keeps ready hook"
  shows "runs (\<lambda>p. ok (fst p) \<and> \<not> receiptOpened (snd p)) (issue_receipt tbl port config request hook)
     (\<lambda>r p. ready (fst p) \<and> resultUniqueSaleId r = uniqueSaleId request \<and>
       (\<exists>sale. validateSaleRequest request config = Inr sale \<and> changeEur r = formatCents (changeCents sale)))
     (\<lambda>e p. receiptOpened (snd p) \<longrightarrow> ended e p)"
proof (cases "validateSaleRequest request config")
  case (Inl e)
  then show ?thesis by (auto simp: issue_receipt_def config_res_def intro!: runs_throw)
next
  case (Inr sale)
  have "runs (\<lambda>p. ok (fst p) \<and> \<not> receiptOpened (snd p))
      (catch (receipt_body tbl port config request sale hook) (receipt_failed port))
      (\<lambda>r p. ready (fst p) \<and> resultUniqueSaleId r = uniqueSaleId request \<and> changeEur r = formatCents (changeCents sale))
      (\<lambda>e p. receiptOpened (snd p) \<longrightarrow> ended e p)"
    by (rule runs_catch [OF body_runs [OF assms]]) (rule failed_runs)
  then show ?thesis by (simp add: issue_receipt_def config_res_def Inr)
qed

end

section \<open>The command client keeps the laws\<close>

definition client_ready :: "client_options \<Rightarrow> client_state \<Rightarrow> bool" where
  "client_ready opt s \<longleftrightarrow> client_ok s \<and> 0 < maxAttempts opt \<and> synchronized s \<and> \<not> outcomeUnknown s"

definition client_safe :: "client_options \<Rightarrow> client_state \<Rightarrow> bool" where
  "client_safe opt s \<longleftrightarrow> client_ok s \<and> 0 < maxAttempts opt \<and> outcomeUnknown s \<and> locked opt s"

lemma client_mark_law:
  "runs (\<lambda>s. client_ok s \<and> 0 < maxAttempts opt) (markOutcomeUnknown env opt c) (\<lambda>_. client_safe opt)
     (\<lambda>e s. e = LockPersistence \<and> outcomeUnknown s \<and> client_ok s \<and> 0 < maxAttempts opt)"
proof (rule runsI)
  fix s a s' assume a: "client_ok s \<and> 0 < maxAttempts opt" "markOutcomeUnknown env opt c s = (Fulfilled a, s')"
  with mark_ok [of s env opt c "Fulfilled a" s'] show "client_safe opt s'" by (simp add: client_safe_def)
next
  fix s e s' assume a: "client_ok s \<and> 0 < maxAttempts opt" "markOutcomeUnknown env opt c s = (Rejected e, s')"
  with mark_ok [of s env opt c "Rejected e" s']
  show "e = LockPersistence \<and> outcomeUnknown s' \<and> client_ok s' \<and> 0 < maxAttempts opt" by simp
qed

lemma mark_synchronized:
  assumes "markOutcomeUnknown env opt c s = (r, s')"
  shows "synchronized s' = synchronized s \<and> r \<noteq> Rejected ProtocolRejected"
  using assms by (auto simp: markOutcomeUnknown_def await_run catch_run record_lock_def split: prod.splits sum.splits)

lemma after_exchange_synchronized:
  assumes "after_exchange env opt c sq r s = (q, s')"
  shows "synchronized s' = synchronized s \<and> (q = Rejected ProtocolRejected \<longrightarrow> s' = s)"
proof -
  obtain m s1 where m: "markOutcomeUnknown env opt (JsInt c) s = (m, s1)" by fastforce
  note ms = mark_synchronized [OF m]
  show ?thesis
  proof (cases r)
    case (Fulfilled msg)
    then show ?thesis
      using assms ms m by (cases msg) (auto simp: after_exchange_def split: sum.splits promise.splits)
  qed (use assms ms m in \<open>auto simp: after_exchange_def split: if_splits promise.splits\<close>)
qed

lemma client_exec_law:
  "runs (client_ready opt) (execute env opt fuel c d) (\<lambda>_. client_ready opt)
     (\<lambda>e s. (client_ok s \<and> 0 < maxAttempts opt) \<and> (e = ProtocolRejected \<longrightarrow> client_ready opt s) \<and>
       (unknown_error e \<longrightarrow> client_safe opt s))"
proof (rule runsI)
  fix s a s' assume s: "client_ready opt s" and x: "execute env opt fuel c d s = (Fulfilled a, s')"
  from s have "client_ok s" "0 < maxAttempts opt" by (simp_all add: client_ready_def)
  from execute_parts [OF this x] have "client_ok s'" "\<not> outcomeUnknown s'" by auto
  moreover obtain r s1 where e: "exchange env opt fuel (JsInt (sequenceNumber s)) (JsInt c) d (logs UsedStorage s) = (r, s1)"
    by fastforce
  moreover have "synchronized s1 = synchronized s"
    using only_talksD [OF talks_exchange e] by (metis (no_types, lifting) client_state.select_convs(2) client_state.surjective client_state.update_convs(5) logs_simps(2))
  ultimately show "client_ready opt s'"
    using s x after_exchange_synchronized [of env opt c "sequenceNumber s" r s1 "Fulfilled a" s']
    by (auto simp: execute_run client_ready_def split: if_splits)
next
  fix s e s' assume s: "client_ready opt s" and x: "execute env opt fuel c d s = (Rejected e, s')"
  from s have ok: "client_ok s" "0 < maxAttempts opt" "synchronized s" "\<not> outcomeUnknown s" by (simp_all add: client_ready_def)
  obtain r s1 where e: "exchange env opt fuel (JsInt (sequenceNumber s)) (JsInt c) d (logs UsedStorage s) = (r, s1)"
    by fastforce
  obtain ext where s1: "s1 = (logs UsedStorage s)\<lparr>trace := trace (logs UsedStorage s) @ ext\<rparr>"
    by (rule only_talksD [OF talks_exchange e])
  have s1ok: "client_ok s1" "\<not> outcomeUnknown s1" "synchronized s1" using s1 ok by simp_all
  have sq: "0x20 \<le> sequenceNumber s" "sequenceNumber s \<le> 0x7f" using ok(1) by (simp_all add: client_ok_def)
  show "(client_ok s' \<and> 0 < maxAttempts opt) \<and> (e = ProtocolRejected \<longrightarrow> client_ready opt s') \<and>
       (unknown_error e \<longrightarrow> client_safe opt s')"
  proof (cases "env_storage env (trace s) \<and> \<not> locked opt s")
    case False
    then show ?thesis using x ok by (auto simp: execute_run client_safe_def locked_def split: if_splits)
  next
    case True
    then have a: "after_exchange env opt c (sequenceNumber s) r s1 = (Rejected e, s')"
      using x ok e by (simp add: execute_run)
    from after_exchange_props [OF s1ok(1,2) sq a] after_exchange_synchronized [OF a] s1ok ok(2)
    show ?thesis by (cases e) (auto simp: client_ready_def client_safe_def)
  qed
qed

lemma client_sync_law:
  "runs (\<lambda>s. client_ok s \<and> 0 < maxAttempts opt) (synchronize env opt fuel) (\<lambda>_. client_ready opt)
     (\<lambda>_ s. client_ok s \<and> 0 < maxAttempts opt)"
proof (rule runsI)
  fix s a s' assume s: "client_ok s \<and> 0 < maxAttempts opt" and x: "synchronize env opt fuel s = (Fulfilled a, s')"
  with synchronize_parts [of s opt env fuel "Fulfilled a" s'] show "client_ready opt s'"
    by (auto simp: client_ready_def isSynchronized_def)
next
  fix s e s' assume s: "client_ok s \<and> 0 < maxAttempts opt" and x: "synchronize env opt fuel s = (Rejected e, s')"
  with synchronize_parts [of s opt env fuel "Rejected e" s'] show "client_ok s' \<and> 0 < maxAttempts opt" by simp
qed

interpretation printer: fiscal_port_laws "client_port env opt fuel" "\<lambda>s. client_ok s \<and> 0 < maxAttempts opt"
  "client_ready opt" "client_safe opt" outcomeUnknown
proof (unfold_locales, goal_cases)
  case (2) show ?case unfolding client_port_def fiscal_port.simps by (rule client_sync_law)
next
  case (3 c d) show ?case unfolding client_port_def fiscal_port.simps by (rule client_exec_law)
next
  case (4 c) show ?case unfolding client_port_def fiscal_port.simps by (rule client_mark_law)
qed (simp_all add: client_ready_def client_safe_def)

text \<open>
  The printer confirmed a cancellation: the last frame written is a cancel command, and the last message
  read is the response to it, which reports the receipt closed without a fault.
\<close>

definition cancellation_confirmed :: "client_state \<Rightarrow> bool" where
  "cancellation_confirmed s \<longleftrightarrow> (\<exists>sq frames frame v. wrote (trace s) = frames @ [frame] \<and>
     encodeDatecsCommand (JsInt sq) (JsInt COMMAND_CANCEL_RECEIPT) [] = Inr frame \<and> answered v (trace s) \<and>
     uint (command v) = COMMAND_CANCEL_RECEIPT \<and> uint (DatecsFiscalResponse.sequence v) = sq \<and> isReceiptClosedWithoutFault v)"

lemma client_cancelled:
  assumes "client_ready opt s1" and "execute env opt fuel COMMAND_CANCEL_RECEIPT [] s1 = (Fulfilled v, s)" and "isReceiptClosedWithoutFault v"
  shows "cancellation_confirmed s"
proof -
  have ok: "client_ok s1" "0 < maxAttempts opt" using assms(1) by (simp_all add: client_ready_def)
  obtain k f where "wrote (trace s) = wrote (trace s1) @ replicate (Suc k) f"
      "encodeDatecsCommand (JsInt (sequenceNumber s1)) (JsInt COMMAND_CANCEL_RECEIPT) [] = Inr f"
      "uint (command v) = COMMAND_CANCEL_RECEIPT" "uint (DatecsFiscalResponse.sequence v) = sequenceNumber s1"
    using execute_parts [OF ok assms(2)] by (metis Suc_pred)
  then show ?thesis using execute_reply [OF assms(2)] assms(3)
    unfolding cancellation_confirmed_def by (metis append.assoc replicate_Suc replicate_append_same)
qed

text \<open>
  C9: Issuing a cash receipt through the command client fails closed. If it succeeds, the
  printer confirmed a last document with the requested unique sale number, the change is the
  validated one and the client is ready for the next command. If it fails after the printer
  opened the receipt, then either the unpaid receipt is cancelled, no payment was sent and the printer
  answered the cancel command with the receipt closed without a fault, or the outcome is
  recorded as unknown in the store and the client is closed, or the failure to record it is
  what is reported and the client is closed.
\<close>

theorem sale_fails_closed:
  assumes "client_ok s" and "0 < maxAttempts opt" and "hook_keeps (client_ready opt) hook"
    and "issue_receipt tbl (client_port env opt fuel) config request hook (s, initial_locals) = (r, s', l)"
  shows "(\<forall>res. r = Fulfilled res \<longrightarrow> client_ready opt s' \<and> resultUniqueSaleId res = uniqueSaleId request \<and>
       (\<exists>sale. validateSaleRequest request config = Inr sale \<and> changeEur res = formatCents (changeCents sale))) \<and>
    (\<forall>e. r = Rejected e \<longrightarrow> receiptOpened l \<longrightarrow>
       e = SaleCancelled \<and> client_ready opt s' \<and> \<not> paymentAttempted l \<and> cancellation_confirmed s' \<or>
       is_outcome_unknown e \<and> client_safe opt s' \<or> e = PortError LockPersistence None \<and> outcomeUnknown s')"
proof -
  have "client_ok (fst (s, initial_locals)) \<and> 0 < maxAttempts opt \<and> \<not> receiptOpened (snd (s, initial_locals))"
    using assms(1,2) by (simp add: initial_locals_def)
  then have pre: "(client_ok (fst (s, initial_locals)) \<and> 0 < maxAttempts opt) \<and> \<not> receiptOpened (snd (s, initial_locals))"
    by blast
  have "cancellation_confirmed s'" if "client_ready opt s1" "port_execute (client_port env opt fuel) COMMAND_CANCEL_RECEIPT [] s1 = (Fulfilled v, s')"
      "isReceiptClosedWithoutFault v" for s1 v
    using that client_cancelled by (simp add: client_port_def)
  with runsD [OF printer.issue_runs [OF assms(3)] pre assms(4)] show ?thesis by (auto 0 4)
qed

section \<open>A printer that sells\<close>

text \<open>Replies of a printer in good order, for the witness of a complete sale.\<close>

definition printer_reply :: "u8 list list \<Rightarrow> u8 list \<Rightarrow> DatecsFiscalResponse" where
  "printer_reply frames frame =
     (let c = frame ! 3; last_query = (c = 0x30 \<and> length frame = 11);
          opened = (list_ex (\<lambda>f. f ! 3 = 0x30) frames \<and> \<not> list_ex (\<lambda>f. f ! 3 = 0x38) frames)
      in \<lparr>command = c,
          data = (if c = 0x53 then map of_char ''0,2,EUR,01111000,0.00,20.00,9.00,0.00,0.00,0.00,0.00,0.00''
                  else if c = 0x35 then map of_char ''R0.50''
                  else if c = 0x38 then map of_char ''1,1''
                  else if last_query then map of_char ''123,DT000600-OP01-0001000''
                  else []),
          sequence = frame ! 2,
          status = [0x80, 0x80, if opened then 0x88 else 0x80, 0x80, 0x86, 0x9a]\<rparr>)"

definition working_printer :: environment where
  "working_printer = \<lparr>env_write = (\<lambda>_. True),
     env_read = (\<lambda>tr _. let fs = wrote tr in Bytes (response_frame (printer_reply fs (last fs)))),
     env_now = (\<lambda>tr. int (length tr)), env_storage = (\<lambda>_. True), env_iso = (\<lambda>_. js ''2026'')\<rparr>"

definition sample_config :: DatecsFiscalSaleConfiguration where
  "sample_config = \<lparr>operatorNumber = JsInt 1, operatorPassword = js ''0000'', registerLocationNumber = JsInt 1,
     taxGroups = [(Standard20, \<lparr>tg_group = js ''B'', tg_ratePercent = js ''20.00''\<rparr>)]\<rparr>"

definition sample_request :: DatecsFiscalCashSaleRequest where
  "sample_request = \<lparr>cashTenderedEur = js ''2.00'',
     lines = [\<lparr>description = js ''Tea'', discountEur = None, grossTotalEur = js ''1.50'', quantity = js ''1'',
       unitCode = None, unitPriceEur = js ''1.5'', vatTreatment = Standard20\<rparr>],
     totalGrossEur = js ''1.50'', uniqueSaleId = js ''DT000600-OP01-0001000''\<rparr>"

lemma sample_valid: "validateSaleRequest sample_request sample_config =
   Inr \<lparr>cashTenderedCents = 200, changeCents = 50, saleLines = [(map of_char ''Tea'' @ [9] @ map of_char ''B1.5*1'', 150)]\<rparr>"
  by code_simp

text \<open>A printer that answers the first \<open>n\<close> commands and then falls silent.\<close>

definition stalling_printer :: "nat \<Rightarrow> environment" where
  "stalling_printer n = silent_printer\<lparr>env_read := (\<lambda>tr _. let fs = wrote tr in
     if length fs \<le> n then Bytes (response_frame (printer_reply fs (last fs))) else TimedOut)\<rparr>"

definition stalled_sale where
  "stalled_sale = issue_receipt (\<lambda>_. []) (client_port (stalling_printer 3) sample_options 3) sample_config
     sample_request None (sample_client, initial_locals)"

lemma stalled_sale_unknown:
  "case stalled_sale of (r, s, l) \<Rightarrow> r = Rejected (PortError (OutcomeUnknown NotConfirmed) (Some 0x31)) \<and> receiptOpened l"
  by code_simp

text \<open>A printer that refuses every sale line and cancels the receipt when it is asked to.\<close>

definition refusing_printer :: environment where
  "refusing_printer = working_printer\<lparr>env_read := (\<lambda>tr _. let fs = wrote tr; f = last fs; r = printer_reply fs f in
     Bytes (if f ! 3 = 0x31 then [NAK]
       else response_frame (if f ! 3 = 0x3c then r\<lparr>status := [0x80, 0x80, 0x80, 0x80, 0x86, 0x9a]\<rparr> else r)))\<rparr>"

definition cancelled_sale where
  "cancelled_sale = issue_receipt (\<lambda>_. []) (client_port refusing_printer sample_options 3) sample_config
     sample_request None (sample_client, initial_locals)"

lemma cancelled_sale_ends: "case cancelled_sale of (r, s, l) \<Rightarrow> r = Rejected SaleCancelled \<and> receiptOpened l"
  by code_simp

theorem sale_fails_closed_witness:
  "client_safe sample_options (fst (snd stalled_sale)) \<and> cancellation_confirmed (fst (snd cancelled_sale))"
proof -
  obtain r s' l q t' m where run: "stalled_sale = (r, s', l)" "cancelled_sale = (q, t', m)" by (metis prod_cases3)
  have r: "r = Rejected (PortError (OutcomeUnknown NotConfirmed) (Some 0x31))" "receiptOpened l" "q = Rejected SaleCancelled" "receiptOpened m"
    using stalled_sale_unknown cancelled_sale_ends by (simp_all add: run)
  have hk: "hook_keeps (client_ready sample_options) None" by (simp add: hook_keeps_def)
  from sale_fails_closed [OF sample_client_ok hk run(1) [unfolded stalled_sale_def]]
    sale_fails_closed [OF sample_client_ok hk run(2) [unfolded cancelled_sale_def]] r
  show ?thesis unfolding run by simp
qed

section \<open>The order of the commands\<close>

text \<open>A port that also logs the commands given to \<open>execute\<close>.\<close>

definition logged :: "'s fiscal_port \<Rightarrow> ('s \<times> (int \<times> u8 list) list) fiscal_port" where
  "logged port = \<lparr>
     port_execute = (\<lambda>c d (s, log). case port_execute port c d s of (r, s') \<Rightarrow> (r, s', log @ [(c, d)])),
     port_markOutcomeUnknown = (\<lambda>c (s, log). case port_markOutcomeUnknown port c s of (r, s') \<Rightarrow> (r, s', log)),
     port_synchronize = (\<lambda>(s, log). case port_synchronize port s of (r, s') \<Rightarrow> (r, s', log))\<rparr>"

definition logged_hook :: "('s, nat, unit) async option \<Rightarrow> ('s \<times> 'l, nat, unit) async option" where
  "logged_hook hook = map_option (\<lambda>m (s, log). case m s of (r, s') \<Rightarrow> (r, s', log)) hook"

definition text_bytes :: "jsstr \<Rightarrow> u8 list" where
  "text_bytes s = (case encodeDatecsWindows1251 s of Inr b \<Rightarrow> b | Inl _ \<Rightarrow> [])"

text \<open>The commands of a complete sale.\<close>

definition sale_script :: "DatecsFiscalSaleConfiguration \<Rightarrow> DatecsFiscalCashSaleRequest \<Rightarrow> validated_sale \<Rightarrow>
    (int \<times> u8 list) list" where
  "sale_script config request sale =
     [(COMMAND_READ_CURRENCY_AND_TAXES, []),
      (COMMAND_OPEN_RECEIPT, text_bytes (open_text config (uniqueSaleId request)))] @
     map (\<lambda>line. (COMMAND_ENTER_SALE, fst line)) (saleLines sale) @
     [(COMMAND_TOTAL, text_bytes ([9] @ js ''P+'' @ formatCents (cashTenderedCents sale))),
      (COMMAND_CLOSE_RECEIPT, []),
      (COMMAND_OPEN_RECEIPT, text_bytes [42])]"

abbreviation at_log :: "(int \<times> u8 list) list \<Rightarrow> bool \<Rightarrow> ('s \<times> (int \<times> u8 list) list) \<times> sale_locals \<Rightarrow> bool" where
  "at_log L b \<equiv> (\<lambda>p. snd (fst p) = L \<and> paymentAttempted (snd p) = b)"

text \<open>The log is a part of the script from its start, and before the payment it ends with the lines.\<close>

definition log_good :: "(int \<times> u8 list) list \<Rightarrow> nat \<Rightarrow> (int \<times> u8 list) list \<Rightarrow> bool \<Rightarrow> bool" where
  "log_good script n L paid \<longleftrightarrow> (\<exists>rest. script = L @ rest) \<and> (\<not> paid \<longrightarrow> length L \<le> n + 2)"

abbreviation log_error :: "(int \<times> u8 list) list \<Rightarrow> nat \<Rightarrow> 'e \<Rightarrow> ('s \<times> (int \<times> u8 list) list) \<times> sale_locals \<Rightarrow> bool" where
  "log_error script n \<equiv> (\<lambda>e p. log_good script n (snd (fst p)) (paymentAttempted (snd p)))"

lemma log_exec:
  "log_good script n (L @ [(c, d)]) b \<Longrightarrow>
   runs (at_log L b) (exec (logged port) c d) (\<lambda>_. at_log (L @ [(c, d)]) b) (log_error script n)"
  by (auto simp: runs_def exec_def lift_port_def logged_def split: prod.splits promise.splits)

lemma log_sync:
  "log_good script n L b \<Longrightarrow>
   runs (at_log L b) (lift_port (port_synchronize (logged port))) (\<lambda>_. at_log L b) (log_error script n)"
  by (auto simp: runs_def lift_port_def logged_def split: prod.splits promise.splits)

lemma log_hook:
  "log_good script n L b \<Longrightarrow> runs (at_log L b) (lift_hook (logged_hook hook)) (\<lambda>_. at_log L b) (log_error script n)"
  by (cases hook) (auto simp: runs_def lift_hook_def logged_hook_def split: prod.splits promise.splits)

lemma log_unconfirmed:
  "log_good script n L b \<Longrightarrow> runs (at_log L b) (unconfirmed (logged port) c) Q (log_error script n)"
  by (auto simp: runs_def unconfirmed_def await_run lift_port_def logged_def split: prod.splits promise.splits)

lemma log_res: "log_good script n L b \<Longrightarrow> runs (at_log L b) (of_res r) (\<lambda>_. at_log L b) (log_error script n)"
  by (rule runs_of_res) auto

lemma log_config: "log_good script n L b \<Longrightarrow> runs (at_log L b) (config_res r) (\<lambda>_. at_log L b) (log_error script n)"
  unfolding config_res_def by (rule log_res)

lemma log_encode:
  "log_good script n L b \<Longrightarrow> runs (at_log L b) (config_res (encodeDatecsWindows1251 s))
     (\<lambda>a p. at_log L b p \<and> a = text_bytes s) (log_error script n)"
  unfolding config_res_def text_bytes_def by (rule runs_of_res) (auto split: sum.splits)

lemma log_encoded_exec:
  "log_good script n (L @ [(c, d)]) b \<Longrightarrow>
   runs (\<lambda>p. at_log L b p \<and> a = d) (exec (logged port) c a) (\<lambda>_. at_log (L @ [(c, d)]) b) (log_error script n)"
  by (rule runs_pre [of _ "a = d"]) (auto intro: runs_weaken [OF log_exec])

lemma log_command: "runs (at_log L b) (set_command c) (\<lambda>_. at_log L b) (log_error script n)"
  unfolding set_command_def by (rule runs_writes) auto

lemma log_writes:
  "(\<And>s l. paymentAttempted l = b \<Longrightarrow> paymentAttempted (snd (u (s, l))) = b' \<and> fst (u (s, l)) = s) \<Longrightarrow>
   runs (at_log L b) (writes u) (\<lambda>_. at_log L b') (log_error script n)"
  by (rule runs_writes) (metis prod.collapse)

lemma log_lines:
  "script = L @ map (\<lambda>line. (COMMAND_ENTER_SALE, fst line)) ls @ rest \<Longrightarrow> length L + length ls \<le> n + 2 \<Longrightarrow>
   runs (at_log L False) (enter_lines (logged port) ls)
     (\<lambda>_. at_log (L @ map (\<lambda>line. (COMMAND_ENTER_SALE, fst line)) ls) False) (log_error script n)"
proof (induction ls arbitrary: L)
  case Nil
  then show ?case unfolding enter_lines.simps by (intro runs_resolve) simp
next
  case (Cons x ls)
  let ?L = "L @ [(COMMAND_ENTER_SALE, fst x)]"
  have g: "log_good script n L False" "log_good script n ?L False"
    using Cons.prems by (auto simp: log_good_def)
  have IH: "runs (at_log ?L False) (enter_lines (logged port) ls)
     (\<lambda>_. at_log (L @ map (\<lambda>line. (COMMAND_ENTER_SALE, fst line)) (x # ls)) False) (log_error script n)"
    using Cons.IH [of ?L] Cons.prems by simp
  show ?case unfolding enter_lines.simps
    by (rule runs_await log_command log_exec [OF g(2)] log_res [OF g(2)] runs_if log_unconfirmed [OF g(2)] IH)+
qed

lemma log_body:
  fixes config request sale
  defines "script \<equiv> sale_script config request sale" and "n \<equiv> length (saleLines sale)"
  shows "runs (at_log [] False) (receipt_body tbl (logged port) config request sale (logged_hook hook))
     (\<lambda>_ p. snd (fst p) = script) (log_error script n)"
proof -
  let ?A = "[(COMMAND_READ_CURRENCY_AND_TAXES, [])] :: (int \<times> u8 list) list"
  let ?B = "?A @ [(COMMAND_OPEN_RECEIPT, text_bytes (open_text config (uniqueSaleId request)))]"
  let ?C = "?B @ map (\<lambda>line. (COMMAND_ENTER_SALE, fst line)) (saleLines sale)"
  let ?D = "?C @ [(COMMAND_TOTAL, text_bytes ([9] @ js ''P+'' @ formatCents (cashTenderedCents sale)))]"
  let ?E = "?D @ [(COMMAND_CLOSE_RECEIPT, [])]"
  let ?F = "?E @ [(COMMAND_OPEN_RECEIPT, text_bytes [42])]"
  have F: "script = ?F" by (simp add: script_def sale_script_def)
  have g0: "log_good script n [] False" "log_good script n ([] @ ?A) False" "log_good script n ?B False"
    "log_good script n ?C True" "log_good script n ?D True" "log_good script n ?E True" "log_good script n ?F True"
    by (auto simp: log_good_def F n_def)
  have g: "log_good script n ?A False" using g0(2) by simp
  have A: "runs (at_log [] False) (prepare_printer tbl (logged port) config) (\<lambda>_. at_log ?A False) (log_error script n)"
    unfolding prepare_printer_def
    by (rule runs_await log_sync [OF g0(1)] log_res [OF g0(1)] log_command log_exec [OF g0(2), unfolded append_Nil]
        log_res [OF g] log_config [OF g])+
  have w: "runs (at_log ?B False) (writes (\<lambda>(s, l). (s, l\<lparr>receiptOpened := b\<rparr>))) (\<lambda>_. at_log ?B False) (log_error script n)" for b
    by (rule log_writes) auto
  have B: "runs (at_log ?A False) (open_receipt (logged port) config (uniqueSaleId request) (logged_hook hook))
      (\<lambda>_. at_log ?B False) (log_error script n)"
    unfolding open_receipt_def
    by (rule runs_await log_command log_hook [OF g] log_encode [OF g] log_encoded_exec [OF g0(3)] w log_res [OF g0(3)]
        runs_if log_unconfirmed [OF g0(3)] | rule runs_resolve, assumption)+
  have C: "runs (at_log ?B False) (enter_lines (logged port) (saleLines sale)) (\<lambda>_. at_log ?C False) (log_error script n)"
    by (rule log_lines) (simp_all add: F n_def)
  have w2: "runs (at_log ?C False) (writes (\<lambda>(s, l). (s, l\<lparr>currentCommand := COMMAND_TOTAL, paymentAttempted := True\<rparr>)))
      (\<lambda>_. at_log ?C True) (log_error script n)"
    by (rule log_writes) auto
  have D: "runs (at_log ?C False) (pay_receipt (logged port) sale) (\<lambda>_. at_log ?D True) (log_error script n)"
    unfolding pay_receipt_def
    by (rule runs_await w2 log_encode [OF g0(4)] log_encoded_exec [OF g0(5)] log_res [OF g0(5)] log_config [OF g0(5)]
        runs_if log_unconfirmed [OF g0(5)] | rule runs_resolve, assumption)+
  have E: "runs (at_log ?D True) (close_receipt (logged port)) (\<lambda>_. at_log ?E True) (log_error script n)"
    unfolding close_receipt_def
    by (rule runs_await log_command log_exec [OF g0(6)] log_res [OF g0(6)] log_config [OF g0(6)]
        runs_if log_unconfirmed [OF g0(6)])+
  have FF: "runs (at_log ?E True) (confirm_document (logged port) (uniqueSaleId request)) (\<lambda>_. at_log ?F True) (log_error script n)"
    unfolding confirm_document_def
    by (rule runs_await log_command log_encode [OF g0(6)] log_encoded_exec [OF g0(7)] log_res [OF g0(7)] log_config [OF g0(7)]
        runs_if log_unconfirmed [OF g0(7)] | rule runs_resolve, assumption)+
  show ?thesis unfolding receipt_body_def
    by (rule runs_await A B C D E FF | rule runs_resolve, simp only: F)+
qed

text \<open>The log after a failure: as before, or with one cancellation after the lines.\<close>

definition log_final :: "(int \<times> u8 list) list \<Rightarrow> nat \<Rightarrow> (int \<times> u8 list) list \<Rightarrow> bool" where
  "log_final script n L \<longleftrightarrow> (\<exists>rest. script = L @ rest) \<or>
     (\<exists>part rest. script = part @ rest \<and> length part \<le> n + 2 \<and> L = part @ [(COMMAND_CANCEL_RECEIPT, [])])"

lemma log_mark: "runs (\<lambda>p. P (snd (fst p))) (unconfirmed (logged port) c) Q (\<lambda>_ p. P (snd (fst p)))"
  by (auto simp: runs_def unconfirmed_def await_run lift_port_def logged_def split: prod.splits promise.splits)

lemma log_cancel:
  "runs (at_log L b) (try_cancel (logged port)) (\<lambda>_ p. snd (fst p) = L @ [(COMMAND_CANCEL_RECEIPT, [])]) (\<lambda>_ _. False)"
  by (auto simp: runs_def try_cancel_def catch_run await_run exec_def lift_port_def logged_def
      split: prod.splits promise.splits)

lemma log_failed:
  "runs (log_error script n error) (receipt_failed (logged port) error) Q (\<lambda>_ p. log_final script n (snd (fst p)))"
  unfolding runs_def
proof (intro allI impI)
  fix p :: "('a \<times> (int \<times> u8 list) list) \<times> sale_locals"
  assume g: "log_good script n (snd (fst p)) (paymentAttempted (snd p))"
  let ?L = "snd (fst p)" and ?b = "paymentAttempted (snd p)" and ?l = "snd p"
  let ?e = "with_command_code (currentCommand ?l) error"
  let ?fin = "\<lambda>q :: ('a \<times> (int \<times> u8 list) list) \<times> sale_locals. log_final script n (snd (fst q))"
  let ?first = "if is_protocol_rejected ?e \<and> \<not> ?b then
                await (try_cancel (logged port)) (\<lambda>cancelled. case cancelled of
                  Some r \<Rightarrow> if isReceiptClosedWithoutFault r then throw SaleCancelled else resolve ()
                | None \<Rightarrow> resolve ())
              else resolve ()"
  let ?rest = "await ?first (\<lambda>_. if is_outcome_unknown ?e then throw ?e else unconfirmed (logged port) (currentCommand ?l))"
  have fin: "log_final script n ?L" "\<not> ?b \<Longrightarrow> log_final script n (?L @ [(COMMAND_CANCEL_RECEIPT, [])])"
    using g by (auto simp: log_good_def log_final_def)
  have first: "runs (at_log ?L ?b) ?first (\<lambda>_. ?fin) (\<lambda>_. ?fin)"
  proof (cases "is_protocol_rejected ?e \<and> \<not> ?b")
    case True
    have "runs (at_log ?L ?b) (try_cancel (logged port)) (\<lambda>_. ?fin) (\<lambda>_. ?fin)"
      by (rule runs_weaken [OF log_cancel [of ?L ?b]]) (use fin(2) True in auto)
    then show ?thesis unfolding if_P [OF True]
      by (rule runs_await) (auto split: option.split intro!: runs_if runs_throw runs_resolve)
  next
    case False
    show ?thesis unfolding if_not_P [OF False] by (rule runs_resolve) (use fin(1) in auto)
  qed
  have rest: "runs (at_log ?L ?b) ?rest Q (\<lambda>_. ?fin)"
    by (rule runs_await [OF first], rule runs_if, rule runs_throw, assumption, rule log_mark)
  have run: "receipt_failed (logged port) error p = (if \<not> receiptOpened ?l then throw ?e else ?rest) p"
    unfolding receipt_failed_def by (simp only: await_run reads_run Let_def prod.case promise.case)
  show "case receipt_failed (logged port) error p of (Fulfilled a, s') \<Rightarrow> Q a s' | (Rejected e, s') \<Rightarrow> ?fin s' | (Pending, s') \<Rightarrow> True"
  proof (cases "receiptOpened ?l")
    case False
    then show ?thesis unfolding run using fin(1) by simp
  next
    case True
    have at: "at_log ?L ?b p" by simp
    show ?thesis unfolding run using True
      by (simp only: not_True_eq_False if_False) (rule rest [unfolded runs_def, THEN spec, THEN mp, OF at])
  qed
qed

text \<open>
  C26: On any command port, a sale gives the commands of the script and no others: when it
  succeeds exactly all of them once in order, and when it fails a part from the start, with at
  most one cancellation after it, and that only if no payment was attempted.
\<close>

theorem sale_command_order:
  assumes "validateSaleRequest request config = Inr sale"
    and "issue_receipt tbl (logged port) config request (logged_hook hook) ((s, []), initial_locals) = (r, (s', cmds), l)"
  shows "(\<forall>res. r = Fulfilled res \<longrightarrow> cmds = sale_script config request sale) \<and>
    (\<forall>e. r = Rejected e \<longrightarrow> (\<exists>rest. sale_script config request sale = cmds @ rest) \<or>
      (\<exists>part rest. sale_script config request sale = part @ rest \<and> length part \<le> length (saleLines sale) + 2 \<and>
        cmds = part @ [(COMMAND_CANCEL_RECEIPT, [])]))"
proof -
  let ?script = "sale_script config request sale" and ?n = "length (saleLines sale)"
  have body: "runs (at_log [] False) (catch (receipt_body tbl (logged port) config request sale (logged_hook hook)) (receipt_failed (logged port)))
     (\<lambda>_ p. snd (fst p) = ?script) (\<lambda>_ p. log_final ?script ?n (snd (fst p)))"
    by (rule runs_catch [OF log_body]) (rule log_failed)
  have at: "at_log [] False ((s, []), initial_locals)" by (simp add: initial_locals_def)
  have run: "catch (receipt_body tbl (logged port) config request sale (logged_hook hook)) (receipt_failed (logged port))
      ((s, []), initial_locals) = (r, (s', cmds), l)"
    using assms(2) by (simp add: issue_receipt_def config_res_def assms(1))
  show ?thesis using runsD [OF body at run] unfolding log_final_def fst_conv snd_conv .
qed

text \<open>A port with a list of prepared replies.\<close>

definition scripted_port :: "DatecsFiscalResponse list fiscal_port" where
  "scripted_port = (let next = (\<lambda>rs. case rs of [] \<Rightarrow> (Rejected (OutcomeUnknown NotConfirmed), [])
       | r # rs' \<Rightarrow> (Fulfilled r, rs'))
     in \<lparr>port_execute = (\<lambda>c d. next), port_markOutcomeUnknown = (\<lambda>c. resolve ()), port_synchronize = next\<rparr>)"

definition scripted_reply :: "bool \<Rightarrow> string \<Rightarrow> DatecsFiscalResponse" where
  "scripted_reply isOpen text = \<lparr>command = 0x4a, data = map of_char text, sequence = 0x20,
     status = [0x80, 0x80, if isOpen then 0x88 else 0x80, 0x80, 0x86, 0x9a]\<rparr>"

definition sample_replies :: "DatecsFiscalResponse list" where
  "sample_replies = [scripted_reply False [],
     scripted_reply False ''0,2,EUR,01111000,0.00,20.00,9.00,0.00,0.00,0.00,0.00,0.00'',
     scripted_reply True [], scripted_reply True [], scripted_reply True ''R0.50'',
     scripted_reply False ''1,1'', scripted_reply False ''123,DT000600-OP01-0001000'']"

definition sample_sale_run :: "(fiscal_error, DatecsFiscalCashSaleResult) promise \<times>
    (DatecsFiscalResponse list \<times> (int \<times> u8 list) list) \<times> sale_locals" where
  "sample_sale_run = issue_receipt (\<lambda>_. []) (logged scripted_port) sample_config sample_request (logged_hook None)
     ((sample_replies, []), initial_locals)"

lemma sample_sale_succeeds:
  "fst sample_sale_run = Fulfilled \<lparr>changeEur = js ''0.50'', fiscalDocumentNumber = js ''123'',
     fiscalReceiptsSinceDailyReport = js ''1'', resultUniqueSaleId = js ''DT000600-OP01-0001000''\<rparr>"
  by code_simp

theorem sale_command_order_witness:
  "\<exists>res. fst sample_sale_run = Fulfilled res \<and>
     map fst (snd (fst (snd sample_sale_run))) = [0x53, 0x30, 0x31, 0x35, 0x38, 0x30]"
proof -
  obtain r s' cmds l where run: "sample_sale_run = (r, (s', cmds), l)" by (metis prod.exhaust)
  have "r = fst sample_sale_run" by (simp add: run)
  then obtain res where res: "r = Fulfilled res" using sample_sale_succeeds by metis
  have "cmds = sale_script sample_config sample_request
      \<lparr>cashTenderedCents = 200, changeCents = 50, saleLines = [(map of_char ''Tea'' @ [9] @ map of_char ''B1.5*1'', 150)]\<rparr>"
    using sale_command_order [OF sample_valid run [unfolded sample_sale_run_def]] res by blast
  then show ?thesis unfolding run res by (simp add: sale_script_def sale_commands)
qed

section \<open>Validated requests\<close>

text \<open>The exact bounds of a line: what its price, quantity and discount say.\<close>

definition line_reconciles :: "DatecsFiscalSaleLine \<Rightarrow> int \<Rightarrow> bool" where
  "line_reconciles line grossCents \<longleftrightarrow>
     (\<exists>price qty discount. parseDecimal 4 (unitPriceEur line) = Inr price \<and> parseDecimal 3 (quantity line) = Inr qty \<and>
        parseCents (case discountEur line of None \<Rightarrow> [48] | Some d \<Rightarrow> d) = Inr discount \<and>
        0 < coefficient price \<and> 0 < coefficient qty \<and> 0 \<le> discount \<and>
        grossCents = multiplyToCents price qty - discount \<and> 0 \<le> grossCents)"

lemma parseDecimal_nonneg: "parseDecimal m s = Inr v \<Longrightarrow> 0 \<le> coefficient v"
  by (auto simp: parseDecimal_def split: option.splits if_splits)

lemma parseCents_nonneg: "parseCents s = Inr c \<Longrightarrow> 0 \<le> c"
  by (auto simp: parseCents_def dest!: parseDecimal_nonneg)

lemma low_byte_decodes: "b < 0x20 \<Longrightarrow> decode_byte b = unat b"
  by (simp add: decode_byte_def cp1251_def nth_append word_less_nat_alt)

lemma encoded_supported:
  assumes "encodeDatecsWindows1251 s = Inr bs" and "list_all (\<lambda>c. 0x20 \<le> c) s"
  shows "\<not> list_ex unsupported bs"
proof
  assume "list_ex unsupported bs"
  then obtain b where b: "b \<in> set bs" "b < 0x20" by (auto simp: list_ex_iff unsupported_def)
  from assms(1) have "s = map decode_byte bs" by (simp add: encode_iff_decode decode_map)
  then have "decode_byte b \<in> set s" using b(1) by simp
  with assms(2) have "0x20 \<le> unat b" by (auto simp: list_all_iff low_byte_decodes [OF b(2)])
  with b(2) show False by (simp add: word_less_nat_alt)
qed

lemma name_supported:
  assumes "splitDescription s = Inr (a, b)"
  shows "\<not> list_ex unsupported (a @ (case b of None \<Rightarrow> [] | Some c \<Rightarrow> c)) \<and>
    length (a @ (case b of None \<Rightarrow> [] | Some c \<Rightarrow> c)) \<le> 84"
proof -
  from assms obtain bs where p: "printable_name s" and e: "encodeDatecsWindows1251 s = Inr bs" and l: "length bs \<le> 84"
    and ab: "(a, b) = (if length bs \<le> 42 then (bs, None) else (slice bs 0 42, Some (slice_from bs 42)))"
    by (auto simp: splitDescription_def encodeDatecsWindows1251_def not_less split: if_splits)
  have "a @ (case b of None \<Rightarrow> [] | Some c \<Rightarrow> c) = bs"
    using ab by (auto simp: slice_def slice_from_def slice_index_def split: if_splits)
  moreover have "list_all (\<lambda>c. 0x20 \<le> c) s" using p by (fastforce simp: printable_name_def list_all_iff)
  ultimately show ?thesis using encoded_supported [OF e] l by simp
qed

lemma digits_printable: "is_digit c \<Longrightarrow> 0x20 \<le> c"
  by (simp add: is_digit_def)

lemma formatDecimal_printable: "0 \<le> coefficient v \<Longrightarrow> list_all (\<lambda>c. 0x20 \<le> c) (formatDecimal v)"
  by (rule formatDecimal_parts) (auto simp: list_all_iff dest!: decimal_match_digits digits_printable)

lemma formatCents_printable: "0 \<le> c \<Longrightarrow> list_all (\<lambda>c. 0x20 \<le> c) (formatCents c)"
  using cents_text(1) [of c] by (auto simp: formatCents_def list_all_iff dest!: decimal_match_digits digits_printable)

lemma unit_printable:
  assumes "encodeDatecsWindows1251 s = Inr bs" and "unit_bytes_ok bs"
  shows "list_all (\<lambda>c. 0x20 \<le> c) s"
proof -
  have "0x20 \<le> decode_byte b" if "b \<in> set bs" for b
  proof -
    have b: "\<not> b < 0x21" "\<not> b > 0x7e" using assms(2) that by (auto simp: unit_bytes_ok_def list_all_iff)
    then have "decode_byte b = unat b" by (simp add: decode_byte_def cp1251_def nth_append word_less_nat_alt)
    with b(1) show ?thesis by (simp add: word_less_nat_alt)
  qed
  with assms(1) show ?thesis by (auto simp: encode_iff_decode decode_map list_all_iff)
qed

lemma check_groups_format:
  "check_tax_groups cfg m = Inr m' \<Longrightarrow> (t, st) \<in> set cfg \<Longrightarrow> group_format (tg_group st)"
  by (induction cfg m rule: check_tax_groups.induct) (auto split: if_splits)

lemma group_printable: "group_format s \<Longrightarrow> list_all (\<lambda>c. 0x20 \<le> c) s"
  by (cases s) (auto simp: group_format_def)

lemma validate_line_parts:
  assumes "validate_line cfg line = Inr (dat, g)" and "\<And>t st. (t, st) \<in> set cfg \<Longrightarrow> group_format (tg_group st)"
  shows "line_reconciles line g \<and> \<not> list_ex unsupported dat"
proof -
  obtain price qty discount a b ub rest st where
    p: "parseDecimal 4 (unitPriceEur line) = Inr price" "parseDecimal 3 (quantity line) = Inr qty"
      "parseCents (case discountEur line of None \<Rightarrow> [48] | Some d \<Rightarrow> d) = Inr discount"
      "0 < coefficient price" "0 < coefficient qty" "discount \<le> multiplyToCents price qty"
      "g = multiplyToCents price qty - discount" and
    d: "splitDescription (description line) = Inr (a, b)" and
    u: "encodeDatecsWindows1251 (case unitCode line of None \<Rightarrow> [] | Some u \<Rightarrow> u) = Inr ub" "unit_bytes_ok ub" and
    st: "map_of cfg (vatTreatment line) = Some st" and
    e: "encodeDatecsWindows1251 (tg_group st @ formatDecimal price @ ([42] @ formatDecimal qty) @
          (if ub \<noteq> [] then [35] @ (case unitCode line of None \<Rightarrow> [] | Some u \<Rightarrow> u) else []) @
          (if discount > 0 then [59] @ formatCents discount else [])) = Inr rest" and
    dat: "dat = (case b of Some sec \<Rightarrow> concatBytes [a, [0x0a], sec, [0x09]] | None \<Rightarrow> concatBytes [a, [0x09]]) @ rest"
    using assms(1) unfolding validate_line_def Let_def
    by (auto simp: not_less not_le concatBytes_def split: if_splits option.splits)
  have nn: "0 \<le> discount" using parseCents_nonneg [OF p(3)] .
  have "group_format (tg_group st)" using assms(2) st by (blast dest: map_of_SomeD)
  then have "\<not> list_ex unsupported rest"
    using encoded_supported [OF e] unit_printable [OF u] group_printable formatDecimal_printable [of price]
      formatDecimal_printable [of qty] formatCents_printable [OF nn] p(4,5) by auto
  moreover have "\<not> unsupported 0x0a" "\<not> unsupported 0x09" by (simp_all add: unsupported_def)
  ultimately have "\<not> list_ex unsupported dat"
    using name_supported [OF d] by (cases b) (auto simp: dat concatBytes_def)
  moreover have "line_reconciles line g" unfolding line_reconciles_def using p nn by auto
  ultimately show ?thesis by simp
qed

lemma foldl_sum: "foldl (\<lambda>sum line. sum + snd line) a ls = a + (\<Sum>l\<leftarrow>ls. snd l)" for a :: int
  by (induction ls arbitrary: a) simp_all

text \<open>
  C34: A request that passes validation reconciles: every line's total is its price times its
  quantity, rounded to cents, less its discount; the line totals add up to the positive sale
  total; the change is the tendered cash less that total and is not negative; and no line's
  command data holds a control byte that the command encoder refuses.
\<close>

theorem validated_sale_reconciles:
  assumes "validateSaleRequest request config = Inr sale"
  shows "list_all2 (\<lambda>line l. line_reconciles line (snd l) \<and> \<not> list_ex unsupported (fst l)) (lines request) (saleLines sale) \<and>
    parseCents (totalGrossEur request) = Inr (\<Sum>l\<leftarrow>saleLines sale. snd l) \<and> 0 < (\<Sum>l\<leftarrow>saleLines sale. snd l) \<and>
    parseCents (cashTenderedEur request) = Inr (cashTenderedCents sale) \<and>
    changeCents sale = cashTenderedCents sale - (\<Sum>l\<leftarrow>saleLines sale. snd l) \<and> 0 \<le> changeCents sale \<and>
    unp_format (uniqueSaleId request) \<and> 1 \<le> length (lines request) \<and> length (lines request) \<le> 512"
proof -
  obtain total tendered m lns where v: "unp_format (uniqueSaleId request)"
    "parseCents (totalGrossEur request) = Inr total" "parseCents (cashTenderedEur request) = Inr tendered"
    "0 < total" "total \<le> tendered" "lines request \<noteq> []" "length (lines request) \<le> 512"
    "check_tax_groups (taxGroups config) Map.empty = Inr m"
    "res_map (validate_line (taxGroups config)) (lines request) = Inr lns"
    "(\<Sum>l\<leftarrow>lns. snd l) = total"
    "sale = \<lparr>cashTenderedCents = tendered, changeCents = tendered - total, saleLines = lns\<rparr>"
    using assms by (auto simp: validateSaleRequest_def foldl_sum not_less not_le split: if_splits)
  have "list_all2 (\<lambda>line l. line_reconciles line (snd l) \<and> \<not> list_ex unsupported (fst l)) (lines request) lns"
    using v(9) check_groups_format [OF v(8)] unfolding res_map_Inr_iff
    by (elim list_all2_mono) (metis prod.collapse validate_line_parts)
  moreover have "1 \<le> length (lines request)" using v(6) by (cases "lines request") auto
  ultimately show ?thesis using v by simp
qed

theorem validated_sale_reconciles_witness:
  "list_all2 (\<lambda>line l. line_reconciles line (snd l) \<and> \<not> list_ex unsupported (fst l)) (lines sample_request)
     [(map of_char ''Tea'' @ [9] @ map of_char ''B1.5*1'', 150)]"
  using validated_sale_reconciles [OF sample_valid] by simp

end
