(* ===== verification/FiscalReturn.thy ===== *)
theory FiscalReturn
  imports FiscalSale
begin

text \<open>
  \<open>apps/pos-web/src/fiscal/datecs-fiscal-return.ts\<close> and \<open>datecs-fiscal-report.ts\<close>: the full
  receipt storno and the daily X and Z reports, on the same command port as the sale. Both fail
  closed: once the command may have reached the printer, an error that is not a rejection of the
  frame leaves the outcome recorded as unknown.
\<close>

unbundle bit_operations_syntax

section \<open>Printer status\<close>

definition receiptIsOpen :: "u8 list \<Rightarrow> bool" where
  "receiptIsOpen st \<longleftrightarrow> status_bits st 2 0x08 \<noteq> 0"

definition assertPrinterReady :: "DatecsFiscalResponse \<Rightarrow> config_problem + unit" where
  "assertPrinterReady response =
     (let st = status response in
      if health_errors st \<noteq> [] then Inl (PrinterReported (health_errors st))
      else if status_bits st 4 0x06 \<noteq> 0x06 \<or> status_bits st 5 0x1a \<noteq> 0x1a then Inl NotRegistered
      else if receiptIsOpen st \<or> status_bits st 2 0x20 \<noteq> 0 then Inl ReceiptAlreadyOpen
      else Inr ())"

definition assertFiscalPrinterReady :: "DatecsFiscalResponse \<Rightarrow> config_problem + unit" where
  "assertFiscalPrinterReady response =
     (let st = status response in
      if health_errors st \<noteq> [] then Inl (PrinterReported (health_errors st))
      else if status_bits st 4 0x06 \<noteq> 0x06 \<or> status_bits st 5 0x1a \<noteq> 0x1a then Inl NotRegistered
      else if status_bits st 2 0x28 \<noteq> 0 then Inl ReceiptAlreadyOpen
      else Inr ())"

section \<open>Returns\<close>

definition COMMAND_STORNO_RECEIPT :: int where "COMMAND_STORNO_RECEIPT = 0x2e"

record DatecsFiscalFullReturnRequest =
  originalFiscalDocumentNumber :: jsstr
  originalUniqueSaleId :: jsstr
  reason :: jsstr
  uniqueReversalId :: jsstr

record DatecsFiscalReturnResult =
  rr_fiscalDocumentNumber :: jsstr
  rr_fiscalReversalsSinceDailyReport :: jsstr
  rr_originalUniqueSaleId :: jsstr
  rr_uniqueReversalId :: jsstr

text \<open>The configuration is the part of the sale's configuration without the tax groups.\<close>

definition validateRequest :: "DatecsFiscalFullReturnRequest \<Rightarrow> DatecsFiscalSaleConfiguration \<Rightarrow> config_problem + unit" where
  "validateRequest request config =
     (if \<not> unp_format (uniqueReversalId request) then Inl ReversalIdFormat
      else if \<not> unp_format (originalUniqueSaleId request) then Inl OriginalIdFormat
      else if \<not> rx [(is_digit, 1, 10)] (originalFiscalDocumentNumber request) then Inl OriginalNumber
      else if \<not> isIntegerIn (operatorNumber config) 1 16 then Inl OperatorNumber
      else if \<not> rx [(is_digit, 4, 8)] (operatorPassword config) then Inl OperatorPassword
      else if \<not> isIntegerIn (registerLocationNumber config) 1 99999 then Inl RegisterNumber
      else
        res_bind (encodeDatecsWindows1251 (reason request)) (\<lambda>bytes.
        if trim (reason request) = [] \<or> length bytes > 30 \<or> 44 \<in> set (reason request) \<or>
           35 \<in> set (reason request) \<or> list_ex (\<lambda>b. b < 0x20 \<or> b = 0x7f) bytes
        then Inl ReturnReason
        else Inr ()))"

definition parseStornoCounts :: "u8 list \<Rightarrow> config_problem + jsstr" where
  "parseStornoCounts dat = (case split_on 44 (decodeDatecsWindows1251 dat) of
       allReceipts # stornoReceipts # _ \<Rightarrow>
         if \<not> rx [(is_digit, 1, 4)] (trim allReceipts) \<or> \<not> rx [(is_digit, 1, 4)] (trim stornoReceipts)
         then Inl ReceiptCounters
         else Inr (trim stornoReceipts)
     | _ \<Rightarrow> Inl ReceiptCounters)"

definition parseLastStornoDocument :: "u8 list \<Rightarrow> config_problem + jsstr \<times> jsstr" where
  "parseLastStornoDocument dat = (case split_on 44 (decodeDatecsWindows1251 dat) of
       documentNumber # reversalId # _ \<Rightarrow>
         if \<not> rx [(is_digit, 1, 10)] (trim documentNumber) \<or> \<not> unp_format (trim reversalId) then Inl LastDocument
         else Inr (trim documentNumber, trim reversalId)
     | _ \<Rightarrow> Inl LastDocument)"

definition storno_text :: "DatecsFiscalSaleConfiguration \<Rightarrow> DatecsFiscalFullReturnRequest \<Rightarrow> jsstr" where
  "storno_text config request =
     bigint_toString (int_of (operatorNumber config)) @ [44] @ operatorPassword config @ [44] @
     bigint_toString (int_of (registerLocationNumber config)) @ [44] @ uniqueReversalId request @ [44] @
     [82] @ originalFiscalDocumentNumber request @ [35] @ reason request"

text \<open>The local variable \<open>command\<close> is the second part of the state.\<close>

definition storno_body :: "'s fiscal_port \<Rightarrow> DatecsFiscalSaleConfiguration \<Rightarrow> DatecsFiscalFullReturnRequest \<Rightarrow>
    ('s \<times> int, fiscal_error, DatecsFiscalReturnResult) async" where
  "storno_body port config request =
     await (config_res (encodeDatecsWindows1251 (storno_text config request))) (\<lambda>payload.
     await (exec port COMMAND_STORNO_RECEIPT payload) (\<lambda>response.
     await (config_res (assertPrinterReady response)) (\<lambda>_.
     if receiptIsOpen (status response) then unconfirmed port COMMAND_STORNO_RECEIPT
     else
       await (config_res (parseStornoCounts (data response))) (\<lambda>stornoReceiptCount.
       await (writes (\<lambda>(s, _). (s, COMMAND_OPEN_RECEIPT))) (\<lambda>_.
       await (config_res (encodeDatecsWindows1251 [42])) (\<lambda>star.
       await (exec port COMMAND_OPEN_RECEIPT star) (\<lambda>last.
       await (config_res (assertPrinterReady last)) (\<lambda>_.
       await (config_res (parseLastStornoDocument (data last))) (\<lambda>document.
       if fst document = originalFiscalDocumentNumber request \<or> snd document \<noteq> uniqueReversalId request
       then unconfirmed port COMMAND_OPEN_RECEIPT
       else resolve \<lparr>rr_fiscalDocumentNumber = fst document,
              rr_fiscalReversalsSinceDailyReport = stornoReceiptCount,
              rr_originalUniqueSaleId = originalUniqueSaleId request,
              rr_uniqueReversalId = snd document\<rparr>)))))))))"

definition storno_failed :: "'s fiscal_port \<Rightarrow> fiscal_error \<Rightarrow> ('s \<times> int, fiscal_error, 'a) async" where
  "storno_failed port e =
     (if is_outcome_unknown e \<or> is_protocol_rejected e then throw e
      else await (reads snd) (\<lambda>command. unconfirmed port command))"

definition storno_attempt :: "'s fiscal_port \<Rightarrow> DatecsFiscalSaleConfiguration \<Rightarrow> DatecsFiscalFullReturnRequest \<Rightarrow>
    ('s \<times> int, fiscal_error, DatecsFiscalReturnResult) async" where
  "storno_attempt port config request = catch (storno_body port config request) (storno_failed port)"

definition issueFullReceiptStorno :: "'s fiscal_port \<Rightarrow> DatecsFiscalSaleConfiguration \<Rightarrow> DatecsFiscalFullReturnRequest \<Rightarrow>
    ('s, nat, unit) async option \<Rightarrow> ('s \<times> int, fiscal_error, DatecsFiscalReturnResult) async" where
  "issueFullReceiptStorno port config request beforeStorno =
     await (config_res (validateRequest request config)) (\<lambda>_.
     await (writes (\<lambda>(s, _). (s, COMMAND_STORNO_RECEIPT))) (\<lambda>_.
     await (lift_port (port_synchronize port)) (\<lambda>rdy.
     await (config_res (assertPrinterReady rdy)) (\<lambda>_.
     await (lift_hook beforeStorno) (\<lambda>_.
     storno_attempt port config request)))))"

definition inspectLastStorno :: "'s fiscal_port \<Rightarrow> jsstr \<Rightarrow> ('s \<times> 'l, fiscal_error, jsstr \<times> jsstr) async" where
  "inspectLastStorno port reversalId =
     await (lift_port (port_synchronize port)) (\<lambda>st.
     await (config_res (assertPrinterReady st)) (\<lambda>_.
     await (config_res (encodeDatecsWindows1251 [42])) (\<lambda>star.
     await (exec port COMMAND_OPEN_RECEIPT star) (\<lambda>response.
     await (config_res (assertPrinterReady response)) (\<lambda>_.
     await (config_res (parseLastStornoDocument (data response))) (\<lambda>document.
     if snd document \<noteq> reversalId then throw (Unconfirmed None) else resolve document))))))"

section \<open>Daily reports\<close>

definition COMMAND_DAILY_REPORT :: int where "COMMAND_DAILY_REPORT = 0x45"

datatype DatecsDailyReportType = XReport | ZReport

record DatecsDailyReportResult =
  fiscalRecordNumber :: jsstr
  nonVatSalesTotal :: jsstr
  taxGroupTotals :: "(nat \<times> jsstr) list"
  reportType :: DatecsDailyReportType

text \<open>The letters A to H.\<close>

definition TAX_GROUPS :: "nat list" where "TAX_GROUPS = js ''ABCDEFGH''"

text \<open>\<open>/^-?\d{1,12}(?:\.\d{1,2})?$/u\<close>\<close>

definition isPrinterAmount :: "jsstr \<Rightarrow> bool" where
  "isPrinterAmount value \<longleftrightarrow>
     rx [(\<lambda>c. c = 45, 0, 1), (is_digit, 1, 12)] value \<or>
     rx [(\<lambda>c. c = 45, 0, 1), (is_digit, 1, 12), lit 46, (is_digit, 1, 2)] value"

definition parseReportResponse :: "u8 list \<Rightarrow> DatecsDailyReportType \<Rightarrow> config_problem + DatecsDailyReportResult" where
  "parseReportResponse dat type =
     (let values = map trim (split_on 44 (trim (decodeDatecsWindows1251 dat))) in
      if length values \<noteq> 10 \<or> list_ex (\<lambda>v. \<not> isPrinterAmount v) values then Inl ReportSummary
      else if \<not> rx [(is_digit, 1, 4)] (values ! 0) then Inl ReportNumber
      else Inr \<lparr>fiscalRecordNumber = values ! 0, nonVatSalesTotal = values ! 1,
             taxGroupTotals = zip TAX_GROUPS (drop 2 values), reportType = type\<rparr>)"

text \<open>The local variable \<open>commandAttempted\<close> is the second part of the state.\<close>

definition report_body :: "'s fiscal_port \<Rightarrow> DatecsDailyReportType \<Rightarrow> ('s, nat, unit) async option \<Rightarrow>
    ('s \<times> bool, fiscal_error, DatecsDailyReportResult) async" where
  "report_body port type beforePrint =
     await (lift_port (port_synchronize port)) (\<lambda>rdy.
     await (config_res (assertFiscalPrinterReady rdy)) (\<lambda>_.
     await (lift_hook beforePrint) (\<lambda>_.
     await (writes (\<lambda>(s, _). (s, True))) (\<lambda>_.
     await (config_res (encodeDatecsWindows1251 (case type of XReport \<Rightarrow> js ''2'' | ZReport \<Rightarrow> js ''0''))) (\<lambda>bytes.
     await (exec port COMMAND_DAILY_REPORT bytes) (\<lambda>response.
     await (config_res (assertFiscalPrinterReady response)) (\<lambda>_.
     config_res (parseReportResponse (data response) type))))))))"

definition report_failed :: "'s fiscal_port \<Rightarrow> fiscal_error \<Rightarrow> ('s \<times> bool, fiscal_error, 'a) async" where
  "report_failed port e =
     await (reads snd) (\<lambda>commandAttempted.
     if \<not> commandAttempted then throw e
     else if is_protocol_rejected e then throw e
     else if is_outcome_unknown e then throw (with_command_code COMMAND_DAILY_REPORT e)
     else unconfirmed port COMMAND_DAILY_REPORT)"

definition issueReport :: "'s fiscal_port \<Rightarrow> DatecsDailyReportType \<Rightarrow> ('s, nat, unit) async option \<Rightarrow>
    ('s \<times> bool, fiscal_error, DatecsDailyReportResult) async" where
  "issueReport port type beforePrint =
     await (writes (\<lambda>(s, _). (s, False))) (\<lambda>_.
     catch (report_body port type beforePrint) (report_failed port))"

definition issueXReport :: "'s fiscal_port \<Rightarrow> ('s, nat, unit) async option \<Rightarrow>
    ('s \<times> bool, fiscal_error, DatecsDailyReportResult) async" where
  "issueXReport port beforePrint = issueReport port XReport beforePrint"

definition issueZReport :: "'s fiscal_port \<Rightarrow> ('s, nat, unit) async option \<Rightarrow>
    ('s \<times> bool, fiscal_error, DatecsDailyReportResult) async" where
  "issueZReport port beforePrint = issueReport port ZReport beforePrint"

section \<open>Both fail closed\<close>

text \<open>The errors after which the register may go on, and those after which it is closed.\<close>

definition closed_error :: "('s \<Rightarrow> bool) \<Rightarrow> ('s \<Rightarrow> bool) \<Rightarrow> ('s \<Rightarrow> bool) \<Rightarrow> fiscal_error \<Rightarrow> 's \<Rightarrow> bool" where
  "closed_error ready safe shut e s \<longleftrightarrow> is_protocol_rejected e \<and> ready s \<or> is_outcome_unknown e \<and> safe s \<or>
     e = PortError LockPersistence None \<and> shut s"

context fiscal_port_laws
begin

lemma step_command_write: "runs at_ready (writes (\<lambda>(s, _). (s, x))) (\<lambda>_. at_ready) at_failing"
  by (rule runs_writes) auto

lemma storno_body_runs:
  "runs at_ready (storno_body port config request)
     (\<lambda>r p. ready (fst p) \<and> rr_uniqueReversalId r = uniqueReversalId request \<and>
        rr_originalUniqueSaleId r = originalUniqueSaleId request \<and>
        rr_fiscalDocumentNumber r \<noteq> originalFiscalDocumentNumber request) at_failing"
  unfolding storno_body_def
  by (rule runs_await runs_if steps step_command_write | rule runs_resolve, force)+

lemma unconfirmed_closed:
  "runs (\<lambda>p. failing e0 (fst p)) (unconfirmed port c) Q (\<lambda>e p. closed_error ready safe shut e (fst p))"
  by (rule runs_weaken [OF unconfirmed_runs [of "\<lambda>_. True"]]) (auto simp: failing_with_def closed_error_def)

lemma storno_runs:
  "runs at_ready (storno_attempt port config request)
     (\<lambda>r p. ready (fst p) \<and> rr_uniqueReversalId r = uniqueReversalId request \<and>
        rr_originalUniqueSaleId r = originalUniqueSaleId request \<and>
        rr_fiscalDocumentNumber r \<noteq> originalFiscalDocumentNumber request)
     (\<lambda>e p. closed_error ready safe shut e (fst p))"
  unfolding storno_attempt_def
proof (rule runs_catch [OF storno_body_runs])
  fix e
  have rd: "runs (at_failing e) (reads snd) (\<lambda>_. at_failing e) (\<lambda>e' p. closed_error ready safe shut e' (fst p))"
    by (rule runs_reads)
  show "runs (at_failing e) (storno_failed port e) Q (\<lambda>e' p. closed_error ready safe shut e' (fst p))" for Q
    unfolding storno_failed_def
    by (rule runs_if, rule runs_throw, force simp: failing_with_def closed_error_def)
      (rule runs_await [OF rd unconfirmed_closed])
qed

text \<open>Before the command is attempted an error is reported as it is.\<close>

abbreviation attempt_error :: "fiscal_error \<Rightarrow> 's \<times> bool \<Rightarrow> bool" where
  "attempt_error \<equiv> (\<lambda>e p. snd p \<longrightarrow> failing e (fst p))"

lemma report_body_runs:
  assumes "hook_keeps ready hook"
  shows "runs (\<lambda>p. ok (fst p) \<and> \<not> snd p) (report_body port type hook)
     (\<lambda>r p. ready (fst p) \<and> (\<exists>dat. parseReportResponse dat type = Inr r)) attempt_error"
proof -
  let ?L = "\<lambda>b :: bool. \<not> b"
  have sync: "runs (\<lambda>p. ok (fst p) \<and> ?L (snd p)) (lift_port (port_synchronize port))
      (\<lambda>_ p. ready (fst p) \<and> ?L (snd p)) attempt_error"
    by (rule runs_weaken [OF lift_runs [OF sync_law, of ?L]]) auto
  have conf: "runs (\<lambda>p. ready (fst p) \<and> ?L (snd p)) (config_res r) (\<lambda>_ p. ready (fst p) \<and> ?L (snd p)) attempt_error"
    for r :: "config_problem + unit"
    by (rule runs_weaken [OF config_runs [of ?L]]) auto
  have hk: "runs (\<lambda>p. ready (fst p) \<and> ?L (snd p)) (lift_hook hook) (\<lambda>_ p. ready (fst p) \<and> ?L (snd p)) attempt_error"
    by (rule runs_weaken [OF hook_runs [OF assms, of ?L]]) auto
  have wr: "runs (\<lambda>p. ready (fst p) \<and> ?L (snd p)) (writes (\<lambda>(s, _). (s, True))) (\<lambda>_. at_ready) attempt_error"
    by (rule runs_writes) auto
  have weak: "runs at_ready m Q at_failing \<Longrightarrow> runs at_ready m Q attempt_error" for m Q
    by (erule runs_weaken) auto
  have last: "runs at_ready (config_res (parseReportResponse dat type))
      (\<lambda>r p. ready (fst p) \<and> (\<exists>dat. parseReportResponse dat type = Inr r)) attempt_error" for dat
    by (rule runs_weaken [OF config_runs [of "\<lambda>_. True"]]) auto
  show ?thesis unfolding report_body_def
    by (rule runs_await sync conf hk wr last weak [OF step_config] weak [OF step_exec])+
qed

lemma report_runs:
  assumes "hook_keeps ready hook"
  shows "runs (\<lambda>p. ok (fst p)) (issueReport port type hook)
     (\<lambda>r p. ready (fst p) \<and> (\<exists>dat. parseReportResponse dat type = Inr r))
     (\<lambda>e p. snd p \<longrightarrow> closed_error ready safe shut e (fst p))"
proof -
  let ?E = "\<lambda>e p. snd p \<longrightarrow> closed_error ready safe shut e (fst p)"
  have init: "runs (\<lambda>p. ok (fst p)) (writes (\<lambda>(s, _). (s, False))) (\<lambda>_ p. ok (fst p) \<and> \<not> snd p) ?E"
    by (rule runs_writes) auto
  have fail: "runs (attempt_error e) (report_failed port e) Q ?E" for e Q
    unfolding report_failed_def
  proof (rule runs_await)
    show "runs (attempt_error e) (reads snd) (\<lambda>b p. snd p = b \<and> (b \<longrightarrow> failing e (fst p))) ?E"
      by (rule runs_reads) simp
    have un: "runs (\<lambda>p. snd p = b \<and> (b \<longrightarrow> failing e (fst p))) (unconfirmed port c) Q ?E" if b for b c
      by (rule runs_weaken [OF unconfirmed_closed [of e c]]) (use that in auto)
    show "runs (\<lambda>p. snd p = b \<and> (b \<longrightarrow> failing e (fst p)))
        (if \<not> b then throw e else if is_protocol_rejected e then throw e
         else if is_outcome_unknown e then throw (with_command_code COMMAND_DAILY_REPORT e)
         else unconfirmed port COMMAND_DAILY_REPORT) Q ?E" for b
      by (intro runs_if runs_throw un) (auto simp: failing_with_def closed_error_def)
  qed
  show ?thesis unfolding issueReport_def
    by (rule runs_await [OF init]) (rule runs_catch [OF report_body_runs [OF assms] fail])
qed

end

text \<open>
  C33: Once a storno was attempted on a ready client, it ends in one of four ways: the printer
  confirmed a new document with this reversal number; the printer rejected a frame; the outcome
  is recorded as unknown and the client closed; or the failure to record it is reported and the
  client closed.
\<close>

theorem storno_fails_closed:
  assumes "client_ready opt s" and "storno_attempt (client_port env opt fuel) config request (s, c) = (r, s', c')"
  shows "(\<forall>res. r = Fulfilled res \<longrightarrow> client_ready opt s' \<and> rr_uniqueReversalId res = uniqueReversalId request \<and>
       rr_originalUniqueSaleId res = originalUniqueSaleId request \<and>
       rr_fiscalDocumentNumber res \<noteq> originalFiscalDocumentNumber request) \<and>
    (\<forall>e. r = Rejected e \<longrightarrow> closed_error (client_ready opt) (client_safe opt) outcomeUnknown e s')"
proof -
  have pre: "client_ready opt (fst (s, c))" using assms(1) by simp
  show ?thesis using runsD [OF printer.storno_runs pre assms(2)] unfolding fst_conv snd_conv .
qed

lemma zip_groups: "length vs = 8 \<Longrightarrow> map fst (zip TAX_GROUPS vs) = TAX_GROUPS \<and> map snd (zip TAX_GROUPS vs) = vs"
  by (simp add: TAX_GROUPS_def)

lemma report_shape:
  assumes "parseReportResponse dat type = Inr res"
  shows "reportType res = type \<and> map fst (taxGroupTotals res) = TAX_GROUPS \<and>
    list_all isPrinterAmount (map snd (taxGroupTotals res)) \<and> isPrinterAmount (nonVatSalesTotal res)"
proof -
  let ?vs = "map trim (split_on 44 (trim (decodeDatecsWindows1251 dat)))"
  from assms have vs: "length ?vs = 10" "list_all isPrinterAmount ?vs" "taxGroupTotals res = zip TAX_GROUPS (drop 2 ?vs)"
      "nonVatSalesTotal res = ?vs ! 1" "reportType res = type"
    by (auto simp: parseReportResponse_def Let_def list_ex_iff list_all_iff split: if_splits)
  have "list_all isPrinterAmount (drop 2 ?vs)" using vs(2) by (metis list_all_append append_take_drop_id)
  moreover have "isPrinterAmount (?vs ! 1)" using vs(1,2) by (simp only: list_all_length)
  ultimately show ?thesis using vs zip_groups [of "drop 2 ?vs"] by simp
qed

text \<open>
  C40: A daily report that succeeds returns one well-formed total per tax group for the type
  that was asked. If it fails after the command was attempted, the frame was rejected, or the
  outcome is recorded as unknown, or the failure to record it is reported; in the last two
  cases the client is closed.
\<close>

theorem report_fails_closed:
  assumes "client_ok s" and "0 < maxAttempts opt" and "hook_keeps (client_ready opt) hook"
    and "issueReport (client_port env opt fuel) type hook (s, b) = (r, s', attempted)"
  shows "(\<forall>res. r = Fulfilled res \<longrightarrow> client_ready opt s' \<and> reportType res = type \<and>
       map fst (taxGroupTotals res) = TAX_GROUPS \<and> list_all isPrinterAmount (map snd (taxGroupTotals res))) \<and>
    (\<forall>e. r = Rejected e \<longrightarrow> attempted \<longrightarrow> closed_error (client_ready opt) (client_safe opt) outcomeUnknown e s')"
proof -
  have pre: "client_ok (fst (s, b)) \<and> 0 < maxAttempts opt" using assms(1,2) by simp
  show ?thesis using runsD [OF printer.report_runs [OF assms(3)] pre assms(4)] report_shape by fastforce
qed

text \<open>A return on a printer that does not answer, and a report on it.\<close>

definition sample_return :: DatecsFiscalFullReturnRequest where
  "sample_return = \<lparr>originalFiscalDocumentNumber = js ''123'', originalUniqueSaleId = js ''DT000600-OP01-0001000'',
     reason = js ''returned'', uniqueReversalId = js ''DT000600-OP01-0001001''\<rparr>"

lemma sample_client_ready: "client_ready sample_options sample_client"
  using sample_client_ok by (simp add: client_ready_def) (simp add: sample_client_def)

definition silent_storno where
  "silent_storno = storno_attempt (client_port silent_printer sample_options 3) sample_config sample_return (sample_client, 0)"

lemma silent_storno_rejected: "fst silent_storno = Rejected (PortError (OutcomeUnknown NotConfirmed) None)"
  by code_simp

theorem storno_fails_closed_witness: "client_safe sample_options (fst (snd silent_storno))"
proof -
  obtain r s' c' where run: "silent_storno = (r, s', c')" by (metis prod_cases3)
  then have r: "r = Rejected (PortError (OutcomeUnknown NotConfirmed) None)" using silent_storno_rejected by (metis fst_conv)
  from storno_fails_closed [OF sample_client_ready run [unfolded silent_storno_def]] r
  show ?thesis unfolding run by (simp add: closed_error_def is_protocol_rejected_def)
qed

definition stalled_report where
  "stalled_report = issueReport (client_port (stalling_printer 1) sample_options 3) ZReport None (sample_client, False)"

lemma stalled_report_unknown:
  "case stalled_report of (r, s, attempted) \<Rightarrow> r = Rejected (PortError (OutcomeUnknown NotConfirmed) (Some 0x45)) \<and> attempted"
  by code_simp

theorem report_fails_closed_witness:
  "closed_error (client_ready sample_options) (client_safe sample_options) outcomeUnknown
     (PortError (OutcomeUnknown NotConfirmed) (Some 0x45)) (fst (snd stalled_report))"
proof -
  have hk: "hook_keeps (client_ready sample_options) None" by (simp add: hook_keeps_def)
  obtain r s' a where run: "stalled_report = (r, s', a)" by (metis prod_cases3)
  have r: "r = Rejected (PortError (OutcomeUnknown NotConfirmed) (Some 0x45))" "a"
    using stalled_report_unknown by (simp_all add: run)
  from report_fails_closed [OF sample_client_ok hk run [unfolded stalled_report_def]] r
  show ?thesis unfolding run by simp
qed

end
