(* ===== verification/OfflineStore.thy ===== *)
theory OfflineStore
  imports IndexedDb
begin

text \<open>
  \<open>apps/pos-web/src/offline-store.ts\<close>, the rest: what a register keeps for work without a
  connection. Receipt references leased from the server, sales made offline and their
  synchronisation, cached customers, catalogues, quick access and the open basket.

  The types of the server's contracts that the store only carries are type variables, and the
  one field it reads of a sale request is an argument. The current time is an argument where
  the source makes a new date, and so are \<open>localeCompare\<close>, \<open>Date.parse\<close> and the case tables.
\<close>

section \<open>One record\<close>

datatype store_error = OfflineUnavailable | LeaseInvalid | SaleMismatch | SaleReferenceUsed
  | EarlierReceiptUnresolved | NoReferenceAvailable | ReferenceOfOtherRegister | SaleNotUpdated
  | SaleExists

definition readOne :: "bool \<Rightarrow> 'k \<Rightarrow> ('k, 'v) object_store \<Rightarrow> (store_error + 'v option) \<times> ('k, 'v) object_store" where
  "readOne available key = transaction available OfflineUnavailable (\<lambda>s. Inr (idb_get s key, s))"

definition writeOne :: "bool \<Rightarrow> ('v \<Rightarrow> 'k) \<Rightarrow> 'v \<Rightarrow> ('k :: linorder, 'v) object_store \<Rightarrow>
    (store_error + unit) \<times> ('k, 'v) object_store" where
  "writeOne available keyPath value = transaction available OfflineUnavailable (\<lambda>s. Inr ((), idb_put (keyPath value) value s))"

record 'c SavedContext =
  cx_accountId :: jsstr
  cx_context :: 'c
  cx_savedAt :: jsstr

definition saveOfflineContext :: "bool \<Rightarrow> jsstr \<Rightarrow> jsstr \<Rightarrow> 'c \<Rightarrow> (jsstr, 'c SavedContext) object_store \<Rightarrow>
    (store_error + unit) \<times> (jsstr, 'c SavedContext) object_store" where
  "saveOfflineContext available now accountId context =
     writeOne available cx_accountId \<lparr>cx_accountId = accountId, cx_context = context, cx_savedAt = now\<rparr>"

definition readOfflineContext :: "bool \<Rightarrow> jsstr \<Rightarrow> (jsstr, 'c SavedContext) object_store \<Rightarrow>
    (store_error + (jsstr \<times> 'c) option) \<times> (jsstr, 'c SavedContext) object_store" where
  "readOfflineContext available accountId s =
     (case readOne available accountId s of
        (Inl e, s') \<Rightarrow> (Inl e, s')
      | (Inr saved, s') \<Rightarrow> (Inr (map_option (\<lambda>c. (cx_savedAt c, cx_context c)) saved), s'))"

text \<open>\<open>customerPartnerId ?? 'counter'\<close>\<close>

definition cacheKey :: "jsstr \<Rightarrow> jsstr \<Rightarrow> jsstr option \<Rightarrow> jsstr" where
  "cacheKey accountId shiftId customerPartnerId =
     accountId @ [58] @ shiftId @ [58] @ (case customerPartnerId of None \<Rightarrow> js ''counter'' | Some c \<Rightarrow> c)"

record 'q SavedQuickAccess =
  qa_key :: jsstr
  qa_accountId :: jsstr
  qa_shiftId :: jsstr
  qa_customerPartnerId :: jsstr
  qa_value :: 'q
  qa_savedAt :: jsstr

definition saveOfflineQuickAccess :: "bool \<Rightarrow> jsstr \<Rightarrow> jsstr \<Rightarrow> jsstr \<Rightarrow> 'q \<Rightarrow> jsstr option \<Rightarrow>
    (jsstr, 'q SavedQuickAccess) object_store \<Rightarrow> (store_error + unit) \<times> (jsstr, 'q SavedQuickAccess) object_store" where
  "saveOfflineQuickAccess available now accountId shiftId value customerPartnerId =
     writeOne available qa_key \<lparr>qa_key = cacheKey accountId shiftId customerPartnerId, qa_accountId = accountId,
       qa_shiftId = shiftId, qa_customerPartnerId = (case customerPartnerId of None \<Rightarrow> [] | Some c \<Rightarrow> c),
       qa_value = value, qa_savedAt = now\<rparr>"

definition readOfflineQuickAccess :: "bool \<Rightarrow> jsstr \<Rightarrow> jsstr \<Rightarrow> jsstr option \<Rightarrow>
    (jsstr, 'q SavedQuickAccess) object_store \<Rightarrow> (store_error + (jsstr \<times> 'q) option) \<times> (jsstr, 'q SavedQuickAccess) object_store" where
  "readOfflineQuickAccess available accountId shiftId customerPartnerId s =
     (case readOne available (cacheKey accountId shiftId customerPartnerId) s of
        (Inl e, s') \<Rightarrow> (Inl e, s')
      | (Inr saved, s') \<Rightarrow> (Inr (map_option (\<lambda>q. (qa_savedAt q, qa_value q)) saved), s'))"

record 'i SavedBasketLine =
  bl_batchId :: "jsstr option"
  bl_item :: 'i
  bl_quantity :: jsnum
  bl_serialNumber :: "jsstr option"

record ('i, 'c) SavedBasket =
  bk_accountId :: jsstr
  bk_customer :: "'c option"
  bk_shiftId :: jsstr
  bk_transactionId :: jsstr
  bk_lines :: "'i SavedBasketLine list"
  bk_savedAt :: jsstr

definition saveOfflineBasket :: "bool \<Rightarrow> ('i, 'c) SavedBasket \<Rightarrow> (jsstr, ('i, 'c) SavedBasket) object_store \<Rightarrow>
    (store_error + unit) \<times> (jsstr, ('i, 'c) SavedBasket) object_store" where
  "saveOfflineBasket available basket = writeOne available bk_accountId basket"

definition readOfflineBasket :: "bool \<Rightarrow> jsstr \<Rightarrow> (jsstr, ('i, 'c) SavedBasket) object_store \<Rightarrow>
    (store_error + ('i, 'c) SavedBasket option) \<times> (jsstr, ('i, 'c) SavedBasket) object_store" where
  "readOfflineBasket available accountId = readOne available accountId"

definition clearOfflineBasket :: "bool \<Rightarrow> jsstr \<Rightarrow> (jsstr, ('i, 'c) SavedBasket) object_store \<Rightarrow>
    (store_error + unit) \<times> (jsstr, ('i, 'c) SavedBasket) object_store" where
  "clearOfflineBasket available accountId =
     transaction available OfflineUnavailable (\<lambda>s. Inr ((), idb_delete accountId s))"

section \<open>Bounded caches\<close>

text \<open>
  A JavaScript \<open>Map\<close> in insertion order: \<open>set\<close> replaces in place or appends, which is
  \<open>AList.update\<close>.
\<close>

record 'l PosCustomerOption =
  pc_id :: jsstr
  pc_locations :: "'l list"
  pc_name :: jsstr
  pc_uic :: "jsstr option"
  pc_vatNumber :: "jsstr option"

record 'l SavedPosCustomer =
  sc_accountId :: jsstr
  sc_customer :: "'l PosCustomerOption"
  sc_key :: jsstr
  sc_savedAt :: jsstr

text \<open>\<open>...(customer.uic ? { uic } : {})\<close>: an empty text is left out.\<close>

definition non_empty :: "jsstr option \<Rightarrow> jsstr option" where
  "non_empty v = (case v of Some w \<Rightarrow> if w = [] then None else Some w | None \<Rightarrow> None)"

definition cached_customer :: "jsstr \<Rightarrow> jsstr \<Rightarrow> 'l PosCustomerOption \<Rightarrow> 'l SavedPosCustomer" where
  "cached_customer accountId savedAt customer = \<lparr>sc_accountId = accountId,
     sc_customer = \<lparr>pc_id = pc_id customer, pc_locations = pc_locations customer, pc_name = pc_name customer, pc_uic = non_empty (pc_uic customer),
       pc_vatNumber = non_empty (pc_vatNumber customer)\<rparr>,
     sc_key = accountId @ [58] @ pc_id customer, sc_savedAt = savedAt\<rparr>"

definition merge_customers :: "jsstr \<Rightarrow> jsstr \<Rightarrow> 'l PosCustomerOption list \<Rightarrow> 'l SavedPosCustomer list \<Rightarrow>
    (jsstr \<times> 'l SavedPosCustomer) list" where
  "merge_customers accountId savedAt customers existing =
     fold (\<lambda>c. AList.update (sc_key (cached_customer accountId savedAt c)) (cached_customer accountId savedAt c)) customers
       (fold (\<lambda>e. AList.update (sc_key e) e) existing [])"

definition newest_customers :: "(jsstr \<Rightarrow> jsstr \<Rightarrow> int) \<Rightarrow> (jsstr \<times> 'l SavedPosCustomer) list \<Rightarrow> 'l SavedPosCustomer list" where
  "newest_customers lc merged =
     take 500 (js_sort (\<lambda>a b. lc (sc_savedAt b) (sc_savedAt a)) (map snd merged))"

definition saveOfflinePosCustomers :: "(jsstr \<Rightarrow> jsstr \<Rightarrow> int) \<Rightarrow> bool \<Rightarrow> jsstr \<Rightarrow> jsstr \<Rightarrow> 'l PosCustomerOption list \<Rightarrow>
    (jsstr, 'l SavedPosCustomer) object_store \<Rightarrow> (store_error + unit) \<times> (jsstr, 'l SavedPosCustomer) object_store" where
  "saveOfflinePosCustomers lc available now accountId customers s0 =
     (if customers = [] then (Inr (), s0)
      else transaction available OfflineUnavailable (\<lambda>s.
        let merged = merge_customers accountId now customers (idb_getAll (\<lambda>e. sc_accountId e = accountId) s);
            newest = newest_customers lc merged;
            retained = set (map sc_key newest);
            deleted = fold idb_delete (map sc_key (filter (\<lambda>e. sc_key e \<notin> retained) (map snd merged))) s
        in Inr ((), fold (\<lambda>(k, e). idb_put k e) (map (\<lambda>e. (sc_key e, e)) newest) deleted)) s0)"

text \<open>\<open>lower\<close> is \<open>toLocaleLowerCase\<close>.\<close>

fun is_infix :: "jsstr \<Rightarrow> jsstr \<Rightarrow> bool" where
  "is_infix q [] = (q = [])"
| "is_infix q (c # s) = (take (length q) (c # s) = q \<or> is_infix q s)"

definition join_present :: "jsstr option list \<Rightarrow> jsstr" where
  "join_present parts = concat (case filter (\<lambda>p. p \<noteq> []) (map (case_option [] id) parts) of
     [] \<Rightarrow> [] | x # xs \<Rightarrow> x # map (\<lambda>p. [32] @ p) xs)"

definition customer_matches :: "(jsstr \<Rightarrow> jsstr) \<Rightarrow> jsstr option \<Rightarrow> 'l PosCustomerOption \<Rightarrow> bool" where
  "customer_matches lower search customer =
     (let query = map_option (\<lambda>t. lower (trim t)) search in
      query = None \<or> query = Some [] \<or>
      is_infix (the query) (lower (join_present [Some (pc_name customer), pc_uic customer, pc_vatNumber customer])))"

definition readOfflinePosCustomers :: "(jsstr \<Rightarrow> jsstr \<Rightarrow> int) \<Rightarrow> (jsstr \<Rightarrow> jsstr) \<Rightarrow> bool \<Rightarrow> jsstr \<Rightarrow> jsstr option \<Rightarrow>
    (jsstr, 'l SavedPosCustomer) object_store \<Rightarrow>
    (store_error + (jsstr \<times> 'l PosCustomerOption list) option) \<times> (jsstr, 'l SavedPosCustomer) object_store" where
  "readOfflinePosCustomers lc lower available accountId search =
     transaction available OfflineUnavailable (\<lambda>s.
       let entries = idb_getAll (\<lambda>e. sc_accountId e = accountId) s in
       if entries = [] then Inr (None, s)
       else
         let customers = js_sort (\<lambda>a b. lc (pc_name a) (pc_name b))
               (filter (customer_matches lower search) (map sc_customer entries));
             savedAt = hd (js_sort (\<lambda>a b. lc b a) (map sc_savedAt entries))
         in Inr (if savedAt \<noteq> [] then Some (savedAt, customers) else None, s))"

record ('i) SavedCatalog =
  ca_key :: jsstr
  ca_accountId :: jsstr
  ca_shiftId :: jsstr
  ca_customerPartnerId :: jsstr
  ca_items :: "'i list"
  ca_savedAt :: jsstr

definition merge_items :: "('i \<Rightarrow> jsstr) \<Rightarrow> 'i list \<Rightarrow> 'i list \<Rightarrow> 'i list" where
  "merge_items item_id existing items =
     map snd (fold (\<lambda>i. AList.update (item_id i) i) items (fold (\<lambda>i. AList.update (item_id i) i) existing []))"

definition saveOfflineCatalog :: "('i \<Rightarrow> jsstr) \<Rightarrow> bool \<Rightarrow> jsstr \<Rightarrow> jsstr \<Rightarrow> jsstr \<Rightarrow> 'i list \<Rightarrow> jsstr option \<Rightarrow>
    (jsstr, 'i SavedCatalog) object_store \<Rightarrow> (store_error + unit) \<times> (jsstr, 'i SavedCatalog) object_store" where
  "saveOfflineCatalog item_id available now accountId shiftId items customerPartnerId =
     (let key = cacheKey accountId shiftId customerPartnerId in
      transaction available OfflineUnavailable (\<lambda>s.
        let existing = (case idb_get s key of None \<Rightarrow> [] | Some c \<Rightarrow> ca_items c)
        in Inr ((), idb_put key \<lparr>ca_key = key, ca_accountId = accountId, ca_shiftId = shiftId,
             ca_customerPartnerId = (case customerPartnerId of None \<Rightarrow> [] | Some c \<Rightarrow> c),
             ca_items = slice_from (merge_items item_id existing items) (- 500), ca_savedAt = now\<rparr> s)))"

section \<open>Leased receipt references\<close>

record PosDatecsUnpLease =
  cashRegisterId :: jsstr
  deviceSerial :: jsstr
  operatorIdentifier :: jsstr
  uniqueSaleIds :: "jsstr list"

record SavedDatecsUnpLease = PosDatecsUnpLease +
  lease_accountId :: jsstr
  lease_key :: jsstr
  lease_savedAt :: jsstr

type_synonym lease_store = "(jsstr, SavedDatecsUnpLease) object_store"

definition join_colon :: "jsstr list \<Rightarrow> jsstr" where
  "join_colon parts = (case parts of [] \<Rightarrow> [] | p # ps \<Rightarrow> p @ concat (map (\<lambda>q. 58 # q) ps))"

definition datecsLeaseKey :: "(nat \<Rightarrow> jsstr) \<Rightarrow> jsstr \<Rightarrow> jsstr \<Rightarrow> jsstr \<Rightarrow> jsstr \<Rightarrow> jsstr" where
  "datecsLeaseKey tbl accountId registerId serial operator =
     join_colon (map (\<lambda>part. toUpperCase tbl (trim part)) [accountId, registerId, serial, operator])"

text \<open>\<open>^<serial>-<operator>-\d{7}$\<close> for a serial and an operator of letters and digits.\<close>

definition lease_reference :: "jsstr \<Rightarrow> jsstr \<Rightarrow> jsstr \<Rightarrow> bool" where
  "lease_reference serial operator = rx (map lit (serial @ [45] @ operator @ [45]) @ [(is_digit, 7, 7)])"

definition saveOfflineDatecsUnpLease :: "(nat \<Rightarrow> jsstr) \<Rightarrow> bool \<Rightarrow> jsstr \<Rightarrow> jsstr \<Rightarrow> PosDatecsUnpLease \<Rightarrow> lease_store \<Rightarrow>
    (store_error + unit) \<times> lease_store" where
  "saveOfflineDatecsUnpLease tbl available now accountId lease s =
     (let serial = toUpperCase tbl (trim (deviceSerial lease));
          operator = toUpperCase tbl (trim (operatorIdentifier lease));
          ids = new_Set (map (\<lambda>i. toUpperCase tbl (trim i)) (uniqueSaleIds lease))
      in if \<not> rx [(is_upnum, 8, 8)] serial \<or> \<not> rx [(is_upnum, 4, 4)] operator \<or>
            list_ex (\<lambda>i. \<not> lease_reference serial operator i) ids
         then (Inl LeaseInvalid, s)
         else writeOne available lease_key
           \<lparr>cashRegisterId = cashRegisterId lease, deviceSerial = serial, operatorIdentifier = operator,
            uniqueSaleIds = ids, lease_accountId = accountId,
            lease_key = datecsLeaseKey tbl accountId (cashRegisterId lease) serial operator, lease_savedAt = now\<rparr> s)"

definition readOfflineDatecsUnpLease :: "(nat \<Rightarrow> jsstr) \<Rightarrow> bool \<Rightarrow> jsstr \<Rightarrow> jsstr \<Rightarrow> jsstr \<Rightarrow> jsstr \<Rightarrow> lease_store \<Rightarrow>
    (store_error + (jsstr \<times> PosDatecsUnpLease) option) \<times> lease_store" where
  "readOfflineDatecsUnpLease tbl available accountId registerId serial operator s =
     (case readOne available (datecsLeaseKey tbl accountId registerId serial operator) s of
        (Inl e, s') \<Rightarrow> (Inl e, s')
      | (Inr saved, s') \<Rightarrow> (Inr (map_option (\<lambda>l. (lease_savedAt l,
          \<lparr>cashRegisterId = cashRegisterId l, deviceSerial = deviceSerial l,
           operatorIdentifier = operatorIdentifier l, uniqueSaleIds = uniqueSaleIds l\<rparr>)) saved), s'))"

text \<open>\<open>saved?.uniqueSaleIds[0]\<close>: no lease and no reference are both \<open>undefined\<close>.\<close>

definition first_reference :: "SavedDatecsUnpLease option \<Rightarrow> jsstr option" where
  "first_reference saved = (case saved of None \<Rightarrow> None | Some l \<Rightarrow>
     (case uniqueSaleIds l of [] \<Rightarrow> None | i # _ \<Rightarrow> Some i))"

definition drop_reference :: "SavedDatecsUnpLease \<Rightarrow> SavedDatecsUnpLease" where
  "drop_reference l = l\<lparr>uniqueSaleIds := slice_from (uniqueSaleIds l) 1\<rparr>"

definition consumeOfflineDatecsUnpLease :: "(nat \<Rightarrow> jsstr) \<Rightarrow> bool \<Rightarrow> jsstr \<Rightarrow> jsstr \<Rightarrow> jsstr \<Rightarrow> jsstr \<Rightarrow> lease_store \<Rightarrow>
    (store_error + jsstr option) \<times> lease_store" where
  "consumeOfflineDatecsUnpLease tbl available accountId registerId serial operator =
     transaction available OfflineUnavailable (\<lambda>s.
       let saved = idb_get s (datecsLeaseKey tbl accountId registerId serial operator);
           consumed = first_reference saved
       in case saved of
            None \<Rightarrow> Inr (consumed, s)
          | Some l \<Rightarrow>
              if consumed = None \<or> consumed = Some [] then Inr (consumed, s)
              else Inr (consumed, idb_put (lease_key l) (drop_reference l) s))"

section \<open>Sales made without a connection\<close>

datatype OfflineFiscalSaleStatus = Cancelled | Conflict | Printing | Receipt_confirmed | Receipt_unknown
  | Synced | Syncing

datatype attempt_outcome = AttemptConflict | AttemptRetry | AttemptSynced

datatype PosOfflineSyncEventReason = Receipt_mismatch | Server_rejected | Sync_interrupted

record sync_attempt =
  at_time :: jsstr
  at_eventId :: "jsstr option"
  at_message :: "jsstr option"
  at_outcome :: attempt_outcome
  at_reasonCode :: "PosOfflineSyncEventReason option"

text \<open>The part of a saved sale that the register supplies, and the rest.\<close>

record ('r, 'l) offline_sale_input =
  fs_accountId :: jsstr
  fs_cashRegisterId :: jsstr
  fs_cashTenderedEur :: jsstr
  fs_clientTransactionId :: jsstr
  fs_deviceSerial :: jsstr
  fs_operatorIdentifier :: jsstr
  fs_receiptLines :: "'l list"
  fs_request :: 'r
  fs_shiftId :: jsstr
  fs_syncCompletedAt :: "jsstr option"
  fs_totalGrossEur :: jsstr

text \<open>\<open>attempts\<close> is missing only in a record that an older version of the register wrote.\<close>

record ('r, 'l) SavedOfflineFiscalSale = "('r, 'l) offline_sale_input" +
  fs_attempts :: "sync_attempt list option"
  fs_changeEur :: "jsstr option"
  fs_createdAt :: jsstr
  fs_fiscalDocumentNumber :: "jsstr option"
  fs_fiscalReceiptsSinceDailyReport :: "jsstr option"
  fs_id :: jsstr
  fs_lastError :: "jsstr option"
  fs_reportedAttemptIds :: "jsstr list option"
  fs_saleNumber :: "jsstr option"
  fs_status :: OfflineFiscalSaleStatus
  fs_syncStartedAt :: "jsstr option"
  fs_uniqueSaleId :: jsstr

type_synonym ('r, 'l) sale_store = "(jsstr, ('r, 'l) SavedOfflineFiscalSale) object_store"

definition blocks_register :: "OfflineFiscalSaleStatus \<Rightarrow> bool" where
  "blocks_register status = (status \<in> {Printing, Receipt_unknown, Conflict})"

definition reserved_sale :: "jsstr \<Rightarrow> jsstr \<Rightarrow> jsstr \<Rightarrow> ('r, 'l) offline_sale_input \<Rightarrow> ('r, 'l) SavedOfflineFiscalSale" where
  "reserved_sale now newId uniqueSaleId inp = offline_sale_input.extend inp
     \<lparr>fs_attempts = Some [], fs_changeEur = None, fs_createdAt = now, fs_fiscalDocumentNumber = None,
      fs_fiscalReceiptsSinceDailyReport = None, fs_id = newId, fs_lastError = None,
      fs_reportedAttemptIds = Some [], fs_saleNumber = None, fs_status = Printing, fs_syncStartedAt = None,
      fs_uniqueSaleId = uniqueSaleId\<rparr>"

definition sale_id :: "('r, 'l) offline_sale_input \<Rightarrow> jsstr" where
  "sale_id inp = fs_cashRegisterId inp @ [58] @ fs_clientTransactionId inp"

definition reserve_body :: "(nat \<Rightarrow> jsstr) \<Rightarrow> jsstr \<Rightarrow> jsstr \<Rightarrow> ('r, 'l) offline_sale_input \<Rightarrow>
    lease_store \<times> ('r, 'l) sale_store \<Rightarrow>
    store_error + ('r, 'l) SavedOfflineFiscalSale \<times> lease_store \<times> ('r, 'l) sale_store" where
  "reserve_body tbl now accountId inp = (\<lambda>(leases, sales).
     if idb_get sales (sale_id inp) \<noteq> None then Inl SaleReferenceUsed
     else if find (\<lambda>sale. blocks_register (fs_status sale))
               (idb_getAll (\<lambda>sale. fs_cashRegisterId sale = fs_cashRegisterId inp) sales) \<noteq> None
          then Inl EarlierReceiptUnresolved
     else case idb_get leases (datecsLeaseKey tbl accountId (fs_cashRegisterId inp) (fs_deviceSerial inp)
                 (fs_operatorIdentifier inp)) of
       None \<Rightarrow> Inl NoReferenceAvailable
     | Some lease \<Rightarrow>
         (case first_reference (Some lease) of
            None \<Rightarrow> Inl NoReferenceAvailable
          | Some uniqueSaleId \<Rightarrow>
              if uniqueSaleId = [] then Inl NoReferenceAvailable
              else if lease_accountId lease \<noteq> accountId \<or> cashRegisterId lease \<noteq> fs_cashRegisterId inp \<or>
                      deviceSerial lease \<noteq> fs_deviceSerial inp \<or>
                      operatorIdentifier lease \<noteq> fs_operatorIdentifier inp
                   then Inl ReferenceOfOtherRegister
              else
                let reserved = reserved_sale now (sale_id inp) uniqueSaleId inp
                in case idb_add SaleExists (fs_id reserved) reserved sales of
                     Inl e \<Rightarrow> Inl e
                   | Inr sales' \<Rightarrow>
                       Inr (reserved, idb_put (lease_key lease) (drop_reference lease) leases, sales')))"

definition reserveOfflineFiscalSale :: "(nat \<Rightarrow> jsstr) \<Rightarrow> ('r \<Rightarrow> jsstr) \<Rightarrow> bool \<Rightarrow> jsstr \<Rightarrow> jsstr \<Rightarrow>
    ('r, 'l) offline_sale_input \<Rightarrow> lease_store \<times> ('r, 'l) sale_store \<Rightarrow>
    (store_error + ('r, 'l) SavedOfflineFiscalSale) \<times> lease_store \<times> ('r, 'l) sale_store" where
  "reserveOfflineFiscalSale tbl request_id available now accountId inp s =
     (if fs_accountId inp \<noteq> accountId \<or> request_id (fs_request inp) \<noteq> fs_clientTransactionId inp
      then (Inl SaleMismatch, s)
      else transaction available OfflineUnavailable (reserve_body tbl now accountId inp) s)"

definition readOfflineFiscalSales :: "(jsstr \<Rightarrow> jsstr \<Rightarrow> int) \<Rightarrow> bool \<Rightarrow> jsstr \<Rightarrow> ('r, 'l) sale_store \<Rightarrow>
    (store_error + ('r, 'l) SavedOfflineFiscalSale list) \<times> ('r, 'l) sale_store" where
  "readOfflineFiscalSales lc available accountId =
     transaction available OfflineUnavailable (\<lambda>s.
       Inr (js_sort (\<lambda>first second. lc (fs_createdAt first) (fs_createdAt second))
         (idb_getAll (\<lambda>sale. fs_accountId sale = accountId) s), s))"

definition countPendingOfflineFiscalSales :: "(jsstr \<Rightarrow> jsstr \<Rightarrow> int) \<Rightarrow> bool \<Rightarrow> jsstr \<Rightarrow> ('r, 'l) sale_store \<Rightarrow>
    (store_error + nat) \<times> ('r, 'l) sale_store" where
  "countPendingOfflineFiscalSales lc available accountId s =
     (case readOfflineFiscalSales lc available accountId s of
        (Inl e, s') \<Rightarrow> (Inl e, s')
      | (Inr sales, s') \<Rightarrow> (Inr (length (filter (\<lambda>sale. fs_status sale \<in>
          {Printing, Receipt_confirmed, Receipt_unknown, Syncing, Conflict}) sales)), s'))"

text \<open>
  A partial update: a field that the caller does not name is \<open>None\<close>; one that it sets to
  \<open>undefined\<close> is \<open>Some None\<close>.
\<close>

record sale_update =
  up_attempts :: "sync_attempt list option option"
  up_changeEur :: "jsstr option option"
  up_fiscalDocumentNumber :: "jsstr option option"
  up_fiscalReceiptsSinceDailyReport :: "jsstr option option"
  up_lastError :: "jsstr option option"
  up_reportedAttemptIds :: "jsstr list option option"
  up_saleNumber :: "jsstr option option"
  up_status :: "OfflineFiscalSaleStatus option"
  up_syncCompletedAt :: "jsstr option option"
  up_syncStartedAt :: "jsstr option option"

definition no_update :: sale_update where
  "no_update = \<lparr>up_attempts = None, up_changeEur = None, up_fiscalDocumentNumber = None,
     up_fiscalReceiptsSinceDailyReport = None, up_lastError = None, up_reportedAttemptIds = None,
     up_saleNumber = None, up_status = None, up_syncCompletedAt = None, up_syncStartedAt = None\<rparr>"

definition apply_update :: "sale_update \<Rightarrow> ('r, 'l) SavedOfflineFiscalSale \<Rightarrow> ('r, 'l) SavedOfflineFiscalSale" where
  "apply_update u sale = sale
     \<lparr>fs_attempts := case_option (fs_attempts sale) id (up_attempts u),
      fs_changeEur := case_option (fs_changeEur sale) id (up_changeEur u),
      fs_fiscalDocumentNumber := case_option (fs_fiscalDocumentNumber sale) id (up_fiscalDocumentNumber u),
      fs_fiscalReceiptsSinceDailyReport :=
        case_option (fs_fiscalReceiptsSinceDailyReport sale) id (up_fiscalReceiptsSinceDailyReport u),
      fs_lastError := case_option (fs_lastError sale) id (up_lastError u),
      fs_reportedAttemptIds := case_option (fs_reportedAttemptIds sale) id (up_reportedAttemptIds u),
      fs_saleNumber := case_option (fs_saleNumber sale) id (up_saleNumber u),
      fs_status := case_option (fs_status sale) id (up_status u),
      fs_syncCompletedAt := case_option (fs_syncCompletedAt sale) id (up_syncCompletedAt u),
      fs_syncStartedAt := case_option (fs_syncStartedAt sale) id (up_syncStartedAt u)\<rparr>"

definition updateOfflineFiscalSale :: "bool \<Rightarrow> jsstr \<Rightarrow> jsstr \<Rightarrow> sale_update \<Rightarrow> ('r, 'l) sale_store \<Rightarrow>
    (store_error + ('r, 'l) SavedOfflineFiscalSale) \<times> ('r, 'l) sale_store" where
  "updateOfflineFiscalSale available accountId saleId update =
     transaction available OfflineUnavailable (\<lambda>s. case idb_get s saleId of
         None \<Rightarrow> Inl SaleNotUpdated
       | Some existing \<Rightarrow>
           if fs_accountId existing \<noteq> accountId then Inl SaleNotUpdated
           else let updated = apply_update update existing
                in Inr (updated, idb_put (fs_id updated) updated s))"

text \<open>
  \<open>nowMs\<close> is \<open>now.getTime()\<close> and \<open>toISO nowMs\<close> its text; \<open>Date.parse\<close> of a text that is no
  date is \<open>NaN\<close>, and a comparison with it is false.
\<close>

definition staleSync :: "(jsstr \<Rightarrow> int option) \<Rightarrow> int \<Rightarrow> ('r, 'l) SavedOfflineFiscalSale \<Rightarrow> bool" where
  "staleSync date_parse nowMs sale \<longleftrightarrow> fs_status sale = Syncing \<and>
     (case fs_syncStartedAt sale of
        None \<Rightarrow> True
      | Some started \<Rightarrow> started = [] \<or>
          (case date_parse started of None \<Rightarrow> False | Some ms \<Rightarrow> nowMs - ms > 90000))"

definition claimOfflineFiscalSaleForSync :: "(jsstr \<Rightarrow> int option) \<Rightarrow> (int \<Rightarrow> jsstr) \<Rightarrow> bool \<Rightarrow> jsstr \<Rightarrow> jsstr \<Rightarrow> int \<Rightarrow>
    ('r, 'l) sale_store \<Rightarrow> (store_error + ('r, 'l) SavedOfflineFiscalSale option) \<times> ('r, 'l) sale_store" where
  "claimOfflineFiscalSaleForSync date_parse toISO available accountId saleId nowMs =
     transaction available OfflineUnavailable (\<lambda>s. case idb_get s saleId of
         None \<Rightarrow> Inr (None, s)
       | Some sale \<Rightarrow>
           if fs_accountId sale \<noteq> accountId \<or>
              fs_status sale \<noteq> Receipt_confirmed \<and> \<not> staleSync date_parse nowMs sale
           then Inr (None, s)
           else let claimed = sale\<lparr>fs_status := Syncing, fs_syncStartedAt := Some (toISO nowMs)\<rparr>
                in Inr (Some claimed, idb_put (fs_id claimed) claimed s))"

text \<open>
  The upgrade to version 6 of the database gives every attempt an event id. \<open>uuid n\<close> is the
  result of the n-th call of \<open>crypto.randomUUID\<close>.
\<close>

fun number_attempts :: "(nat \<Rightarrow> jsstr) \<Rightarrow> nat \<Rightarrow> sync_attempt list \<Rightarrow> sync_attempt list \<times> nat" where
  "number_attempts uuid n [] = ([], n)"
| "number_attempts uuid n (a # as) =
     (case at_eventId a of
        Some _ \<Rightarrow> (let (as', n') = number_attempts uuid n as in (a # as', n'))
      | None \<Rightarrow> (let (as', n') = number_attempts uuid (Suc n) as in (a\<lparr>at_eventId := Some (uuid n)\<rparr> # as', n')))"

fun upgrade_sales :: "(nat \<Rightarrow> jsstr) \<Rightarrow> nat \<Rightarrow> ('r, 'l) sale_store \<Rightarrow> ('r, 'l) sale_store" where
  "upgrade_sales uuid n [] = []"
| "upgrade_sales uuid n ((k, sale) # s) =
     (let (as', n') = number_attempts uuid n (case_option [] id (fs_attempts sale))
      in (k, sale\<lparr>fs_attempts := Some as',
               fs_reportedAttemptIds := Some (case_option [] id (fs_reportedAttemptIds sale))\<rparr>) # upgrade_sales uuid n' s)"

definition onupgradeneeded :: "(nat \<Rightarrow> jsstr) \<Rightarrow> nat \<Rightarrow> ('r, 'l) sale_store \<Rightarrow> ('r, 'l) sale_store" where
  "onupgradeneeded uuid oldVersion sales = (if oldVersion < 6 then upgrade_sales uuid 0 sales else sales)"

end
