(* ===== verification/OfflineGuarantees.thy ===== *)
theory OfflineGuarantees
  imports OfflineStore
begin

text \<open>
  What a register may rely on when it works without a connection: a leased receipt reference is
  given out once, a sale is reserved whole or not at all, and one tab at a time synchronises it.
\<close>

section \<open>Receipt references\<close>

text \<open>The operations that give out a reference, in the order in which their transactions run.\<close>

datatype ('r, 'l) lease_event =
    ConsumeLease bool jsstr jsstr jsstr jsstr
  | ReserveSale bool jsstr jsstr "('r, 'l) offline_sale_input"

fun lease_key_of :: "(nat \<Rightarrow> jsstr) \<Rightarrow> ('r, 'l) lease_event \<Rightarrow> jsstr" where
  "lease_key_of tbl (ConsumeLease available accountId registerId serial operator) =
     datecsLeaseKey tbl accountId registerId serial operator"
| "lease_key_of tbl (ReserveSale available now accountId inp) =
     datecsLeaseKey tbl accountId (fs_cashRegisterId inp) (fs_deviceSerial inp) (fs_operatorIdentifier inp)"

text \<open>The reference that an event gives to its caller, if it does, and the stores after it.\<close>

fun run_lease_event :: "(nat \<Rightarrow> jsstr) \<Rightarrow> ('r \<Rightarrow> jsstr) \<Rightarrow> ('r, 'l) lease_event \<Rightarrow> lease_store \<times> ('r, 'l) sale_store \<Rightarrow>
    jsstr list \<times> lease_store \<times> ('r, 'l) sale_store" where
  "run_lease_event tbl request_id (ConsumeLease available accountId registerId serial operator) (leases, sales) =
     (case consumeOfflineDatecsUnpLease tbl available accountId registerId serial operator leases of
        (Inr (Some i), leases') \<Rightarrow> (if i = [] then [] else [i], leases', sales)
      | (_, leases') \<Rightarrow> ([], leases', sales))"
| "run_lease_event tbl request_id (ReserveSale available now accountId inp) s =
     (case reserveOfflineFiscalSale tbl request_id available now accountId inp s of
        (Inr sale, s') \<Rightarrow> ([fs_uniqueSaleId sale], s')
      | (Inl _, s') \<Rightarrow> ([], s'))"

fun run_lease_events :: "(nat \<Rightarrow> jsstr) \<Rightarrow> ('r \<Rightarrow> jsstr) \<Rightarrow> ('r, 'l) lease_event list \<Rightarrow> lease_store \<times> ('r, 'l) sale_store \<Rightarrow>
    (jsstr \<times> jsstr list) list \<times> lease_store \<times> ('r, 'l) sale_store" where
  "run_lease_events tbl request_id [] s = ([], s)"
| "run_lease_events tbl request_id (e # es) s =
     (let (given, s') = run_lease_event tbl request_id e s; (rest, s'') = run_lease_events tbl request_id es s'
      in ((lease_key_of tbl e, given) # rest, s''))"

text \<open>The references given out under a key, and the ones left there.\<close>

definition given_under :: "jsstr \<Rightarrow> (jsstr \<times> jsstr list) list \<Rightarrow> jsstr list" where
  "given_under k given = concat (map snd (filter (\<lambda>(k', _). k' = k) given))"

definition left_under :: "jsstr \<Rightarrow> lease_store \<Rightarrow> jsstr list" where
  "left_under k leases = (case idb_get leases k of None \<Rightarrow> [] | Some l \<Rightarrow> uniqueSaleIds l)"

definition keyed_leases :: "lease_store \<Rightarrow> bool" where
  "keyed_leases leases \<longleftrightarrow> (\<forall>k l. idb_get leases k = Some l \<longrightarrow> lease_key l = k)"

text \<open>What an event does to the leases: nothing, or it takes the first reference under its key.\<close>

definition takes_first :: "jsstr \<Rightarrow> jsstr list \<Rightarrow> lease_store \<Rightarrow> lease_store \<Rightarrow> bool" where
  "takes_first k given leases leases' \<longleftrightarrow> given = [] \<and> leases' = leases \<or>
     (\<exists>l i rest. idb_get leases k = Some l \<and> uniqueSaleIds l = i # rest \<and> given = [i] \<and>
        leases' = idb_put (lease_key l) (drop_reference l) leases)"

lemma first_reference_Some: "first_reference (Some l) = Some i \<Longrightarrow> \<exists>rest. uniqueSaleIds l = i # rest"
  by (auto simp: first_reference_def split: list.splits)

lemma run_lease_event_takes:
  assumes "run_lease_event tbl request_id e (leases, sales) = (given, leases', sales')"
  shows "takes_first (lease_key_of tbl e) given leases leases'"
proof (cases e)
  case (ConsumeLease available accountId registerId serial operator)
  define k where "k = datecsLeaseKey tbl accountId registerId serial operator"
  obtain out where out: "consumeOfflineDatecsUnpLease tbl available accountId registerId serial operator leases = (out, leases')"
      and given: "given = (case out of Inr (Some i) \<Rightarrow> if i = [] then [] else [i] | _ \<Rightarrow> [])"
    using assms by (auto simp: ConsumeLease split: prod.splits sum.splits option.splits)
  from transaction_cases [OF out [unfolded consumeOfflineDatecsUnpLease_def Let_def, folded k_def]] show ?thesis
  proof (elim disjE exE conjE)
    fix a assume a: "out = Inr a" and body: "(case idb_get leases k of None \<Rightarrow> Inr (first_reference (idb_get leases k), leases)
        | Some l \<Rightarrow> if first_reference (idb_get leases k) = None \<or> first_reference (idb_get leases k) = Some []
            then Inr (first_reference (idb_get leases k), leases)
            else Inr (first_reference (idb_get leases k), idb_put (lease_key l) (drop_reference l) leases)) = Inr (a, leases')"
    show ?thesis
    proof (cases "\<exists>i. a = Some i \<and> i \<noteq> []")
      case True
      then obtain i where i: "a = Some i" "i \<noteq> []" by blast
      with body obtain l where l: "idb_get leases k = Some l" "first_reference (Some l) = Some i"
          "leases' = idb_put (lease_key l) (drop_reference l) leases"
        by (auto simp: first_reference_def split: option.splits if_splits)
      with first_reference_Some [OF l(2)] i show ?thesis by (auto simp: takes_first_def ConsumeLease k_def given a)
    next
      case False
      with body show ?thesis
        by (auto simp: takes_first_def ConsumeLease given a first_reference_def split: option.splits if_splits)
    qed
  qed (simp add: takes_first_def given)
next
  case (ReserveSale available now accountId inp)
  obtain out s' where Pair: "reserveOfflineFiscalSale tbl request_id available now accountId inp (leases, sales) = (out, s')"
    using prod.exhaust by blast
  show ?thesis
  proof (cases out)
    case (Inl err)
    with Pair have "s' = (leases, sales)" by (auto simp: reserveOfflineFiscalSale_def dest: transaction_Inl split: if_splits)
    with Inl Pair assms show ?thesis by (simp add: ReserveSale takes_first_def)
  next
    case (Inr sale)
    with Pair have "reserve_body tbl now accountId inp (leases, sales) = Inr (sale, s')"
      by (auto simp: reserveOfflineFiscalSale_def transaction_Inr split: if_splits)
    then obtain l where l: "idb_get leases (lease_key_of tbl e) = Some l" "first_reference (Some l) = Some (fs_uniqueSaleId sale)"
        "fst s' = idb_put (lease_key l) (drop_reference l) leases"
      by (auto simp: reserve_body_def ReserveSale Let_def reserved_sale_def offline_sale_input.defs split: if_splits option.splits sum.splits)
    with first_reference_Some [OF l(2)] Inr Pair assms show ?thesis by (auto simp: ReserveSale takes_first_def)
  qed
qed

lemma drop_reference_simps [simp]: "uniqueSaleIds l = i # rest \<Longrightarrow> uniqueSaleIds (drop_reference l) = rest"
  "lease_key (drop_reference l) = lease_key l"
  by (simp_all add: drop_reference_def slice_from_def slice_index_def)

lemma takes_first_left:
  assumes "takes_first k' given leases leases'" and "keyed_leases leases"
  shows "keyed_leases leases' \<and> (if k' = k then given else []) @ left_under k leases' = left_under k leases"
  using assms unfolding takes_first_def
proof (elim disjE exE conjE)
  fix l i rest assume l: "idb_get leases k' = Some l" "uniqueSaleIds l = i # rest" "given = [i]"
    "leases' = idb_put (lease_key l) (drop_reference l) leases"
  have "lease_key l = k'" using assms(2) l(1) by (simp add: keyed_leases_def)
  with l assms(2) show ?thesis by (auto simp: left_under_def keyed_leases_def)
qed simp

lemma run_lease_events_left:
  "run_lease_events tbl request_id es (leases, sales) = (given, leases', sales') \<Longrightarrow> keyed_leases leases \<Longrightarrow>
   given_under k given @ left_under k leases' = left_under k leases"
proof (induction es arbitrary: leases sales given)
  case (Cons e es)
  obtain g leases1 sales1 rest where step: "run_lease_event tbl request_id e (leases, sales) = (g, leases1, sales1)"
    and rest: "run_lease_events tbl request_id es (leases1, sales1) = (rest, leases', sales')" "given = (lease_key_of tbl e, g) # rest"
    using Cons.prems(1) by (auto simp: Let_def split: prod.splits)
  from takes_first_left [OF run_lease_event_takes [OF step] Cons.prems(2), of k] Cons.IH [OF rest(1)]
  show ?case by (auto simp: rest(2) given_under_def)
qed (simp add: given_under_def)

lemma saved_lease:
  assumes "saveOfflineDatecsUnpLease tbl available now accountId lease s = (Inr (), s')" and "keyed_leases s"
  shows "keyed_leases s' \<and> left_under (datecsLeaseKey tbl accountId (cashRegisterId lease) (toUpperCase tbl (trim (deviceSerial lease)))
       (toUpperCase tbl (trim (operatorIdentifier lease)))) s' = new_Set (map (\<lambda>i. toUpperCase tbl (trim i)) (uniqueSaleIds lease))"
  using assms by (auto simp: saveOfflineDatecsUnpLease_def Let_def writeOne_def transaction_Inr left_under_def keyed_leases_def split: if_splits)

text \<open>
  C6: A leased receipt reference is given out once. After a lease is saved, whatever sequence of
  reservations and consumptions follows, the references given out under its key and the ones left
  there are together exactly the saved ones, in order and without repetition.
\<close>

theorem leased_references_given_once:
  assumes "saveOfflineDatecsUnpLease tbl available now accountId lease leases = (Inr (), leases1)" and "keyed_leases leases"
    and "run_lease_events tbl request_id events (leases1, sales) = (given, leases2, sales2)"
    and "k = datecsLeaseKey tbl accountId (cashRegisterId lease) (toUpperCase tbl (trim (deviceSerial lease)))
       (toUpperCase tbl (trim (operatorIdentifier lease)))"
  shows "given_under k given @ left_under k leases2 = new_Set (map (\<lambda>i. toUpperCase tbl (trim i)) (uniqueSaleIds lease)) \<and>
    distinct (given_under k given)"
proof -
  from saved_lease [OF assms(1,2)] have "keyed_leases leases1"
    and left: "left_under k leases1 = new_Set (map (\<lambda>i. toUpperCase tbl (trim i)) (uniqueSaleIds lease))" by (simp_all add: assms(4))
  with run_lease_events_left [OF assms(3), of k] have all: "given_under k given @ left_under k leases2 =
      new_Set (map (\<lambda>i. toUpperCase tbl (trim i)) (uniqueSaleIds lease))" by simp
  have "distinct (given_under k given @ left_under k leases2)" unfolding all by (rule distinct_new_Set)
  then have "distinct (given_under k given)" by (simp only: distinct_append)
  with all show ?thesis by blast
qed

section \<open>Reserving a sale\<close>

text \<open>
  C20: Reserving a sale is all or nothing. If it fails, leases and sales are as before; if it succeeds,
  the sale is stored as printing under a new id with the first reference of the lease of its own
  account and register, that reference is gone from the lease, and no earlier sale of the register
  is still printing, unknown or in conflict.
\<close>

theorem reservation_is_all_or_nothing:
  assumes "reserveOfflineFiscalSale tbl request_id available now accountId inp (leases, sales) = (out, s')" and "idb_wf sales"
    and "k = datecsLeaseKey tbl accountId (fs_cashRegisterId inp) (fs_deviceSerial inp) (fs_operatorIdentifier inp)"
  shows "case out of
      Inl e \<Rightarrow> s' = (leases, sales)
    | Inr sale \<Rightarrow> fs_status sale = Printing \<and> fs_accountId sale = accountId \<and> fs_id sale = sale_id inp \<and>
        idb_get sales (sale_id inp) = None \<and> idb_get (snd s') = (idb_get sales)(sale_id inp \<mapsto> sale) \<and>
        (\<forall>i other. idb_get sales i = Some other \<and> fs_cashRegisterId other = fs_cashRegisterId inp \<longrightarrow> \<not> blocks_register (fs_status other)) \<and>
        (\<exists>lease ids. idb_get leases k = Some lease \<and> uniqueSaleIds lease = fs_uniqueSaleId sale # ids \<and>
           lease_accountId lease = accountId \<and> cashRegisterId lease = fs_cashRegisterId inp \<and>
           fst s' = idb_put (lease_key lease) (drop_reference lease) leases)"
proof (cases out)
  case (Inl e)
  with assms(1) show ?thesis by (auto simp: reserveOfflineFiscalSale_def dest: transaction_Inl split: if_splits)
next
  case (Inr sale)
  with assms(1) have body: "reserve_body tbl now accountId inp (leases, sales) = Inr (sale, s')" and acc: "fs_accountId inp = accountId"
    by (auto simp: reserveOfflineFiscalSale_def transaction_Inr split: if_splits)
  have new: "idb_get sales (sale_id inp) = None" by (rule ccontr) (use body in \<open>simp add: reserve_body_def\<close>)
  have free: "find (\<lambda>sale. blocks_register (fs_status sale)) (idb_getAll (\<lambda>sale. fs_cashRegisterId sale = fs_cashRegisterId inp) sales) = None"
    by (rule ccontr) (use body new in \<open>simp add: reserve_body_def\<close>)
  obtain lease where lease: "idb_get leases k = Some lease"
    by (cases "idb_get leases k") (use body new free in \<open>simp_all add: reserve_body_def assms(3)\<close>)
  obtain u where u: "first_reference (Some lease) = Some u"
    by (cases "first_reference (Some lease)") (use body new free lease in \<open>simp_all add: reserve_body_def assms(3)\<close>)
  have "u \<noteq> []" by (rule ccontr) (use body new free lease u in \<open>simp add: reserve_body_def assms(3)\<close>)
  have "\<not> (lease_accountId lease \<noteq> accountId \<or> cashRegisterId lease \<noteq> fs_cashRegisterId inp \<or>
      deviceSerial lease \<noteq> fs_deviceSerial inp \<or> operatorIdentifier lease \<noteq> fs_operatorIdentifier inp)"
    by (rule notI) (use body new free lease u \<open>u \<noteq> []\<close> in \<open>simp add: reserve_body_def assms(3)\<close>)
  then have own: "lease_accountId lease = accountId" "cashRegisterId lease = fs_cashRegisterId inp"
      "deviceSerial lease = fs_deviceSerial inp" "operatorIdentifier lease = fs_operatorIdentifier inp" by blast+
  have id: "fs_id (reserved_sale now (sale_id inp) u inp) = sale_id inp" by (simp add: reserved_sale_def offline_sale_input.defs)
  have sale: "sale = reserved_sale now (sale_id inp) u inp" "snd s' = idb_put (fs_id sale) sale sales"
      "fst s' = idb_put (lease_key lease) (drop_reference lease) leases"
    using body new free lease u own \<open>u \<noteq> []\<close> by (auto simp: reserve_body_def assms(3) Let_def idb_add_def id)
  have fields: "fs_status sale = Printing" "fs_accountId sale = accountId" "fs_id sale = sale_id inp" "fs_uniqueSaleId sale = u"
    using acc by (simp_all add: sale(1) reserved_sale_def offline_sale_input.defs)
  have "\<not> blocks_register (fs_status other)" if "idb_get sales i = Some other" "fs_cashRegisterId other = fs_cashRegisterId inp" for i other
    using free [unfolded idb.find_None [OF assms(2)]] that by blast
  moreover have "idb_get (snd s') = (idb_get sales)(sale_id inp \<mapsto> sale)" unfolding sale(2) fields(3) by (rule idb_get_put)
  moreover obtain ids where "uniqueSaleIds lease = fs_uniqueSaleId sale # ids"
    using first_reference_Some [OF u] fields(4) by blast
  ultimately show ?thesis unfolding Inr sum.case using lease own(1,2) sale(3) new fields by blast
qed

section \<open>Claiming a sale for synchronisation\<close>

text \<open>
  C35: A claimed sale is synchronised by one caller at a time: another claim gets nothing for ninety
  seconds, and after ninety seconds it gets the sale, so that a synchronisation that was cut off
  is taken up again.
\<close>

theorem claim_is_exclusive_for_ninety_seconds:
  assumes "claimOfflineFiscalSaleForSync date_parse toISO True accountId saleId t1 sales = (Inr (Some claimed), sales1)"
    and "\<forall>i sale. idb_get sales i = Some sale \<longrightarrow> fs_id sale = i"
    and "date_parse (toISO t1) = Some t1" and "toISO t1 \<noteq> []"
  shows "fst (claimOfflineFiscalSaleForSync date_parse toISO True accountId saleId t2 sales1) =
    Inr (if t2 - t1 > 90000 then Some (claimed\<lparr>fs_syncStartedAt := Some (toISO t2)\<rparr>) else None)"
proof -
  obtain sale where sale: "idb_get sales saleId = Some sale" "fs_accountId sale = accountId"
      "claimed = sale\<lparr>fs_status := Syncing, fs_syncStartedAt := Some (toISO t1)\<rparr>" "sales1 = idb_put (fs_id claimed) claimed sales"
    using assms(1) by (auto simp: claimOfflineFiscalSaleForSync_def transaction_Inr Let_def split: option.splits if_splits)
  have "fs_id claimed = saleId" using assms(2) sale(1,3) by simp
  then have "idb_get sales1 saleId = Some claimed" by (simp add: sale(4))
  then show ?thesis using sale(2,3) assms(3,4)
    by (auto simp: claimOfflineFiscalSaleForSync_def transaction_def staleSync_def Let_def)
qed

section \<open>A register at work\<close>

definition demo_lease :: PosDatecsUnpLease where
  "demo_lease = \<lparr>cashRegisterId = js ''R1'', deviceSerial = js ''dt000001'', operatorIdentifier = js ''0001'',
     uniqueSaleIds = [js ''DT000001-0001-0000007'', js ''DT000001-0001-0000008'', js ''DT000001-0001-0000007'']\<rparr>"

definition demo_sale :: "string \<Rightarrow> (jsstr, nat) offline_sale_input" where
  "demo_sale t = \<lparr>fs_accountId = js ''A1'', fs_cashRegisterId = js ''R1'', fs_cashTenderedEur = js ''5.00'', fs_clientTransactionId = js t,
     fs_deviceSerial = js ''DT000001'', fs_operatorIdentifier = js ''0001'', fs_receiptLines = [], fs_request = js t,
     fs_shiftId = js ''S1'', fs_syncCompletedAt = None, fs_totalGrossEur = js ''4.20''\<rparr>"

definition demo_leases :: lease_store where
  "demo_leases = snd (saveOfflineDatecsUnpLease (\<lambda>c. [c]) True (js ''T0'') (js ''A1'') demo_lease [])"

definition demo_events :: "(jsstr, nat) lease_event list" where
  "demo_events = [ReserveSale True (js ''T1'') (js ''A1'') (demo_sale ''X1''), ReserveSale True (js ''T2'') (js ''A1'') (demo_sale ''X2''),
     ConsumeLease True (js ''A1'') (js ''R1'') (js ''DT000001'') (js ''0001'')]"

theorem leased_references_given_once_witness:
  "given_under (js ''A1:R1:DT000001:0001'') (fst (run_lease_events (\<lambda>c. [c]) id demo_events (demo_leases, []))) @
   left_under (js ''A1:R1:DT000001:0001'') (fst (snd (run_lease_events (\<lambda>c. [c]) id demo_events (demo_leases, [])))) =
   [js ''DT000001-0001-0000007'', js ''DT000001-0001-0000008'']"
proof -
  let ?run = "run_lease_events (\<lambda>c. [c]) id demo_events (demo_leases, [])"
  have saved: "saveOfflineDatecsUnpLease (\<lambda>c. [c]) True (js ''T0'') (js ''A1'') demo_lease [] = (Inr (), demo_leases)" by code_simp
  have run: "?run = (fst ?run, fst (snd ?run), snd (snd ?run))" by simp
  have key: "js ''A1:R1:DT000001:0001'' = datecsLeaseKey (\<lambda>c. [c]) (js ''A1'') (cashRegisterId demo_lease)
      (toUpperCase (\<lambda>c. [c]) (trim (deviceSerial demo_lease))) (toUpperCase (\<lambda>c. [c]) (trim (operatorIdentifier demo_lease)))" by code_simp
  have ids: "new_Set (map (\<lambda>i. toUpperCase (\<lambda>c. [c]) (trim i)) (uniqueSaleIds demo_lease)) =
      [js ''DT000001-0001-0000007'', js ''DT000001-0001-0000008'']" by code_simp
  show ?thesis using leased_references_given_once [OF saved _ run key] unfolding ids by (simp add: keyed_leases_def del: js_Cons)
qed

definition demo_sales :: "(jsstr, nat) sale_store" where
  "demo_sales = snd (snd (reserveOfflineFiscalSale (\<lambda>c. [c]) id True (js ''T1'') (js ''A1'') (demo_sale ''X1'') (demo_leases, [])))"

theorem reservation_is_all_or_nothing_witness:
  "snd (reserveOfflineFiscalSale (\<lambda>c. [c]) id True (js ''T2'') (js ''A1'') (demo_sale ''X2'') (demo_leases, demo_sales)) = (demo_leases, demo_sales)"
proof -
  let ?run = "reserveOfflineFiscalSale (\<lambda>c. [c]) id True (js ''T2'') (js ''A1'') (demo_sale ''X2'') (demo_leases, demo_sales)"
  have failed: "fst ?run = Inl EarlierReceiptUnresolved" by code_simp
  have wf: "idb_wf demo_sales" by code_simp
  show ?thesis using reservation_is_all_or_nothing [OF prod.collapse [of ?run, symmetric] wf refl] unfolding failed by simp
qed

definition demo_confirmed :: "(jsstr, nat) sale_store" where
  "demo_confirmed = snd (updateOfflineFiscalSale True (js ''A1'') (js ''R1:X1'') (no_update\<lparr>up_status := Some Receipt_confirmed\<rparr>) demo_sales)"

theorem claim_is_exclusive_for_ninety_seconds_witness:
  "fst (claimOfflineFiscalSaleForSync (\<lambda>t. Some (int (digits_val t))) (\<lambda>t. nat_digits (nat t)) True (js ''A1'') (js ''R1:X1'') 65000
     (snd (claimOfflineFiscalSaleForSync (\<lambda>t. Some (int (digits_val t))) (\<lambda>t. nat_digits (nat t)) True (js ''A1'') (js ''R1:X1'') 5000
       demo_confirmed))) = Inr None"
proof -
  let ?claim = "\<lambda>t. claimOfflineFiscalSaleForSync (\<lambda>t. Some (int (digits_val t))) (\<lambda>t. nat_digits (nat t)) True (js ''A1'') (js ''R1:X1'') t"
  have "case fst (?claim 5000 demo_confirmed) of Inr (Some c) \<Rightarrow> True | _ \<Rightarrow> False" by code_simp
  then obtain c where c: "?claim 5000 demo_confirmed = (Inr (Some c), snd (?claim 5000 demo_confirmed))"
    by (auto split: sum.splits option.splits simp: prod_eq_iff)
  have "list_all (\<lambda>(i, sale). fs_id sale = i) demo_confirmed" by code_simp
  then have ids: "\<forall>i sale. idb_get demo_confirmed i = Some sale \<longrightarrow> fs_id sale = i" by (auto simp: list_all_iff dest: map_of_SomeD)
  show ?thesis using claim_is_exclusive_for_ninety_seconds [OF c ids, of 65000] by (simp del: js_Cons)
qed

end
