(* ===== verification/Transactions.thy ===== *)
theory Transactions
  imports Prelude "HOL-Library.AList"
begin

text \<open>
  Database transactions as state passing with errors. The handlers of \<open>apps/api\<close> run a sequence
  of queries between BEGIN and COMMIT on one connection; an exception anywhere rolls all of
  them back. A transaction body is a function from the database to an error or a result with
  the new database. Concurrent handlers are serialised by the row locks and advisory locks
  that the source takes, so one handler is one atomic step.
\<close>

section \<open>Transaction bodies\<close>

type_synonym ('s, 'e, 'a) tx = "'s \<Rightarrow> 'e + 'a \<times> 's"

definition tx_return :: "'a \<Rightarrow> ('s, 'e, 'a) tx" where
  "tx_return a s = Inr (a, s)"

definition tx_throw :: "'e \<Rightarrow> ('s, 'e, 'a) tx" where
  "tx_throw e s = Inl e"

definition tx_bind :: "('s, 'e, 'a) tx \<Rightarrow> ('a \<Rightarrow> ('s, 'e, 'b) tx) \<Rightarrow> ('s, 'e, 'b) tx" where
  "tx_bind m f s = (case m s of Inl e \<Rightarrow> Inl e | Inr (a, s') \<Rightarrow> f a s')"

definition tx_require :: "bool \<Rightarrow> 'e \<Rightarrow> ('s, 'e, unit) tx" where
  "tx_require b e = (if b then tx_return () else tx_throw e)"

definition tx_reads :: "('s \<Rightarrow> 'a) \<Rightarrow> ('s, 'e, 'a) tx" where
  "tx_reads f s = Inr (f s, s)"

definition tx_writes :: "('s \<Rightarrow> 's) \<Rightarrow> ('s, 'e, unit) tx" where
  "tx_writes f s = Inr ((), f s)"

text \<open>The first row of a query, or an error when there is none.\<close>

definition tx_row :: "('s \<Rightarrow> 'a option) \<Rightarrow> 'e \<Rightarrow> ('s, 'e, 'a) tx" where
  "tx_row q e s = (case q s of None \<Rightarrow> Inl e | Some a \<Rightarrow> Inr (a, s))"

definition tx_res :: "'e + 'a \<Rightarrow> ('s, 'e, 'a) tx" where
  "tx_res r s = (case r of Inl e \<Rightarrow> Inl e | Inr a \<Rightarrow> Inr (a, s))"

text \<open>\<open>for (const x of xs) await f(x)\<close>, without and with the results.\<close>

fun tx_for :: "('a \<Rightarrow> ('s, 'e, unit) tx) \<Rightarrow> 'a list \<Rightarrow> ('s, 'e, unit) tx" where
  "tx_for f [] = tx_return ()"
| "tx_for f (x # xs) = tx_bind (f x) (\<lambda>_. tx_for f xs)"

fun tx_map :: "('a \<Rightarrow> ('s, 'e, 'b) tx) \<Rightarrow> 'a list \<Rightarrow> ('s, 'e, 'b list) tx" where
  "tx_map f [] = tx_return []"
| "tx_map f (x # xs) = tx_bind (f x) (\<lambda>y. tx_bind (tx_map f xs) (\<lambda>ys. tx_return (y # ys)))"

named_theorems tx_simps \<open>what a successful run of a transaction body did\<close>

lemma tx_return_Inr [tx_simps]: "tx_return a s = Inr r \<longleftrightarrow> r = (a, s)"
  by (auto simp: tx_return_def)

lemma tx_throw_Inr [tx_simps]: "tx_throw e s \<noteq> Inr r"
  by (simp add: tx_throw_def)

lemma tx_bind_Inr [tx_simps]: "tx_bind m f s = Inr r \<longleftrightarrow> (\<exists>a s'. m s = Inr (a, s') \<and> f a s' = Inr r)"
  by (auto simp: tx_bind_def split: sum.splits)

lemma tx_require_Inr [tx_simps]: "tx_require b e s = Inr r \<longleftrightarrow> b \<and> r = ((), s)"
  by (auto simp: tx_require_def tx_simps)

lemma tx_reads_Inr [tx_simps]: "tx_reads f s = Inr r \<longleftrightarrow> r = (f s, s)"
  by (auto simp: tx_reads_def)

lemma tx_writes_Inr [tx_simps]: "tx_writes f s = Inr r \<longleftrightarrow> r = ((), f s)"
  by (auto simp: tx_writes_def)

lemma tx_row_Inr [tx_simps]: "tx_row q e s = Inr r \<longleftrightarrow> (\<exists>a. q s = Some a \<and> r = (a, s))"
  by (auto simp: tx_row_def split: option.splits)

lemma tx_res_Inr [tx_simps]: "tx_res m s = Inr r \<longleftrightarrow> (\<exists>a. m = Inr a \<and> r = (a, s))"
  by (auto simp: tx_res_def split: sum.splits)

lemma tx_if_Inr [tx_simps]: "(if b then m else n) s = Inr r \<longleftrightarrow> (if b then m s = Inr r else n s = Inr r)"
  by simp

section \<open>Rules\<close>

text \<open>If a body starts in \<open>P\<close> and succeeds, it ends in \<open>Q\<close> of its result.\<close>

definition tx_spec :: "('s \<Rightarrow> bool) \<Rightarrow> ('s, 'e, 'a) tx \<Rightarrow> ('a \<Rightarrow> 's \<Rightarrow> bool) \<Rightarrow> bool" where
  "tx_spec P m Q \<longleftrightarrow> (\<forall>s a s'. P s \<longrightarrow> m s = Inr (a, s') \<longrightarrow> Q a s')"

lemma tx_specI: "(\<And>s a s'. P s \<Longrightarrow> m s = Inr (a, s') \<Longrightarrow> Q a s') \<Longrightarrow> tx_spec P m Q"
  by (auto simp: tx_spec_def)

lemma tx_specD: "tx_spec P m Q \<Longrightarrow> P s \<Longrightarrow> m s = Inr (a, s') \<Longrightarrow> Q a s'"
  by (auto simp: tx_spec_def)

lemma tx_spec_bind: "tx_spec P m R \<Longrightarrow> (\<And>a. tx_spec (R a) (f a) Q) \<Longrightarrow> tx_spec P (tx_bind m f) Q"
  unfolding tx_spec_def by (fastforce simp: tx_simps)

lemma tx_spec_pre: "tx_spec P' m Q \<Longrightarrow> (\<And>s. P s \<Longrightarrow> P' s) \<Longrightarrow> tx_spec P m Q"
  by (auto simp: tx_spec_def)

lemma tx_spec_for: "(\<And>x. x \<in> set xs \<Longrightarrow> tx_spec P (f x) (\<lambda>_. P)) \<Longrightarrow> tx_spec P (tx_for f xs) (\<lambda>_. P)"
proof (induction xs)
  case Nil
  show ?case by (simp add: tx_spec_def tx_simps)
next
  case (Cons x xs)
  show ?case unfolding tx_for.simps
    by (rule tx_spec_bind [where R = "\<lambda>_. P"]) (simp_all add: Cons)
qed

text \<open>
  A body whose every successful run relates the database before to the one after. For a
  reflexive and transitive relation the bodies compose.
\<close>

definition tx_within :: "('s \<Rightarrow> 's \<Rightarrow> bool) \<Rightarrow> ('s, 'e, 'a) tx \<Rightarrow> bool" where
  "tx_within R m \<longleftrightarrow> (\<forall>s a s'. m s = Inr (a, s') \<longrightarrow> R s s')"

lemma tx_withinI: "(\<And>s a s'. m s = Inr (a, s') \<Longrightarrow> R s s') \<Longrightarrow> tx_within R m"
  by (simp add: tx_within_def)

lemma tx_withinD: "tx_within R m \<Longrightarrow> m s = Inr (a, s') \<Longrightarrow> R s s'"
  by (auto simp: tx_within_def)

locale step_relation =
  fixes R :: "'s \<Rightarrow> 's \<Rightarrow> bool"
  assumes refl: "R s s"
    and trans: "R s s' \<Longrightarrow> R s' s'' \<Longrightarrow> R s s''"
begin

lemma within_return: "tx_within R (tx_return a)"
  and within_throw: "tx_within R (tx_throw e)"
  and within_require: "tx_within R (tx_require b e)"
  and within_reads: "tx_within R (tx_reads f)"
  and within_row: "tx_within R (tx_row q e)"
  and within_res: "tx_within R (tx_res r)"
  by (auto simp: tx_within_def tx_simps refl)

lemma within_writes: "(\<And>s. R s (w s)) \<Longrightarrow> tx_within R (tx_writes w)"
  by (auto simp: tx_within_def tx_simps)

lemma within_bind: "tx_within R m \<Longrightarrow> (\<And>a. tx_within R (g a)) \<Longrightarrow> tx_within R (tx_bind m g)"
  unfolding tx_within_def using trans by (fastforce simp: tx_simps)

lemma within_if: "tx_within R m \<Longrightarrow> tx_within R n \<Longrightarrow> tx_within R (if b then m else n)"
  by simp

lemma within_for: "(\<And>x. tx_within R (g x)) \<Longrightarrow> tx_within R (tx_for g xs)"
  by (induction xs) (auto intro: within_return within_bind)

lemma within_map: "(\<And>x. tx_within R (g x)) \<Longrightarrow> tx_within R (tx_map g xs)"
  by (induction xs) (auto intro!: within_return within_bind)

lemma within_option:
  "tx_within R m \<Longrightarrow> (\<And>x. tx_within R (g x)) \<Longrightarrow> tx_within R (case v of None \<Rightarrow> m | Some x \<Rightarrow> g x)"
  by (simp split: option.split)

lemma within_prod: "(\<And>x y. tx_within R (g x y)) \<Longrightarrow> tx_within R (case v of (x, y) \<Rightarrow> g x y)"
  by (simp split: prod.split)

lemmas within = within_return within_throw within_require within_reads within_row within_res
  within_writes within_bind within_if within_for within_map within_option within_prod

end

section \<open>Tables\<close>

text \<open>
  A table with a unique key is an association list; INSERT \<open>...\<close> ON CONFLICT DO UPDATE is
  \<open>AList.update\<close>. A table that is only searched is the list of its rows.
\<close>

lemma map_of_upsert [simp]: "map_of (AList.update k v t) = (map_of t)(k \<mapsto> v)"
  by (rule update_conv')

text \<open>UPDATE \<open>...\<close> SET \<open>...\<close> WHERE \<open>...\<close>\<close>

definition update_where :: "('r \<Rightarrow> bool) \<Rightarrow> ('r \<Rightarrow> 'r) \<Rightarrow> 'r list \<Rightarrow> 'r list" where
  "update_where p f rows = map (\<lambda>r. if p r then f r else r) rows"

lemma set_update_where: "set (update_where p f rows) = (\<lambda>r. if p r then f r else r) ` set rows"
  by (simp add: update_where_def)

text \<open>SELECT sum(\<open>...\<close>) WHERE \<open>...\<close>\<close>

definition sum_where :: "('r \<Rightarrow> bool) \<Rightarrow> ('r \<Rightarrow> int) \<Rightarrow> 'r list \<Rightarrow> int" where
  "sum_where p f rows = sum_list (map f (filter p rows))"

lemma sum_where_simps [simp]:
  "sum_where p f [] = 0"
  "sum_where p f (r # rows) = (if p r then f r else 0) + sum_where p f rows"
  "sum_where p f (xs @ ys) = sum_where p f xs + sum_where p f ys"
  by (simp_all add: sum_where_def)

lemma sum_where_nonneg: "(\<And>r. r \<in> set rows \<Longrightarrow> p r \<Longrightarrow> 0 \<le> f r) \<Longrightarrow> 0 \<le> sum_where p f rows"
  by (induction rows) auto

lemma sum_where_cong:
  "(\<And>r. r \<in> set rows \<Longrightarrow> p r = q r) \<Longrightarrow> (\<And>r. r \<in> set rows \<Longrightarrow> p r \<Longrightarrow> f r = g r) \<Longrightarrow>
   sum_where p f rows = sum_where q g rows"
  by (induction rows) auto

lemma sum_where_update:
  "sum_where p f (update_where u g rows) = sum_where (\<lambda>r. if u r then p (g r) else p r) (\<lambda>r. if u r then f (g r) else f r) rows"
  by (induction rows) (auto simp: update_where_def)

text \<open>Updating the one row of a key changes a sum by the change of that row.\<close>

lemma sum_where_update_one:
  assumes "distinct (map k rows)" and "r \<in> set rows"
  shows "sum_where p f (update_where (\<lambda>x. k x = k r) g rows) =
     sum_where p f rows - (if p r then f r else 0) + (if p (g r) then f (g r) else 0)"
  using assms
proof (induction rows)
  case (Cons x rows)
  show ?case
  proof (cases "x = r")
    case True
    then have "\<forall>y \<in> set rows. k y \<noteq> k r" using Cons.prems by (auto simp: rev_image_eqI)
    then have "update_where (\<lambda>x. k x = k r) g rows = rows" by (simp add: update_where_def map_idI)
    with True show ?thesis by (simp add: update_where_def)
  next
    case False
    with Cons.prems have "r \<in> set rows" "k x \<noteq> k r" by auto
    with Cons show ?thesis by (simp add: update_where_def)
  qed
qed simp

lemma map_key_update: "(\<And>r. k (f r) = k r) \<Longrightarrow> map k (update_where p f rows) = map k rows"
  by (simp add: update_where_def)

lemma find_SomeD: "find p xs = Some x \<Longrightarrow> x \<in> set xs \<and> p x"
  by (metis find_Some_iff nth_mem)

lemma tx_bind_assoc: "tx_bind (tx_bind m f) g = tx_bind m (\<lambda>a. tx_bind (f a) g)"
  by (auto simp: tx_bind_def fun_eq_iff split: sum.split)

lemma tx_bind_return: "tx_bind (tx_return a) f = f a"
  by (simp add: tx_bind_def tx_return_def fun_eq_iff)

lemma bind_unit: "tx_spec P (tx_bind m tx_return) Q \<Longrightarrow> tx_spec P m Q"
  unfolding tx_spec_def by (auto simp: tx_simps)

lemma bind_res: "(\<And>n. r = Inr n \<Longrightarrow> tx_spec P (f n) Q) \<Longrightarrow> tx_spec P (tx_bind (tx_res r) f) Q"
  by (auto simp: tx_spec_def tx_simps)

lemma bind_require: "(\<And>u. b \<Longrightarrow> tx_spec P (f u) Q) \<Longrightarrow> tx_spec P (tx_bind (tx_require b e) f) Q"
  unfolding tx_spec_def by (auto simp: tx_simps)

lemma spec_return: "(\<And>s. P s \<Longrightarrow> Q a s) \<Longrightarrow> tx_spec P (tx_return a) Q"
  by (auto simp: tx_spec_def tx_simps)

end
