(* ===== verification/InventoryRequests.thy ===== *)
theory InventoryRequests
  imports Transactions
begin

text \<open>
  The requests of \<open>apps/api/src/inventory\<close>: the checks that the DTO classes declare, the decimal
  texts, the normalisation of every request and the tracking rules of a product
  (\<open>inventory.dto.ts\<close> and the helper functions at the end of \<open>inventory.service.ts\<close>).

  A UUID is a number here: the service only compares identifiers, and canonical texts of UUIDs
  are equal exactly when the identifiers are. \<open>tbl\<close> is the case table of \<open>toUpperCase\<close>.
\<close>

type_synonym uuid = nat

section \<open>Errors\<close>

text \<open>The codes of \<open>ApiErrorException\<close>, and what PostgreSQL raises.\<close>

datatype inv_error = Api string | DtoRejected | InternalError string | UniqueViolation string
  | CheckViolation string | NumericOverflow | ValueTooLong

section \<open>Texts\<close>

text \<open>\<open>s.replace(/\s+/gu, ' ')\<close>\<close>

fun squeeze :: "bool \<Rightarrow> jsstr \<Rightarrow> jsstr" where
  "squeeze inside [] = []"
| "squeeze inside (c # s) =
     (if is_space c then (if inside then squeeze True s else 32 # squeeze True s) else c # squeeze False s)"

definition clean :: "jsstr \<Rightarrow> string \<Rightarrow> inv_error + jsstr" where
  "clean value code = (let result = squeeze False (trim value) in
     if result = [] then Inl (Api code) else Inr result)"

definition cleanCode :: "(nat \<Rightarrow> jsstr) \<Rightarrow> jsstr \<Rightarrow> string \<Rightarrow> inv_error + jsstr" where
  "cleanCode tbl value code =
     res_bind (clean value code) (\<lambda>v. Inr (toUpperCase tbl (filter (\<lambda>c. \<not> is_space c) v)))"

text \<open>\<open>/^[A-Za-z0-9._:-]{8,128}$/u\<close>\<close>

definition validKey :: "jsstr option \<Rightarrow> inv_error + jsstr" where
  "validKey key = (case key of None \<Rightarrow> Inl (Api ''IDEMPOTENCY_KEY_REQUIRED'')
   | Some k \<Rightarrow>
       if 8 \<le> length k \<and> length k \<le> 128 \<and>
          list_all (\<lambda>c. is_upper c \<or> is_lower c \<or> is_digit c \<or> c \<in> {46, 95, 58, 45}) k
       then Inr k else Inl (Api ''IDEMPOTENCY_KEY_REQUIRED''))"

definition normalizedSerialNumbers :: "(nat \<Rightarrow> jsstr) \<Rightarrow> jsstr list option \<Rightarrow> inv_error + jsstr list" where
  "normalizedSerialNumbers tbl values =
     res_bind (res_map (\<lambda>v. cleanCode tbl v ''SERIAL_NUMBER_REQUIRED'') (case_option [] id values)) (\<lambda>codes.
     let serialNumbers = new_Set codes in
     if length serialNumbers \<noteq> length (case_option [] id values) then Inl (Api ''SERIAL_NUMBER_DUPLICATE'')
     else Inr serialNumbers)"

section \<open>Decimals with four places\<close>

text \<open>The pattern of the DTOs, \<open>/^\d+(\.\d{1,4})?$/u\<close>.\<close>

definition dto_decimal :: "jsstr \<Rightarrow> bool" where
  "dto_decimal s = (let fraction = dropWhile is_digit s in
     takeWhile is_digit s \<noteq> [] \<and>
     (case fraction of [] \<Rightarrow> True
      | c # ds \<Rightarrow> c = 46 \<and> 1 \<le> length ds \<and> length ds \<le> 4 \<and> list_all is_digit ds))"

definition normalizeQuantity :: "jsstr \<Rightarrow> jsstr" where
  "normalizeQuantity value = (case split_on 46 value of
     [] \<Rightarrow> [] | whole # rest \<Rightarrow> whole @ [46] @ padEnd 4 48 (case rest of [] \<Rightarrow> [] | fraction # _ \<Rightarrow> fraction))"

text \<open>\<open>BigInt(value.replace('.', ''))\<close>, on the texts that the pattern admits.\<close>

definition fixedDecimal :: "jsstr \<Rightarrow> int" where
  "fixedDecimal value = int (digits_val (remove1 46 value))"

definition fromFixedDecimal :: "int \<Rightarrow> jsstr" where
  "fromFixedDecimal value = (let t = padStart 5 48 (bigint_toString value) in
     slice t 0 (- 4) @ [46] @ slice_from t (- 4))"

definition normalizePositiveQuantity :: "jsstr \<Rightarrow> inv_error + jsstr" where
  "normalizePositiveQuantity value = (let quantity = normalizeQuantity value in
     if fixedDecimal quantity \<le> 0 then Inl (Api ''QUANTITY_INVALID'') else Inr quantity)"

definition normalizeMoney :: "jsstr \<Rightarrow> inv_error + jsstr" where
  "normalizeMoney value = (let money = normalizeQuantity value in
     if fixedDecimal money < 0 then Inl (Api ''MONEY_INVALID'') else Inr money)"

definition sumQuantities :: "jsstr list \<Rightarrow> jsstr" where
  "sumQuantities values = fromFixedDecimal (foldl (\<lambda>sum value. sum + fixedDecimal value) 0 values)"

definition multiplyFixed :: "jsstr \<Rightarrow> jsstr \<Rightarrow> jsstr" where
  "multiplyFixed left right = fromFixedDecimal ((fixedDecimal left * fixedDecimal right + 5000) sdiv 10000)"

definition decimalDifference :: "jsstr \<Rightarrow> jsstr \<Rightarrow> bool \<times> jsstr" where
  "decimalDifference counted expected =
     (let difference = fixedDecimal counted - fixedDecimal expected;
          absolute = (if difference < 0 then - difference else difference)
      in (0 < difference, fromFixedDecimal absolute))"

definition isWholeQuantity :: "jsstr \<Rightarrow> bool" where
  "isWholeQuantity value = (5 \<le> length value \<and> drop (length value - 5) value = js ''.0000'')"

text \<open>\<open>Number(quantity)\<close> where the text ends with \<open>.0000\<close>.\<close>

definition wholeNumber :: "jsstr \<Rightarrow> int" where
  "wholeNumber value = fixedDecimal value div 10000"

section \<open>Requests\<close>

text \<open>
  A request and its normal form have the same fields: the normal form has cleaned texts,
  quantities with four places and upper-case serial numbers without repetition.
\<close>

datatype ProductTrackingMode = TrackNone | TrackSerial | TrackBatch

record ProductRow =
  tracking_mode :: ProductTrackingMode
  requires_expiry :: bool

record ReceiveStockRequest =
  re_batchNumber :: "jsstr option"
  re_expiresAt :: "jsstr option"
  re_productId :: uuid
  re_quantity :: jsstr
  re_referenceId :: jsstr
  re_serialNumbers :: "jsstr list option"
  re_supplierPartnerId :: "uuid option"
  re_unitCostEur :: "jsstr option"
  re_warehouseId :: uuid

datatype StockIssueReason = Sale | Repair | Writeoff

record IssueStockRequest =
  iss_batchNumber :: "jsstr option"
  iss_customerPartnerId :: "uuid option"
  iss_productId :: uuid
  iss_quantity :: jsstr
  iss_reason :: StockIssueReason
  iss_referenceId :: jsstr
  iss_reservationId :: "uuid option"
  iss_serialNumbers :: "jsstr list option"
  iss_technicianAccountId :: "uuid option"
  iss_warehouseId :: uuid

datatype StockReturnDisposition = Restock | Service

record ReturnStockRequest =
  ret_destinationWarehouseId :: uuid
  ret_disposition :: StockReturnDisposition
  ret_originalIssueId :: uuid
  ret_quantity :: jsstr
  ret_referenceId :: jsstr
  ret_serialNumbers :: "jsstr list option"

record TransferStockRequest =
  tr_batchNumber :: "jsstr option"
  tr_fromWarehouseId :: uuid
  tr_productId :: uuid
  tr_quantity :: jsstr
  tr_referenceId :: jsstr
  tr_serialNumbers :: "jsstr list option"
  tr_toWarehouseId :: uuid

datatype StockReservationReferenceType = Sales_order | Quotation | Service_request

record CreateStockReservationRequest =
  rv_productId :: uuid
  rv_quantity :: jsstr
  rv_referenceId :: jsstr
  rv_referenceType :: StockReservationReferenceType
  rv_serialNumbers :: "jsstr list option"
  rv_warehouseId :: uuid

record StocktakeBatchCount =
  bc_batchNumber :: jsstr
  bc_countedQuantity :: jsstr
  bc_expiresAt :: "jsstr option"

record RecordStocktakeCountRequest =
  cnt_batches :: "StocktakeBatchCount list option"
  cnt_countedQuantity :: jsstr
  cnt_productId :: uuid
  cnt_serialNumbers :: "jsstr list option"

text \<open>The serial numbers of a request, \<open>input.serialNumbers ?? []\<close>.\<close>

abbreviation serials_of :: "jsstr list option \<Rightarrow> jsstr list" where
  "serials_of v \<equiv> case_option [] id v"

text \<open>\<open>...(v ? { v: clean(v) } : {})\<close>: an empty text counts as absent.\<close>

definition clean_optional :: "jsstr option \<Rightarrow> string \<Rightarrow> inv_error + jsstr option" where
  "clean_optional v code = (case v of None \<Rightarrow> Inr None
     | Some t \<Rightarrow> if t = [] then Inr None else res_bind (clean t code) (\<lambda>c. Inr (Some c)))"

definition some_text :: "jsstr option \<Rightarrow> jsstr option" where
  "some_text v = (case v of None \<Rightarrow> None | Some t \<Rightarrow> if t = [] then None else Some t)"

definition normalizeReceipt :: "(nat \<Rightarrow> jsstr) \<Rightarrow> ReceiveStockRequest \<Rightarrow> inv_error + ReceiveStockRequest" where
  "normalizeReceipt tbl input =
     res_bind (normalizedSerialNumbers tbl (re_serialNumbers input)) (\<lambda>serialNumbers.
     res_bind (normalizePositiveQuantity (re_quantity input)) (\<lambda>quantity.
     res_bind (clean (re_referenceId input) ''RECEIPT_REFERENCE_REQUIRED'') (\<lambda>referenceId.
     res_bind (normalizeMoney (case_option (js ''0'') id (re_unitCostEur input))) (\<lambda>unitCostEur.
     res_bind (clean_optional (re_batchNumber input) ''BATCH_NUMBER_REQUIRED'') (\<lambda>batchNumber.
     Inr (input\<lparr>re_quantity := quantity, re_referenceId := referenceId, re_serialNumbers := Some serialNumbers,
       re_unitCostEur := Some unitCostEur, re_batchNumber := batchNumber,
       re_expiresAt := some_text (re_expiresAt input)\<rparr>))))))"

definition normalizeIssue :: "(nat \<Rightarrow> jsstr) \<Rightarrow> IssueStockRequest \<Rightarrow> inv_error + IssueStockRequest" where
  "normalizeIssue tbl input =
     res_bind (normalizedSerialNumbers tbl (iss_serialNumbers input)) (\<lambda>serialNumbers.
     res_bind (normalizePositiveQuantity (iss_quantity input)) (\<lambda>quantity.
     res_bind (clean (iss_referenceId input) ''ISSUE_REFERENCE_REQUIRED'') (\<lambda>referenceId.
     res_bind (clean_optional (iss_batchNumber input) ''BATCH_NUMBER_REQUIRED'') (\<lambda>batchNumber.
     Inr (input\<lparr>iss_quantity := quantity, iss_referenceId := referenceId,
       iss_serialNumbers := Some serialNumbers, iss_batchNumber := batchNumber\<rparr>)))))"

definition normalizeReturn :: "(nat \<Rightarrow> jsstr) \<Rightarrow> ReturnStockRequest \<Rightarrow> inv_error + ReturnStockRequest" where
  "normalizeReturn tbl input =
     res_bind (normalizePositiveQuantity (ret_quantity input)) (\<lambda>quantity.
     res_bind (clean (ret_referenceId input) ''RETURN_REFERENCE_REQUIRED'') (\<lambda>referenceId.
     res_bind (normalizedSerialNumbers tbl (ret_serialNumbers input)) (\<lambda>serialNumbers.
     Inr (input\<lparr>ret_quantity := quantity, ret_referenceId := referenceId, ret_serialNumbers := Some serialNumbers\<rparr>))))"

definition normalizeTransfer :: "(nat \<Rightarrow> jsstr) \<Rightarrow> TransferStockRequest \<Rightarrow> inv_error + TransferStockRequest" where
  "normalizeTransfer tbl input =
     (if tr_fromWarehouseId input = tr_toWarehouseId input then Inl (Api ''TRANSFER_WAREHOUSE_SAME'')
      else
     res_bind (normalizePositiveQuantity (tr_quantity input)) (\<lambda>quantity.
     res_bind (clean (tr_referenceId input) ''TRANSFER_REFERENCE_REQUIRED'') (\<lambda>referenceId.
     res_bind (normalizedSerialNumbers tbl (tr_serialNumbers input)) (\<lambda>serialNumbers.
     res_bind (clean_optional (tr_batchNumber input) ''BATCH_NUMBER_REQUIRED'') (\<lambda>batchNumber.
     Inr (input\<lparr>tr_quantity := quantity, tr_referenceId := referenceId,
       tr_serialNumbers := Some serialNumbers, tr_batchNumber := batchNumber\<rparr>))))))"

definition normalizeReservation :: "(nat \<Rightarrow> jsstr) \<Rightarrow> CreateStockReservationRequest \<Rightarrow>
    inv_error + CreateStockReservationRequest" where
  "normalizeReservation tbl input =
     res_bind (normalizePositiveQuantity (rv_quantity input)) (\<lambda>quantity.
     res_bind (clean (rv_referenceId input) ''RESERVATION_REFERENCE_REQUIRED'') (\<lambda>referenceId.
     res_bind (normalizedSerialNumbers tbl (rv_serialNumbers input)) (\<lambda>serialNumbers.
     Inr (input\<lparr>rv_quantity := quantity, rv_referenceId := referenceId, rv_serialNumbers := Some serialNumbers\<rparr>))))"

definition normalizeStocktakeBatches :: "(nat \<Rightarrow> jsstr) \<Rightarrow> StocktakeBatchCount list option \<Rightarrow>
    inv_error + StocktakeBatchCount list" where
  "normalizeStocktakeBatches tbl values =
     res_bind (res_map (\<lambda>v. res_bind (clean (bc_batchNumber v) ''BATCH_NUMBER_REQUIRED'') (\<lambda>n.
        Inr \<lparr>bc_batchNumber = n, bc_countedQuantity = normalizeQuantity (bc_countedQuantity v),
             bc_expiresAt = some_text (bc_expiresAt v)\<rparr>)) (case_option [] id values)) (\<lambda>batches.
     if length (new_Set (map (\<lambda>b. toUpperCase tbl (bc_batchNumber b)) batches)) \<noteq> length batches
     then Inl (Api ''STOCKTAKE_BATCH_DUPLICATE'') else Inr batches)"

definition normalizeCount :: "(nat \<Rightarrow> jsstr) \<Rightarrow> RecordStocktakeCountRequest \<Rightarrow> inv_error + RecordStocktakeCountRequest" where
  "normalizeCount tbl input =
     res_bind (normalizedSerialNumbers tbl (cnt_serialNumbers input)) (\<lambda>serialNumbers.
     res_bind (normalizeStocktakeBatches tbl (cnt_batches input)) (\<lambda>batches.
     Inr (input\<lparr>cnt_countedQuantity := normalizeQuantity (cnt_countedQuantity input),
       cnt_serialNumbers := Some serialNumbers, cnt_batches := Some batches\<rparr>)))"

section \<open>Tracking\<close>

text \<open>One serial number per whole unit, and none when there must be none.\<close>

definition serials_cover :: "jsstr list \<Rightarrow> jsstr \<Rightarrow> bool" where
  "serials_cover serialNumbers quantity \<longleftrightarrow>
     isWholeQuantity quantity \<and> int (length serialNumbers) = wholeNumber quantity"

definition validateTracking :: "ProductRow \<Rightarrow> ReceiveStockRequest \<Rightarrow> inv_error + unit" where
  "validateTracking product input = (let serials = serials_of (re_serialNumbers input) in
     if tracking_mode product = TrackSerial \<and> (serials = [] \<or> \<not> serials_cover serials (re_quantity input))
     then Inl (Api ''SERIAL_TRACKING_REQUIRED'')
     else if tracking_mode product \<noteq> TrackSerial \<and> serials \<noteq> [] then Inl (Api ''SERIAL_TRACKING_NOT_ALLOWED'')
     else if tracking_mode product = TrackBatch \<and> re_batchNumber input = None then Inl (Api ''BATCH_TRACKING_REQUIRED'')
     else if tracking_mode product \<noteq> TrackBatch \<and> re_batchNumber input \<noteq> None then Inl (Api ''BATCH_TRACKING_NOT_ALLOWED'')
     else if requires_expiry product \<and> re_expiresAt input = None then Inl (Api ''EXPIRY_REQUIRED'')
     else Inr ())"

text \<open>The rule that \<open>validateIssueTracking\<close> and \<open>validateTransferTracking\<close> both spell out.\<close>

definition tracking_ok :: "ProductRow \<Rightarrow> jsstr list \<Rightarrow> jsstr \<Rightarrow> jsstr option \<Rightarrow> inv_error + unit" where
  "tracking_ok product serials quantity batchNumber =
     (if tracking_mode product = TrackSerial \<and> (serials = [] \<or> \<not> serials_cover serials quantity)
      then Inl (Api ''SERIAL_TRACKING_REQUIRED'')
      else if tracking_mode product \<noteq> TrackSerial \<and> serials \<noteq> [] then Inl (Api ''SERIAL_TRACKING_NOT_ALLOWED'')
      else if tracking_mode product = TrackBatch \<and> batchNumber = None then Inl (Api ''BATCH_TRACKING_REQUIRED'')
      else if tracking_mode product \<noteq> TrackBatch \<and> batchNumber \<noteq> None then Inl (Api ''BATCH_TRACKING_NOT_ALLOWED'')
      else Inr ())"

definition validateIssueTracking :: "ProductRow \<Rightarrow> IssueStockRequest \<Rightarrow> inv_error + unit" where
  "validateIssueTracking product input =
     tracking_ok product (serials_of (iss_serialNumbers input)) (iss_quantity input) (iss_batchNumber input)"

definition validateTransferTracking :: "ProductRow \<Rightarrow> TransferStockRequest \<Rightarrow> inv_error + unit" where
  "validateTransferTracking product input =
     tracking_ok product (serials_of (tr_serialNumbers input)) (tr_quantity input) (tr_batchNumber input)"

definition validateReturnTracking :: "ProductRow \<Rightarrow> ReturnStockRequest \<Rightarrow> uuid option \<Rightarrow> inv_error + unit" where
  "validateReturnTracking product input batchId = (let serials = serials_of (ret_serialNumbers input) in
     if tracking_mode product = TrackSerial \<and> (serials = [] \<or> \<not> serials_cover serials (ret_quantity input))
     then Inl (Api ''RETURN_SERIAL_TRACKING_REQUIRED'')
     else if tracking_mode product \<noteq> TrackSerial \<and> serials \<noteq> [] then Inl (Api ''RETURN_SERIAL_TRACKING_NOT_ALLOWED'')
     else if tracking_mode product = TrackBatch \<and> batchId = None then Inl (Api ''RETURN_BATCH_EVIDENCE_MISSING'')
     else Inr ())"

definition validateReservationTracking :: "ProductRow \<Rightarrow> CreateStockReservationRequest \<Rightarrow> inv_error + unit" where
  "validateReservationTracking product input = (let serials = serials_of (rv_serialNumbers input) in
     if tracking_mode product = TrackSerial \<and> \<not> serials_cover serials (rv_quantity input)
     then Inl (Api ''RESERVATION_SERIAL_COUNT_MISMATCH'')
     else if tracking_mode product \<noteq> TrackSerial \<and> serials \<noteq> [] then Inl (Api ''SERIAL_TRACKING_NOT_ALLOWED'')
     else Inr ())"

definition validateStocktakeTracking :: "ProductRow \<Rightarrow> RecordStocktakeCountRequest \<Rightarrow> inv_error + unit" where
  "validateStocktakeTracking product input =
     (let serials = serials_of (cnt_serialNumbers input); batches = case_option [] id (cnt_batches input) in
      if tracking_mode product = TrackNone \<and> (serials \<noteq> [] \<or> batches \<noteq> []) then Inl (Api ''STOCKTAKE_TRACKING_NOT_ALLOWED'')
      else if tracking_mode product = TrackSerial \<and> batches \<noteq> [] then Inl (Api ''BATCH_TRACKING_NOT_ALLOWED'')
      else if tracking_mode product = TrackSerial \<and> \<not> serials_cover serials (cnt_countedQuantity input)
           then Inl (Api ''STOCKTAKE_SERIAL_COUNT_MISMATCH'')
      else if tracking_mode product = TrackBatch \<and> serials \<noteq> [] then Inl (Api ''SERIAL_TRACKING_NOT_ALLOWED'')
      else if tracking_mode product = TrackBatch \<and>
              sumQuantities (map bc_countedQuantity batches) \<noteq> cnt_countedQuantity input
           then Inl (Api ''STOCKTAKE_BATCH_COUNT_MISMATCH'')
      else if tracking_mode product = TrackBatch \<and> requires_expiry product \<and>
              list_ex (\<lambda>b. bc_expiresAt b = None) batches then Inl (Api ''EXPIRY_REQUIRED'')
      else Inr ())"

section \<open>Texts of decimals\<close>

lemma fromFixedDecimal_parts:
  obtains a b where "fromFixedDecimal (int n) = a @ 46 # b" "a \<noteq> []" "length b = 4" "\<forall>c \<in> set (a @ b). is_digit c" "digits_val (a @ b) = n"
proof -
  define t where "t = padStart 5 48 (nat_digits n)"
  have len: "5 \<le> length t" by (simp add: t_def padStart_def)
  have val: "digits_val t = n" by (simp add: t_def padStart_def digits_val_append)
  have dig: "\<forall>c \<in> set t. is_digit c" by (auto simp: t_def padStart_def is_digit_def dest: nat_digits_are_digits)
  have "fromFixedDecimal (int n) = take (length t - 4) t @ 46 # drop (length t - 4) t"
    using len by (simp add: fromFixedDecimal_def bigint_toString_def t_def [symmetric] slice_def slice_from_def slice_index_def Let_def nat_diff_distrib)
  moreover have "take (length t - 4) t \<noteq> []" "length (drop (length t - 4) t) = 4" using len by auto
  ultimately show thesis using that dig val by (metis append_take_drop_id)
qed

lemma digit_not_dot: "\<forall>c \<in> set s. is_digit c \<Longrightarrow> 46 \<notin> set s"
  by (auto simp: is_digit_def)

end
