(* ===== verification/Inventory.thy ===== *)
theory Inventory
  imports InventoryRequests
begin

text \<open>
  \<open>apps/api/src/inventory/inventory.service.ts\<close>: the warehouse stock of the server. One record
  holds the tables that the service writes; the tables it only reads are the answers to its
  queries. Quantities and money are \<open>numeric(18, 4)\<close>, as integers of ten-thousandths. A new
  UUID is the number of the draw that made it, so distinct draws are distinct identifiers.
  Time stamps, correlation ids and the request's address only travel and are left out; so are
  the locks, since one handler is one atomic step.
\<close>

section \<open>Tables\<close>

record balance_row =
  bal_quantity :: int
  bal_average_unit_cost :: int

datatype movement_type = Receipt | Issue | Return_in | Transfer_in | Transfer_out | Stocktake_in | Stocktake_out

record movement_row =
  mv_id :: uuid
  mv_warehouse :: uuid
  mv_product :: uuid
  mv_type :: movement_type
  mv_quantity :: int
  mv_reference_type :: jsstr
  mv_reference_id :: jsstr
  mv_actor :: uuid
  mv_unit_cost :: int
  mv_batch :: "uuid option"
  mv_customer :: "uuid option"
  mv_supplier :: "uuid option"
  mv_technician :: "uuid option"

record batch_row =
  ba_id :: uuid
  ba_product :: uuid
  ba_number :: jsstr
  ba_expires_at :: "jsstr option"

datatype serial_status = Available | Issued | Missing

record serial_row =
  se_id :: uuid
  se_product :: uuid
  se_number :: jsstr
  se_warehouse :: uuid
  se_received_movement :: uuid
  se_status :: serial_status
  se_issued_movement :: "uuid option"
  se_stocktake_movement :: "uuid option"

datatype StockReservationStatus = Active | Released | Consumed

text \<open>A reservation refers to a document of the request, or to a fiscal sale the register prepares.\<close>

datatype reservation_reference = RequestReference StockReservationReferenceType | PosFiscalPreparation

record ReservationRow =
  rs_id :: uuid
  rs_warehouse :: uuid
  rs_product :: uuid
  rs_reference_type :: reservation_reference
  rs_reference_id :: jsstr
  rs_initial :: int
  rs_remaining :: int
  rs_status :: StockReservationStatus
  rs_ended_by :: "uuid option"
  rs_version :: int

record reservation_serial_row =
  rsi_id :: uuid
  rsi_reservation :: uuid
  rsi_item :: uuid
  rsi_active :: bool

record return_row =
  sr_movement :: uuid
  sr_issue :: uuid
  sr_disposition :: StockReturnDisposition
  sr_quantity :: int

datatype StocktakeStatus = StocktakeOpen | StocktakeCompleted | StocktakeCancelled

record stocktake_row =
  st_id :: uuid
  st_warehouse :: uuid
  st_reference :: jsstr
  st_status :: StocktakeStatus

record count_row =
  co_id :: uuid
  co_stocktake :: uuid
  co_product :: uuid
  co_expected :: int
  co_counted :: int

datatype WarehouseType = Standard | Technician

record WarehouseRow =
  wh_id :: uuid
  wh_code :: jsstr
  wh_name :: jsstr
  wh_type :: WarehouseType
  wh_location :: "uuid option"
  wh_operator :: "uuid option"
  wh_active :: bool
  wh_version :: int

record settings_row =
  ss_id :: uuid
  ss_minimum :: int
  ss_target :: int
  ss_active :: bool
  ss_version :: int

record catalogue_row =
  cat_active :: bool
  cat_product :: ProductRow

datatype partner_role = Customer | Supplier

text \<open>
  The texts of the two families of idempotency keys of the outbox: \<open>event:key\<close>, where no event
  name has a colon, and \<open>inventory.low-stock:warehouse:product:cycle:recipient\<close>.
\<close>

datatype outbox_key = SideEffectKey jsstr jsstr | LowStockKey uuid uuid int uuid

record low_stock_payload =
  lp_available :: int
  lp_minimum :: int
  lp_recommended :: int
  lp_target :: int

record outbox_row =
  ob_id :: uuid
  ob_aggregate_id :: uuid
  ob_event :: jsstr
  ob_key :: outbox_key
  ob_low_stock :: "low_stock_payload option"

record audit_row =
  au_action :: jsstr
  au_actor :: uuid
  au_target_type :: jsstr
  au_target :: uuid

record inv_db =
  fresh_id :: uuid
  warehouses :: "WarehouseRow list"
  catalogue :: "uuid \<Rightarrow> catalogue_row option"
  partnerHasRole :: "uuid \<Rightarrow> partner_role \<Rightarrow> bool"
  activeTechnician :: "uuid \<Rightarrow> bool"
  activeAccount :: "uuid \<Rightarrow> bool"
  activeLocation :: "uuid \<Rightarrow> bool"
  activeOperator :: "uuid \<Rightarrow> uuid \<Rightarrow> bool"
  reservationSources :: "StockReservationReferenceType \<Rightarrow> jsstr \<Rightarrow> (jsstr \<times> jsstr) option"
  stock_balances :: "((uuid \<times> uuid) \<times> balance_row) list"
  stock_movements :: "movement_row list"
  batches :: "batch_row list"
  batch_balances :: "((uuid \<times> uuid) \<times> int) list"
  serialized_items :: "serial_row list"
  stock_reservations :: "ReservationRow list"
  reservation_serials :: "reservation_serial_row list"
  stock_returns :: "return_row list"
  serial_return_events :: "(uuid \<times> uuid \<times> uuid \<times> uuid) list"
  serial_transfer_events :: "(uuid \<times> uuid \<times> uuid \<times> uuid \<times> uuid) list"
  stocktakes :: "stocktake_row list"
  stocktake_counts :: "count_row list"
  stocktake_serial_counts :: "(uuid \<times> uuid) list"
  stocktake_batch_counts :: "((uuid \<times> uuid) \<times> int) list"
  stock_settings :: "((uuid \<times> uuid) \<times> settings_row) list"
  alert_subscriptions :: "((uuid \<times> uuid \<times> uuid) \<times> bool) list"
  low_stock_state :: "((uuid \<times> uuid) \<times> bool \<times> int) list"
  outbox_events :: "outbox_row list"
  audit_events :: "audit_row list"

type_synonym 'a inv_tx = "(inv_db, inv_error, 'a) tx"

text \<open>
  What the service takes from outside: the case tables of JavaScript and of SQL's \<open>upper\<close>, and
  \<open>round(a / b, 4)\<close> of PostgreSQL on numerics, as a function of the integers \<open>a\<close> and \<open>b\<close>.
\<close>

record inv_env =
  env_tbl :: "nat \<Rightarrow> jsstr"
  env_upper :: "jsstr \<Rightarrow> jsstr"
  env_round_div :: "int \<Rightarrow> int \<Rightarrow> int"

section \<open>Statements\<close>

definition randomUUID :: "uuid inv_tx" where
  "randomUUID s = Inr (fresh_id s, s\<lparr>fresh_id := Suc (fresh_id s)\<rparr>)"

text \<open>The range of \<open>numeric(18, 4)\<close>, and its text.\<close>

definition fits :: "int \<Rightarrow> bool" where
  "fits n \<longleftrightarrow> \<bar>n\<bar> < 10 ^ 18"

definition numeric_text :: "int \<Rightarrow> jsstr" where
  "numeric_text n = fromFixedDecimal n"

text \<open>The generated column \<open>total_cost_eur = round(quantity * unit_cost_eur, 4)\<close>, half away from zero.\<close>

definition total_cost :: "int \<Rightarrow> int \<Rightarrow> int" where
  "total_cost quantity unit_cost = (2 * (quantity * unit_cost) + 10000) div 20000"

definition on_hand :: "inv_db \<Rightarrow> uuid \<Rightarrow> uuid \<Rightarrow> int" where
  "on_hand s w p = (case map_of (stock_balances s) (w, p) of None \<Rightarrow> 0 | Some b \<Rightarrow> bal_quantity b)"

definition reserved :: "inv_db \<Rightarrow> uuid \<Rightarrow> uuid \<Rightarrow> int" where
  "reserved s w p = sum_where (\<lambda>r. rs_warehouse r = w \<and> rs_product r = p \<and> rs_status r = Active) rs_remaining
     (stock_reservations s)"

definition insert_movement :: "movement_row \<Rightarrow> unit inv_tx" where
  "insert_movement m =
     tx_bind (tx_require (fits (mv_quantity m) \<and> fits (mv_unit_cost m) \<and>
       fits (total_cost (mv_quantity m) (mv_unit_cost m))) NumericOverflow) (\<lambda>_.
     tx_bind (tx_reads stock_movements) (\<lambda>ms.
     tx_bind (tx_require (\<not> list_ex (\<lambda>x. mv_reference_type x = mv_reference_type m \<and>
        mv_reference_id x = mv_reference_id m \<and> mv_product x = mv_product m \<and> mv_warehouse x = mv_warehouse m) ms)
       (UniqueViolation ''stock_movements_reference_unique'')) (\<lambda>_.
     tx_writes (\<lambda>s. s\<lparr>stock_movements := stock_movements s @ [m]\<rparr>))))"

definition set_movement_batch :: "uuid \<Rightarrow> uuid \<Rightarrow> unit inv_tx" where
  "set_movement_batch movementId batchId = tx_writes (\<lambda>s. s\<lparr>stock_movements :=
     update_where (\<lambda>m. mv_id m = movementId) (\<lambda>m. m\<lparr>mv_batch := Some batchId\<rparr>) (stock_movements s)\<rparr>)"

text \<open>INSERT INTO stock_balances with the weighted average on conflict.\<close>

definition add_balance :: "inv_env \<Rightarrow> uuid \<Rightarrow> uuid \<Rightarrow> int \<Rightarrow> int \<Rightarrow> unit inv_tx" where
  "add_balance env w p quantity unitCost =
     tx_bind (tx_reads (\<lambda>s. map_of (stock_balances s) (w, p))) (\<lambda>row.
     let new = (case row of None \<Rightarrow> \<lparr>bal_quantity = quantity, bal_average_unit_cost = unitCost\<rparr>
       | Some b \<Rightarrow> \<lparr>bal_quantity = bal_quantity b + quantity,
           bal_average_unit_cost = env_round_div env
             (bal_quantity b * bal_average_unit_cost b + quantity * unitCost) (bal_quantity b + quantity)\<rparr>)
     in tx_bind (tx_require (fits (bal_quantity new) \<and> fits (bal_average_unit_cost new)) NumericOverflow) (\<lambda>_.
        tx_writes (\<lambda>s. s\<lparr>stock_balances := AList.update (w, p) new (stock_balances s)\<rparr>)))"

text \<open>UPDATE stock_balances SET quantity = quantity - q WHERE quantity \<open>\<ge>\<close> q, with the average cost.\<close>

definition take_balance :: "uuid \<Rightarrow> uuid \<Rightarrow> int \<Rightarrow> int inv_tx" where
  "take_balance w p quantity =
     tx_bind (tx_row (\<lambda>s. case map_of (stock_balances s) (w, p) of None \<Rightarrow> None
       | Some b \<Rightarrow> if quantity \<le> bal_quantity b then Some b else None) (Api ''INSUFFICIENT_STOCK'')) (\<lambda>b.
     tx_bind (tx_writes (\<lambda>s. s\<lparr>stock_balances :=
        AList.update (w, p) (b\<lparr>bal_quantity := bal_quantity b - quantity\<rparr>) (stock_balances s)\<rparr>)) (\<lambda>_.
     tx_return (bal_average_unit_cost b)))"

definition find_batch :: "inv_db \<Rightarrow> uuid \<Rightarrow> jsstr \<Rightarrow> batch_row option" where
  "find_batch s product number = find (\<lambda>b. ba_product b = product \<and> ba_number b = number) (batches s)"

text \<open>INSERT INTO batches \<open>...\<close> DO UPDATE SET expires_at = COALESCE(old, new) RETURNING id\<close>

definition upsert_batch :: "uuid \<Rightarrow> jsstr \<Rightarrow> jsstr option \<Rightarrow> uuid inv_tx" where
  "upsert_batch product number expiresAt =
     tx_bind (tx_reads (\<lambda>s. find_batch s product number)) (\<lambda>row.
     case row of
       Some b \<Rightarrow> tx_bind (tx_writes (\<lambda>s. s\<lparr>batches := update_where (\<lambda>x. ba_id x = ba_id b)
           (\<lambda>x. x\<lparr>ba_expires_at := (case ba_expires_at x of None \<Rightarrow> expiresAt | e \<Rightarrow> e)\<rparr>) (batches s)\<rparr>)) (\<lambda>_.
         tx_return (ba_id b))
     | None \<Rightarrow> tx_bind randomUUID (\<lambda>i. tx_bind (tx_writes (\<lambda>s. s\<lparr>batches := batches s @
           [\<lparr>ba_id = i, ba_product = product, ba_number = number, ba_expires_at = expiresAt\<rparr>]\<rparr>)) (\<lambda>_.
         tx_return i)))"

definition add_batch_balance :: "uuid \<Rightarrow> uuid \<Rightarrow> int \<Rightarrow> unit inv_tx" where
  "add_batch_balance w batchId quantity =
     tx_bind (tx_reads (\<lambda>s. case map_of (batch_balances s) (w, batchId) of None \<Rightarrow> quantity | Some q \<Rightarrow> q + quantity)) (\<lambda>new.
     tx_bind (tx_require (fits new) NumericOverflow) (\<lambda>_.
     tx_writes (\<lambda>s. s\<lparr>batch_balances := AList.update (w, batchId) new (batch_balances s)\<rparr>)))"

definition take_batch_balance :: "uuid \<Rightarrow> uuid \<Rightarrow> int \<Rightarrow> unit inv_tx" where
  "take_batch_balance w batchId quantity =
     tx_bind (tx_row (\<lambda>s. case map_of (batch_balances s) (w, batchId) of None \<Rightarrow> None
       | Some q \<Rightarrow> if quantity \<le> q then Some q else None) (Api ''INSUFFICIENT_BATCH_STOCK'')) (\<lambda>q.
     tx_writes (\<lambda>s. s\<lparr>batch_balances := AList.update (w, batchId) (q - quantity) (batch_balances s)\<rparr>))"

text \<open>Characters of a text, for \<open>varchar(n)\<close>: a surrogate pair is one character.\<close>

definition char_count :: "jsstr \<Rightarrow> nat" where
  "char_count s = length (filter (\<lambda>c. \<not> (0xdc00 \<le> c \<and> c \<le> 0xdfff)) s)"

definition insert_serial :: "inv_env \<Rightarrow> uuid \<Rightarrow> jsstr \<Rightarrow> uuid \<Rightarrow> uuid \<Rightarrow> uuid inv_tx" where
  "insert_serial env product number w movementId =
     tx_bind (tx_require (char_count number \<le> 120) ValueTooLong) (\<lambda>_.
     tx_bind (tx_reads serialized_items) (\<lambda>items.
     tx_bind (tx_require (\<not> list_ex (\<lambda>x. env_upper env (se_number x) = env_upper env number) items)
       (UniqueViolation ''serialized_items_serial_unique'')) (\<lambda>_.
     tx_bind randomUUID (\<lambda>i.
     tx_bind (tx_writes (\<lambda>s. s\<lparr>serialized_items := serialized_items s @
        [\<lparr>se_id = i, se_product = product, se_number = number, se_warehouse = w, se_received_movement = movementId,
          se_status = Available, se_issued_movement = None, se_stocktake_movement = None\<rparr>]\<rparr>)) (\<lambda>_.
     tx_return i)))))"

section \<open>Checks\<close>

definition activeProduct :: "uuid \<Rightarrow> ProductRow inv_tx" where
  "activeProduct productId = tx_row (\<lambda>s. case catalogue s productId of None \<Rightarrow> None
     | Some c \<Rightarrow> if cat_active c then Some (cat_product c) else None) (Api ''PRODUCT_NOT_FOUND'')"

definition requireActiveWarehouse :: "uuid \<Rightarrow> unit inv_tx" where
  "requireActiveWarehouse w = tx_bind (tx_reads warehouses) (\<lambda>ws.
     tx_require (list_ex (\<lambda>x. wh_id x = w \<and> wh_active x) ws) (Api ''WAREHOUSE_NOT_FOUND''))"

definition requireActiveWarehouses :: "uuid \<Rightarrow> uuid \<Rightarrow> unit inv_tx" where
  "requireActiveWarehouses w1 w2 = tx_bind (tx_reads warehouses) (\<lambda>ws.
     tx_require (length (filter (\<lambda>x. wh_id x \<in> {w1, w2} \<and> wh_active x) ws) = 2) (Api ''WAREHOUSE_NOT_FOUND''))"

definition open_stocktake :: "inv_db \<Rightarrow> uuid \<Rightarrow> bool" where
  "open_stocktake s w = list_ex (\<lambda>x. st_warehouse x = w \<and> st_status x = StocktakeOpen) (stocktakes s)"

definition ensureWarehousesNotUnderStocktake :: "uuid list \<Rightarrow> unit inv_tx" where
  "ensureWarehousesNotUnderStocktake ws = tx_bind (tx_reads (\<lambda>s. list_ex (open_stocktake s) ws)) (\<lambda>under.
     tx_require (\<not> under) (Api ''WAREHOUSE_STOCKTAKE_OPEN''))"

definition requirePartnerRole :: "uuid \<Rightarrow> partner_role \<Rightarrow> unit inv_tx" where
  "requirePartnerRole partnerId role = tx_bind (tx_reads (\<lambda>s. partnerHasRole s partnerId role)) (\<lambda>found.
     tx_require found (if role = Supplier then (Api ''SUPPLIER_NOT_FOUND'') else (Api ''CUSTOMER_NOT_FOUND'')))"

definition requireActiveTechnician :: "uuid \<Rightarrow> unit inv_tx" where
  "requireActiveTechnician accountId = tx_bind (tx_reads (\<lambda>s. activeTechnician s accountId)) (\<lambda>found.
     tx_require found (Api ''TECHNICIAN_NOT_FOUND''))"

definition ensureReceiptSerialsAvailable :: "inv_env \<Rightarrow> jsstr list \<Rightarrow> unit inv_tx" where
  "ensureReceiptSerialsAvailable env serialNumbers =
     (if serialNumbers = [] then tx_return ()
      else tx_bind (tx_reads serialized_items) (\<lambda>items.
        tx_require (\<not> list_ex (\<lambda>x. env_upper env (se_number x) \<in> set (map (toUpperCase (env_tbl env)) serialNumbers)) items)
          (Api ''SERIAL_NUMBER_ALREADY_REGISTERED'')))"

definition ensureUnreservedAvailability :: "uuid \<Rightarrow> uuid \<Rightarrow> int \<Rightarrow> unit inv_tx" where
  "ensureUnreservedAvailability w p requested =
     tx_bind (tx_reads (\<lambda>s. on_hand s w p)) (\<lambda>physical.
     tx_bind (tx_require (\<not> physical < requested) (Api ''INSUFFICIENT_STOCK'')) (\<lambda>_.
     tx_bind (tx_reads (\<lambda>s. reserved s w p)) (\<lambda>res.
     tx_require (\<not> physical - res < requested) (Api ''INSUFFICIENT_AVAILABLE_STOCK''))))"

text \<open>The serial items that may leave a warehouse: available there and not reserved.\<close>

definition item_reserved :: "inv_db \<Rightarrow> uuid \<Rightarrow> bool" where
  "item_reserved s i = list_ex (\<lambda>r. rsi_item r = i \<and> rsi_active r) (reservation_serials s)"

definition free_serials :: "inv_env \<Rightarrow> uuid \<Rightarrow> uuid \<Rightarrow> jsstr list \<Rightarrow> inv_db \<Rightarrow> uuid list" where
  "free_serials env w p numbers s = map se_id (filter (\<lambda>x. se_warehouse x = w \<and> se_product x = p \<and>
     se_status x = Available \<and> env_upper env (se_number x) \<in> set numbers \<and> \<not> item_reserved s (se_id x)) (serialized_items s))"

section \<open>Side effects\<close>

definition sideEffects :: "jsstr \<Rightarrow> uuid \<Rightarrow> jsstr \<Rightarrow> uuid \<Rightarrow> jsstr \<Rightarrow> unit inv_tx" where
  "sideEffects type i event accountId key =
     tx_bind randomUUID (\<lambda>eventId.
     tx_bind (tx_reads outbox_events) (\<lambda>events.
     tx_bind (tx_require (\<not> list_ex (\<lambda>x. ob_key x = SideEffectKey event key) events)
       (UniqueViolation ''outbox_events_idempotency_key_key'')) (\<lambda>_.
     tx_writes (\<lambda>s. s\<lparr>outbox_events := outbox_events s @ [\<lparr>ob_id = eventId, ob_aggregate_id = i, ob_event = event,
          ob_key = SideEffectKey event key, ob_low_stock = None\<rparr>],
        audit_events := audit_events s @ [\<lparr>au_action = event, au_actor = accountId, au_target_type = type,
          au_target = i\<rparr>]\<rparr>))))"

text \<open>The view \<open>inventory.stock_replenishment_status\<close> at one warehouse and product.\<close>

record replenishment =
  rp_available :: int
  rp_minimum :: int
  rp_target :: int
  rp_low :: bool
  rp_recommended :: int

definition replenishment_status :: "inv_db \<Rightarrow> uuid \<Rightarrow> uuid \<Rightarrow> replenishment option" where
  "replenishment_status s w p = (case map_of (stock_settings s) (w, p) of None \<Rightarrow> None
     | Some c \<Rightarrow> if \<not> ss_active c then None else
         let available = max (on_hand s w p - reserved s w p) 0
         in Some \<lparr>rp_available = available, rp_minimum = ss_minimum c, rp_target = ss_target c,
              rp_low = (available \<le> ss_minimum c), rp_recommended = max (ss_target c - available) 0\<rparr>)"

definition alert_recipients :: "inv_db \<Rightarrow> uuid \<Rightarrow> uuid \<Rightarrow> uuid list" where
  "alert_recipients s w p = map (\<lambda>((_, _, a), _). a)
     (filter (\<lambda>((w', p', a), active). w' = w \<and> p' = p \<and> active \<and> activeAccount s a) (alert_subscriptions s))"

definition insert_alert :: "uuid \<Rightarrow> uuid \<Rightarrow> int \<Rightarrow> replenishment \<Rightarrow> uuid \<Rightarrow> unit inv_tx" where
  "insert_alert w p cycle status recipient =
     tx_bind randomUUID (\<lambda>eventId.
     tx_writes (\<lambda>s. if list_ex (\<lambda>x. ob_key x = LowStockKey w p cycle recipient) (outbox_events s) then s
       else s\<lparr>outbox_events := outbox_events s @ [\<lparr>ob_id = eventId, ob_aggregate_id = p,
         ob_event = js ''inventory.low_stock.detected'', ob_key = LowStockKey w p cycle recipient,
         ob_low_stock = Some \<lparr>lp_available = rp_available status, lp_minimum = rp_minimum status,
           lp_recommended = rp_recommended status, lp_target = rp_target status\<rparr>\<rparr>]\<rparr>))"

definition reconcileLowStockAlert :: "uuid \<Rightarrow> uuid \<Rightarrow> unit inv_tx" where
  "reconcileLowStockAlert w p =
     tx_bind (tx_reads (\<lambda>s. replenishment_status s w p)) (\<lambda>found.
     case found of None \<Rightarrow> tx_return () | Some status \<Rightarrow>
     tx_bind (tx_reads (\<lambda>s. case map_of (low_stock_state s) (w, p) of None \<Rightarrow> (False, 0) | Some st \<Rightarrow> st)) (\<lambda>(isLow, cycle).
     let cycleNumber = (if rp_low status \<and> \<not> isLow then cycle + 1 else cycle) in
     tx_bind (if rp_low status
              then tx_bind (tx_reads (\<lambda>s. alert_recipients s w p)) (tx_for (insert_alert w p cycleNumber status))
              else tx_return ()) (\<lambda>_.
     tx_writes (\<lambda>s. s\<lparr>low_stock_state := AList.update (w, p) (rp_low status, cycleNumber) (low_stock_state s)\<rparr>))))"

end
