(* ===== verification/InventoryService.thy ===== *)
theory InventoryService
  imports Inventory
begin

text \<open>
  The commands of \<open>InventoryService\<close>: receipts, issues, returns, transfers, reservations,
  stocktakes, stock settings and warehouses, each as the body of its transaction, and
  \<open>command\<close>, which runs a body at most once per idempotency key.
\<close>

section \<open>Responses\<close>

record StockReceipt =
  rr_batchId :: "uuid option"
  rr_id :: uuid
  rr_productId :: uuid
  rr_quantity :: jsstr
  rr_serialItemIds :: "uuid list"
  rr_totalCostEur :: jsstr
  rr_unitCostEur :: jsstr
  rr_warehouseId :: uuid

record StockIssue =
  ir_batchId :: "uuid option"
  ir_id :: uuid
  ir_productId :: uuid
  ir_quantity :: jsstr
  ir_reason :: StockIssueReason
  ir_reservationId :: "uuid option"
  ir_serialItemIds :: "uuid list"
  ir_totalCostEur :: jsstr
  ir_unitCostEur :: jsstr
  ir_warehouseId :: uuid

record StockReturn =
  tn_batchId :: "uuid option"
  tn_destinationWarehouseId :: uuid
  tn_disposition :: StockReturnDisposition
  tn_id :: uuid
  tn_originalIssueId :: uuid
  tn_productId :: uuid
  tn_quantity :: jsstr
  tn_serialItemIds :: "uuid list"
  tn_totalCostEur :: jsstr
  tn_unitCostEur :: jsstr

record StockTransfer =
  tf_batchId :: "uuid option"
  tf_fromMovementId :: uuid
  tf_fromWarehouseId :: uuid
  tf_id :: uuid
  tf_productId :: uuid
  tf_quantity :: jsstr
  tf_serialItemIds :: "uuid list"
  tf_toMovementId :: uuid
  tf_toWarehouseId :: uuid
  tf_totalCostEur :: jsstr
  tf_unitCostEur :: jsstr

record StockReservation =
  sv_id :: uuid
  sv_initialQuantity :: jsstr
  sv_productId :: uuid
  sv_referenceId :: jsstr
  sv_referenceLabel :: jsstr
  sv_referenceType :: reservation_reference
  sv_remainingQuantity :: jsstr
  sv_serialItemIds :: "uuid list"
  sv_status :: StockReservationStatus
  sv_warehouseId :: uuid

record StockSettings =
  sg_alertRecipientAccountIds :: "uuid list"
  sg_minimumQuantity :: jsstr
  sg_productId :: uuid
  sg_targetQuantity :: jsstr
  sg_version :: int
  sg_warehouseId :: uuid

datatype inv_response = ReceiptDone StockReceipt | IssueDone StockIssue | ReturnDone StockReturn
  | TransferDone StockTransfer | ReservationDone StockReservation | StocktakeDone stocktake_row
  | SettingsDone StockSettings | WarehouseDone WarehouseRow

section \<open>Receipts\<close>

definition receive_batch :: "ReceiveStockRequest \<Rightarrow> uuid \<Rightarrow> uuid option inv_tx" where
  "receive_batch n movementId = (case re_batchNumber n of None \<Rightarrow> tx_return None
   | Some number \<Rightarrow>
       tx_bind (upsert_batch (re_productId n) number (re_expiresAt n)) (\<lambda>batchId.
       tx_bind (set_movement_batch movementId batchId) (\<lambda>_.
       tx_bind (add_batch_balance (re_warehouseId n) batchId (fixedDecimal (re_quantity n))) (\<lambda>_.
       tx_return (Some batchId)))))"

definition recordReceipt :: "inv_env \<Rightarrow> jsstr \<Rightarrow> jsstr \<Rightarrow> uuid \<Rightarrow> ReceiveStockRequest \<Rightarrow> inv_response inv_tx" where
  "recordReceipt env referenceType eventKey accountId n =
     (let w = re_warehouseId n; p = re_productId n; quantity = fixedDecimal (re_quantity n);
          unitCost = fixedDecimal (case_option [] id (re_unitCostEur n));
          serials = serials_of (re_serialNumbers n) in
     tx_bind (requireActiveWarehouse w) (\<lambda>_.
     tx_bind (ensureWarehousesNotUnderStocktake [w]) (\<lambda>_.
     tx_bind (activeProduct p) (\<lambda>product.
     tx_bind (tx_res (validateTracking product n)) (\<lambda>_.
     tx_bind (ensureReceiptSerialsAvailable env serials) (\<lambda>_.
     tx_bind (case re_supplierPartnerId n of None \<Rightarrow> tx_return () | Some i \<Rightarrow> requirePartnerRole i Supplier) (\<lambda>_.
     tx_bind randomUUID (\<lambda>movementId.
     tx_bind (insert_movement \<lparr>mv_id = movementId, mv_warehouse = w, mv_product = p, mv_type = Receipt,
        mv_quantity = quantity, mv_reference_type = referenceType, mv_reference_id = re_referenceId n,
        mv_actor = accountId, mv_unit_cost = unitCost, mv_batch = None, mv_customer = None,
        mv_supplier = re_supplierPartnerId n, mv_technician = None\<rparr>) (\<lambda>_.
     tx_bind (add_balance env w p quantity unitCost) (\<lambda>_.
     tx_bind (receive_batch n movementId) (\<lambda>batchId.
     tx_bind (tx_map (\<lambda>number. insert_serial env p number w movementId) serials) (\<lambda>serialItemIds.
     tx_bind (sideEffects (js ''stock_movement'') movementId (js ''inventory.stock.received'') accountId eventKey) (\<lambda>_.
     tx_bind (reconcileLowStockAlert w p) (\<lambda>_.
     tx_return (ReceiptDone \<lparr>rr_batchId = batchId, rr_id = movementId, rr_productId = p,
       rr_quantity = re_quantity n, rr_serialItemIds = serialItemIds,
       rr_totalCostEur = numeric_text (total_cost quantity unitCost), rr_unitCostEur = numeric_text unitCost,
       rr_warehouseId = w\<rparr>)))))))))))))))"

text \<open>The receipt of a purchase order line runs inside the transaction of the goods receipt.\<close>

definition receivePurchaseOrderStock :: "inv_env \<Rightarrow> ReceiveStockRequest \<Rightarrow> jsstr \<Rightarrow> jsstr \<Rightarrow> uuid \<Rightarrow> inv_response inv_tx" where
  "receivePurchaseOrderStock env input goodsReceiptId lineId accountId =
     tx_bind (tx_res (normalizeReceipt (env_tbl env) (input\<lparr>re_referenceId := goodsReceiptId\<rparr>))) (\<lambda>n.
     recordReceipt env (js ''purchase_order_receipt'') (goodsReceiptId @ [58] @ lineId) accountId n)"

section \<open>Issues\<close>

definition consume_serials :: "inv_env \<Rightarrow> uuid \<Rightarrow> jsstr list \<Rightarrow> unit inv_tx" where
  "consume_serials env reservationId serials =
     (if serials = [] then tx_return () else
      tx_bind (tx_reads (\<lambda>s. map rsi_id (filter (\<lambda>r. rsi_reservation r = reservationId \<and> rsi_active r \<and>
         list_ex (\<lambda>x. se_id x = rsi_item r \<and> env_upper env (se_number x) \<in> set serials) (serialized_items s))
         (reservation_serials s)))) (\<lambda>ids.
      tx_bind (tx_require (length ids = length serials) (Api ''STOCK_RESERVATION_SERIAL_MISMATCH'')) (\<lambda>_.
      tx_writes (\<lambda>s. s\<lparr>reservation_serials := update_where (\<lambda>r. rsi_id r \<in> set ids) (\<lambda>r. r\<lparr>rsi_active := False\<rparr>)
         (reservation_serials s)\<rparr>))))"

definition consumeReservation :: "inv_env \<Rightarrow> uuid \<Rightarrow> IssueStockRequest \<Rightarrow> uuid \<Rightarrow> unit inv_tx" where
  "consumeReservation env reservationId n accountId =
     (let quantity = fixedDecimal (iss_quantity n) in
     tx_bind (tx_row (\<lambda>s. find (\<lambda>r. rs_id r = reservationId) (stock_reservations s))
       (Api ''STOCK_RESERVATION_NOT_FOUND'')) (\<lambda>row.
     tx_bind (tx_require (rs_status row = Active) (Api ''STOCK_RESERVATION_NOT_ACTIVE'')) (\<lambda>_.
     tx_bind (tx_require (rs_warehouse row = iss_warehouseId n \<and> rs_product row = iss_productId n)
       (Api ''STOCK_RESERVATION_MISMATCH'')) (\<lambda>_.
     tx_bind (tx_require (\<not> rs_remaining row < quantity) (Api ''STOCK_RESERVATION_INSUFFICIENT'')) (\<lambda>_.
     tx_bind (consume_serials env reservationId (serials_of (iss_serialNumbers n))) (\<lambda>_.
     let remaining = rs_remaining row - quantity in
     tx_writes (\<lambda>s. s\<lparr>stock_reservations := update_where (\<lambda>r. rs_id r = reservationId)
        (\<lambda>r. r\<lparr>rs_remaining := remaining, rs_status := (if remaining = 0 then Consumed else Active),
               rs_ended_by := (if remaining = 0 then Some accountId else None), rs_version := rs_version r + 1\<rparr>)
        (stock_reservations s)\<rparr>)))))))"

definition issue_batch :: "IssueStockRequest \<Rightarrow> uuid \<Rightarrow> uuid option inv_tx" where
  "issue_batch n movementId = (case iss_batchNumber n of None \<Rightarrow> tx_return None
   | Some number \<Rightarrow>
       tx_bind (tx_row (\<lambda>s. find_batch s (iss_productId n) number) (Api ''INVENTORY_BATCH_NOT_FOUND'')) (\<lambda>b.
       tx_bind (set_movement_batch movementId (ba_id b)) (\<lambda>_.
       tx_bind (take_batch_balance (iss_warehouseId n) (ba_id b) (fixedDecimal (iss_quantity n))) (\<lambda>_.
       tx_return (Some (ba_id b))))))"

definition issueSerials :: "inv_env \<Rightarrow> IssueStockRequest \<Rightarrow> uuid \<Rightarrow> uuid list inv_tx" where
  "issueSerials env n movementId = (let serials = serials_of (iss_serialNumbers n) in
     if serials = [] then tx_return [] else
     tx_bind (tx_reads (free_serials env (iss_warehouseId n) (iss_productId n) serials)) (\<lambda>ids.
     tx_bind (tx_require (length ids = length serials) (Api ''SERIAL_NOT_AVAILABLE'')) (\<lambda>_.
     tx_bind (tx_writes (\<lambda>s. s\<lparr>serialized_items := update_where (\<lambda>x. se_id x \<in> set ids)
        (\<lambda>x. x\<lparr>se_status := Issued, se_issued_movement := Some movementId\<rparr>) (serialized_items s)\<rparr>)) (\<lambda>_.
     tx_return ids))))"

definition reason_text :: "StockIssueReason \<Rightarrow> jsstr" where
  "reason_text r = (case r of Sale \<Rightarrow> js ''sale'' | Repair \<Rightarrow> js ''repair'' | Writeoff \<Rightarrow> js ''writeoff'')"

definition recordIssue :: "inv_env \<Rightarrow> jsstr \<Rightarrow> uuid \<Rightarrow> IssueStockRequest \<Rightarrow> inv_response inv_tx" where
  "recordIssue env eventKey accountId n =
     (let w = iss_warehouseId n; p = iss_productId n; quantity = fixedDecimal (iss_quantity n) in
     tx_bind (activeProduct p) (\<lambda>product.
     tx_bind (requireActiveWarehouse w) (\<lambda>_.
     tx_bind (ensureWarehousesNotUnderStocktake [w]) (\<lambda>_.
     tx_bind (tx_res (validateIssueTracking product n)) (\<lambda>_.
     tx_bind (case iss_customerPartnerId n of None \<Rightarrow> tx_return () | Some i \<Rightarrow> requirePartnerRole i Customer) (\<lambda>_.
     tx_bind (case iss_technicianAccountId n of None \<Rightarrow> tx_return () | Some i \<Rightarrow> requireActiveTechnician i) (\<lambda>_.
     tx_bind (case iss_reservationId n of
         Some reservationId \<Rightarrow> consumeReservation env reservationId n accountId
       | None \<Rightarrow> ensureUnreservedAvailability w p quantity) (\<lambda>_.
     tx_bind randomUUID (\<lambda>movementId.
     tx_bind (take_balance w p quantity) (\<lambda>issueCost.
     tx_bind (insert_movement \<lparr>mv_id = movementId, mv_warehouse = w, mv_product = p, mv_type = Issue,
        mv_quantity = quantity, mv_reference_type = reason_text (iss_reason n), mv_reference_id = iss_referenceId n,
        mv_actor = accountId, mv_unit_cost = issueCost, mv_batch = None, mv_customer = iss_customerPartnerId n,
        mv_supplier = None, mv_technician = iss_technicianAccountId n\<rparr>) (\<lambda>_.
     tx_bind (issue_batch n movementId) (\<lambda>batchId.
     tx_bind (issueSerials env n movementId) (\<lambda>serialItemIds.
     tx_bind (sideEffects (js ''stock_movement'') movementId (js ''inventory.stock.issued'') accountId eventKey) (\<lambda>_.
     tx_bind (reconcileLowStockAlert w p) (\<lambda>_.
     tx_return (IssueDone \<lparr>ir_batchId = batchId, ir_id = movementId, ir_productId = p, ir_quantity = iss_quantity n,
       ir_reason = iss_reason n, ir_reservationId = iss_reservationId n, ir_serialItemIds = serialItemIds,
       ir_totalCostEur = numeric_text (total_cost quantity issueCost), ir_unitCostEur = numeric_text issueCost,
       ir_warehouseId = w\<rparr>))))))))))))))))"

text \<open>The parts of a repair are issued inside the transaction of the work order.\<close>

definition issueServicePart :: "inv_env \<Rightarrow> IssueStockRequest \<Rightarrow> jsstr \<Rightarrow> jsstr \<Rightarrow> uuid \<Rightarrow> inv_response inv_tx" where
  "issueServicePart env input workOrderId eventKey accountId =
     tx_bind (tx_res (normalizeIssue (env_tbl env) (input\<lparr>iss_reason := Repair, iss_referenceId := workOrderId\<rparr>))) (\<lambda>n.
     recordIssue env eventKey accountId n)"

section \<open>Returns\<close>

definition returned_quantity :: "inv_db \<Rightarrow> uuid \<Rightarrow> int" where
  "returned_quantity s issueId = sum_where (\<lambda>r. sr_issue r = issueId) sr_quantity (stock_returns s)"

definition returnedSerialItems :: "inv_env \<Rightarrow> ReturnStockRequest \<Rightarrow> uuid \<Rightarrow> uuid list inv_tx" where
  "returnedSerialItems env n productId = (let serials = serials_of (ret_serialNumbers n) in
     if serials = [] then tx_return [] else
     tx_bind (tx_reads (\<lambda>s. map se_id (filter (\<lambda>x. se_product x = productId \<and> se_status x = Issued \<and>
        se_issued_movement x = Some (ret_originalIssueId n) \<and> env_upper env (se_number x) \<in> set serials)
        (serialized_items s)))) (\<lambda>ids.
     tx_bind (tx_require (length ids = length serials) (Api ''RETURN_SERIAL_NOT_IN_ORIGINAL_ISSUE'')) (\<lambda>_.
     tx_return ids)))"

definition disposition_text :: "StockReturnDisposition \<Rightarrow> jsstr" where
  "disposition_text d = (case d of Restock \<Rightarrow> js ''return_restock'' | Service \<Rightarrow> js ''return_service'')"

definition insert_return_events :: "uuid list \<Rightarrow> uuid \<Rightarrow> uuid \<Rightarrow> uuid \<Rightarrow> unit inv_tx" where
  "insert_return_events items issueId movementId w =
     tx_bind (tx_reads serial_return_events) (\<lambda>events.
     tx_bind (tx_require (\<not> list_ex (\<lambda>(i, o', _). o' = issueId \<and> i \<in> set items) events)
       (UniqueViolation ''serial_item_return_events_pkey'')) (\<lambda>_.
     tx_writes (\<lambda>s. s\<lparr>serial_return_events := serial_return_events s @
       map (\<lambda>i. (i, issueId, movementId, w)) items\<rparr>)))"

definition returnStock_body :: "inv_env \<Rightarrow> jsstr \<Rightarrow> uuid \<Rightarrow> ReturnStockRequest \<Rightarrow> inv_response inv_tx" where
  "returnStock_body env key accountId n =
     (let w = ret_destinationWarehouseId n; quantity = fixedDecimal (ret_quantity n) in
     tx_bind (tx_row (\<lambda>s. find (\<lambda>m. mv_id m = ret_originalIssueId n) (stock_movements s)) (Api ''ORIGINAL_ISSUE_NOT_FOUND'')) (\<lambda>original.
     tx_bind (tx_require (mv_type original = Issue) (Api ''ORIGINAL_ISSUE_NOT_FOUND'')) (\<lambda>_.
     let p = mv_product original in
     tx_bind (activeProduct p) (\<lambda>product.
     tx_bind (requireActiveWarehouse w) (\<lambda>_.
     tx_bind (ensureWarehousesNotUnderStocktake [w]) (\<lambda>_.
     tx_bind (tx_reads (\<lambda>s. returned_quantity s (ret_originalIssueId n))) (\<lambda>returned.
     tx_bind (tx_require (\<not> returned + quantity > mv_quantity original) (Api ''RETURN_QUANTITY_EXCEEDS_ISSUE'')) (\<lambda>_.
     tx_bind (tx_res (validateReturnTracking product n (mv_batch original))) (\<lambda>_.
     tx_bind (returnedSerialItems env n p) (\<lambda>serialItemIds.
     tx_bind randomUUID (\<lambda>movementId.
     tx_bind (insert_movement \<lparr>mv_id = movementId, mv_warehouse = w, mv_product = p, mv_type = Return_in,
        mv_quantity = quantity, mv_reference_type = disposition_text (ret_disposition n),
        mv_reference_id = ret_referenceId n, mv_actor = accountId, mv_unit_cost = mv_unit_cost original,
        mv_batch = mv_batch original, mv_customer = mv_customer original, mv_supplier = None,
        mv_technician = None\<rparr>) (\<lambda>_.
     tx_bind (add_balance env w p quantity (mv_unit_cost original)) (\<lambda>_.
     tx_bind (case mv_batch original of None \<Rightarrow> tx_return () | Some b \<Rightarrow> add_batch_balance w b quantity) (\<lambda>_.
     tx_bind (tx_writes (\<lambda>s. s\<lparr>stock_returns := stock_returns s @ [\<lparr>sr_movement = movementId,
        sr_issue = ret_originalIssueId n, sr_disposition = ret_disposition n, sr_quantity = quantity\<rparr>]\<rparr>)) (\<lambda>_.
     tx_bind (tx_writes (\<lambda>s. s\<lparr>serialized_items := update_where (\<lambda>x. se_id x \<in> set serialItemIds)
        (\<lambda>x. x\<lparr>se_warehouse := w, se_status := Available, se_issued_movement := None\<rparr>) (serialized_items s)\<rparr>)) (\<lambda>_.
     tx_bind (insert_return_events serialItemIds (ret_originalIssueId n) movementId w) (\<lambda>_.
     tx_bind (sideEffects (js ''stock_return'') movementId (js ''inventory.stock.returned'') accountId key) (\<lambda>_.
     tx_bind (reconcileLowStockAlert w p) (\<lambda>_.
     tx_return (ReturnDone \<lparr>tn_batchId = mv_batch original, tn_destinationWarehouseId = w,
       tn_disposition = ret_disposition n, tn_id = movementId, tn_originalIssueId = ret_originalIssueId n,
       tn_productId = p, tn_quantity = ret_quantity n, tn_serialItemIds = serialItemIds,
       tn_totalCostEur = numeric_text (total_cost quantity (mv_unit_cost original)),
       tn_unitCostEur = numeric_text (mv_unit_cost original)\<rparr>))))))))))))))))))))"

section \<open>Transfers\<close>

definition transferBatch :: "TransferStockRequest \<Rightarrow> uuid option inv_tx" where
  "transferBatch n = (case tr_batchNumber n of None \<Rightarrow> tx_return None
   | Some number \<Rightarrow>
       tx_bind (tx_row (\<lambda>s. find_batch s (tr_productId n) number) (InternalError ''Batch was not found'')) (\<lambda>b.
       tx_bind (take_batch_balance (tr_fromWarehouseId n) (ba_id b) (fixedDecimal (tr_quantity n))) (\<lambda>_.
       tx_bind (add_batch_balance (tr_toWarehouseId n) (ba_id b) (fixedDecimal (tr_quantity n))) (\<lambda>_.
       tx_return (Some (ba_id b))))))"

definition transferSerials :: "inv_env \<Rightarrow> TransferStockRequest \<Rightarrow> uuid \<Rightarrow> uuid \<Rightarrow> uuid list inv_tx" where
  "transferSerials env n fromMovementId toMovementId = (let serials = serials_of (tr_serialNumbers n) in
     if serials = [] then tx_return [] else
     tx_bind (tx_reads (free_serials env (tr_fromWarehouseId n) (tr_productId n) serials)) (\<lambda>ids.
     tx_bind (tx_require (length ids = length serials) (Api ''SERIAL_NOT_AVAILABLE'')) (\<lambda>_.
     tx_bind (tx_writes (\<lambda>s. s\<lparr>serialized_items := update_where (\<lambda>x. se_id x \<in> set ids)
        (\<lambda>x. x\<lparr>se_warehouse := tr_toWarehouseId n\<rparr>) (serialized_items s)\<rparr>)) (\<lambda>_.
     tx_bind (tx_writes (\<lambda>s. s\<lparr>serial_transfer_events := serial_transfer_events s @
        map (\<lambda>i. (i, fromMovementId, toMovementId, tr_fromWarehouseId n, tr_toWarehouseId n)) ids\<rparr>)) (\<lambda>_.
     tx_return ids)))))"

definition transfer_movement :: "uuid \<Rightarrow> uuid \<Rightarrow> movement_type \<Rightarrow> int \<Rightarrow> uuid \<Rightarrow> TransferStockRequest \<Rightarrow> movement_row" where
  "transfer_movement movementId w type unitCost accountId n =
     \<lparr>mv_id = movementId, mv_warehouse = w, mv_product = tr_productId n, mv_type = type,
      mv_quantity = fixedDecimal (tr_quantity n), mv_reference_type = js ''transfer'',
      mv_reference_id = tr_referenceId n, mv_actor = accountId, mv_unit_cost = unitCost, mv_batch = None,
      mv_customer = None, mv_supplier = None, mv_technician = None\<rparr>"

definition transfer_body :: "inv_env \<Rightarrow> jsstr \<Rightarrow> uuid \<Rightarrow> TransferStockRequest \<Rightarrow> inv_response inv_tx" where
  "transfer_body env key accountId n =
     (let source = tr_fromWarehouseId n; target = tr_toWarehouseId n; p = tr_productId n;
          quantity = fixedDecimal (tr_quantity n) in
     tx_bind (activeProduct p) (\<lambda>product.
     tx_bind (tx_res (validateTransferTracking product n)) (\<lambda>_.
     tx_bind (requireActiveWarehouses source target) (\<lambda>_.
     tx_bind (ensureWarehousesNotUnderStocktake [source, target]) (\<lambda>_.
     tx_bind (ensureUnreservedAvailability source p quantity) (\<lambda>_.
     tx_bind randomUUID (\<lambda>fromMovementId.
     tx_bind randomUUID (\<lambda>toMovementId.
     tx_bind (take_balance source p quantity) (\<lambda>transferCost.
     tx_bind (add_balance env target p quantity transferCost) (\<lambda>_.
     tx_bind (insert_movement (transfer_movement fromMovementId source Transfer_out transferCost accountId n)) (\<lambda>_.
     tx_bind (insert_movement (transfer_movement toMovementId target Transfer_in transferCost accountId n)) (\<lambda>_.
     tx_bind (transferBatch n) (\<lambda>batchId.
     tx_bind (transferSerials env n fromMovementId toMovementId) (\<lambda>serialItemIds.
     tx_bind (sideEffects (js ''stock_transfer'') fromMovementId (js ''inventory.stock.transferred'') accountId key) (\<lambda>_.
     tx_bind (reconcileLowStockAlert source p) (\<lambda>_.
     tx_bind (reconcileLowStockAlert target p) (\<lambda>_.
     tx_return (TransferDone \<lparr>tf_batchId = batchId, tf_fromMovementId = fromMovementId, tf_fromWarehouseId = source,
       tf_id = fromMovementId, tf_productId = p, tf_quantity = tr_quantity n, tf_serialItemIds = serialItemIds,
       tf_toMovementId = toMovementId, tf_toWarehouseId = target,
       tf_totalCostEur = multiplyFixed (tr_quantity n) (numeric_text transferCost),
       tf_unitCostEur = numeric_text transferCost\<rparr>))))))))))))))))))"

end
