(* ===== verification/InventoryCommands.thy ===== *)
theory InventoryCommands
  imports InventoryService
begin

text \<open>
  The rest of \<open>InventoryService\<close>: reservations, stocktakes, stock settings and warehouses;
  \<open>command\<close> with its idempotency table; and the requests of the service as one datatype.
\<close>

section \<open>Reservations\<close>

definition reservation_response :: "ReservationRow \<Rightarrow> uuid list \<Rightarrow> jsstr \<Rightarrow> StockReservation" where
  "reservation_response row serialItemIds referenceLabel =
     \<lparr>sv_id = rs_id row, sv_initialQuantity = numeric_text (rs_initial row), sv_productId = rs_product row,
      sv_referenceId = rs_reference_id row, sv_referenceLabel = referenceLabel,
      sv_referenceType = rs_reference_type row, sv_remainingQuantity = numeric_text (rs_remaining row),
      sv_serialItemIds = serialItemIds, sv_status = rs_status row, sv_warehouseId = rs_warehouse row\<rparr>"

definition requireReservationSource :: "StockReservationReferenceType \<Rightarrow> jsstr \<Rightarrow> (jsstr \<times> jsstr) inv_tx" where
  "requireReservationSource type referenceId =
     tx_row (\<lambda>s. reservationSources s type referenceId) (Api ''STOCK_RESERVATION_SOURCE_NOT_FOUND'')"

definition insert_reservation :: "ReservationRow \<Rightarrow> unit inv_tx" where
  "insert_reservation row =
     tx_bind (tx_require (fits (rs_initial row)) NumericOverflow) (\<lambda>_.
     tx_bind (tx_reads stock_reservations) (\<lambda>rows.
     tx_bind (tx_require (\<not> list_ex (\<lambda>r. rs_warehouse r = rs_warehouse row \<and> rs_product r = rs_product row \<and>
        rs_reference_type r = rs_reference_type row \<and> rs_reference_id r = rs_reference_id row \<and> rs_status r = Active) rows)
       (UniqueViolation ''stock_reservation_active_reference_unique'')) (\<lambda>_.
     tx_writes (\<lambda>s. s\<lparr>stock_reservations := stock_reservations s @ [row]\<rparr>))))"

definition reserve_item :: "uuid \<Rightarrow> uuid \<Rightarrow> unit inv_tx" where
  "reserve_item reservationId item = tx_bind randomUUID (\<lambda>i.
     tx_writes (\<lambda>s. s\<lparr>reservation_serials := reservation_serials s @
       [\<lparr>rsi_id = i, rsi_reservation = reservationId, rsi_item = item, rsi_active = True\<rparr>]\<rparr>))"

definition reserveSerials :: "inv_env \<Rightarrow> CreateStockReservationRequest \<Rightarrow> uuid \<Rightarrow> uuid list inv_tx" where
  "reserveSerials env n reservationId = (let serials = serials_of (rv_serialNumbers n) in
     if serials = [] then tx_return [] else
     tx_bind (tx_reads (free_serials env (rv_warehouseId n) (rv_productId n) serials)) (\<lambda>ids.
     tx_bind (tx_require (length ids = length serials) (Api ''RESERVATION_SERIAL_NOT_AVAILABLE'')) (\<lambda>_.
     tx_bind (tx_for (reserve_item reservationId) ids) (\<lambda>_.
     tx_return ids))))"

definition reserveStock_body :: "inv_env \<Rightarrow> jsstr \<Rightarrow> uuid \<Rightarrow> CreateStockReservationRequest \<Rightarrow> inv_response inv_tx" where
  "reserveStock_body env key accountId n =
     (let w = rv_warehouseId n; p = rv_productId n; quantity = fixedDecimal (rv_quantity n) in
     tx_bind (requireReservationSource (rv_referenceType n) (rv_referenceId n)) (\<lambda>(sourceId, label).
     tx_bind (activeProduct p) (\<lambda>product.
     tx_bind (requireActiveWarehouse w) (\<lambda>_.
     tx_bind (ensureWarehousesNotUnderStocktake [w]) (\<lambda>_.
     tx_bind (tx_res (validateReservationTracking product n)) (\<lambda>_.
     tx_bind (ensureUnreservedAvailability w p quantity) (\<lambda>_.
     tx_bind randomUUID (\<lambda>reservationId.
     let row = \<lparr>rs_id = reservationId, rs_warehouse = w, rs_product = p, rs_reference_type = RequestReference (rv_referenceType n),
           rs_reference_id = sourceId, rs_initial = quantity, rs_remaining = quantity, rs_status = Active,
           rs_ended_by = None, rs_version = 1\<rparr> in
     tx_bind (insert_reservation row) (\<lambda>_.
     tx_bind (reserveSerials env n reservationId) (\<lambda>serialItemIds.
     tx_bind (sideEffects (js ''stock_reservation'') reservationId (js ''inventory.stock.reserved'') accountId key) (\<lambda>_.
     tx_bind (reconcileLowStockAlert w p) (\<lambda>_.
     tx_return (ReservationDone (reservation_response row serialItemIds label))))))))))))))"

definition is_hex :: "nat \<Rightarrow> bool" where
  "is_hex c \<longleftrightarrow> is_digit c \<or> 97 \<le> c \<and> c \<le> 102 \<or> 65 \<le> c \<and> c \<le> 70"

definition reservationReferenceFallback :: "jsstr \<Rightarrow> jsstr" where
  "reservationReferenceFallback referenceId =
     (if rx [(is_hex, 8, 8), lit 45, (is_hex, 4, 4), lit 45, (is_hex, 4, 4), lit 45, (is_hex, 4, 4), lit 45,
             (is_hex, 12, 12)] referenceId
      then js ''Source unavailable'' else referenceId)"

text \<open>A fiscal preparation of the register has no label of its own.\<close>

definition reservation_source :: "inv_db \<Rightarrow> reservation_reference \<Rightarrow> jsstr \<Rightarrow> (jsstr \<times> jsstr) option" where
  "reservation_source s type referenceId = (case type of
     RequestReference t \<Rightarrow> reservationSources s t referenceId | PosFiscalPreparation \<Rightarrow> None)"

definition releaseReservation_body :: "jsstr \<Rightarrow> uuid \<Rightarrow> uuid \<Rightarrow> inv_response inv_tx" where
  "releaseReservation_body key accountId reservationId =
     tx_bind (tx_row (\<lambda>s. find (\<lambda>r. rs_id r = reservationId) (stock_reservations s)) (Api ''STOCK_RESERVATION_NOT_FOUND'')) (\<lambda>row.
     tx_bind (tx_require (rs_status row = Active) (Api ''STOCK_RESERVATION_NOT_ACTIVE'')) (\<lambda>_.
     tx_bind (tx_reads (\<lambda>s. case reservation_source s (rs_reference_type row) (rs_reference_id row) of
        None \<Rightarrow> reservationReferenceFallback (rs_reference_id row) | Some (_, label) \<Rightarrow> label)) (\<lambda>label.
     tx_bind (tx_writes (\<lambda>s. s\<lparr>stock_reservations := update_where (\<lambda>r. rs_id r = reservationId)
        (\<lambda>r. r\<lparr>rs_status := Released, rs_ended_by := Some accountId, rs_version := rs_version r + 1\<rparr>)
        (stock_reservations s)\<rparr>)) (\<lambda>_.
     tx_bind (tx_reads (\<lambda>s. map rsi_item (filter (\<lambda>r. rsi_reservation r = reservationId \<and> rsi_active r) (reservation_serials s)))) (\<lambda>items.
     tx_bind (tx_writes (\<lambda>s. s\<lparr>reservation_serials := update_where (\<lambda>r. rsi_reservation r = reservationId \<and> rsi_active r)
        (\<lambda>r. r\<lparr>rsi_active := False\<rparr>) (reservation_serials s)\<rparr>)) (\<lambda>_.
     tx_bind (sideEffects (js ''stock_reservation'') reservationId (js ''inventory.stock.reservation_released'') accountId key) (\<lambda>_.
     tx_bind (reconcileLowStockAlert (rs_warehouse row) (rs_product row)) (\<lambda>_.
     tx_return (ReservationDone (reservation_response (row\<lparr>rs_status := Released\<rparr>) items label))))))))))"

section \<open>Stocktakes\<close>

definition openStocktake_body :: "jsstr \<Rightarrow> uuid \<Rightarrow> uuid \<Rightarrow> jsstr \<Rightarrow> inv_response inv_tx" where
  "openStocktake_body key accountId w referenceId =
     tx_bind (requireActiveWarehouse w) (\<lambda>_.
     tx_bind (tx_reads (\<lambda>s. open_stocktake s w)) (\<lambda>existing.
     tx_bind (tx_require (\<not> existing) (Api ''STOCKTAKE_ALREADY_OPEN'')) (\<lambda>_.
     tx_bind randomUUID (\<lambda>i.
     let row = \<lparr>st_id = i, st_warehouse = w, st_reference = referenceId, st_status = StocktakeOpen\<rparr> in
     tx_bind (tx_writes (\<lambda>s. s\<lparr>stocktakes := stocktakes s @ [row]\<rparr>)) (\<lambda>_.
     tx_bind (sideEffects (js ''stocktake'') i (js ''inventory.stocktake.opened'') accountId key) (\<lambda>_.
     tx_return (StocktakeDone row)))))))"

definition require_open_stocktake :: "uuid \<Rightarrow> stocktake_row inv_tx" where
  "require_open_stocktake stocktakeId =
     tx_bind (tx_row (\<lambda>s. find (\<lambda>x. st_id x = stocktakeId) (stocktakes s)) (Api ''STOCKTAKE_NOT_FOUND'')) (\<lambda>row.
     tx_bind (tx_require (st_status row = StocktakeOpen) (Api ''STOCKTAKE_NOT_OPEN'')) (\<lambda>_.
     tx_return row))"

definition find_count :: "inv_db \<Rightarrow> uuid \<Rightarrow> uuid \<Rightarrow> count_row option" where
  "find_count s stocktakeId p = find (\<lambda>c. co_stocktake c = stocktakeId \<and> co_product c = p) (stocktake_counts s)"

text \<open>On conflict only the counted quantity changes; the expected one stays.\<close>

definition upsert_count :: "uuid \<Rightarrow> uuid \<Rightarrow> int \<Rightarrow> int \<Rightarrow> uuid inv_tx" where
  "upsert_count stocktakeId p expected counted =
     tx_bind (tx_require (fits counted) NumericOverflow) (\<lambda>_.
     tx_bind (tx_reads (\<lambda>s. find_count s stocktakeId p)) (\<lambda>found.
     case found of
       Some c \<Rightarrow> tx_bind (tx_writes (\<lambda>s. s\<lparr>stocktake_counts := update_where (\<lambda>x. co_id x = co_id c)
           (\<lambda>x. x\<lparr>co_counted := counted\<rparr>) (stocktake_counts s)\<rparr>)) (\<lambda>_. tx_return (co_id c))
     | None \<Rightarrow> tx_bind randomUUID (\<lambda>i. tx_bind (tx_writes (\<lambda>s. s\<lparr>stocktake_counts := stocktake_counts s @
           [\<lparr>co_id = i, co_stocktake = stocktakeId, co_product = p, co_expected = expected, co_counted = counted\<rparr>]\<rparr>)) (\<lambda>_.
         tx_return i))))"

definition record_serial_counts :: "inv_env \<Rightarrow> uuid \<Rightarrow> uuid \<Rightarrow> uuid \<Rightarrow> jsstr list \<Rightarrow> unit inv_tx" where
  "record_serial_counts env countId w p numbers =
     tx_bind (tx_reads (\<lambda>s. map se_id (filter (\<lambda>x. se_warehouse x = w \<and> se_product x = p \<and> se_status x = Available \<and>
        env_upper env (se_number x) \<in> set numbers) (serialized_items s)))) (\<lambda>ids.
     tx_bind (tx_require (length ids = length numbers) (Api ''STOCKTAKE_SERIAL_NOT_AVAILABLE'')) (\<lambda>_.
     tx_writes (\<lambda>s. s\<lparr>stocktake_serial_counts := stocktake_serial_counts s @ map (\<lambda>i. (countId, i)) ids\<rparr>)))"

definition record_batch_count :: "uuid \<Rightarrow> uuid \<Rightarrow> StocktakeBatchCount \<Rightarrow> unit inv_tx" where
  "record_batch_count countId p b =
     tx_bind (upsert_batch p (bc_batchNumber b) (bc_expiresAt b)) (\<lambda>batchId.
     tx_bind (tx_require (fits (fixedDecimal (bc_countedQuantity b))) NumericOverflow) (\<lambda>_.
     tx_writes (\<lambda>s. s\<lparr>stocktake_batch_counts := stocktake_batch_counts s @
       [((countId, batchId), fixedDecimal (bc_countedQuantity b))]\<rparr>)))"

definition recordStocktakeCount_body :: "inv_env \<Rightarrow> jsstr \<Rightarrow> uuid \<Rightarrow> uuid \<Rightarrow> RecordStocktakeCountRequest \<Rightarrow> inv_response inv_tx" where
  "recordStocktakeCount_body env key accountId stocktakeId n =
     (let p = cnt_productId n; serials = serials_of (cnt_serialNumbers n) in
     tx_bind (require_open_stocktake stocktakeId) (\<lambda>row.
     tx_bind (activeProduct p) (\<lambda>product.
     tx_bind (tx_res (validateStocktakeTracking product n)) (\<lambda>_.
     tx_bind (tx_reads (\<lambda>s. on_hand s (st_warehouse row) p)) (\<lambda>expected.
     tx_bind (upsert_count stocktakeId p expected (fixedDecimal (cnt_countedQuantity n))) (\<lambda>countId.
     tx_bind (tx_writes (\<lambda>s. s\<lparr>stocktake_serial_counts := filter (\<lambda>(c, _). c \<noteq> countId) (stocktake_serial_counts s)\<rparr>)) (\<lambda>_.
     tx_bind (tx_writes (\<lambda>s. s\<lparr>stocktake_batch_counts := filter (\<lambda>((c, _), _). c \<noteq> countId) (stocktake_batch_counts s)\<rparr>)) (\<lambda>_.
     tx_bind (if tracking_mode product = TrackSerial \<and> serials \<noteq> []
              then record_serial_counts env countId (st_warehouse row) p serials else tx_return ()) (\<lambda>_.
     tx_bind (tx_for (record_batch_count countId p) (case_option [] id (cnt_batches n))) (\<lambda>_.
     tx_bind (sideEffects (js ''stocktake'') stocktakeId (js ''inventory.stocktake.count_recorded'') accountId key) (\<lambda>_.
     tx_return (StocktakeDone row))))))))))))"

text \<open>A text that determines an identifier, for \<open>reference_id\<close>.\<close>

definition uuid_text :: "uuid \<Rightarrow> jsstr" where
  "uuid_text i = nat_digits i"

definition completeSerialStocktake :: "count_row \<Rightarrow> uuid \<Rightarrow> uuid option \<Rightarrow> unit inv_tx" where
  "completeSerialStocktake c w movementId =
     tx_bind (tx_require (isWholeQuantity (numeric_text (co_expected c)) \<and> isWholeQuantity (numeric_text (co_counted c)))
       (Api ''STOCKTAKE_SERIAL_BALANCE_INVALID'')) (\<lambda>_.
     tx_bind (tx_reads (\<lambda>s. map se_id (filter (\<lambda>x. se_warehouse x = w \<and> se_product x = co_product c \<and> se_status x = Available)
        (serialized_items s)))) (\<lambda>available.
     tx_bind (tx_reads (\<lambda>s. map snd (filter (\<lambda>(k, _). k = co_id c) (stocktake_serial_counts s)))) (\<lambda>evidence.
     tx_bind (tx_require (int (length available) = wholeNumber (numeric_text (co_expected c)) \<and>
        int (length evidence) = wholeNumber (numeric_text (co_counted c))) (Api ''STOCKTAKE_SERIAL_EVIDENCE_INVALID'')) (\<lambda>_.
     let missingIds = filter (\<lambda>i. i \<notin> set evidence) available in
     if missingIds = [] then tx_return ()
     else case movementId of
       None \<Rightarrow> tx_throw (Api ''STOCKTAKE_SERIAL_EVIDENCE_INVALID'')
     | Some m \<Rightarrow> tx_writes (\<lambda>s. s\<lparr>serialized_items := update_where (\<lambda>x. se_id x \<in> set missingIds)
         (\<lambda>x. x\<lparr>se_status := Missing, se_stocktake_movement := Some m\<rparr>) (serialized_items s)\<rparr>)))))"

definition completeBatchStocktake :: "count_row \<Rightarrow> uuid \<Rightarrow> unit inv_tx" where
  "completeBatchStocktake c w =
     tx_bind (tx_reads (\<lambda>s. filter (\<lambda>((w', b), q). w' = w \<and> 0 < q \<and>
        list_ex (\<lambda>x. ba_id x = b \<and> ba_product x = co_product c) (batches s)) (batch_balances s))) (\<lambda>current.
     tx_bind (tx_reads (\<lambda>s. filter (\<lambda>((k, _), _). k = co_id c) (stocktake_batch_counts s))) (\<lambda>evidence.
     let evidenceIds = map (\<lambda>((_, b), _). b) evidence in
     tx_bind (tx_require (\<not> list_ex (\<lambda>((_, b), _). b \<notin> set evidenceIds) current)
       (Api ''STOCKTAKE_BATCH_EVIDENCE_INCOMPLETE'')) (\<lambda>_.
     tx_bind (tx_require (sumQuantities (map (\<lambda>(_, q). numeric_text q) current) = numeric_text (co_expected c) \<and>
        sumQuantities (map (\<lambda>(_, q). numeric_text q) evidence) = numeric_text (co_counted c))
       (Api ''STOCKTAKE_BATCH_EVIDENCE_INVALID'')) (\<lambda>_.
     tx_for (\<lambda>((_, b), q). tx_writes (\<lambda>s. s\<lparr>batch_balances := AList.update (w, b) q (batch_balances s)\<rparr>)) evidence))))"

text \<open>The upsert that sets a counted quantity keeps the average cost of an existing balance.\<close>

definition set_balance :: "uuid \<Rightarrow> uuid \<Rightarrow> int \<Rightarrow> unit inv_tx" where
  "set_balance w p quantity = tx_writes (\<lambda>s. s\<lparr>stock_balances := AList.update (w, p)
     (case map_of (stock_balances s) (w, p) of None \<Rightarrow> \<lparr>bal_quantity = quantity, bal_average_unit_cost = 0\<rparr>
      | Some b \<Rightarrow> b\<lparr>bal_quantity := quantity\<rparr>) (stock_balances s)\<rparr>)"

definition complete_count :: "uuid \<Rightarrow> uuid \<Rightarrow> uuid \<Rightarrow> count_row \<times> ProductTrackingMode \<times> int \<Rightarrow> unit inv_tx" where
  "complete_count stocktakeId w accountId = (\<lambda>(c, mode, averageCost).
     let changed = (co_expected c \<noteq> co_counted c); difference = co_counted c - co_expected c in
     tx_bind (if \<not> changed then tx_return None else
       tx_bind randomUUID (\<lambda>movementId.
       tx_bind (insert_movement \<lparr>mv_id = movementId, mv_warehouse = w, mv_product = co_product c,
          mv_type = (if 0 < difference then Stocktake_in else Stocktake_out), mv_quantity = \<bar>difference\<bar>,
          mv_reference_type = js ''stocktake'', mv_reference_id = uuid_text stocktakeId, mv_actor = accountId,
          mv_unit_cost = averageCost, mv_batch = None, mv_customer = None, mv_supplier = None,
          mv_technician = None\<rparr>) (\<lambda>_. tx_return (Some movementId)))) (\<lambda>movementId.
     tx_bind (if mode = TrackSerial then completeSerialStocktake c w movementId else tx_return ()) (\<lambda>_.
     tx_bind (if mode = TrackBatch then completeBatchStocktake c w else tx_return ()) (\<lambda>_.
     if changed then set_balance w (co_product c) (co_counted c) else tx_return ()))))"

text \<open>The counts of a stocktake with the tracking mode of the product and its average cost.\<close>

definition completion_rows :: "inv_db \<Rightarrow> uuid \<Rightarrow> uuid \<Rightarrow> (count_row \<times> ProductTrackingMode \<times> int) list" where
  "completion_rows s stocktakeId w =
     map (\<lambda>c. (c, tracking_mode (cat_product (the (catalogue s (co_product c)))),
        case map_of (stock_balances s) (w, co_product c) of None \<Rightarrow> 0 | Some b \<Rightarrow> bal_average_unit_cost b))
       (filter (\<lambda>c. co_stocktake c = stocktakeId \<and> catalogue s (co_product c) \<noteq> None) (stocktake_counts s))"

definition completeStocktake_body :: "jsstr \<Rightarrow> uuid \<Rightarrow> uuid \<Rightarrow> inv_response inv_tx" where
  "completeStocktake_body key accountId stocktakeId =
     tx_bind (require_open_stocktake stocktakeId) (\<lambda>row.
     let w = st_warehouse row in
     tx_bind (tx_reads (\<lambda>s. list_ex (\<lambda>((w', p), _). w' = w \<and> find_count s stocktakeId p = None) (stock_balances s))) (\<lambda>missing.
     tx_bind (tx_require (\<not> missing) (Api ''STOCKTAKE_COUNTS_INCOMPLETE'')) (\<lambda>_.
     tx_bind (tx_reads (\<lambda>s. completion_rows s stocktakeId w)) (\<lambda>counts.
     tx_bind (tx_reads (\<lambda>s. list_ex (\<lambda>r. rs_warehouse r = w \<and> rs_status r = Active \<and>
        (case find_count s stocktakeId (rs_product r) of None \<Rightarrow> True
         | Some c \<Rightarrow> reserved s w (rs_product r) > co_counted c)) (stock_reservations s))) (\<lambda>conflict.
     tx_bind (tx_require (\<not> conflict) (Api ''STOCKTAKE_BELOW_RESERVED_QUANTITY'')) (\<lambda>_.
     tx_bind (tx_for (complete_count stocktakeId w accountId) counts) (\<lambda>_.
     tx_bind (tx_writes (\<lambda>s. s\<lparr>stocktakes := update_where (\<lambda>x. st_id x = stocktakeId)
        (\<lambda>x. x\<lparr>st_status := StocktakeCompleted\<rparr>) (stocktakes s)\<rparr>)) (\<lambda>_.
     tx_bind (sideEffects (js ''stocktake'') stocktakeId (js ''inventory.stocktake.completed'') accountId key) (\<lambda>_.
     tx_bind (tx_for (\<lambda>(c, _, _). reconcileLowStockAlert w (co_product c)) counts) (\<lambda>_.
     tx_return (StocktakeDone (row\<lparr>st_status := StocktakeCompleted\<rparr>))))))))))))"

section \<open>Settings and warehouses\<close>

record ConfigureStockSettingsRequest =
  cs_alertRecipientAccountIds :: "uuid list option"
  cs_minimumQuantity :: jsstr
  cs_productId :: uuid
  cs_targetQuantity :: jsstr
  cs_warehouseId :: uuid

definition normalizeSettings :: "ConfigureStockSettingsRequest \<Rightarrow> inv_error + ConfigureStockSettingsRequest" where
  "normalizeSettings input =
     (let n = input\<lparr>cs_alertRecipientAccountIds := Some (sort (new_Set (case_option [] id (cs_alertRecipientAccountIds input)))),
            cs_minimumQuantity := normalizeQuantity (cs_minimumQuantity input),
            cs_targetQuantity := normalizeQuantity (cs_targetQuantity input)\<rparr> in
      if fixedDecimal (cs_targetQuantity n) < fixedDecimal (cs_minimumQuantity n)
      then Inl (Api ''STOCK_TARGET_BELOW_MINIMUM'') else Inr n)"

definition configureStockSettings_body :: "jsstr \<Rightarrow> uuid \<Rightarrow> ConfigureStockSettingsRequest \<Rightarrow> inv_response inv_tx" where
  "configureStockSettings_body key accountId n =
     (let w = cs_warehouseId n; p = cs_productId n; recipients = case_option [] id (cs_alertRecipientAccountIds n);
          minimum = fixedDecimal (cs_minimumQuantity n); target = fixedDecimal (cs_targetQuantity n) in
     tx_bind (activeProduct p) (\<lambda>_.
     tx_bind (requireActiveWarehouse w) (\<lambda>_.
     tx_bind (tx_reads (\<lambda>s. recipients = [] \<or> length (filter (activeAccount s) recipients) = length recipients)) (\<lambda>valid.
     tx_bind (tx_require valid (Api ''STOCK_ALERT_RECIPIENT_INVALID'')) (\<lambda>_.
     tx_bind (tx_require (fits minimum \<and> fits target) NumericOverflow) (\<lambda>_.
     tx_bind randomUUID (\<lambda>i.
     tx_bind (tx_reads (\<lambda>s. case map_of (stock_settings s) (w, p) of
         None \<Rightarrow> \<lparr>ss_id = i, ss_minimum = minimum, ss_target = target, ss_active = True, ss_version = 1\<rparr>
       | Some c \<Rightarrow> c\<lparr>ss_minimum := minimum, ss_target := target, ss_active := True, ss_version := ss_version c + 1\<rparr>)) (\<lambda>row.
     tx_bind (tx_writes (\<lambda>s. s\<lparr>stock_settings := AList.update (w, p) row (stock_settings s)\<rparr>)) (\<lambda>_.
     tx_bind (tx_writes (\<lambda>s. s\<lparr>alert_subscriptions := update_where (\<lambda>((w', p', _), _). w' = w \<and> p' = p)
        (\<lambda>(k, _). (k, False)) (alert_subscriptions s)\<rparr>)) (\<lambda>_.
     tx_bind (tx_writes (\<lambda>s. s\<lparr>alert_subscriptions := fold (\<lambda>a. AList.update (w, p, a) True) recipients (alert_subscriptions s)\<rparr>)) (\<lambda>_.
     tx_bind (sideEffects (js ''stock_settings'') (ss_id row) (js ''inventory.stock.settings_configured'') accountId key) (\<lambda>_.
     tx_bind (reconcileLowStockAlert w p) (\<lambda>_.
     tx_return (SettingsDone \<lparr>sg_alertRecipientAccountIds = recipients, sg_minimumQuantity = numeric_text minimum,
       sg_productId = p, sg_targetQuantity = numeric_text target, sg_version = ss_version row,
       sg_warehouseId = w\<rparr>))))))))))))))"

record CreateWarehouseRequest =
  cw_businessLocationId :: "uuid option"
  cw_code :: jsstr
  cw_name :: jsstr
  cw_technicianOperatorId :: "uuid option"
  cw_type :: "WarehouseType option"

definition normalizeWarehouse :: "(nat \<Rightarrow> jsstr) \<Rightarrow> CreateWarehouseRequest \<Rightarrow> inv_error + CreateWarehouseRequest" where
  "normalizeWarehouse tbl input =
     res_bind (cleanCode tbl (cw_code input) ''WAREHOUSE_CODE_REQUIRED'') (\<lambda>code.
     res_bind (clean (cw_name input) ''WAREHOUSE_NAME_REQUIRED'') (\<lambda>name.
     let n = input\<lparr>cw_code := code, cw_name := name, cw_type := Some (case_option Standard id (cw_type input))\<rparr> in
     if cw_technicianOperatorId n \<noteq> None \<and> cw_businessLocationId n = None
     then Inl (Api ''WAREHOUSE_OPERATOR_LOCATION_REQUIRED'')
     else if cw_technicianOperatorId n \<noteq> None \<and> cw_type n \<noteq> Some Technician
     then Inl (Api ''WAREHOUSE_OPERATOR_TYPE_INVALID'')
     else Inr n))"

definition createWarehouse_body :: "inv_env \<Rightarrow> jsstr \<Rightarrow> uuid \<Rightarrow> CreateWarehouseRequest \<Rightarrow> inv_response inv_tx" where
  "createWarehouse_body env key accountId n =
     tx_bind (tx_reads (\<lambda>s. case cw_businessLocationId n of None \<Rightarrow> True | Some l \<Rightarrow> activeLocation s l)) (\<lambda>located.
     tx_bind (tx_require located (Api ''BUSINESS_LOCATION_NOT_FOUND'')) (\<lambda>_.
     tx_bind (tx_reads (\<lambda>s. case (cw_technicianOperatorId n, cw_businessLocationId n) of
        (Some o', Some l) \<Rightarrow> activeOperator s o' l | _ \<Rightarrow> True)) (\<lambda>operated.
     tx_bind (tx_require operated (Api ''TECHNICIAN_OPERATOR_NOT_FOUND'')) (\<lambda>_.
     tx_bind (tx_require (char_count (cw_code n) \<le> 30 \<and> char_count (cw_name n) \<le> 120) ValueTooLong) (\<lambda>_.
     tx_bind (tx_reads warehouses) (\<lambda>ws.
     tx_bind (tx_require (\<not> list_ex (\<lambda>x. env_upper env (wh_code x) = env_upper env (cw_code n)) ws)
       (UniqueViolation ''warehouses_code_unique'')) (\<lambda>_.
     tx_bind randomUUID (\<lambda>i.
     let row = \<lparr>wh_id = i, wh_code = cw_code n, wh_name = cw_name n, wh_type = case_option Standard id (cw_type n),
           wh_location = cw_businessLocationId n, wh_operator = cw_technicianOperatorId n, wh_active = True, wh_version = 1\<rparr> in
     tx_bind (tx_writes (\<lambda>s. s\<lparr>warehouses := warehouses s @ [row]\<rparr>)) (\<lambda>_.
     tx_bind (sideEffects (js ''warehouse'') i (js ''master_data.warehouse.created'') accountId key) (\<lambda>_.
     tx_return (WarehouseDone row)))))))))))"

section \<open>Commands\<close>

text \<open>
  \<open>platform.idempotency_keys\<close>: a row per scope and key. The hash of a request is a function of
  its normal form (SHA-256 of its JSON text).
\<close>

datatype idempotency_status = Processing | Completed

record idempotency_row =
  ik_request_hash :: jsstr
  ik_status :: idempotency_status
  ik_response :: "inv_response option"

type_synonym inv_state = "((string \<times> jsstr) \<times> idempotency_row) list \<times> inv_db"

definition claim :: "string \<Rightarrow> jsstr \<Rightarrow> jsstr \<Rightarrow> (inv_state, inv_error, inv_response option) tx" where
  "claim scope key requestHash = (\<lambda>(keys, db). case map_of keys (scope, key) of
       None \<Rightarrow> Inr (None, (AList.update (scope, key) \<lparr>ik_request_hash = requestHash, ik_status = Processing, ik_response = None\<rparr> keys, db))
     | Some row \<Rightarrow>
         if ik_request_hash row \<noteq> requestHash then Inl (Api ''IDEMPOTENCY_KEY_CONFLICT'')
         else if ik_status row = Completed \<and> ik_response row \<noteq> None then Inr (ik_response row, (keys, db))
         else Inl (Api ''IDEMPOTENCY_REQUEST_IN_PROGRESS''))"

definition run_action :: "inv_response inv_tx \<Rightarrow> (inv_state, inv_error, inv_response) tx" where
  "run_action action = (\<lambda>(keys, db). case action db of Inl e \<Rightarrow> Inl e | Inr (r, db') \<Rightarrow> Inr (r, (keys, db')))"

definition complete_key :: "string \<Rightarrow> jsstr \<Rightarrow> inv_response \<Rightarrow> (inv_state, inv_error, unit) tx" where
  "complete_key scope key result = tx_writes (\<lambda>(keys, db). (case map_of keys (scope, key) of None \<Rightarrow> keys
     | Some row \<Rightarrow> AList.update (scope, key) (row\<lparr>ik_status := Completed, ik_response := Some result\<rparr>) keys, db))"

text \<open>What the catch clause makes of an error.\<close>

definition translate_error :: "inv_error \<Rightarrow> inv_error" where
  "translate_error e = (case e of UniqueViolation c \<Rightarrow>
       if c = ''serialized_items_serial_unique'' then Api ''SERIAL_NUMBER_ALREADY_REGISTERED''
       else if c = ''stock_reservation_active_reference_unique'' then Api ''STOCK_RESERVATION_ALREADY_EXISTS''
       else Api ''INVENTORY_DUPLICATE''
     | _ \<Rightarrow> e)"

definition runCommand :: "string \<Rightarrow> jsstr option \<Rightarrow> jsstr \<Rightarrow> (jsstr \<Rightarrow> inv_response inv_tx) \<Rightarrow> inv_state \<Rightarrow>
    (inv_error + inv_response) \<times> inv_state" where
  "runCommand scope key requestHash action s = (case validKey key of Inl e \<Rightarrow> (Inl e, s)
     | Inr k \<Rightarrow>
         (case tx_bind (claim scope k requestHash) (\<lambda>replay. case replay of
             Some r \<Rightarrow> tx_return r
           | None \<Rightarrow> tx_bind (run_action (action k)) (\<lambda>result.
               tx_bind (complete_key scope k result) (\<lambda>_. tx_return result))) s of
           Inl e \<Rightarrow> (Inl (translate_error e), s)
         | Inr (r, s') \<Rightarrow> (Inr r, s')))"

datatype inv_command = Receive ReceiveStockRequest | IssueStock IssueStockRequest | ReturnStock ReturnStockRequest
  | Transfer TransferStockRequest | Reserve CreateStockReservationRequest | ReleaseReservation uuid
  | OpenStocktake uuid jsstr | RecordCount uuid RecordStocktakeCountRequest | CompleteStocktake uuid
  | ConfigureSettings ConfigureStockSettingsRequest | CreateWarehouse CreateWarehouseRequest

text \<open>The declarations of the DTO classes that restrict decimals, texts and list lengths.\<close>

definition dto_serials :: "jsstr list option \<Rightarrow> bool" where
  "dto_serials v \<longleftrightarrow> length (serials_of v) \<le> 500"

definition dto_reference :: "jsstr \<Rightarrow> bool" where
  "dto_reference t \<longleftrightarrow> 1 \<le> char_count t \<and> char_count t \<le> 120"

definition dto_batch :: "jsstr option \<Rightarrow> bool" where
  "dto_batch v \<longleftrightarrow> (case v of None \<Rightarrow> True | Some t \<Rightarrow> char_count t \<le> 100)"

fun dto_valid :: "inv_command \<Rightarrow> bool" where
  "dto_valid (Receive r) = (dto_decimal (re_quantity r) \<and> dto_reference (re_referenceId r) \<and> dto_batch (re_batchNumber r) \<and>
     dto_serials (re_serialNumbers r) \<and> (case re_unitCostEur r of None \<Rightarrow> True | Some c \<Rightarrow> dto_decimal c))"
| "dto_valid (IssueStock r) = (dto_decimal (iss_quantity r) \<and> dto_reference (iss_referenceId r) \<and>
     dto_batch (iss_batchNumber r) \<and> dto_serials (iss_serialNumbers r))"
| "dto_valid (ReturnStock r) = (dto_decimal (ret_quantity r) \<and> dto_reference (ret_referenceId r) \<and> dto_serials (ret_serialNumbers r))"
| "dto_valid (Transfer r) = (dto_decimal (tr_quantity r) \<and> dto_reference (tr_referenceId r) \<and>
     dto_batch (tr_batchNumber r) \<and> dto_serials (tr_serialNumbers r))"
| "dto_valid (Reserve r) = (dto_decimal (rv_quantity r) \<and> dto_reference (rv_referenceId r) \<and> dto_serials (rv_serialNumbers r))"
| "dto_valid (ReleaseReservation i) = True"
| "dto_valid (OpenStocktake w t) = dto_reference t"
| "dto_valid (RecordCount i r) = (dto_decimal (cnt_countedQuantity r) \<and> dto_serials (cnt_serialNumbers r) \<and>
     length (case_option [] id (cnt_batches r)) \<le> 500 \<and>
     list_all (\<lambda>b. dto_decimal (bc_countedQuantity b) \<and> char_count (bc_batchNumber b) \<le> 100) (case_option [] id (cnt_batches r)))"
| "dto_valid (CompleteStocktake i) = True"
| "dto_valid (ConfigureSettings r) = (dto_decimal (cs_minimumQuantity r) \<and> dto_decimal (cs_targetQuantity r) \<and>
     length (case_option [] id (cs_alertRecipientAccountIds r)) \<le> 50)"
| "dto_valid (CreateWarehouse r) = (1 \<le> char_count (cw_code r) \<and> char_count (cw_code r) \<le> 30 \<and>
     1 \<le> char_count (cw_name r) \<and> char_count (cw_name r) \<le> 120)"

text \<open>The normal form of a request, and the scope and the body that it runs.\<close>

fun normalize :: "(nat \<Rightarrow> jsstr) \<Rightarrow> inv_command \<Rightarrow> inv_error + inv_command" where
  "normalize tbl (Receive r) = res_bind (normalizeReceipt tbl r) (\<lambda>n. Inr (Receive n))"
| "normalize tbl (IssueStock r) = res_bind (normalizeIssue tbl r) (\<lambda>n. Inr (IssueStock n))"
| "normalize tbl (ReturnStock r) = res_bind (normalizeReturn tbl r) (\<lambda>n. Inr (ReturnStock n))"
| "normalize tbl (Transfer r) = res_bind (normalizeTransfer tbl r) (\<lambda>n. Inr (Transfer n))"
| "normalize tbl (Reserve r) = res_bind (normalizeReservation tbl r) (\<lambda>n. Inr (Reserve n))"
| "normalize tbl (ReleaseReservation i) = Inr (ReleaseReservation i)"
| "normalize tbl (OpenStocktake w t) = res_bind (clean t ''STOCKTAKE_REFERENCE_REQUIRED'') (\<lambda>r. Inr (OpenStocktake w r))"
| "normalize tbl (RecordCount i r) = res_bind (normalizeCount tbl r) (\<lambda>n. Inr (RecordCount i n))"
| "normalize tbl (CompleteStocktake i) = Inr (CompleteStocktake i)"
| "normalize tbl (ConfigureSettings r) = res_bind (normalizeSettings r) (\<lambda>n. Inr (ConfigureSettings n))"
| "normalize tbl (CreateWarehouse r) = res_bind (normalizeWarehouse tbl r) (\<lambda>n. Inr (CreateWarehouse n))"

fun scope_of :: "inv_command \<Rightarrow> string" where
  "scope_of (Receive r) = ''stock-receipt.create''"
| "scope_of (IssueStock r) = ''stock-issue.create''"
| "scope_of (ReturnStock r) = ''stock-return.create''"
| "scope_of (Transfer r) = ''stock-transfer.create''"
| "scope_of (Reserve r) = ''stock-reservation.create''"
| "scope_of (ReleaseReservation i) = ''stock-reservation.release''"
| "scope_of (OpenStocktake w t) = ''stocktake.open''"
| "scope_of (RecordCount i r) = ''stocktake.count''"
| "scope_of (CompleteStocktake i) = ''stocktake.complete''"
| "scope_of (ConfigureSettings r) = ''stock-settings.configure''"
| "scope_of (CreateWarehouse r) = ''warehouse.create''"

fun body_of :: "inv_env \<Rightarrow> uuid \<Rightarrow> inv_command \<Rightarrow> jsstr \<Rightarrow> inv_response inv_tx" where
  "body_of env accountId (Receive n) key = recordReceipt env (js ''manual_receipt'') key accountId n"
| "body_of env accountId (IssueStock n) key = recordIssue env key accountId n"
| "body_of env accountId (ReturnStock n) key = returnStock_body env key accountId n"
| "body_of env accountId (Transfer n) key = transfer_body env key accountId n"
| "body_of env accountId (Reserve n) key = reserveStock_body env key accountId n"
| "body_of env accountId (ReleaseReservation i) key = releaseReservation_body key accountId i"
| "body_of env accountId (OpenStocktake w t) key = openStocktake_body key accountId w t"
| "body_of env accountId (RecordCount i n) key = recordStocktakeCount_body env key accountId i n"
| "body_of env accountId (CompleteStocktake i) key = completeStocktake_body key accountId i"
| "body_of env accountId (ConfigureSettings n) key = configureStockSettings_body key accountId n"
| "body_of env accountId (CreateWarehouse n) key = createWarehouse_body env key accountId n"

definition handleRequest :: "inv_env \<Rightarrow> (inv_command \<Rightarrow> jsstr) \<Rightarrow> uuid \<Rightarrow> jsstr option \<Rightarrow> inv_command \<Rightarrow> inv_state \<Rightarrow>
    (inv_error + inv_response) \<times> inv_state" where
  "handleRequest env request_hash accountId key c s =
     (if \<not> dto_valid c then (Inl DtoRejected, s)
      else case normalize (env_tbl env) c of
        Inl e \<Rightarrow> (Inl e, s)
      | Inr n \<Rightarrow> runCommand (scope_of n) key (request_hash n) (body_of env accountId n) s)"

end
