(* ===== verification/StockMachine.thy ===== *)
theory StockMachine
  imports Inventory
begin

text \<open>
  The abstract specification of the stock: an on-hand quantity per warehouse and product, the
  journal of movements, the reservations, the returns and the stocktakes. A step is a guarded
  posting; nothing here knows of requests, texts, batches, serial numbers, costs or events.
\<close>

section \<open>State\<close>

type_synonym entry = "uuid \<times> uuid \<times> uuid \<times> movement_type \<times> int"

record stock =
  hand :: "uuid \<Rightarrow> uuid \<Rightarrow> int"
  journal :: "entry list"
  reservations :: "ReservationRow list"
  returns :: "return_row list"
  takes :: "stocktake_row list"
  counts :: "count_row list"
  next_id :: uuid

definition incoming :: "movement_type \<Rightarrow> bool" where
  "incoming t \<longleftrightarrow> t \<in> {Receipt, Return_in, Transfer_in, Stocktake_in}"

fun signed :: "entry \<Rightarrow> int" where
  "signed (_, _, _, t, q) = (if incoming t then q else - q)"

fun entry_at :: "uuid \<Rightarrow> uuid \<Rightarrow> entry \<Rightarrow> bool" where
  "entry_at w p (_, w', p', _) \<longleftrightarrow> w' = w \<and> p' = p"

definition booked :: "stock \<Rightarrow> uuid \<Rightarrow> uuid \<Rightarrow> int" where
  "booked c w p = sum_where (entry_at w p) signed (journal c)"

definition active_at :: "uuid \<Rightarrow> uuid \<Rightarrow> ReservationRow \<Rightarrow> bool" where
  "active_at w p r \<longleftrightarrow> rs_warehouse r = w \<and> rs_product r = p \<and> rs_status r = Active"

definition held_in :: "ReservationRow list \<Rightarrow> uuid \<Rightarrow> uuid \<Rightarrow> int" where
  "held_in rows w p = sum_where (active_at w p) rs_remaining rows"

definition held :: "stock \<Rightarrow> uuid \<Rightarrow> uuid \<Rightarrow> int" where
  "held c w p = held_in (reservations c) w p"

definition given_back :: "stock \<Rightarrow> uuid \<Rightarrow> int" where
  "given_back c i = sum_where (\<lambda>r. sr_issue r = i) sr_quantity (returns c)"

definition paused :: "stock \<Rightarrow> uuid \<Rightarrow> bool" where
  "paused c w \<longleftrightarrow> (\<exists>t \<in> set (takes c). st_warehouse t = w \<and> st_status t = StocktakeOpen)"

definition bump :: "uuid \<Rightarrow> uuid \<Rightarrow> int \<Rightarrow> (uuid \<Rightarrow> uuid \<Rightarrow> int) \<Rightarrow> uuid \<Rightarrow> uuid \<Rightarrow> int" where
  "bump w p q h = (\<lambda>w' p'. if w' = w \<and> p' = p then h w p + q else h w' p')"

text \<open>Posting a movement: the journal and the quantity move together.\<close>

definition post :: "entry \<Rightarrow> stock \<Rightarrow> stock" where
  "post e c = (case e of (i, w, p, t, q) \<Rightarrow>
     c\<lparr>hand := bump w p (signed e) (hand c), journal := journal c @ [e]\<rparr>)"

text \<open>A reservation loses a part; it is consumed when nothing is left.\<close>

definition draw_reservation :: "uuid \<Rightarrow> uuid \<Rightarrow> int \<Rightarrow> int \<Rightarrow> ReservationRow list \<Rightarrow> ReservationRow list" where
  "draw_reservation rid account old q = update_where (\<lambda>r. rs_id r = rid)
     (\<lambda>r. r\<lparr>rs_remaining := old - q, rs_status := (if old - q = 0 then Consumed else Active),
        rs_ended_by := (if old - q = 0 then Some account else None), rs_version := rs_version r + 1\<rparr>)"

definition release_reservation :: "uuid \<Rightarrow> uuid \<Rightarrow> ReservationRow list \<Rightarrow> ReservationRow list" where
  "release_reservation rid account = update_where (\<lambda>r. rs_id r = rid)
     (\<lambda>r. r\<lparr>rs_status := Released, rs_ended_by := Some account, rs_version := rs_version r + 1\<rparr>)"

text \<open>The movement that a count calls for, if the count differs from the expected quantity.\<close>

definition count_entry :: "uuid \<Rightarrow> uuid \<Rightarrow> count_row \<Rightarrow> entry" where
  "count_entry i w c = (i, w, co_product c, (if 0 < co_counted c - co_expected c then Stocktake_in else Stocktake_out),
     \<bar>co_counted c - co_expected c\<bar>)"

fun settle :: "uuid \<Rightarrow> (uuid \<times> count_row) list \<Rightarrow> stock \<Rightarrow> stock" where
  "settle w [] c = c"
| "settle w ((i, r) # rows) c =
     settle w rows (if co_expected r = co_counted r then c
       else c\<lparr>hand := (\<lambda>w' p'. if w' = w \<and> p' = co_product r then co_counted r else hand c w' p'),
              journal := journal c @ [count_entry i w r]\<rparr>)"

section \<open>Steps\<close>

inductive stock_step :: "stock \<Rightarrow> stock \<Rightarrow> bool" where
  receive: "0 < q \<Longrightarrow> \<not> paused c w \<Longrightarrow> next_id c \<le> i \<Longrightarrow> i < n \<Longrightarrow>
    stock_step c (post (i, w, p, Receipt, q) c\<lparr>next_id := n\<rparr>)"
| issue: "0 < q \<Longrightarrow> \<not> paused c w \<Longrightarrow> q \<le> hand c w p - held c w p \<Longrightarrow> next_id c \<le> i \<Longrightarrow> i < n \<Longrightarrow>
    stock_step c (post (i, w, p, Issue, q) c\<lparr>next_id := n\<rparr>)"
| issue_reserved: "0 < q \<Longrightarrow> \<not> paused c w \<Longrightarrow> r \<in> set (reservations c) \<Longrightarrow> rs_status r = Active \<Longrightarrow>
    rs_warehouse r = w \<Longrightarrow> rs_product r = p \<Longrightarrow> q \<le> rs_remaining r \<Longrightarrow> q \<le> hand c w p \<Longrightarrow> next_id c \<le> i \<Longrightarrow> i < n \<Longrightarrow>
    stock_step c (post (i, w, p, Issue, q)
      c\<lparr>reservations := draw_reservation (rs_id r) account (rs_remaining r) q (reservations c), next_id := n\<rparr>)"
| return_in: "0 < q \<Longrightarrow> \<not> paused c w \<Longrightarrow> (o', w', p, Issue, q') \<in> set (journal c) \<Longrightarrow>
    given_back c o' + q \<le> q' \<Longrightarrow> next_id c \<le> i \<Longrightarrow> i < n \<Longrightarrow>
    stock_step c (post (i, w, p, Return_in, q)
      c\<lparr>returns := returns c @ [\<lparr>sr_movement = i, sr_issue = o', sr_disposition = d, sr_quantity = q\<rparr>], next_id := n\<rparr>)"
| transfer: "0 < q \<Longrightarrow> w \<noteq> w' \<Longrightarrow> \<not> paused c w \<Longrightarrow> \<not> paused c w' \<Longrightarrow> q \<le> hand c w p - held c w p \<Longrightarrow>
    next_id c \<le> i \<Longrightarrow> i < j \<Longrightarrow> j < n \<Longrightarrow>
    stock_step c (post (j, w', p, Transfer_in, q) (post (i, w, p, Transfer_out, q) c\<lparr>next_id := n\<rparr>))"
| reserve: "0 < q \<Longrightarrow> \<not> paused c w \<Longrightarrow> q \<le> hand c w p - held c w p \<Longrightarrow> next_id c \<le> rs_id r \<Longrightarrow> rs_id r < n \<Longrightarrow>
    rs_warehouse r = w \<Longrightarrow> rs_product r = p \<Longrightarrow> rs_remaining r = q \<Longrightarrow> rs_status r = Active \<Longrightarrow>
    stock_step c (c\<lparr>reservations := reservations c @ [r], next_id := n\<rparr>)"
| release: "r \<in> set (reservations c) \<Longrightarrow> rs_status r = Active \<Longrightarrow> next_id c \<le> n \<Longrightarrow>
    stock_step c (c\<lparr>reservations := release_reservation (rs_id r) account (reservations c), next_id := n\<rparr>)"
| open_take: "\<not> paused c w \<Longrightarrow> next_id c \<le> i \<Longrightarrow> i < n \<Longrightarrow>
    stock_step c (c\<lparr>takes := takes c @ [\<lparr>st_id = i, st_warehouse = w, st_reference = ref, st_status = StocktakeOpen\<rparr>],
      next_id := n\<rparr>)"
| first_count: "t \<in> set (takes c) \<Longrightarrow> st_status t = StocktakeOpen \<Longrightarrow> 0 \<le> counted \<Longrightarrow>
    \<forall>r \<in> set (counts c). \<not> (co_stocktake r = st_id t \<and> co_product r = p) \<Longrightarrow> next_id c \<le> i \<Longrightarrow> i < n \<Longrightarrow>
    stock_step c (c\<lparr>counts := counts c @ [\<lparr>co_id = i, co_stocktake = st_id t, co_product = p,
      co_expected = hand c (st_warehouse t) p, co_counted = counted\<rparr>], next_id := n\<rparr>)"
| count_again: "t \<in> set (takes c) \<Longrightarrow> st_status t = StocktakeOpen \<Longrightarrow> 0 \<le> counted \<Longrightarrow> r \<in> set (counts c) \<Longrightarrow>
    co_stocktake r = st_id t \<Longrightarrow> next_id c \<le> n \<Longrightarrow>
    stock_step c (c\<lparr>counts := update_where (\<lambda>x. co_id x = co_id r) (\<lambda>x. x\<lparr>co_counted := counted\<rparr>) (counts c),
      next_id := n\<rparr>)"
| complete: "t \<in> set (takes c) \<Longrightarrow> st_status t = StocktakeOpen \<Longrightarrow>
    set (map snd rows) \<subseteq> {r \<in> set (counts c). co_stocktake r = st_id t} \<Longrightarrow> distinct (map snd rows) \<Longrightarrow>
    \<forall>r \<in> set (counts c). co_stocktake r = st_id t \<longrightarrow> held c (st_warehouse t) (co_product r) \<le> co_counted r \<Longrightarrow>
    \<forall>i \<in> set (map fst rows). next_id c \<le> i \<and> i < n \<Longrightarrow> distinct (map fst rows) \<Longrightarrow> next_id c \<le> n \<Longrightarrow>
    stock_step c (settle (st_warehouse t) rows
      c\<lparr>takes := update_where (\<lambda>x. st_id x = st_id t) (\<lambda>x. x\<lparr>st_status := StocktakeCompleted\<rparr>) (takes c), next_id := n\<rparr>)"
| other: "next_id c \<le> n \<Longrightarrow> stock_step c (c\<lparr>next_id := n\<rparr>)"

section \<open>Invariant\<close>

definition unique_rows :: "('r \<Rightarrow> uuid) \<Rightarrow> uuid \<Rightarrow> 'r list \<Rightarrow> bool" where
  "unique_rows k n rows \<longleftrightarrow> distinct (map k rows) \<and> (\<forall>r \<in> set rows. k r < n)"

definition covered :: "stock \<Rightarrow> bool" where
  "covered c \<longleftrightarrow> (\<forall>w p. held c w p \<le> hand c w p) \<and>
     (\<forall>r \<in> set (reservations c). 0 \<le> rs_remaining r)"

definition balanced :: "stock \<Rightarrow> bool" where
  "balanced c \<longleftrightarrow> (\<forall>w p. hand c w p = booked c w p)"

definition expected_ok :: "stock \<Rightarrow> bool" where
  "expected_ok c \<longleftrightarrow> (\<forall>t \<in> set (takes c). st_status t = StocktakeOpen \<longrightarrow>
     (\<forall>r \<in> set (counts c). co_stocktake r = st_id t \<longrightarrow>
        co_expected r = hand c (st_warehouse t) (co_product r) \<and> 0 \<le> co_counted r))"

definition counts_unique :: "stock \<Rightarrow> bool" where
  "counts_unique c \<longleftrightarrow> distinct (map (\<lambda>r. (co_stocktake r, co_product r)) (counts c)) \<and>
     (\<forall>r \<in> set (counts c). co_stocktake r < next_id c)"

definition returns_ok :: "stock \<Rightarrow> bool" where
  "returns_ok c \<longleftrightarrow> (\<forall>i w p q. (i, w, p, Issue, q) \<in> set (journal c) \<longrightarrow> given_back c i \<le> q) \<and>
     (\<forall>r \<in> set (returns c). sr_issue r < next_id c)"

definition ids_ok :: "stock \<Rightarrow> bool" where
  "ids_ok c \<longleftrightarrow> unique_rows fst (next_id c) (journal c) \<and> unique_rows rs_id (next_id c) (reservations c) \<and>
     unique_rows st_id (next_id c) (takes c) \<and> unique_rows co_id (next_id c) (counts c)"

definition one_take :: "stock \<Rightarrow> bool" where
  "one_take c \<longleftrightarrow> (\<forall>t \<in> set (takes c). \<forall>t' \<in> set (takes c).
     st_status t = StocktakeOpen \<longrightarrow> st_status t' = StocktakeOpen \<longrightarrow> st_warehouse t = st_warehouse t' \<longrightarrow> st_id t = st_id t')"

definition stock_ok :: "stock \<Rightarrow> bool" where
  "stock_ok c \<longleftrightarrow> covered c \<and> balanced c \<and> expected_ok c \<and> counts_unique c \<and> returns_ok c \<and> ids_ok c \<and> one_take c"

lemmas stock_ok_defs = covered_def balanced_def expected_ok_def counts_unique_def returns_ok_def ids_ok_def
  one_take_def unique_rows_def


section \<open>Preservation\<close>

lemma sum_where_none: "\<forall>r \<in> set rows. \<not> p r \<Longrightarrow> sum_where p f rows = 0"
  by (induction rows) auto

lemma held_simps [simp]:
  "held (c\<lparr>hand := h\<rparr>) = held c" "held (c\<lparr>journal := j\<rparr>) = held c" "held (c\<lparr>returns := x\<rparr>) = held c"
  "held (c\<lparr>takes := y\<rparr>) = held c" "held (c\<lparr>counts := z\<rparr>) = held c" "held (c\<lparr>next_id := n\<rparr>) = held c"
  "held (c\<lparr>reservations := v\<rparr>) = held_in v"
  by (simp_all add: held_def fun_eq_iff)

lemma booked_simps [simp]:
  "booked (c\<lparr>hand := h\<rparr>) = booked c" "booked (c\<lparr>reservations := j\<rparr>) = booked c" "booked (c\<lparr>returns := x\<rparr>) = booked c"
  "booked (c\<lparr>takes := y\<rparr>) = booked c" "booked (c\<lparr>counts := z\<rparr>) = booked c" "booked (c\<lparr>next_id := n\<rparr>) = booked c"
  by (simp_all add: booked_def fun_eq_iff)

lemma given_back_simps [simp]:
  "given_back (c\<lparr>hand := h\<rparr>) = given_back c" "given_back (c\<lparr>reservations := j\<rparr>) = given_back c"
  "given_back (c\<lparr>journal := x\<rparr>) = given_back c" "given_back (c\<lparr>takes := y\<rparr>) = given_back c"
  "given_back (c\<lparr>counts := z\<rparr>) = given_back c" "given_back (c\<lparr>next_id := n\<rparr>) = given_back c"
  by (simp_all add: given_back_def fun_eq_iff)

lemma post_simps [simp]:
  "journal (post e c) = journal c @ [e]" "reservations (post e c) = reservations c"
  "returns (post e c) = returns c" "takes (post e c) = takes c" "counts (post e c) = counts c"
  "next_id (post e c) = next_id c" "held (post e c) = held c" "given_back (post e c) = given_back c"
  by (simp_all add: post_def fun_eq_iff split: prod.split)

lemma hand_post [simp]:
  "hand (post (i, w, p, t, q) c) w' p' = hand c w' p' + (if w' = w \<and> p' = p then (if incoming t then q else - q) else 0)"
  by (simp add: post_def bump_def)

lemma booked_post [simp]:
  "booked (post (i, w, p, t, q) c) w' p' = booked c w' p' + (if w' = w \<and> p' = p then (if incoming t then q else - q) else 0)"
  by (auto simp: booked_def)

lemma incoming_simps [simp]: "incoming Receipt" "incoming Return_in" "incoming Transfer_in" "incoming Stocktake_in"
  "\<not> incoming Issue" "\<not> incoming Transfer_out" "\<not> incoming Stocktake_out"
  by (simp_all add: incoming_def)

lemma settle_simps [simp]:
  "reservations (settle w rows c) = reservations c" "returns (settle w rows c) = returns c"
  "takes (settle w rows c) = takes c" "counts (settle w rows c) = counts c" "next_id (settle w rows c) = next_id c"
  "held (settle w rows c) = held c" "given_back (settle w rows c) = given_back c"
  by (induction w rows c rule: settle.induct) simp_all

lemma journal_settle: "journal (settle w rows c) = journal c @
   map (\<lambda>(i, r). count_entry i w r) (filter (\<lambda>(i, r). co_expected r \<noteq> co_counted r) rows)"
  by (induction w rows c rule: settle.induct) auto

lemma hand_settle_other: "w' \<noteq> w \<Longrightarrow> hand (settle w rows c) w' = hand c w'"
  by (induction w rows c rule: settle.induct) (auto simp: fun_eq_iff)

lemma settle_ok:
  assumes "distinct (map (\<lambda>(i, r). co_product r) rows)"
    and "\<forall>(i, r) \<in> set rows. co_expected r = hand c w (co_product r) \<and> held c w (co_product r) \<le> co_counted r"
    and "covered c" and "balanced c"
  shows "covered (settle w rows c) \<and> balanced (settle w rows c)"
  using assms
proof (induction w rows c rule: settle.induct)
  case (2 w i r rows c)
  define c' where "c' = (if co_expected r = co_counted r then c
       else c\<lparr>hand := (\<lambda>w' p'. if w' = w \<and> p' = co_product r then co_counted r else hand c w' p'),
              journal := journal c @ [count_entry i w r]\<rparr>)"
  have h: "hand c' w' p' = (if w' = w \<and> p' = co_product r then co_counted r else hand c w' p')" for w' p'
    using "2.prems"(2) by (auto simp: c'_def)
  have "held c' = held c" "reservations c' = reservations c" by (simp_all add: c'_def)
  then have cov: "covered c'" using "2.prems"(2,3) by (auto simp: covered_def h)
  have "booked c' w' p' = booked c w' p' + (if w' = w \<and> p' = co_product r then co_counted r - co_expected r else 0)" for w' p'
    by (auto simp: c'_def booked_def count_entry_def)
  then have bal: "balanced c'" using "2.prems"(2,4) by (auto simp: balanced_def h)
  have rest: "\<forall>(j, x) \<in> set rows. co_expected x = hand c' w (co_product x) \<and> held c' w (co_product x) \<le> co_counted x"
    using "2.prems"(1,2) \<open>held c' = held c\<close> by (force simp: h)
  have "settle w ((i, r) # rows) c = settle w rows c'" by (simp add: c'_def)
  with "2.IH" [folded c'_def] "2.prems"(1) rest cov bal show ?case by simp
qed simp

lemma held_nonneg: "covered c \<Longrightarrow> 0 \<le> held c w p"
  unfolding held_def held_in_def covered_def by (rule sum_where_nonneg) auto

lemma held_draw:
  assumes "distinct (map rs_id rows)" and "r \<in> set rows" and "rs_status r = Active"
  shows "held_in (draw_reservation (rs_id r) a (rs_remaining r) q rows) w p =
    held_in rows w p - (if rs_warehouse r = w \<and> rs_product r = p then q else 0)"
  using assms by (auto simp: held_in_def draw_reservation_def sum_where_update_one active_at_def)

lemma held_release:
  assumes "distinct (map rs_id rows)" and "r \<in> set rows" and "rs_status r = Active"
  shows "held_in (release_reservation (rs_id r) a rows) w p =
    held_in rows w p - (if rs_warehouse r = w \<and> rs_product r = p then rs_remaining r else 0)"
  using assms by (auto simp: held_in_def release_reservation_def sum_where_update_one active_at_def)

lemma held_add: "held_in (rows @ [r]) w p = held_in rows w p + (if active_at w p r then rs_remaining r else 0)"
  by (simp add: held_in_def)

lemma remaining_draw: "0 \<le> old - q \<Longrightarrow> \<forall>r \<in> set rows. 0 \<le> rs_remaining r \<Longrightarrow>
    \<forall>r \<in> set (draw_reservation i a old q rows). 0 \<le> rs_remaining r"
  by (auto simp: draw_reservation_def set_update_where)

lemma remaining_release: "\<forall>r \<in> set rows. 0 \<le> rs_remaining r \<Longrightarrow>
    \<forall>r \<in> set (release_reservation i a rows). 0 \<le> rs_remaining r"
  by (auto simp: release_reservation_def set_update_where)

lemma row_eqI: "distinct (map k rows) \<Longrightarrow> x \<in> set rows \<Longrightarrow> y \<in> set rows \<Longrightarrow> k x = k y \<Longrightarrow> x = y"
  by (auto simp: distinct_map dest: inj_onD)

text \<open>Each part of the invariant in turn.\<close>

lemma not_paused: "\<not> paused c w \<Longrightarrow> t \<in> set (takes c) \<Longrightarrow> st_status t = StocktakeOpen \<Longrightarrow> st_warehouse t \<noteq> w"
  by (auto simp: paused_def)

lemma step_next: "stock_step c c' \<Longrightarrow> next_id c \<le> next_id c'"
  by (cases rule: stock_step.cases) auto

lemma step_complete_parts:
  assumes ok: "stock_ok c" and t: "t \<in> set (takes c)" "st_status t = StocktakeOpen"
    and rows: "set (map snd rows) \<subseteq> {r \<in> set (counts c). co_stocktake r = st_id t}" "distinct (map snd rows)"
    and enough: "\<forall>r \<in> set (counts c). co_stocktake r = st_id t \<longrightarrow> held c (st_warehouse t) (co_product r) \<le> co_counted r"
  shows "covered (settle (st_warehouse t) rows c) \<and> balanced (settle (st_warehouse t) rows c)"
proof (rule settle_ok)
  have mem: "\<And>x. x \<in> set (map snd rows) \<Longrightarrow> x \<in> set (counts c) \<and> co_stocktake x = st_id t" using rows(1) by blast
  show "covered c" "balanced c" using ok by (simp_all add: stock_ok_def)
  have "co_expected r = hand c (st_warehouse t) (co_product r) \<and> held c (st_warehouse t) (co_product r) \<le> co_counted r"
    if "r \<in> set (map snd rows)" for r
    using mem [OF that] ok t enough by (auto simp: stock_ok_def expected_ok_def)
  then show "\<forall>(i, r) \<in> set rows. co_expected r = hand c (st_warehouse t) (co_product r) \<and>
      held c (st_warehouse t) (co_product r) \<le> co_counted r" by force
  have key: "distinct (map (\<lambda>r. (co_stocktake r, co_product r)) (counts c))" using ok by (simp add: stock_ok_def counts_unique_def)
  have "inj_on co_product (set (map snd rows))"
  proof (rule inj_onI)
    fix x z assume "x \<in> set (map snd rows)" "z \<in> set (map snd rows)" "co_product x = co_product z"
    then show "x = z" using mem by (intro row_eqI [OF key]) (simp_all del: set_map)
  qed
  with rows(2) have "distinct (map co_product (map snd rows))" by (simp only: distinct_map [of co_product])
  then show "distinct (map (\<lambda>(i, r). co_product r) rows)" by (simp add: comp_def case_prod_beta')
qed

lemma covered_simps [simp]: "covered (c\<lparr>takes := y\<rparr>) = covered c" "covered (c\<lparr>next_id := n\<rparr>) = covered c"
  and balanced_simps [simp]: "balanced (c\<lparr>takes := y\<rparr>) = balanced c" "balanced (c\<lparr>next_id := n\<rparr>) = balanced c"
  by (simp_all add: covered_def balanced_def)

lemma reservations_distinct: "stock_ok c \<Longrightarrow> distinct (map rs_id (reservations c))"
  by (simp add: stock_ok_def ids_ok_def unique_rows_def)

lemma stock_ok_covered: "stock_ok c \<Longrightarrow> held c w p \<le> hand c w p"
  "stock_ok c \<Longrightarrow> \<forall>r \<in> set (reservations c). 0 \<le> rs_remaining r"
  by (simp_all add: stock_ok_def covered_def)

lemma ok_parts: assumes "stock_ok c"
  shows ok_covered: "covered c" and ok_balanced: "balanced c" and ok_expected: "expected_ok c"
    and ok_counts: "counts_unique c" and ok_returns: "returns_ok c" and ok_ids: "ids_ok c" and ok_one: "one_take c"
  using assms by (simp_all add: stock_ok_def)

lemma covered_mono:
  "covered c \<Longrightarrow> reservations c' = reservations c \<Longrightarrow> (\<And>w p. hand c w p \<le> hand c' w p) \<Longrightarrow> covered c'"
  by (simp add: covered_def held_def) (meson order_trans)

lemma covered_take:
  "covered c \<Longrightarrow> reservations c' = reservations c \<Longrightarrow> q \<le> hand c w p - held c w p \<Longrightarrow>
   (\<And>w' p'. hand c w' p' - (if w' = w \<and> p' = p then q else 0) \<le> hand c' w' p') \<Longrightarrow> covered c'"
  unfolding covered_def held_def
proof (intro conjI allI)
  fix w' p'
  assume c: "(\<forall>w p. held_in (reservations c) w p \<le> hand c w p) \<and> (\<forall>r \<in> set (reservations c). 0 \<le> rs_remaining r)"
    and "reservations c' = reservations c" "q \<le> hand c w p - held_in (reservations c) w p"
    and le: "\<And>w' p'. hand c w' p' - (if w' = w \<and> p' = p then q else 0) \<le> hand c' w' p'"
  have "held_in (reservations c) w' p' \<le> hand c w' p'" using c by blast
  with le [of w' p'] \<open>q \<le> hand c w p - held_in (reservations c) w p\<close> \<open>reservations c' = reservations c\<close>
  show "held_in (reservations c') w' p' \<le> hand c' w' p'" by (auto split: if_splits)
qed simp_all

lemma step_covered: "stock_step c c' \<Longrightarrow> stock_ok c \<Longrightarrow> covered c'"
proof (induction rule: stock_step.induct)
  case (issue_reserved q c w r p i n account)
  note h = held_draw [OF reservations_distinct [OF issue_reserved.prems] issue_reserved(3,4)]
  have "held_in (reservations c) w' p' \<le> hand c w' p'" for w' p'
    using stock_ok_covered(1) [OF issue_reserved.prems] by (simp add: held_def)
  with issue_reserved remaining_draw [OF _ stock_ok_covered(2) [OF issue_reserved.prems]] show ?case
    by (auto simp: covered_def h)
next
  case (release r c n account)
  note h = held_release [OF reservations_distinct [OF release.prems] release(1,2)]
  have "held_in (reservations c) w' p' \<le> hand c w' p'" for w' p'
    using stock_ok_covered(1) [OF release.prems] by (simp add: held_def)
  moreover have "0 \<le> rs_remaining r" using stock_ok_covered(2) [OF release.prems] release(1) by blast
  ultimately have "held_in (reservations c) w' p' - (if rs_warehouse r = w' \<and> rs_product r = p' then rs_remaining r else 0) \<le>
      hand c w' p'" for w' p'
    by (rule_tac order_trans [of _ "held_in (reservations c) w' p'"]) simp_all
  then show ?case using remaining_release [OF stock_ok_covered(2) [OF release.prems]]
    by (simp add: covered_def h)
next
  case (complete t c rows n)
  then show ?case using step_complete_parts [of c t rows] by simp
next
  case (reserve q c w p r n)
  then show ?case using stock_ok_covered [OF reserve.prems] by (auto simp: covered_def held_add active_at_def held_def)
next
  case (issue q c w p i n)
  then show ?case by (intro covered_take [OF ok_covered, of c _ q w p]) auto
next
  case (transfer q w w' c p i j n)
  then show ?case by (intro covered_take [OF ok_covered, of c _ q w p]) auto
qed (rule covered_mono [OF ok_covered], assumption, simp, simp)+

lemma step_balanced: "stock_step c c' \<Longrightarrow> stock_ok c \<Longrightarrow> balanced c'"
proof (induction rule: stock_step.induct)
  case (complete t c rows n)
  then show ?case using step_complete_parts [of c t rows] by simp
qed (auto simp: stock_ok_def balanced_def)


lemma open_after:
  "x \<in> set (update_where (\<lambda>x. st_id x = i) (\<lambda>x. x\<lparr>st_status := StocktakeCompleted\<rparr>) ts) \<Longrightarrow>
   st_status x = StocktakeOpen \<Longrightarrow> x \<in> set ts \<and> st_id x \<noteq> i"
  by (auto simp: set_update_where split: if_splits)

lemma expected_ok_cong:
  assumes "expected_ok c" and "takes c' = takes c" and "counts c' = counts c"
    and "\<And>t p. t \<in> set (takes c) \<Longrightarrow> st_status t = StocktakeOpen \<Longrightarrow> hand c' (st_warehouse t) p = hand c (st_warehouse t) p"
  shows "expected_ok c'"
  using assms by (simp add: expected_ok_def)

lemma step_expected: "stock_step c c' \<Longrightarrow> stock_ok c \<Longrightarrow> expected_ok c'"
proof (induction rule: stock_step.induct)
  case (open_take c w i n ref)
  then have "\<forall>r \<in> set (counts c). co_stocktake r \<noteq> i" by (auto simp: stock_ok_def counts_unique_def)
  with open_take show ?case by (auto simp: stock_ok_def expected_ok_def)
next
  case (first_count t c counted p i n)
  have same: "t' = t" if "t' \<in> set (takes c)" "st_id t = st_id t'" for t'
    using that first_count ok_ids [OF first_count.prems]
    by (intro row_eqI [of st_id "takes c"]) (auto simp: ids_ok_def unique_rows_def)
  with first_count(3) ok_expected [OF first_count.prems] show ?case by (auto simp: expected_ok_def dest: same)
next
  case (count_again t c counted r n)
  have "co_expected (if co_id x = co_id r then x\<lparr>co_counted := counted\<rparr> else x) = co_expected x" for x by simp
  with count_again show ?case by (auto simp: stock_ok_def expected_ok_def set_update_where)
next
  case (complete t c rows n)
  have other: "st_warehouse t' \<noteq> st_warehouse t"
    if "t' \<in> set (takes c)" "st_status t' = StocktakeOpen" "st_id t' \<noteq> st_id t" for t'
    using that complete(1,2) ok_one [OF complete.prems] unfolding one_take_def by blast
  have old: "co_expected r = hand (settle (st_warehouse t) rows c) (st_warehouse t') (co_product r) \<and> 0 \<le> co_counted r"
    if "t' \<in> set (takes c)" "st_status t' = StocktakeOpen" "st_id t' \<noteq> st_id t" "r \<in> set (counts c)"
      "co_stocktake r = st_id t'" for t' r
    using that other [OF that(1-3)] ok_expected [OF complete.prems] by (simp add: hand_settle_other expected_ok_def)
  show ?case unfolding expected_ok_def
  proof (intro ballI impI)
    fix t' r
    let ?takes = "update_where (\<lambda>x. st_id x = st_id t) (\<lambda>x. x\<lparr>st_status := StocktakeCompleted\<rparr>) (takes c)"
    let ?c = "settle (st_warehouse t) rows c\<lparr>takes := ?takes, next_id := n\<rparr>"
    assume "t' \<in> set (takes ?c)" "st_status t' = StocktakeOpen" "r \<in> set (counts ?c)" "co_stocktake r = st_id t'"
    with open_after [of t' "st_id t" "takes c"] old [of t' r]
    show "co_expected r = hand ?c (st_warehouse t') (co_product r) \<and> 0 \<le> co_counted r" by simp
  qed
qed (rule expected_ok_cong, auto simp: stock_ok_def dest: not_paused)+

lemma counts_unique_mono:
  "counts_unique c \<Longrightarrow> counts c' = counts c \<Longrightarrow> next_id c \<le> next_id c' \<Longrightarrow> counts_unique c'"
  unfolding counts_unique_def by fastforce

lemma step_counts: "stock_step c c' \<Longrightarrow> stock_ok c \<Longrightarrow> counts_unique c'"
proof (induction rule: stock_step.induct)
  case (first_count t c counted p i n)
  have "st_id t < next_id c" using ok_ids [OF first_count.prems] first_count(1) by (auto simp: ids_ok_def unique_rows_def)
  with first_count(4-6) ok_counts [OF first_count.prems] show ?case by (force simp: counts_unique_def)
next
  case (count_again t c counted r n)
  have "map (\<lambda>r. (co_stocktake r, co_product r)) (update_where p (\<lambda>x. x\<lparr>co_counted := counted\<rparr>) rows) =
      map (\<lambda>r. (co_stocktake r, co_product r)) rows" for p and rows :: "count_row list"
    by (rule map_key_update) simp
  with count_again(6) ok_counts [OF count_again.prems] show ?case
    by (auto simp: counts_unique_def set_update_where intro: less_le_trans)
qed (rule counts_unique_mono [OF ok_counts], assumption, simp, simp)+

lemma unique_rows_mono: "unique_rows k n rows \<Longrightarrow> n \<le> m \<Longrightarrow> unique_rows k m rows"
  by (auto simp: unique_rows_def)

lemma unique_rows_add: "unique_rows k n rows \<Longrightarrow> n \<le> k r \<Longrightarrow> k r < m \<Longrightarrow> unique_rows k m (rows @ [r])"
  by (fastforce simp: unique_rows_def)

lemma unique_rows_update:
  "unique_rows k n rows \<Longrightarrow> n \<le> m \<Longrightarrow> (\<And>r. k (f r) = k r) \<Longrightarrow> unique_rows k m (update_where p f rows)"
  by (auto simp: unique_rows_def map_key_update set_update_where)

lemma unique_rows_draw: "unique_rows rs_id n rows \<Longrightarrow> n \<le> m \<Longrightarrow> unique_rows rs_id m (draw_reservation i a k q rows)"
  and unique_rows_release: "unique_rows rs_id n rows \<Longrightarrow> n \<le> m \<Longrightarrow> unique_rows rs_id m (release_reservation i a rows)"
  unfolding draw_reservation_def release_reservation_def by (rule unique_rows_update; simp)+

lemma unique_rows_app:
  "unique_rows k n rows \<Longrightarrow> distinct (map k added) \<Longrightarrow> \<forall>r \<in> set added. n \<le> k r \<and> k r < m \<Longrightarrow> n \<le> m \<Longrightarrow>
   unique_rows k m (rows @ added)"
  by (fastforce simp: unique_rows_def)

text \<open>The rows of a table, before and after a step.\<close>

definition grown :: "('r \<Rightarrow> uuid) \<Rightarrow> uuid \<Rightarrow> uuid \<Rightarrow> 'r list \<Rightarrow> 'r list \<Rightarrow> bool" where
  "grown k n m rows rows' \<longleftrightarrow> (unique_rows k n rows \<longrightarrow> unique_rows k m rows')"

lemma grown_same: "n \<le> m \<Longrightarrow> grown k n m rows rows"
  and grown_add: "n \<le> k r \<Longrightarrow> k r < m \<Longrightarrow> grown k n m rows (rows @ [r])"
  and grown_draw: "n \<le> m \<Longrightarrow> grown rs_id n m rs (draw_reservation i a j q rs)"
  and grown_release: "n \<le> m \<Longrightarrow> grown rs_id n m rs (release_reservation i a rs)"
  and grown_count: "n \<le> m \<Longrightarrow> grown co_id n m cs (update_where p (\<lambda>x. x\<lparr>co_counted := v\<rparr>) cs)"
  by (simp_all add: grown_def unique_rows_mono unique_rows_add unique_rows_draw unique_rows_release unique_rows_update)

lemmas grows = grown_same grown_add grown_draw grown_release grown_count

lemma ids_ok_step:
  "ids_ok c \<Longrightarrow> grown fst (next_id c) (next_id c') (journal c) (journal c') \<Longrightarrow>
   grown rs_id (next_id c) (next_id c') (reservations c) (reservations c') \<Longrightarrow>
   grown st_id (next_id c) (next_id c') (takes c) (takes c') \<Longrightarrow>
   grown co_id (next_id c) (next_id c') (counts c) (counts c') \<Longrightarrow> ids_ok c'"
  by (simp add: ids_ok_def grown_def)

lemma step_ids: "stock_step c c' \<Longrightarrow> stock_ok c \<Longrightarrow> ids_ok c'"
proof (induction rule: stock_step.induct)
  case (complete t c rows n)
  let ?add = "map (\<lambda>(i, r). count_entry i (st_warehouse t) r) (filter (\<lambda>(i, r). co_expected r \<noteq> co_counted r) rows)"
  have "map fst ?add = map fst (filter (\<lambda>(i, r). co_expected r \<noteq> co_counted r) rows)"
    by (simp add: comp_def split_beta count_entry_def)
  then have "distinct (map fst ?add)" using complete(7) distinct_map_filter by metis
  moreover have "\<forall>e \<in> set ?add. next_id c \<le> fst e \<and> fst e < n" using complete(6) by (auto simp: count_entry_def)
  moreover have "unique_rows fst (next_id c) (journal c)" using ok_ids [OF complete.prems] by (simp add: ids_ok_def)
  ultimately have "unique_rows fst n (journal (settle (st_warehouse t) rows c))"
    unfolding journal_settle by (rule_tac unique_rows_app) (use complete(8) in simp_all)
  with complete(8) ok_ids [OF complete.prems] show ?case
    by (auto simp: ids_ok_def intro!: unique_rows_update elim: unique_rows_mono)
next
  case (transfer q w w' c p i j n)
  have "unique_rows fst n ((journal c @ [(i, w, p, Transfer_out, q)]) @ [(j, w', p, Transfer_in, q)])"
    by (rule unique_rows_add [where n = "Suc i"], rule unique_rows_add [where n = "next_id c"])
      (use transfer ok_ids [OF transfer.prems] in \<open>auto simp: ids_ok_def\<close>)
  with transfer ok_ids [OF transfer.prems] show ?case by (auto simp: ids_ok_def elim!: unique_rows_mono)
qed (rule ids_ok_step [OF ok_ids], assumption, auto intro!: grows)+

lemma one_take_same: "takes c' = takes c \<Longrightarrow> one_take c \<Longrightarrow> one_take c'"
  unfolding one_take_def by (erule ssubst)

lemma step_one_take: "stock_step c c' \<Longrightarrow> stock_ok c \<Longrightarrow> one_take c'"
proof (induction rule: stock_step.induct)
  case (open_take c w i n ref)
  have new: "\<forall>t \<in> set (takes c). st_status t = StocktakeOpen \<longrightarrow> st_warehouse t \<noteq> w" using not_paused open_take(1) by blast
  show ?case unfolding one_take_def
    by (simp, use new ok_one [OF open_take.prems, unfolded one_take_def] in blast)
next
  case (complete t c rows n)
  show ?case unfolding one_take_def
  proof (intro ballI impI)
    fix x y
    let ?takes = "update_where (\<lambda>x. st_id x = st_id t) (\<lambda>x. x\<lparr>st_status := StocktakeCompleted\<rparr>) (takes c)"
    let ?c = "settle (st_warehouse t) rows c\<lparr>takes := ?takes, next_id := n\<rparr>"
    assume "x \<in> set (takes ?c)" "y \<in> set (takes ?c)" "st_status x = StocktakeOpen" "st_status y = StocktakeOpen"
      "st_warehouse x = st_warehouse y"
    with open_after [of x "st_id t" "takes c"] open_after [of y "st_id t" "takes c"] ok_one [OF complete.prems]
    show "st_id x = st_id y" by (simp add: one_take_def)
  qed
qed (rule one_take_same [OF _ ok_one], simp, assumption)+

lemma entry_eqI: "ids_ok c \<Longrightarrow> (i, w, p, t, q) \<in> set (journal c) \<Longrightarrow> (i, w', p', t', q') \<in> set (journal c) \<Longrightarrow> q = q'"
  unfolding ids_ok_def unique_rows_def using row_eqI [of fst "journal c" "(i, w, p, t, q)" "(i, w', p', t', q')"] by simp

lemma returns_ok_mono:
  assumes "returns_ok c" and "returns c' = returns c" and "next_id c \<le> next_id c'"
    and "\<And>i w p q. (i, w, p, Issue, q) \<in> set (journal c') \<Longrightarrow> (i, w, p, Issue, q) \<in> set (journal c) \<or> next_id c \<le> i \<and> 0 < q"
  shows "returns_ok c'"
proof -
  have none: "given_back c i = 0" if "next_id c \<le> i" for i
    unfolding given_back_def by (rule sum_where_none) (use that assms(1) in \<open>auto simp: returns_ok_def\<close>)
  have "given_back c' = given_back c" using assms(2) by (simp add: given_back_def fun_eq_iff)
  then have "given_back c' i \<le> q" if "(i, w, p, Issue, q) \<in> set (journal c')" for i w p q
    using assms(1) assms(4) [OF that] none by (fastforce simp: returns_ok_def)
  then show ?thesis using assms(1-3) by (fastforce simp: returns_ok_def)
qed

lemma step_returns: "stock_step c c' \<Longrightarrow> stock_ok c \<Longrightarrow> returns_ok c'"
proof (induction rule: stock_step.induct)
  case (return_in q c w o' w' p q' i n d)
  note ids = ok_ids [OF return_in.prems]
  have gb: "given_back (x\<lparr>returns := returns c @ [y]\<rparr>) k = given_back c k + (if sr_issue y = k then sr_quantity y else 0)"
    for x :: stock and y k by (simp add: given_back_def)
  have o': "o' < next_id c" using ids return_in(3) by (force simp: ids_ok_def unique_rows_def)
  have old: "\<forall>r \<in> set (returns c). sr_issue r < next_id c" "\<And>k v u x. (k, v, u, Issue, x) \<in> set (journal c) \<Longrightarrow> given_back c k \<le> x"
    using ok_returns [OF return_in.prems] by (auto simp: returns_ok_def)
  have new: "given_back c k + (if o' = k then q else 0) \<le> x" if "(k, v, u, Issue, x) \<in> set (journal c)" for k v u x
  proof (cases "o' = k")
    case True
    with entry_eqI [OF ids that] return_in(3,4) show ?thesis by simp
  qed (use old(2) that in simp)
  show ?case unfolding returns_ok_def
  proof (intro conjI allI impI)
    let ?c = "post (i, w, p, Return_in, q) c\<lparr>returns := returns c @
      [\<lparr>sr_movement = i, sr_issue = o', sr_disposition = d, sr_quantity = q\<rparr>], next_id := n\<rparr>"
    fix k v u x assume "(k, v, u, Issue, x) \<in> set (journal ?c)"
    then have "(k, v, u, Issue, x) \<in> set (journal c)" by simp
    from new [OF this] show "given_back ?c k \<le> x" by (auto simp: gb split: if_splits)
  qed (use return_in(5,6) o' old(1) in auto)
next
  case (complete t c rows n)
  then show ?case by (intro returns_ok_mono [OF ok_returns, of c]) (auto simp: journal_settle count_entry_def split: if_splits)
qed (rule returns_ok_mono [OF ok_returns], assumption, auto)+

theorem step_ok: "stock_step c c' \<Longrightarrow> stock_ok c \<Longrightarrow> stock_ok c'"
  using step_covered step_balanced step_expected step_counts step_returns step_ids step_one_take
  unfolding stock_ok_def [of c'] by blast

end
