(* ===== verification/InventoryLedger.thy ===== *)
theory InventoryLedger
  imports InventoryCommands StockMachine
begin

text \<open>
  The inventory service implements the stock machine: every request that succeeds is one step
  of it, every request that fails changes nothing. The invariant of the machine therefore
  holds in every state that the service reaches.
\<close>

section \<open>Abstraction\<close>

definition entry_of :: "movement_row \<Rightarrow> entry" where
  "entry_of m = (mv_id m, mv_warehouse m, mv_product m, mv_type m, mv_quantity m)"

definition stock_of :: "inv_db \<Rightarrow> stock" where
  "stock_of s = \<lparr>hand = on_hand s, journal = map entry_of (stock_movements s), reservations = stock_reservations s,
     returns = stock_returns s, takes = stocktakes s, counts = stocktake_counts s, next_id = fresh_id s\<rparr>"

lemma stock_of_simps [simp]:
  "hand (stock_of s) = on_hand s" "journal (stock_of s) = map entry_of (stock_movements s)"
  "reservations (stock_of s) = stock_reservations s" "returns (stock_of s) = stock_returns s"
  "takes (stock_of s) = stocktakes s" "counts (stock_of s) = stocktake_counts s" "next_id (stock_of s) = fresh_id s"
  by (simp_all add: stock_of_def)

lemma held_stock_of [simp]: "held (stock_of s) w p = reserved s w p"
  by (simp add: held_def held_in_def reserved_def active_at_def [abs_def])

lemma paused_stock_of [simp]: "paused (stock_of s) w = open_stocktake s w"
  by (auto simp: paused_def open_stocktake_def list_ex_iff)

lemma given_back_stock_of [simp]: "given_back (stock_of s) i = returned_quantity s i"
  by (simp add: given_back_def returned_quantity_def)

text \<open>A body that may draw identifiers and write the other tables, but not the stock.\<close>

definition quiet :: "inv_db \<Rightarrow> inv_db \<Rightarrow> bool" where
  "quiet s s' \<longleftrightarrow> stock_of s' = (stock_of s)\<lparr>next_id := fresh_id s'\<rparr> \<and> fresh_id s \<le> fresh_id s'"

lemma quiet_alt: "quiet s s' \<longleftrightarrow> on_hand s' = on_hand s \<and> map entry_of (stock_movements s') = map entry_of (stock_movements s) \<and>
   stock_reservations s' = stock_reservations s \<and> stock_returns s' = stock_returns s \<and> stocktakes s' = stocktakes s \<and>
   stocktake_counts s' = stocktake_counts s \<and> fresh_id s \<le> fresh_id s'"
  by (auto simp: quiet_def stock_of_def)

interpretation quiet: step_relation quiet
  by unfold_locales (auto simp: quiet_alt)

lemma quietI: "stock_balances s' = stock_balances s \<Longrightarrow> stock_movements s' = stock_movements s \<Longrightarrow>
   stock_reservations s' = stock_reservations s \<Longrightarrow> stock_returns s' = stock_returns s \<Longrightarrow> stocktakes s' = stocktakes s \<Longrightarrow>
   stocktake_counts s' = stocktake_counts s \<Longrightarrow> fresh_id s \<le> fresh_id s' \<Longrightarrow> quiet s s'"
  by (simp add: quiet_alt on_hand_def [abs_def])

lemma quiet_randomUUID: "tx_within quiet randomUUID"
proof (rule tx_withinI)
  fix s i s' assume "randomUUID s = Inr (i, s')"
  then have s': "s' = s\<lparr>fresh_id := Suc (fresh_id s)\<rparr>" unfolding randomUUID_def by (metis Inr_inject prod.inject)
  show "quiet s s'" unfolding s' by (rule quietI) simp_all
qed

lemma quiet_movement_batch: "tx_within quiet (set_movement_batch i b)"
proof -
  have "map entry_of (update_where p (\<lambda>m. m\<lparr>mv_batch := v\<rparr>) ms) = map entry_of ms" for p v and ms :: "movement_row list"
    by (rule map_key_update) (simp add: entry_of_def)
  then show ?thesis unfolding set_movement_batch_def
    by (intro quiet.within_writes) (simp add: quiet_alt on_hand_def [abs_def])
qed

lemmas quiet_base = quiet.within quiet_randomUUID quiet_movement_batch

lemma quiet_batches:
  "tx_within quiet (upsert_batch p n e)" "tx_within quiet (add_batch_balance w b q)" "tx_within quiet (take_batch_balance w b q)"
  unfolding upsert_batch_def add_batch_balance_def take_batch_balance_def by (intro quiet_base quietI; simp)+

lemma quiet_events:
  "tx_within quiet (insert_serial env p x w m)" "tx_within quiet (sideEffects t i ev a k)"
  "tx_within quiet (insert_alert w p cyc st rec)"
  unfolding insert_serial_def sideEffects_def insert_alert_def by (intro quiet_base quietI; simp)+

lemmas quiet_statements = quiet_batches quiet_events

lemma quiet_checks:
  "tx_within quiet (activeProduct p)" "tx_within quiet (requireActiveWarehouse w)" "tx_within quiet (requireActiveWarehouses w w')"
  "tx_within quiet (ensureWarehousesNotUnderStocktake ws)" "tx_within quiet (requirePartnerRole i role)"
  "tx_within quiet (requireActiveTechnician i)" "tx_within quiet (ensureReceiptSerialsAvailable env ns)"
  "tx_within quiet (ensureUnreservedAvailability w p q)" "tx_within quiet (requireReservationSource rt ri)"
  "tx_within quiet (require_open_stocktake t)"
  unfolding activeProduct_def requireActiveWarehouse_def requireActiveWarehouses_def ensureWarehousesNotUnderStocktake_def
    requirePartnerRole_def requireActiveTechnician_def ensureReceiptSerialsAvailable_def ensureUnreservedAvailability_def
    requireReservationSource_def require_open_stocktake_def
  by (intro quiet_base)+

lemma quiet_bodies:
  "tx_within quiet (reconcileLowStockAlert w p)" "tx_within quiet (receive_batch n m)" "tx_within quiet (issue_batch ni m)"
  "tx_within quiet (issueSerials env ni m)" "tx_within quiet (consume_serials env ri ns)"
  "tx_within quiet (returnedSerialItems env nr p)" "tx_within quiet (insert_return_events is oi m w)"
  "tx_within quiet (transferBatch nt)" "tx_within quiet (transferSerials env nt m m')"
  "tx_within quiet (reserveSerials env nv i)" "tx_within quiet (record_serial_counts env c w p ns)"
  "tx_within quiet (record_batch_count c p b)" "tx_within quiet (completeSerialStocktake c' w mo)"
  unfolding reconcileLowStockAlert_def receive_batch_def issue_batch_def issueSerials_def consume_serials_def
    returnedSerialItems_def insert_return_events_def transferBatch_def transferSerials_def reserveSerials_def reserve_item_def
    record_serial_counts_def record_batch_count_def completeSerialStocktake_def Let_def
  by (intro quiet_base quiet_statements quietI; simp)+


lemma quiet_batch_stocktake: "tx_within quiet (completeBatchStocktake c w)"
  unfolding completeBatchStocktake_def Let_def
  by (intro quiet_base; simp split: prod.split; intro allI impI quiet_base quietI; simp)

section \<open>Weakest preconditions\<close>

text \<open>
  \<open>at c n s\<close>: the stock of \<open>s\<close> is \<open>c\<close>, but for its identifiers, of which the next is at least
  \<open>n\<close>. Each rule below takes one statement off the front of a body.
\<close>

definition at :: "stock \<Rightarrow> uuid \<Rightarrow> inv_db \<Rightarrow> bool" where
  "at c n s \<longleftrightarrow> on_hand s = hand c \<and> map entry_of (stock_movements s) = journal c \<and>
     stock_reservations s = reservations c \<and> stock_returns s = returns c \<and> stocktakes s = takes c \<and>
     stocktake_counts s = counts c \<and> n \<le> fresh_id s"

lemma at_self: "at (stock_of s) (fresh_id s) s"
  by (simp add: at_def)

lemma at_stock_of: "at c n s \<Longrightarrow> stock_of s = c\<lparr>next_id := fresh_id s\<rparr> \<and> n \<le> fresh_id s"
  by (cases c) (simp add: at_def stock_of_def)

lemma at_reads: assumes "at c n s"
  shows "reserved s w p = held c w p" and "open_stocktake s w = paused c w" and "returned_quantity s i = given_back c i"
  using assms by (auto simp: at_def held_def held_in_def reserved_def active_at_def [abs_def] paused_def open_stocktake_def
    list_ex_iff given_back_def returned_quantity_def)

lemma at_iff: "at c n s \<longleftrightarrow> stock_of s = c\<lparr>next_id := fresh_id s\<rparr> \<and> n \<le> fresh_id s"
  by (cases c) (auto simp: at_def stock_of_def)

lemma bind_run: "(\<And>s a s'. P s \<Longrightarrow> m s = Inr (a, s') \<Longrightarrow> A a \<and> R a s') \<Longrightarrow>
   (\<And>a. A a \<Longrightarrow> tx_spec (R a) (f a) Q) \<Longrightarrow> tx_spec P (tx_bind m f) Q"
  unfolding tx_spec_def by (fastforce simp: tx_simps)

lemma bind_quiet: "tx_within quiet m \<Longrightarrow> (\<And>a. tx_spec (at c n) (f a) Q) \<Longrightarrow> tx_spec (at c n) (tx_bind m f) Q"
  by (rule bind_run [where R = "\<lambda>_. at c n" and A = "\<lambda>_. True"]) (auto simp: at_def quiet_alt dest!: tx_withinD)

lemma run_uuid: "at c n s \<Longrightarrow> randomUUID s = Inr (i, s') \<Longrightarrow> n \<le> i \<and> at c (Suc i) s'"
  by (auto simp: randomUUID_def at_def on_hand_def [abs_def])

lemma run_insert: "at c n s \<Longrightarrow> insert_movement m s = Inr (u, s') \<Longrightarrow> True \<and> at (c\<lparr>journal := journal c @ [entry_of m]\<rparr>) n s'"
  by (auto simp: insert_movement_def tx_simps at_def on_hand_def [abs_def])

lemma on_hand_update: "on_hand (s\<lparr>stock_balances := AList.update (w, p) b (stock_balances s)\<rparr>) =
   (\<lambda>w' p'. if w' = w \<and> p' = p then bal_quantity b else on_hand s w' p')"
  by (auto simp: on_hand_def fun_eq_iff)

lemma at_balance: "at c n s \<Longrightarrow> bal_quantity b = q \<Longrightarrow>
   at (c\<lparr>hand := (\<lambda>w' p'. if w' = w \<and> p' = p then q else hand c w' p')\<rparr>) n
   (s\<lparr>stock_balances := AList.update (w, p) b (stock_balances s)\<rparr>)"
  by (auto simp: at_def on_hand_update fun_eq_iff)

lemma on_hand_row: "on_hand s w p = (case map_of (stock_balances s) (w, p) of None \<Rightarrow> 0 | Some b \<Rightarrow> bal_quantity b)"
  by (simp add: on_hand_def)

lemma run_add: assumes "at c n s" and "add_balance env w p q k s = Inr (u, s')"
  shows "True \<and> at (c\<lparr>hand := bump w p q (hand c)\<rparr>) n s'"
proof -
  from assms(2) obtain b where b: "s' = s\<lparr>stock_balances := AList.update (w, p) b (stock_balances s)\<rparr>"
      "bal_quantity b = on_hand s w p + q"
    unfolding add_balance_def Let_def by (auto simp: tx_simps on_hand_row split: option.splits)
  moreover have "on_hand s = hand c" using assms(1) by (simp add: at_def)
  ultimately show ?thesis using at_balance [OF assms(1), of b "hand c w p + q" w p] by (simp add: bump_def)
qed

lemma run_take: assumes "at c n s" and "take_balance w p q s = Inr (k, s')"
  shows "q \<le> hand c w p \<and> at (c\<lparr>hand := bump w p (- q) (hand c)\<rparr>) n s'"
proof -
  from assms(2) obtain b where b: "s' = s\<lparr>stock_balances := AList.update (w, p) b (stock_balances s)\<rparr>"
      "bal_quantity b = on_hand s w p - q" "q \<le> on_hand s w p"
    unfolding take_balance_def Let_def by (auto simp: tx_simps on_hand_row split: option.splits if_splits)
  moreover have "on_hand s = hand c" using assms(1) by (simp add: at_def)
  ultimately show ?thesis using at_balance [OF assms(1), of b "hand c w p + - q" w p] by (simp add: bump_def)
qed

lemma run_set: assumes "at c n s" and "set_balance w p q s = Inr (u, s')"
  shows "True \<and> at (c\<lparr>hand := (\<lambda>w' p'. if w' = w \<and> p' = p then q else hand c w' p')\<rparr>) n s'"
proof -
  from assms(2) obtain b where b: "s' = s\<lparr>stock_balances := AList.update (w, p) b (stock_balances s)\<rparr>" "bal_quantity b = q"
    unfolding set_balance_def by (auto simp: tx_simps split: option.splits)
  then show ?thesis using at_balance [OF assms(1), of b q w p] by simp
qed

lemma run_not_paused: "at c n s \<Longrightarrow> ensureWarehousesNotUnderStocktake ws s = Inr (u, s') \<Longrightarrow>
   (\<forall>w \<in> set ws. \<not> paused c w) \<and> at c n s'"
  by (auto simp: ensureWarehousesNotUnderStocktake_def tx_simps at_reads list_ex_iff)

lemma run_available: assumes "at c n s" and "ensureUnreservedAvailability w p q s = Inr (u, s')"
  shows "q \<le> hand c w p - held c w p \<and> at c n s'"
proof -
  have "on_hand s = hand c" using assms(1) by (simp add: at_def)
  with assms show ?thesis by (auto simp: ensureUnreservedAvailability_def tx_simps at_reads)
qed

lemma bind_uuid: "(\<And>i. n \<le> i \<Longrightarrow> tx_spec (at c (Suc i)) (f i) Q) \<Longrightarrow> tx_spec (at c n) (tx_bind randomUUID f) Q"
  by (rule bind_run, erule (1) run_uuid)

lemma bind_insert: "(\<And>u. tx_spec (at (c\<lparr>journal := journal c @ [entry_of m]\<rparr>) n) (f u) Q) \<Longrightarrow>
   tx_spec (at c n) (tx_bind (insert_movement m) f) Q"
  by (rule bind_run, erule (1) run_insert)

lemma bind_add: "(\<And>u. tx_spec (at (c\<lparr>hand := bump w p q (hand c)\<rparr>) n) (f u) Q) \<Longrightarrow>
   tx_spec (at c n) (tx_bind (add_balance env w p q k) f) Q"
  by (rule bind_run, erule (1) run_add)

lemma bind_take: "(\<And>k. q \<le> hand c w p \<Longrightarrow> tx_spec (at (c\<lparr>hand := bump w p (- q) (hand c)\<rparr>) n) (f k) Q) \<Longrightarrow>
   tx_spec (at c n) (tx_bind (take_balance w p q) f) Q"
  by (rule bind_run, erule (1) run_take)

lemma bind_not_paused: "(\<And>u. \<forall>w \<in> set ws. \<not> paused c w \<Longrightarrow> tx_spec (at c n) (f u) Q) \<Longrightarrow>
   tx_spec (at c n) (tx_bind (ensureWarehousesNotUnderStocktake ws) f) Q"
  by (rule bind_run, erule (1) run_not_paused)

lemma bind_available: "(\<And>u. q \<le> hand c w p - held c w p \<Longrightarrow> tx_spec (at c n) (f u) Q) \<Longrightarrow>
   tx_spec (at c n) (tx_bind (ensureUnreservedAvailability w p q) f) Q"
  by (rule bind_run, erule (1) run_available)

lemmas stock_binds = bind_uuid bind_insert bind_add bind_take bind_not_paused bind_available

lemma run_consume: assumes "at c n s" and "consumeReservation env rid ni a s = Inr (u, s')"
  shows "(\<exists>r. find (\<lambda>r. rs_id r = rid) (reservations c) = Some r \<and> rs_status r = Active \<and> rs_warehouse r = iss_warehouseId ni \<and>
       rs_product r = iss_productId ni \<and> fixedDecimal (iss_quantity ni) \<le> rs_remaining r) \<and>
     at (c\<lparr>reservations := draw_reservation rid a (rs_remaining (the (find (\<lambda>r. rs_id r = rid) (reservations c))))
       (fixedDecimal (iss_quantity ni)) (reservations c)\<rparr>) n s'"
proof -
  have res: "stock_reservations s = reservations c" using assms(1) by (simp add: at_def)
  from assms(2) obtain r s1 where r: "find (\<lambda>r. rs_id r = rid) (reservations c) = Some r" "rs_status r = Active"
      "rs_warehouse r = iss_warehouseId ni" "rs_product r = iss_productId ni" "fixedDecimal (iss_quantity ni) \<le> rs_remaining r"
    and s1: "consume_serials env rid (serials_of (iss_serialNumbers ni)) s = Inr ((), s1)"
    and s': "s' = s1\<lparr>stock_reservations := draw_reservation rid a (rs_remaining r) (fixedDecimal (iss_quantity ni)) (stock_reservations s1)\<rparr>"
    by (auto simp: consumeReservation_def Let_def tx_simps res draw_reservation_def not_less)
  have "at c n s1" using tx_withinD [OF quiet_bodies(5) s1] assms(1) by (simp add: at_def quiet_alt)
  with r show ?thesis unfolding s' by (auto simp: at_def on_hand_def [abs_def])
qed

lemma bind_consume: "(\<And>u r. find (\<lambda>r. rs_id r = rid) (reservations c) = Some r \<Longrightarrow> rs_status r = Active \<Longrightarrow>
     rs_warehouse r = iss_warehouseId ni \<Longrightarrow> rs_product r = iss_productId ni \<Longrightarrow> fixedDecimal (iss_quantity ni) \<le> rs_remaining r \<Longrightarrow>
     tx_spec (at (c\<lparr>reservations := draw_reservation rid a (rs_remaining r) (fixedDecimal (iss_quantity ni)) (reservations c)\<rparr>) n) (f u) Q) \<Longrightarrow>
   tx_spec (at c n) (tx_bind (consumeReservation env rid ni a) f) Q"
  by (rule bind_run, erule (1) run_consume) auto

lemma bind_original: "(\<And>m. entry_of m \<in> set (journal c) \<Longrightarrow> mv_id m = i \<Longrightarrow> tx_spec (at c n) (f m) Q) \<Longrightarrow>
   tx_spec (at c n) (tx_bind (tx_row (\<lambda>s. find (\<lambda>m. mv_id m = i) (stock_movements s)) e) f) Q"
proof (rule bind_run [where R = "\<lambda>_. at c n" and A = "\<lambda>m. entry_of m \<in> set (journal c) \<and> mv_id m = i"])
  fix s m s' assume at: "at c n s" and run: "tx_row (\<lambda>s. find (\<lambda>m. mv_id m = i) (stock_movements s)) e s = Inr (m, s')"
  then have "m \<in> set (stock_movements s)" "mv_id m = i" "s' = s"
    by (auto simp: tx_simps find_Some_iff)
  moreover have "journal c = map entry_of (stock_movements s)" using at by (simp add: at_def)
  ultimately show "(entry_of m \<in> set (journal c) \<and> mv_id m = i) \<and> at c n s'" using at by simp
qed auto

lemma bind_returned: "tx_spec (at c n) (f (given_back c i)) Q \<Longrightarrow>
   tx_spec (at c n) (tx_bind (tx_reads (\<lambda>s. returned_quantity s i)) f) Q"
  by (rule bind_run [where R = "\<lambda>_. at c n" and A = "\<lambda>x. x = given_back c i"]) (auto simp: tx_simps at_reads)

lemma bind_return_row: "(\<And>u. tx_spec (at (c\<lparr>returns := returns c @ [x]\<rparr>) n) (f u) Q) \<Longrightarrow>
   tx_spec (at c n) (tx_bind (tx_writes (\<lambda>s. s\<lparr>stock_returns := stock_returns s @ [x]\<rparr>)) f) Q"
  by (rule bind_run [where R = "\<lambda>_. at (c\<lparr>returns := returns c @ [x]\<rparr>) n" and A = "\<lambda>_. True"])
    (auto simp: tx_simps at_def on_hand_def [abs_def])

lemma quiet_serials: "tx_within quiet (tx_writes (\<lambda>s. s\<lparr>serialized_items := g s\<rparr>))"
  by (intro quiet.within quietI) simp_all

lemma quiet_optional: "(\<And>x. tx_within quiet (g x)) \<Longrightarrow> tx_within quiet (case v of None \<Rightarrow> tx_return u | Some x \<Rightarrow> g x)"
  by (intro quiet.within)

lemmas quiet_simple = quiet_checks(1-3,5-7,9-10) quiet_bodies quiet_statements quiet_movement_batch quiet_batch_stocktake
  quiet_serials quiet.within_res

lemmas quiet_binds = quiet_simple [THEN bind_quiet] bind_quiet [OF quiet_optional] bind_quiet [OF quiet.within_map]
  bind_require

section \<open>Every body is a step\<close>

lemma stepI: "at c' n s \<Longrightarrow> (\<And>m. n \<le> m \<Longrightarrow> stock_step c (c'\<lparr>next_id := m\<rparr>)) \<Longrightarrow> stock_step c (stock_of s)"
  using at_stock_of by metis

text \<open>The fields of the new stock are compared first: they fix the identifiers of the step.\<close>

lemmas step_simps = entry_of_def post_def Suc_le_eq not_less

lemma same_step: "hand d = hand d' \<Longrightarrow> journal d = journal d' \<Longrightarrow> reservations d = reservations d' \<Longrightarrow>
   returns d = returns d' \<Longrightarrow> takes d = takes d' \<Longrightarrow> counts d = counts d' \<Longrightarrow> next_id d = next_id d' \<Longrightarrow>
   stock_step c d \<Longrightarrow> stock_step c d'"
  by (metis (full_types) stock.equality old.unit.exhaust)

abbreviation steps :: "stock \<Rightarrow> inv_response inv_tx \<Rightarrow> bool" where
  "steps c m \<equiv> tx_spec (at c (next_id c)) m (\<lambda>_ s'. stock_step c (stock_of s'))"

lemma receipt_step:
  assumes "0 < fixedDecimal (re_quantity n)"
  shows "steps c (recordReceipt env rt key a n)"
  unfolding recordReceipt_def Let_def
  by (intro stock_binds quiet_binds quiet_simple spec_return, erule stepI,
      rule same_step [OF _ _ _ _ _ _ _ stock_step.receive [OF assms, where w = "re_warehouseId n" and p = "re_productId n"]])
    (simp_all add: step_simps)

lemma issue_step:
  assumes "0 < fixedDecimal (iss_quantity n)"
  shows "steps c (recordIssue env key a n)"
proof (cases "iss_reservationId n")
  case None
  then show ?thesis unfolding recordIssue_def Let_def
    by (simp only: option.case) (intro stock_binds quiet_binds quiet_simple spec_return, erule stepI,
      rule same_step [OF _ _ _ _ _ _ _ stock_step.issue [OF assms, where w = "iss_warehouseId n" and p = "iss_productId n"]],
      simp_all add: step_simps)
next
  case (Some rid)
  show ?thesis unfolding recordIssue_def Let_def Some
    by (simp only: option.case) (intro stock_binds quiet_binds quiet_simple bind_consume spec_return, erule stepI,
      rule same_step [OF _ _ _ _ _ _ _ stock_step.issue_reserved [OF assms, where w = "iss_warehouseId n" and p = "iss_productId n"
        and account = a]], auto simp: step_simps dest: find_SomeD)
qed

lemma return_step:
  assumes "0 < fixedDecimal (ret_quantity n)"
  shows "steps c (returnStock_body env key a n)"
  unfolding returnStock_body_def Let_def
  by (intro stock_binds quiet_binds quiet_simple bind_original bind_returned bind_return_row spec_return, erule stepI,
    rule same_step [OF _ _ _ _ _ _ _ stock_step.return_in [OF assms]]) (simp_all add: step_simps)

lemma transfer_step:
  assumes "0 < fixedDecimal (tr_quantity n)" and "tr_fromWarehouseId n \<noteq> tr_toWarehouseId n"
  shows "steps c (transfer_body env key a n)"
  unfolding transfer_body_def Let_def
  by (intro stock_binds quiet_binds quiet_simple spec_return, erule stepI,
      rule same_step [OF _ _ _ _ _ _ _ stock_step.transfer [OF assms, where p = "tr_productId n"]],
      simp add: step_simps, simp add: step_simps transfer_movement_def) (simp_all add: step_simps)

lemma bind_reservation: "(\<And>u. tx_spec (at (c\<lparr>reservations := reservations c @ [r]\<rparr>) n) (f u) Q) \<Longrightarrow>
   tx_spec (at c n) (tx_bind (insert_reservation r) f) Q"
  by (rule bind_run [where R = "\<lambda>_. at (c\<lparr>reservations := reservations c @ [r]\<rparr>) n" and A = "\<lambda>_. True"])
    (auto simp: insert_reservation_def tx_simps at_def on_hand_def [abs_def])

lemma bind_source: "(\<And>i l. tx_spec (at c n) (f (i, l)) Q) \<Longrightarrow> tx_spec (at c n) (tx_bind (requireReservationSource rt ri) f) Q"
  by (rule bind_quiet [OF quiet_checks(9)]) auto

lemma reserve_step:
  assumes "0 < fixedDecimal (rv_quantity n)"
  shows "steps c (reserveStock_body env key a n)"
  unfolding reserveStock_body_def Let_def
  by (intro stock_binds bind_source quiet_binds quiet_simple bind_reservation spec_return, simp only: prod.case,
      intro stock_binds quiet_binds quiet_simple bind_reservation spec_return, erule stepI,
      rule same_step [OF _ _ _ _ _ _ _ stock_step.reserve [OF assms, where w = "rv_warehouseId n" and p = "rv_productId n"]])
   (simp add: step_simps)+

lemma bind_reads: "(\<And>s. at c n s \<Longrightarrow> A (g s)) \<Longrightarrow> (\<And>a. A a \<Longrightarrow> tx_spec (at c n) (f a) Q) \<Longrightarrow>
   tx_spec (at c n) (tx_bind (tx_reads g) f) Q"
  by (rule bind_run [where R = "\<lambda>_. at c n" and A = A]) (auto simp: tx_simps)

lemma bind_writes: "(\<And>s. at c n s \<Longrightarrow> at c' n (g s)) \<Longrightarrow> (\<And>u. tx_spec (at c' n) (f u) Q) \<Longrightarrow>
   tx_spec (at c n) (tx_bind (tx_writes g) f) Q"
  by (rule bind_run [where R = "\<lambda>_. at c' n" and A = "\<lambda>_. True"]) (auto simp: tx_simps)

lemma bind_reservation_row: "(\<And>r. r \<in> set (reservations c) \<Longrightarrow> rs_id r = i \<Longrightarrow> tx_spec (at c n) (f r) Q) \<Longrightarrow>
   tx_spec (at c n) (tx_bind (tx_row (\<lambda>s. find (\<lambda>r. rs_id r = i) (stock_reservations s)) e) f) Q"
  by (rule bind_run [where R = "\<lambda>_. at c n" and A = "\<lambda>r. r \<in> set (reservations c) \<and> rs_id r = i"])
    (auto simp: tx_simps at_def dest!: find_SomeD)

lemma bind_release: "(\<And>u. tx_spec (at (c\<lparr>reservations := release_reservation i a (reservations c)\<rparr>) n) (f u) Q) \<Longrightarrow>
   tx_spec (at c n) (tx_bind (tx_writes (\<lambda>s. s\<lparr>stock_reservations := update_where (\<lambda>r. rs_id r = i)
     (\<lambda>r. r\<lparr>rs_status := Released, rs_ended_by := Some a, rs_version := rs_version r + 1\<rparr>) (stock_reservations s)\<rparr>)) f) Q"
  by (rule bind_writes) (auto simp: at_def on_hand_def [abs_def] release_reservation_def)

lemma quiet_reservation_serials: "tx_within quiet (tx_writes (\<lambda>s. s\<lparr>reservation_serials := g s\<rparr>))"
  by (intro quiet.within quietI) simp_all

lemma release_step: "steps c (releaseReservation_body key a i)"
  unfolding releaseReservation_body_def Let_def
  by (intro bind_reservation_row bind_release quiet_binds quiet_simple bind_quiet [OF quiet.within_reads]
      bind_quiet [OF quiet_reservation_serials] spec_return, erule stepI,
      rule same_step [OF _ _ _ _ _ _ _ stock_step.release [where account = a]])
    (auto simp: step_simps)

lemma bind_take_row: "(\<And>t. t \<in> set (takes c) \<Longrightarrow> st_id t = i \<Longrightarrow> st_status t = StocktakeOpen \<Longrightarrow> tx_spec (at c n) (f t) Q) \<Longrightarrow>
   tx_spec (at c n) (tx_bind (require_open_stocktake i) f) Q"
  by (rule bind_run [where R = "\<lambda>_. at c n" and A = "\<lambda>t. t \<in> set (takes c) \<and> st_id t = i \<and> st_status t = StocktakeOpen"])
    (auto simp: require_open_stocktake_def tx_simps at_def dest!: find_SomeD)

lemma bind_paused: "tx_spec (at c n) (f (paused c w)) Q \<Longrightarrow> tx_spec (at c n) (tx_bind (tx_reads (\<lambda>s. open_stocktake s w)) f) Q"
  by (rule bind_reads [where A = "\<lambda>x. x = paused c w"]) (auto simp: at_reads)

lemma bind_take_insert: "(\<And>u. tx_spec (at (c\<lparr>takes := takes c @ [t]\<rparr>) n) (f u) Q) \<Longrightarrow>
   tx_spec (at c n) (tx_bind (tx_writes (\<lambda>s. s\<lparr>stocktakes := stocktakes s @ [t]\<rparr>)) f) Q"
  by (rule bind_writes) (auto simp: at_def on_hand_def [abs_def])

lemma open_step: "steps c (openStocktake_body key a w ref)"
  unfolding openStocktake_body_def Let_def
  by (intro bind_paused bind_take_insert bind_uuid quiet_binds quiet_simple spec_return, erule stepI,
      rule same_step [OF _ _ _ _ _ _ _ stock_step.open_take])
    (simp add: step_simps)+

lemma bind_upsert:
  assumes "\<And>i. n \<le> i \<Longrightarrow> \<forall>r \<in> set (counts c). \<not> (co_stocktake r = t \<and> co_product r = p) \<Longrightarrow>
      tx_spec (at (c\<lparr>counts := counts c @ [\<lparr>co_id = i, co_stocktake = t, co_product = p, co_expected = e, co_counted = q\<rparr>]\<rparr>) (Suc i)) (f i) Q"
    and "\<And>r. r \<in> set (counts c) \<Longrightarrow> co_stocktake r = t \<Longrightarrow>
      tx_spec (at (c\<lparr>counts := update_where (\<lambda>x. co_id x = co_id r) (\<lambda>x. x\<lparr>co_counted := q\<rparr>) (counts c)\<rparr>) n) (f (co_id r)) Q"
  shows "tx_spec (at c n) (tx_bind (upsert_count t p e q) f) Q"
proof (cases "find (\<lambda>x. co_stocktake x = t \<and> co_product x = p) (counts c)")
  case None
  have found: "find_count s t p = None" if "at c n s" for s using that None by (simp add: at_def find_count_def)
  show ?thesis
  proof (rule bind_run)
    fix s i s' assume at: "at c n s" and run: "upsert_count t p e q s = Inr (i, s')"
    then obtain s1 where "randomUUID s = Inr (i, s1)" and s': "s' = s1\<lparr>stocktake_counts := stocktake_counts s1 @
        [\<lparr>co_id = i, co_stocktake = t, co_product = p, co_expected = e, co_counted = q\<rparr>]\<rparr>"
      by (auto simp: upsert_count_def tx_simps found)
    with run_uuid [OF at] have "n \<le> i" "at c (Suc i) s1" by auto
    then show "n \<le> i \<and> at (c\<lparr>counts := counts c @ [\<lparr>co_id = i, co_stocktake = t, co_product = p, co_expected = e, co_counted = q\<rparr>]\<rparr>) (Suc i) s'"
      unfolding s' by (auto simp: at_def on_hand_def [abs_def])
  qed (use None in \<open>auto simp: find_None_iff intro: assms(1)\<close>)
next
  case (Some r)
  have found: "find_count s t p = Some r" if "at c n s" for s using that Some by (simp add: at_def find_count_def)
  show ?thesis
  proof (rule bind_run)
    fix s i s' assume at: "at c n s" and run: "upsert_count t p e q s = Inr (i, s')"
    then show "i = co_id r \<and> at (c\<lparr>counts := update_where (\<lambda>x. co_id x = co_id r) (\<lambda>x. x\<lparr>co_counted := q\<rparr>) (counts c)\<rparr>) n s'"
      by (auto simp: upsert_count_def tx_simps found at_def on_hand_def [abs_def])
  qed (use find_SomeD [OF Some] in \<open>auto intro: assms(2)\<close>)
qed

lemma quiet_evidence:
  "tx_within quiet (tx_writes (\<lambda>s. s\<lparr>stocktake_serial_counts := g s\<rparr>))"
  "tx_within quiet (tx_writes (\<lambda>s. s\<lparr>stocktake_batch_counts := h s\<rparr>))"
  by (intro quiet.within quietI; simp)+

lemma bind_hand: "tx_spec (at c n) (f (hand c w p)) Q \<Longrightarrow> tx_spec (at c n) (tx_bind (tx_reads (\<lambda>s. on_hand s w p)) f) Q"
  by (rule bind_reads [where A = "\<lambda>x. x = hand c w p"]) (auto simp: at_def)

lemma count_step:
  assumes "0 \<le> fixedDecimal (cnt_countedQuantity n)"
  shows "steps c (recordStocktakeCount_body env key a t n)"
  unfolding recordStocktakeCount_body_def Let_def
  by (intro bind_take_row bind_hand bind_upsert quiet_binds bind_quiet [OF quiet.within_if] bind_quiet [OF quiet.within_for]
      quiet_simple quiet.within_return quiet_evidence [THEN bind_quiet] spec_return; erule stepI)
    (rule same_step [OF _ _ _ _ _ _ _ stock_step.first_count [where p = "cnt_productId n", OF _ _ assms]]
       same_step [OF _ _ _ _ _ _ _ stock_step.count_again [OF _ _ assms]]; auto simp: step_simps)+

text \<open>Completing a stocktake: the loop settles the counts that differ, each with a movement of its own.\<close>

abbreviation differs :: "count_row \<Rightarrow> bool" where
  "differs r \<equiv> co_expected r \<noteq> co_counted r"

definition settled :: "uuid \<Rightarrow> count_row list \<Rightarrow> stock \<Rightarrow> uuid \<Rightarrow> inv_db \<Rightarrow> bool" where
  "settled w rs c n s \<longleftrightarrow> (\<exists>rows m. map snd rows = filter differs rs \<and> distinct (map fst rows) \<and>
     (\<forall>i \<in> set (map fst rows). n \<le> i \<and> i < m) \<and> n \<le> m \<and> at (settle w rows c) m s)"

lemma bind_balance: "(\<And>u. tx_spec (at (c\<lparr>hand := (\<lambda>w' p'. if w' = w \<and> p' = p then q else hand c w' p')\<rparr>) n) (f u) Q) \<Longrightarrow>
   tx_spec (at c n) (tx_bind (set_balance w p q) f) Q"
  by (rule bind_run, erule (1) run_set)

lemma complete_count_same: "co_expected r = co_counted r \<Longrightarrow> tx_spec (at c n) (complete_count t w a (r, mode, k)) (\<lambda>_. at c n)"
  unfolding complete_count_def Let_def
  by (simp only: prod.case simp_thms if_True if_False not_True_eq_False)
    (intro quiet_binds bind_quiet [OF quiet.within_if] bind_quiet [OF quiet.within_return] quiet_simple quiet.within_return spec_return)

lemma complete_count_differs: "differs r \<Longrightarrow>
   tx_spec (at c n) (complete_count t w a (r, mode, k)) (\<lambda>_ s. \<exists>i \<ge> n. at (settle w [(i, r)] c) (Suc i) s)"
  unfolding complete_count_def Let_def
  by (rule bind_unit, simp only: prod.case simp_thms if_True if_False not_False_eq_True tx_bind_assoc tx_bind_return,
      intro stock_binds bind_balance quiet_binds bind_quiet [OF quiet.within_if] bind_quiet [OF quiet.within_return] quiet_simple
        quiet.within_return spec_return) (auto simp: at_def entry_of_def count_entry_def cong: if_cong)

lemma at_settle: "at (settle w rows c) m s \<Longrightarrow> m' \<le> m \<Longrightarrow> at (settle w rows c) m' s"
  by (simp add: at_def)

lemma settle_append: "settle w (xs @ ys) c = settle w ys (settle w xs c)"
  by (induction w xs c rule: settle.induct) simp_all

lemma complete_counts:
  "tx_spec (at c n) (tx_for (complete_count t w a) xs) (\<lambda>_ s. settled w (map fst xs) c n s)"
proof (induction xs arbitrary: c n)
  case Nil
  have "settled w [] c n s" if "at c n s" for s
    unfolding settled_def using that by (intro exI [where x = "[]"] exI [where x = n]) simp
  then show ?case by (auto intro: spec_return)
next
  case (Cons x xs)
  obtain r mode k where x: "x = (r, mode, k)" by (cases x)
  show ?case
  proof (cases "differs r")
    case False
    then have "settled w (map fst (x # xs)) c n = settled w (map fst xs) c n" by (simp add: x settled_def fun_eq_iff)
    with False show ?thesis
      by (auto simp: x intro: tx_spec_bind [OF complete_count_same] Cons.IH)
  next
    case True
    have more: "settled w (map fst (x # xs)) c n s" if i: "n \<le> i" and rest: "settled w (map fst xs) (settle w [(i, r)] c) (Suc i) s" for i s
    proof -
      from rest obtain rows m where rows: "map snd rows = filter differs (map fst xs)" "distinct (map fst rows)"
        "\<forall>j \<in> set (map fst rows). Suc i \<le> j \<and> j < m" "Suc i \<le> m" "at (settle w rows (settle w [(i, r)] c)) m s"
        unfolding settled_def by blast
      then have "at (settle w ((i, r) # rows) c) m s" "i \<notin> set (map fst rows)" by (simp, force)
      with rows i True show ?thesis unfolding settled_def
        by (intro exI [where x = "(i, r) # rows"] exI [where x = m]) (force simp: x)
    qed
    show ?thesis unfolding tx_for.simps x
      by (rule tx_spec_bind [OF complete_count_differs [OF True]], rule tx_specI) (use more [unfolded x] Cons.IH in \<open>meson tx_specD\<close>)
  qed
qed

lemma complete_guard:
  assumes ok: "stock_ok c" and t: "t \<in> set (takes c)" "st_status t = StocktakeOpen"
    and free: "\<forall>r \<in> set (reservations c). rs_warehouse r = st_warehouse t \<and> rs_status r = Active \<longrightarrow>
      (\<exists>k. find (\<lambda>x. co_stocktake x = st_id t \<and> co_product x = rs_product r) (counts c) = Some k \<and>
         held c (st_warehouse t) (rs_product r) \<le> co_counted k)"
    and r: "r \<in> set (counts c)" "co_stocktake r = st_id t"
  shows "held c (st_warehouse t) (co_product r) \<le> co_counted r"
proof (cases "\<exists>v \<in> set (reservations c). active_at (st_warehouse t) (co_product r) v")
  case True
  with free obtain k where k: "find (\<lambda>x. co_stocktake x = st_id t \<and> co_product x = co_product r) (counts c) = Some k"
      "held c (st_warehouse t) (co_product r) \<le> co_counted k" by (auto simp: active_at_def)
  have "k = r"
    by (rule row_eqI [of "\<lambda>x. (co_stocktake x, co_product x)" "counts c"])
      (use ok_counts [OF ok] find_SomeD [OF k(1)] r in \<open>auto simp: counts_unique_def\<close>)
  with k(2) show ?thesis by simp
next
  case False
  then have "held c (st_warehouse t) (co_product r) = 0" unfolding held_def held_in_def by (intro sum_where_none) blast
  moreover have "0 \<le> co_counted r" using ok_expected [OF ok] t r by (auto simp: expected_ok_def)
  ultimately show ?thesis by simp
qed

lemma bind_settled:
  assumes "\<And>rows m u. map snd rows = filter differs (map fst xs) \<Longrightarrow> distinct (map fst rows) \<Longrightarrow>
     \<forall>i \<in> set (map fst rows). n \<le> i \<and> i < m \<Longrightarrow> n \<le> m \<Longrightarrow> tx_spec (at (settle w rows c) m) (f u) Q"
  shows "tx_spec (at c n) (tx_bind (tx_for (complete_count t w a) xs) f) Q"
proof (rule tx_spec_bind [OF complete_counts])
  fix u show "tx_spec (settled w (map fst xs) c n) (f u) Q"
    unfolding tx_spec_def settled_def using assms [unfolded tx_spec_def] by blast
qed

lemma bind_conflict:
  assumes "\<And>b. (\<not> b \<Longrightarrow> \<forall>r \<in> set (reservations c). rs_warehouse r = w \<and> rs_status r = Active \<longrightarrow>
      (\<exists>k. find (\<lambda>x. co_stocktake x = t \<and> co_product x = rs_product r) (counts c) = Some k \<and> held c w (rs_product r) \<le> co_counted k)) \<Longrightarrow>
     tx_spec (at c n) (f b) Q"
  shows "tx_spec (at c n) (tx_bind (tx_reads (\<lambda>s. list_ex (\<lambda>r. rs_warehouse r = w \<and> rs_status r = Active \<and>
        (case find_count s t (rs_product r) of None \<Rightarrow> True
         | Some c \<Rightarrow> reserved s w (rs_product r) > co_counted c)) (stock_reservations s))) f) Q"
proof (rule bind_reads [where A = "\<lambda>b. \<not> b \<longrightarrow> (\<forall>r \<in> set (reservations c). rs_warehouse r = w \<and> rs_status r = Active \<longrightarrow>
      (\<exists>k. find (\<lambda>x. co_stocktake x = t \<and> co_product x = rs_product r) (counts c) = Some k \<and> held c w (rs_product r) \<le> co_counted k))"])
  fix s assume at: "at c n s"
  then have "find_count s t p = find (\<lambda>x. co_stocktake x = t \<and> co_product x = p) (counts c)" for p by (simp add: at_def find_count_def)
  moreover have "stock_reservations s = reservations c" using at by (simp add: at_def)
  ultimately show "\<not> list_ex (\<lambda>r. rs_warehouse r = w \<and> rs_status r = Active \<and> (case find_count s t (rs_product r) of None \<Rightarrow> True
         | Some c \<Rightarrow> reserved s w (rs_product r) > co_counted c)) (stock_reservations s) \<longrightarrow>
      (\<forall>r \<in> set (reservations c). rs_warehouse r = w \<and> rs_status r = Active \<longrightarrow>
      (\<exists>k. find (\<lambda>x. co_stocktake x = t \<and> co_product x = rs_product r) (counts c) = Some k \<and> held c w (rs_product r) \<le> co_counted k))"
    by (auto simp: list_ex_iff at_reads [OF at] not_less split: option.splits)
next
  fix b show "\<not> b \<longrightarrow> (\<forall>r \<in> set (reservations c). rs_warehouse r = w \<and> rs_status r = Active \<longrightarrow>
      (\<exists>k. find (\<lambda>x. co_stocktake x = t \<and> co_product x = rs_product r) (counts c) = Some k \<and> held c w (rs_product r) \<le> co_counted k))
    \<Longrightarrow> tx_spec (at c n) (f b) Q" by (rule assms) (erule (1) mp)
qed

lemma bind_completion_rows:
  assumes "\<And>xs. (\<exists>q. map fst xs = filter (\<lambda>r. co_stocktake r = t \<and> q r) (counts c)) \<Longrightarrow> tx_spec (at c n) (f xs) Q"
  shows "tx_spec (at c n) (tx_bind (tx_reads (\<lambda>s. completion_rows s t w)) f) Q"
proof (rule bind_reads [OF _ assms])
  fix s assume "at c n s"
  then have "stocktake_counts s = counts c" by (simp add: at_def)
  then have "map fst (completion_rows s t w) = filter (\<lambda>r. co_stocktake r = t \<and> catalogue s (co_product r) \<noteq> None) (counts c)"
    by (simp add: completion_rows_def comp_def)
  then show "\<exists>q. map fst (completion_rows s t w) = filter (\<lambda>r. co_stocktake r = t \<and> q r) (counts c)" by fast
qed

lemma bind_close: "(\<And>u. tx_spec (at (c\<lparr>takes := update_where (\<lambda>x. st_id x = t) (\<lambda>x. x\<lparr>st_status := StocktakeCompleted\<rparr>) (takes c)\<rparr>) n) (f u) Q) \<Longrightarrow>
   tx_spec (at c n) (tx_bind (tx_writes (\<lambda>s. s\<lparr>stocktakes := update_where (\<lambda>x. st_id x = t)
        (\<lambda>x. x\<lparr>st_status := StocktakeCompleted\<rparr>) (stocktakes s)\<rparr>)) f) Q"
  by (rule bind_writes) (auto simp: at_def on_hand_def [abs_def])

lemma hand_settle_cong: "hand c = hand d \<Longrightarrow> hand (settle w rows c) = hand (settle w rows d)"
proof (induction rows arbitrary: c d)
  case (Cons x rows)
  obtain i r where x: "x = (i, r)" by (cases x)
  show ?case unfolding x settle.simps by (rule Cons.IH) (simp add: Cons.prems cong: if_cong)
qed simp

lemma complete_posting:
  assumes ok: "stock_ok c" and t: "t \<in> set (takes c)" "st_status t = StocktakeOpen" "st_id t = i"
    and free: "\<forall>r \<in> set (reservations c). rs_warehouse r = st_warehouse t \<and> rs_status r = Active \<longrightarrow>
      (\<exists>k. find (\<lambda>x. co_stocktake x = i \<and> co_product x = rs_product r) (counts c) = Some k \<and>
         held c (st_warehouse t) (rs_product r) \<le> co_counted k)"
    and xs: "\<exists>q. map fst xs = filter (\<lambda>r. co_stocktake r = i \<and> q r) (counts c)"
    and rows: "map snd rows = filter differs (map fst xs)" "distinct (map fst rows)" "\<forall>i \<in> set (map fst rows). next_id c \<le> i \<and> i < n"
    and n: "next_id c \<le> n" "n \<le> m"
  shows "stock_step c (settle (st_warehouse t) rows c\<lparr>takes := update_where (\<lambda>x. st_id x = i)
    (\<lambda>x. x\<lparr>st_status := StocktakeCompleted\<rparr>) (takes c), next_id := m\<rparr>)"
proof (rule same_step [OF _ _ _ _ _ _ _ stock_step.complete [OF t(1,2), where rows = rows and n = m]])
  obtain q where q: "map snd rows = filter differs (filter (\<lambda>r. co_stocktake r = st_id t \<and> q r) (counts c))"
    using rows(1) xs t(3) by auto
  have dist: "distinct (counts c)" using ok_ids [OF ok] by (auto simp: ids_ok_def unique_rows_def distinct_map)
  show "set (map snd rows) \<subseteq> {r \<in> set (counts c). co_stocktake r = st_id t}" "distinct (map snd rows)"
    unfolding q using dist by auto
  show "\<forall>r \<in> set (counts c). co_stocktake r = st_id t \<longrightarrow> held c (st_warehouse t) (co_product r) \<le> co_counted r"
    using complete_guard [OF ok t(1,2)] free t(3) by blast
  show "\<forall>i \<in> set (map fst rows). next_id c \<le> i \<and> i < m" using rows(3) n(2) by force
qed (use rows(2) n t(3) in \<open>auto simp: journal_settle intro!: hand_settle_cong\<close>)

lemma complete_step:
  assumes ok: "stock_ok c"
  shows "steps c (completeStocktake_body key a t)"
  unfolding completeStocktake_body_def Let_def
  by (intro bind_take_row bind_conflict bind_completion_rows bind_settled bind_close quiet_binds bind_quiet [OF quiet.within_reads]
      bind_quiet [OF quiet.within_for] quiet.within_prod quiet_simple spec_return, erule stepI, simp only: settle_simps,
      rule complete_posting [OF ok]) (assumption | simp)+

lemma quiet_settings:
  "tx_within quiet (tx_writes (\<lambda>s. s\<lparr>stock_settings := g s\<rparr>))"
  "tx_within quiet (tx_writes (\<lambda>s. s\<lparr>alert_subscriptions := h s\<rparr>))"
  by (intro quiet.within quietI; simp)+

lemma other_step: "at c (next_id c) s \<Longrightarrow> stock_step c (stock_of s)"
  by (erule stepI, rule stock_step.other)

lemma settings_step: "steps c (configureStockSettings_body key a n)"
proof -
  have "tx_within quiet (configureStockSettings_body key a n)"
    unfolding configureStockSettings_body_def Let_def
    by (intro quiet_base quiet_simple quiet_settings)
  then show ?thesis by (auto simp: tx_spec_def at_def quiet_alt dest!: tx_withinD intro!: other_step)
qed

lemma warehouse_step: "steps c (createWarehouse_body env key a n)"
proof -
  have "tx_within quiet (createWarehouse_body env key a n)"
    unfolding createWarehouse_body_def Let_def
    by (intro quiet_base quiet_simple quietI; simp)
  then show ?thesis by (auto simp: tx_spec_def at_def quiet_alt dest!: tx_withinD intro!: other_step)
qed

section \<open>Every request is a step\<close>

fun positive :: "inv_command \<Rightarrow> bool" where
  "positive (Receive n) = (0 < fixedDecimal (re_quantity n))"
| "positive (IssueStock n) = (0 < fixedDecimal (iss_quantity n))"
| "positive (ReturnStock n) = (0 < fixedDecimal (ret_quantity n))"
| "positive (Transfer n) = (0 < fixedDecimal (tr_quantity n) \<and> tr_fromWarehouseId n \<noteq> tr_toWarehouseId n)"
| "positive (Reserve n) = (0 < fixedDecimal (rv_quantity n))"
| "positive _ = True"

lemma positive_quantity: "normalizePositiveQuantity v = Inr q \<Longrightarrow> 0 < fixedDecimal q"
  by (auto simp: normalizePositiveQuantity_def Let_def split: if_splits)

lemma res_bind_Inr: "res_bind m f = Inr b \<longleftrightarrow> (\<exists>a. m = Inr a \<and> f a = Inr b)"
  by (cases m) auto

lemma normalize_positive: "normalize tbl c = Inr n \<Longrightarrow> positive n"
  by (cases c) (auto simp: normalizeReceipt_def normalizeIssue_def normalizeReturn_def normalizeTransfer_def
    normalizeReservation_def res_bind_Inr split: if_splits dest: positive_quantity)

lemma body_steps: "positive n \<Longrightarrow> stock_ok c \<Longrightarrow> steps c (body_of env a n key)"
  by (cases n) (simp_all add: receipt_step issue_step return_step transfer_step reserve_step release_step open_step
    count_step complete_step settings_step warehouse_step fixedDecimal_def)

lemma steps_run: "steps (stock_of s) m \<Longrightarrow> m s = Inr (r, s') \<Longrightarrow> stock_step (stock_of s) (stock_of s')"
  using at_self [of s] by (auto dest: tx_specD)

lemma purchase_step: "steps c (receivePurchaseOrderStock env inp g l a)"
  unfolding receivePurchaseOrderStock_def
  by (intro bind_res receipt_step) (use normalize_positive [of "env_tbl env" "Receive _"] in force)

lemma part_step: "steps c (issueServicePart env inp w k a)"
  unfolding issueServicePart_def
  by (intro bind_res issue_step) (use normalize_positive [of "env_tbl env" "IssueStock _"] in force)

text \<open>What a command leaves behind: after an error nothing, otherwise the result of its body or the recorded answer.\<close>

lemma runCommand_db:
  assumes "runCommand scope key h action (keys, db) = (out, (keys', db'))"
  shows "db' = db \<or> (\<exists>k r. action k db = Inr (r, db') \<and> out = Inr r)"
  using assms unfolding runCommand_def claim_def run_action_def complete_key_def
  by (auto simp: tx_bind_def tx_return_def tx_writes_def split: sum.splits option.splits if_splits prod.splits)

lemma runCommand_error: "runCommand scope key h action s = (Inl e, s') \<Longrightarrow> s' = s"
  unfolding runCommand_def by (auto split: sum.splits)

lemma handleRequest_step:
  assumes "handleRequest env request_hash a key c s = (out, s')" and "stock_ok (stock_of (snd s))"
  shows "snd s' = snd s \<or> stock_step (stock_of (snd s)) (stock_of (snd s'))"
proof (cases "dto_valid c \<and> (\<exists>n. normalize (env_tbl env) c = Inr n)")
  case True
  then obtain n where n: "normalize (env_tbl env) c = Inr n" by blast
  with True assms(1) have "runCommand (scope_of n) key (request_hash n) (body_of env a n) s = (out, s')"
    by (simp add: handleRequest_def)
  then have "snd s' = snd s \<or> (\<exists>k r. body_of env a n k (snd s) = Inr (r, snd s'))"
    by (cases s; cases s') (auto dest: runCommand_db)
  then show ?thesis using steps_run [OF body_steps [OF normalize_positive [OF n] assms(2)]] by blast
next
  case False
  with assms(1) show ?thesis by (auto simp: handleRequest_def split: if_splits sum.splits)
qed

section \<open>Reachable states\<close>

definition empty_stock :: "inv_db \<Rightarrow> bool" where
  "empty_stock s \<longleftrightarrow> stock_balances s = [] \<and> stock_movements s = [] \<and> stock_reservations s = [] \<and> stock_returns s = [] \<and>
     stocktakes s = [] \<and> stocktake_counts s = []"

lemma empty_ok: "empty_stock s \<Longrightarrow> stock_ok (stock_of s)"
  by (auto simp: empty_stock_def stock_ok_def stock_ok_defs on_hand_def held_def held_in_def booked_def given_back_def)

text \<open>
  The history of the service: requests of any account under any key, and the two bodies that
  the procurement and the service modules run inside their own transactions.
\<close>

inductive inv_reachable :: "inv_env \<Rightarrow> (inv_command \<Rightarrow> jsstr) \<Rightarrow> inv_db \<Rightarrow> inv_state \<Rightarrow> bool" for env request_hash s0 where
  start: "inv_reachable env request_hash s0 ([], s0)"
| request: "inv_reachable env request_hash s0 s \<Longrightarrow> handleRequest env request_hash account key c s = (out, s') \<Longrightarrow>
    inv_reachable env request_hash s0 s'"
| purchase: "inv_reachable env request_hash s0 (keys, s) \<Longrightarrow>
    receivePurchaseOrderStock env input goodsReceiptId lineId account s = Inr (r, s') \<Longrightarrow> inv_reachable env request_hash s0 (keys, s')"
| service_part: "inv_reachable env request_hash s0 (keys, s) \<Longrightarrow>
    issueServicePart env input' workOrderId eventKey account s = Inr (r, s') \<Longrightarrow> inv_reachable env request_hash s0 (keys, s')"

lemma reachable_ok:
  assumes "inv_reachable env request_hash s0 s" and "empty_stock s0"
  shows "stock_ok (stock_of (snd s))"
  using assms(1)
proof (induction rule: inv_reachable.induct)
  case start
  then show ?case using empty_ok [OF assms(2)] by simp
next
  case (request s account key c out s')
  then show ?case using handleRequest_step step_ok by metis
next
  case (purchase keys s inp g l a r s')
  then show ?case using step_ok [OF steps_run [OF purchase_step]] by simp
next
  case (service_part keys s inp w k a r s')
  then show ?case using step_ok [OF steps_run [OF part_step]] by simp
qed

end
