(* ===== verification/InventoryGuarantees.thy ===== *)
theory InventoryGuarantees
  imports InventoryLedger
begin

text \<open>
  What the inventory service guarantees to its callers. The lemmas are about \<open>handleRequest\<close>,
  the whole path of a request: validation, normal form, idempotency claim, body, rollback.
\<close>

section \<open>Commands and their keys\<close>

text \<open>A command either fails, answers from its key, or runs its body and records the answer.\<close>

lemma runCommand_cases:
  assumes "runCommand scope key h action (keys, db) = (out, (keys', db'))"
  obtains (failed) e where "out = Inl e" "keys' = keys" "db' = db"
  | (replayed) k row r where "validKey key = Inr k" "map_of keys (scope, k) = Some row" "ik_request_hash row = h" "ik_status row = Completed"
      "ik_response row = Some r" "out = Inr r" "keys' = keys" "db' = db"
  | (run) k r where "validKey key = Inr k" "map_of keys (scope, k) = None" "action k db = Inr (r, db')" "out = Inr r"
      "map_of keys' = (map_of keys)((scope, k) \<mapsto> \<lparr>ik_request_hash = h, ik_status = Completed, ik_response = Some r\<rparr>)"
proof (cases "validKey key")
  case (Inl e)
  with assms show thesis by (auto intro: failed simp: runCommand_def)
next
  case (Inr k)
  show thesis
  proof (cases "map_of keys (scope, k)")
    case None
    show thesis
    proof (cases "action k db")
      case (Inl e)
      with assms None \<open>validKey key = Inr k\<close> show thesis
        by (intro failed) (auto simp: runCommand_def claim_def run_action_def tx_bind_def)
    next
      case (Inr v)
      obtain r d where v: "v = (r, d)" by (cases v)
      show thesis
        by (rule run [OF \<open>validKey key = Inr k\<close> None])
          (use assms None Inr \<open>validKey key = Inr k\<close> in
            \<open>auto simp: v runCommand_def claim_def run_action_def complete_key_def tx_bind_def tx_return_def tx_writes_def\<close>)
    qed
  next
    case (Some row)
    show thesis
    proof (cases "ik_request_hash row = h \<and> ik_status row = Completed \<and> ik_response row \<noteq> None")
      case True
      then obtain r where r: "ik_response row = Some r" by auto
      show thesis
        by (rule replayed [OF Inr Some _ _ r]) (use assms Inr Some True r in \<open>auto simp: runCommand_def claim_def tx_bind_def tx_return_def\<close>)
    next
      case False
      have "\<exists>e. claim scope k h (keys, db) = Inl e" using Some False by (auto simp: claim_def)
      then obtain e where "claim scope k h (keys, db) = Inl e" by blast
      with assms Inr show thesis by (intro failed) (auto simp: runCommand_def tx_bind_def)
    qed
  qed
qed

lemma handleRequest_cases:
  assumes "handleRequest env request_hash a key c s = (out, s')"
  obtains (failed) e where "out = Inl e" "s' = s"
  | (replayed) n k row r where "normalize (env_tbl env) c = Inr n" "validKey key = Inr k" "map_of (fst s) (scope_of n, k) = Some row"
      "ik_request_hash row = request_hash n" "ik_status row = Completed" "ik_response row = Some r" "out = Inr r" "s' = s"
  | (run) n k r where "normalize (env_tbl env) c = Inr n" "validKey key = Inr k" "map_of (fst s) (scope_of n, k) = None"
      "body_of env a n k (snd s) = Inr (r, snd s')" "out = Inr r"
      "map_of (fst s') = (map_of (fst s))((scope_of n, k) \<mapsto> \<lparr>ik_request_hash = request_hash n, ik_status = Completed, ik_response = Some r\<rparr>)"
proof (cases "dto_valid c \<and> (\<exists>n. normalize (env_tbl env) c = Inr n)")
  case True
  then obtain n where n: "normalize (env_tbl env) c = Inr n" by blast
  with True assms have "runCommand (scope_of n) key (request_hash n) (body_of env a n) (fst s, snd s) = (out, (fst s', snd s'))"
    by (simp add: handleRequest_def)
  then show thesis
    by (cases rule: runCommand_cases) (use n that in \<open>auto simp: prod_eq_iff\<close>)
next
  case False
  then have "\<exists>e. handleRequest env request_hash a key c s = (Inl e, s)"
    by (cases "normalize (env_tbl env) c") (auto simp: handleRequest_def)
  with assms that(1) show thesis by auto
qed

text \<open>A key that is answered stays answered, with the same response.\<close>

lemma keys_kept:
  assumes "handleRequest env request_hash a key c s = (out, s')" and "map_of (fst s) i = Some row" 
  shows "map_of (fst s') i = Some row"
  using assms(1) by (cases rule: handleRequest_cases) (use assms(2) in auto)

lemma handleRequest_replay:
  assumes "dto_valid c" "normalize (env_tbl env) c = Inr n" "validKey key = Inr k"
    and "map_of (fst s) (scope_of n, k) = Some row" "ik_status row = Completed" "ik_response row = Some r"
  shows "handleRequest env request_hash a key c s =
    (if request_hash n = ik_request_hash row then Inr r else Inl (Api ''IDEMPOTENCY_KEY_CONFLICT''), s)"
proof (cases s)
  case (Pair keys db)
  with assms show ?thesis
    by (simp add: handleRequest_def runCommand_def claim_def tx_bind_def tx_return_def translate_error_def)
qed

lemma answer_recorded:
  assumes "handleRequest env request_hash a key c s = (Inr r, s')"
  obtains n k row where "dto_valid c" "normalize (env_tbl env) c = Inr n" "validKey key = Inr k" "map_of (fst s') (scope_of n, k) = Some row"
    "ik_request_hash row = request_hash n" "ik_status row = Completed" "ik_response row = Some r"
proof -
  have valid: "dto_valid c" using assms by (auto simp: handleRequest_def split: if_splits)
  from assms show thesis
  proof (cases rule: handleRequest_cases)
    case (replayed n k row r')
    with that [OF valid] show thesis by auto
  next
    case (run n k r')
    show thesis by (rule that [OF valid run(1,2), of "\<lparr>ik_request_hash = request_hash n, ik_status = Completed, ik_response = Some r\<rparr>"])
      (use run in auto)
  qed simp
qed

inductive later :: "inv_env \<Rightarrow> (inv_command \<Rightarrow> jsstr) \<Rightarrow> inv_state \<Rightarrow> inv_state \<Rightarrow> bool" for env request_hash s where
  now: "later env request_hash s s"
| more: "later env request_hash s s' \<Longrightarrow> handleRequest env request_hash account key c s' = (out, s'') \<Longrightarrow> later env request_hash s s''"

lemma later_keys: "later env request_hash s s' \<Longrightarrow> map_of (fst s) i = Some row \<Longrightarrow> map_of (fst s') i = Some row"
  by (induction rule: later.induct) (auto dest: keys_kept)

lemma later_db: "later env request_hash s s' \<Longrightarrow> inv_reachable env request_hash s0 s \<Longrightarrow> inv_reachable env request_hash s0 s'"
  by (induction rule: later.induct) (auto intro: inv_reachable.request)

section \<open>The ledger\<close>

definition incoming_quantity :: "inv_db \<Rightarrow> uuid \<Rightarrow> uuid \<Rightarrow> int" where
  "incoming_quantity s w p = sum_where (\<lambda>m. mv_warehouse m = w \<and> mv_product m = p \<and> incoming (mv_type m)) mv_quantity (stock_movements s)"

definition outgoing_quantity :: "inv_db \<Rightarrow> uuid \<Rightarrow> uuid \<Rightarrow> int" where
  "outgoing_quantity s w p = sum_where (\<lambda>m. mv_warehouse m = w \<and> mv_product m = p \<and> \<not> incoming (mv_type m)) mv_quantity (stock_movements s)"

lemma booked_movements: "sum_where (entry_at w p) signed (map entry_of ms) =
   sum_where (\<lambda>m. mv_warehouse m = w \<and> mv_product m = p \<and> incoming (mv_type m)) mv_quantity ms -
   sum_where (\<lambda>m. mv_warehouse m = w \<and> mv_product m = p \<and> \<not> incoming (mv_type m)) mv_quantity ms"
  by (induction ms) (auto simp: entry_of_def)

lemma booked_stock_of: "booked (stock_of s) w p = incoming_quantity s w p - outgoing_quantity s w p"
  by (simp add: booked_def booked_movements incoming_quantity_def outgoing_quantity_def)



text \<open>
  C1: The inventory service implements the stock machine: in every state that it reaches from empty
  tables, a request that fails changes nothing, neither the tables nor the idempotency keys, and
  a request that succeeds is one step of the machine or the recorded answer of its key.
\<close>

theorem handleRequest_refines_stock_machine:
  assumes "inv_reachable env request_hash s0 s" and "empty_stock s0"
    and "handleRequest env request_hash account key c s = (out, s')"
  shows "case out of Inl e \<Rightarrow> s' = s
    | Inr r \<Rightarrow> stock_step (stock_of (snd s)) (stock_of (snd s')) \<or> s' = s \<and> (\<exists>row \<in> ran (map_of (fst s)). ik_response row = Some r)"
  using assms(3)
proof (cases rule: handleRequest_cases)
  case (run n k r)
  then show ?thesis
    using steps_run [OF body_steps [OF normalize_positive [OF run(1)] reachable_ok [OF assms(1,2)]]] by auto
qed (auto intro: ranI)

lemma complete_unpauses:
  assumes "one_take c" and "t \<in> set (takes c)" and "st_status t = StocktakeOpen"
    and "takes c' = update_where (\<lambda>x. st_id x = st_id t) (\<lambda>x. x\<lparr>st_status := StocktakeCompleted\<rparr>) (takes c)"
  shows "\<not> paused c' (st_warehouse t)"
proof
  assume "paused c' (st_warehouse t)"
  then obtain x where x: "x \<in> set (takes c)" "st_id x \<noteq> st_id t" "st_warehouse x = st_warehouse t" "st_status x = StocktakeOpen"
    unfolding paused_def assms(4) set_update_where by (auto split: if_splits)
  with assms(1-3) show False unfolding one_take_def by blast
qed

lemma step_paused:
  assumes step: "stock_step c c'" and "one_take c" and w: "paused c w" and "paused c' w"
  shows "hand c' w p = hand c w p"
  using step
proof (cases rule: stock_step.cases)
  case (complete t rows n)
  have "st_warehouse t \<noteq> w" using complete_unpauses [OF assms(2) complete(2,3), of c'] assms(4) complete(1) by auto
  then show ?thesis unfolding complete(1) by (simp add: hand_settle_other)
qed (use w in auto)


text \<open>
  C13: A key answers once. After a request succeeded under a key, whatever requests follow, the same
  request under that key gets the recorded answer and changes nothing, and another request of the
  same kind under it, one with another hash, gets \<open>IDEMPOTENCY_KEY_CONFLICT\<close> and changes nothing.
\<close>

theorem answered_request_is_replayed:
  assumes "handleRequest env request_hash account key c s = (Inr r, s1)" and "later env request_hash s1 s2"
    and "dto_valid c'" and "normalize (env_tbl env) c = Inr n" and "normalize (env_tbl env) c' = Inr n'" and "scope_of n' = scope_of n"
  shows "handleRequest env request_hash account' key c' s2 =
    (if request_hash n' = request_hash n then Inr r else Inl (Api ''IDEMPOTENCY_KEY_CONFLICT''), s2)"
proof -
  from assms(1) obtain n1 k row where row: "normalize (env_tbl env) c = Inr n1" "validKey key = Inr k" "map_of (fst s1) (scope_of n1, k) = Some row"
    "ik_request_hash row = request_hash n1" "ik_status row = Completed" "ik_response row = Some r" by (rule answer_recorded)
  have "n1 = n" using row(1) assms(4) by simp
  with later_keys [OF assms(2) row(3)] assms(6) have "map_of (fst s2) (scope_of n', k) = Some row" by simp
  from handleRequest_replay [OF assms(3,5) row(2) this row(5,6)] show ?thesis using row(4) \<open>n1 = n\<close> by simp
qed


section \<open>Decimals\<close>

lemma numeric_text_value: "fixedDecimal (numeric_text (int n)) = int n"
proof -
  obtain a b where ab: "fromFixedDecimal (int n) = a @ 46 # b" "\<forall>c \<in> set (a @ b). is_digit c" "digits_val (a @ b) = n"
    by (rule fromFixedDecimal_parts)
  then have "46 \<notin> set a" by (intro digit_not_dot) simp
  with ab show ?thesis by (simp add: numeric_text_def fixedDecimal_def remove1_append)
qed

text \<open>
  C37: The text of a quantity or an amount is well typed and canonical: the validation of the request
  types accepts it, it is read back as the same number, and normalising it changes nothing.
\<close>

theorem numeric_text_is_canonical:
  "dto_decimal (numeric_text (int n)) \<and> fixedDecimal (numeric_text (int n)) = int n \<and>
   normalizeQuantity (numeric_text (int n)) = numeric_text (int n)"
proof -
  obtain a b where ab: "fromFixedDecimal (int n) = a @ 46 # b" "a \<noteq> []" "length b = 4" "\<forall>c \<in> set (a @ b). is_digit c"
    by (rule fromFixedDecimal_parts)
  have dot: "46 \<notin> set a" "46 \<notin> set b" using ab(4) digit_not_dot [of a] digit_not_dot [of b] by auto
  have span: "takeWhile is_digit (a @ 46 # b) = a" "dropWhile is_digit (a @ 46 # b) = 46 # b"
    using ab(4) by (auto simp: takeWhile_append dropWhile_append is_digit_def)
  have "normalizeQuantity (a @ 46 # b) = a @ 46 # b"
    using dot ab(3) by (simp add: normalizeQuantity_def split_on_append split_on_id padEnd_def)
  moreover have "dto_decimal (a @ 46 # b)" using ab(2-4) by (simp add: dto_decimal_def span list_all_iff)
  ultimately show ?thesis using numeric_text_value [of n] ab(1) by (simp add: numeric_text_def)
qed

lemma sum_texts: "foldl (\<lambda>sum value. sum + fixedDecimal value) (int k) (map (\<lambda>n. numeric_text (int n)) ns) = int (k + sum_list ns)"
proof (induction ns arbitrary: k)
  case (Cons n ns)
  from Cons.IH [of "k + n"] show ?case by (simp add: numeric_text_value add.assoc)
qed simp

text \<open>
  C36: Calculating with texts is calculating with numbers. On texts that the database prints, the
  cost that a transfer answers with is the generated column \<open>total_cost_eur\<close> (rounded to the
  nearest ten-thousandth), \<open>sumQuantities\<close> is the sum, \<open>decimalDifference\<close> is the difference with
  its sign, and two texts are equal exactly if their numbers are.
\<close>

theorem decimal_texts_compute_numbers:
  "multiplyFixed quantity (numeric_text (int c)) = numeric_text (total_cost (fixedDecimal quantity) (int c)) \<and>
   sumQuantities (map (\<lambda>n. numeric_text (int n)) ns) = numeric_text (int (sum_list ns)) \<and>
   decimalDifference (numeric_text (int a)) (numeric_text (int b)) = (b < a, numeric_text \<bar>int a - int b\<bar>) \<and>
   (numeric_text (int a) = numeric_text (int b) \<longleftrightarrow> a = b)"
proof (intro conjI)
  define x where "x = fixedDecimal quantity * int c"
  have "0 \<le> x" by (simp add: x_def fixedDecimal_def)
  then have "(x + 5000) sdiv 10000 = (x + 5000) div 10000" by (intro sdiv_nonneg) simp_all
  also have "\<dots> = (2 * x + 10000) div 20000" by simp
  finally show "multiplyFixed quantity (numeric_text (int c)) = numeric_text (total_cost (fixedDecimal quantity) (int c))"
    by (simp add: multiplyFixed_def numeric_text_value [unfolded numeric_text_def] total_cost_def numeric_text_def x_def)
  show "sumQuantities (map (\<lambda>n. numeric_text (int n)) ns) = numeric_text (int (sum_list ns))"
    using sum_texts [of 0 ns] by (simp add: sumQuantities_def) (simp add: numeric_text_def)
  show "decimalDifference (numeric_text (int a)) (numeric_text (int b)) = (b < a, numeric_text \<bar>int a - int b\<bar>)"
    by (simp add: decimalDifference_def numeric_text_value Let_def) (simp add: numeric_text_def abs_if)
  show "numeric_text (int a) = numeric_text (int b) \<longleftrightarrow> a = b"
    by (metis numeric_text_value of_nat_eq_iff)
qed

section \<open>Release\<close>

definition tx_total :: "('s, 'e, 'a) tx \<Rightarrow> bool" where
  "tx_total m \<longleftrightarrow> (\<forall>s. \<exists>a s'. m s = Inr (a, s'))"

lemma total_bind: "tx_total m \<Longrightarrow> (\<And>a. tx_total (f a)) \<Longrightarrow> tx_total (tx_bind m f)"
  unfolding tx_total_def tx_bind_def by (metis (no_types, lifting) sum.case(2) prod.case)

lemma total_base: "tx_total (tx_return a)" "tx_total (tx_reads g)" "tx_total (tx_writes h)" "tx_total randomUUID"
  by (simp_all add: tx_total_def tx_return_def tx_reads_def tx_writes_def randomUUID_def)

lemma total_for: "(\<And>x. tx_total (f x)) \<Longrightarrow> tx_total (tx_for f xs)"
  by (induction xs) (auto intro: total_base total_bind)

lemma total_if: "tx_total m \<Longrightarrow> tx_total n \<Longrightarrow> tx_total (if b then m else n)"
  by simp

lemma total_option: "tx_total m \<Longrightarrow> (\<And>x. tx_total (f x)) \<Longrightarrow> tx_total (case v of None \<Rightarrow> m | Some x \<Rightarrow> f x)"
  by (cases v) auto

lemma total_prod: "(\<And>x y. tx_total (f x y)) \<Longrightarrow> tx_total (case v of (x, y) \<Rightarrow> f x y)"
  by (cases v) auto

lemmas total = total_bind total_base total_for total_if total_option total_prod

lemma total_reconcile: "tx_total (reconcileLowStockAlert w p)"
  unfolding reconcileLowStockAlert_def Let_def insert_alert_def by (intro total)

lemma total_run: "tx_total m \<Longrightarrow> \<exists>s'. m s = Inr ((), s')"
  by (auto simp: tx_total_def)

lemma release_runs:
  assumes "find (\<lambda>r. rs_id r = i) (stock_reservations s) = Some r" and "rs_status r = Active"
    and "\<not> list_ex (\<lambda>x. ob_key x = SideEffectKey (js ''inventory.stock.reservation_released'') k) (outbox_events s)"
  shows "\<exists>v s'. releaseReservation_body k a i s = Inr (v, s')"
proof -
  have "\<exists>s'. reconcileLowStockAlert w p s1 = Inr ((), s')" for w p s1 by (rule total_run [OF total_reconcile])
  with assms show ?thesis
    by (simp add: releaseReservation_body_def sideEffects_def tx_simps randomUUID_def del: js_Cons)
qed

lemma release_effect:
  "tx_spec (at c n) (releaseReservation_body key a i) (\<lambda>_. at (c\<lparr>reservations := release_reservation i a (reservations c)\<rparr>) n)"
  unfolding releaseReservation_body_def Let_def
  by (intro bind_reservation_row bind_release quiet_binds quiet_simple bind_quiet [OF quiet.within_reads]
      bind_quiet [OF quiet_reservation_serials] spec_return)

text \<open>
  C28: An active reservation can always be released: in every reachable state the request with a new
  key succeeds, no quantity on hand changes, and exactly the rest of that reservation is free again.
\<close>

theorem active_reservation_can_be_released:
  assumes "inv_reachable env request_hash s0 (keys, s)" and "empty_stock s0"
    and "r \<in> set (stock_reservations s)" and "rs_status r = Active"
    and "validKey (Some k) = Inr k" and "map_of keys (''stock-reservation.release'', k) = None"
    and "\<not> list_ex (\<lambda>x. ob_key x = SideEffectKey (js ''inventory.stock.reservation_released'') k) (outbox_events s)"
  shows "\<exists>v s'. handleRequest env request_hash account (Some k) (ReleaseReservation (rs_id r)) (keys, s) = (Inr v, s') \<and>
    on_hand (snd s') = on_hand s \<and>
    (\<forall>w p. reserved (snd s') w p = reserved s w p - (if rs_warehouse r = w \<and> rs_product r = p then rs_remaining r else 0))"
proof -
  have ok: "stock_ok (stock_of s)" using reachable_ok [OF assms(1,2)] by simp
  then have dist: "distinct (map rs_id (stock_reservations s))" using reservations_distinct by fastforce
  have found: "find (\<lambda>x. rs_id x = rs_id r) (stock_reservations s) = Some r"
    using find_SomeD row_eqI [OF dist _ assms(3)] assms(3) by (metis (mono_tags, lifting) find_None_iff not_None_eq)
  from release_runs [OF found assms(4,7)] obtain v s' where run: "releaseReservation_body k account (rs_id r) s = Inr (v, s')" by blast
  have "\<exists>keys'. handleRequest env request_hash account (Some k) (ReleaseReservation (rs_id r)) (keys, s) = (Inr v, (keys', s'))"
    using assms(5,6) run by (simp add: handleRequest_def runCommand_def claim_def run_action_def complete_key_def tx_bind_def tx_return_def tx_writes_def)
  then obtain keys' where "handleRequest env request_hash account (Some k) (ReleaseReservation (rs_id r)) (keys, s) = (Inr v, (keys', s'))" by blast
  moreover from tx_specD [OF release_effect at_self run] have "on_hand s' = on_hand s"
      "stock_reservations s' = release_reservation (rs_id r) account (stock_reservations s)" by (simp_all add: at_def)
  moreover have "reserved s' w p = held_in (stock_reservations s') w p" for w p
    by (simp add: held_in_def reserved_def active_at_def [abs_def])
  moreover have "reserved s w p = held_in (stock_reservations s) w p" for w p
    by (simp add: held_in_def reserved_def active_at_def [abs_def])
  ultimately show ?thesis using held_release [OF dist assms(3,4)] by auto
qed

section \<open>Stocktakes\<close>

lemma hand_settle_same: "p \<notin> co_product ` set (map snd rows) \<Longrightarrow> hand (settle w rows c) w p = hand c w p"
proof (induction rows arbitrary: c)
  case (Cons x rows)
  obtain i r where x: "x = (i, r)" by (cases x)
  from Cons.prems have p: "p \<notin> co_product ` set (map snd rows)" "p \<noteq> co_product r" by (simp_all add: x)
  show ?case unfolding x settle.simps Cons.IH [OF p(1)] using p(2) by simp
qed simp

lemma hand_settle_row: "distinct (map co_product (map snd rows)) \<Longrightarrow> r \<in> set (map snd rows) \<Longrightarrow> differs r \<Longrightarrow>
   hand (settle w rows c) w (co_product r) = co_counted r"
proof (induction rows arbitrary: c)
  case (Cons x rows)
  obtain i y where x: "x = (i, y)" by (cases x)
  show ?case
  proof (cases "r = y")
    case True
    then have "co_product r \<notin> co_product ` set (map snd rows)" using Cons.prems(1) by (simp add: x image_image)
    then show ?thesis unfolding x settle.simps by (subst hand_settle_same) (use True Cons.prems(3) in simp_all)
  next
    case False
    then have "r \<in> set (map snd rows)" using Cons.prems(2) by (simp add: x)
    then show ?thesis unfolding x settle.simps by (intro Cons.IH) (use Cons.prems in \<open>simp_all add: x\<close>)
  qed
qed simp

text \<open>The quantities after the loop: what was counted, and where nothing was counted what was there.\<close>

lemma settled_hand:
  assumes ok: "stock_ok c" and t: "t \<in> set (takes c)" "st_status t = StocktakeOpen"
    and s: "settled (st_warehouse t) (filter (\<lambda>r. co_stocktake r = st_id t) (counts c)) c n s"
  shows "on_hand s w p = (if w = st_warehouse t then
     case find (\<lambda>r. co_stocktake r = st_id t \<and> co_product r = p) (counts c) of None \<Rightarrow> hand c w p | Some r \<Rightarrow> co_counted r
     else hand c w p)"
proof -
  define cs where "cs = filter (\<lambda>r. co_stocktake r = st_id t) (counts c)"
  from s obtain rows m where rows: "map snd rows = filter differs cs" and hand: "on_hand s = hand (settle (st_warehouse t) rows c)"
    unfolding settled_def cs_def at_def by auto
  have key: "distinct (map (\<lambda>r. (co_stocktake r, co_product r)) (counts c))" using ok_counts [OF ok] by (simp add: counts_unique_def)
  have "distinct (map (\<lambda>r. (co_stocktake r, co_product r)) cs)" unfolding cs_def by (rule distinct_map_filter [OF key])
  then have "distinct cs" "inj_on co_product (set cs)" unfolding cs_def by (auto simp: distinct_map inj_on_def)
  then have dist: "distinct (map co_product (map snd rows))"
    unfolding rows by (auto simp: distinct_map intro: inj_on_subset)
  show ?thesis
  proof (cases "w = st_warehouse t")
    case False
    then show ?thesis by (simp add: hand hand_settle_other)
  next
    case True
    show ?thesis
    proof (cases "find (\<lambda>r. co_stocktake r = st_id t \<and> co_product r = p) (counts c)")
      case None
      then have "p \<notin> co_product ` set (map snd rows)" unfolding rows by (auto simp: cs_def find_None_iff)
      with None True show ?thesis by (simp add: hand hand_settle_same)
    next
      case (Some r)
      then have r: "r \<in> set cs" "co_product r = p" by (auto simp: cs_def dest: find_SomeD)
      show ?thesis
      proof (cases "differs r")
        case True
        then have "r \<in> set (map snd rows)" unfolding rows using r by simp
        from hand_settle_row [OF dist this True] Some r \<open>w = _\<close> show ?thesis by (simp add: hand)
      next
        case False
        have "p \<notin> co_product ` set (map snd rows)"
        proof
          assume "p \<in> co_product ` set (map snd rows)"
          then obtain y where "y \<in> set cs" "differs y" "co_product y = p" unfolding rows by auto
          with inj_onD [OF \<open>inj_on co_product (set cs)\<close>, of r y] r False show False by auto
        qed
        moreover have "co_expected r = hand c w p" using ok_expected [OF ok] t r True by (auto simp: expected_ok_def cs_def)
        ultimately show ?thesis using Some True False by (simp add: hand hand_settle_same)
      qed
    qed
  qed
qed

lemma quiet_hand: "tx_within quiet m \<Longrightarrow> m s = Inr (v, s') \<Longrightarrow> on_hand s' = on_hand s \<and> stocktakes s' = stocktakes s"
  by (auto dest!: tx_withinD simp: quiet_alt)

lemma completed_run:
  assumes "completeStocktake_body key a t s = Inr (v, s')"
  obtains x s1 where "x \<in> set (stocktakes s)" "st_id x = t" "st_status x = StocktakeOpen"
    "\<forall>((w, p), b) \<in> set (stock_balances s). w = st_warehouse x \<longrightarrow> find_count s t p \<noteq> None"
    "settled (st_warehouse x) (map fst (completion_rows s t (st_warehouse x))) (stock_of s) (fresh_id s) s1" "on_hand s' = on_hand s1"
    "stocktakes s' = update_where (\<lambda>x. st_id x = t) (\<lambda>x. x\<lparr>st_status := StocktakeCompleted\<rparr>) (stocktakes s1)"
proof -
  from assms obtain x s1 s2 where x: "find (\<lambda>x. st_id x = t) (stocktakes s) = Some x" "st_status x = StocktakeOpen"
    and counted: "\<not> list_ex (\<lambda>((w', p), _). w' = st_warehouse x \<and> find_count s t p = None) (stock_balances s)"
    and loop: "tx_for (complete_count t (st_warehouse x) a) (completion_rows s t (st_warehouse x)) s = Inr ((), s1)"
    and rest: "tx_bind (sideEffects (js ''stocktake'') t (js ''inventory.stocktake.completed'') a key)
       (\<lambda>_. tx_for (\<lambda>(c, _, _). reconcileLowStockAlert (st_warehouse x) (co_product c)) (completion_rows s t (st_warehouse x)))
         (s1\<lparr>stocktakes := update_where (\<lambda>x. st_id x = t) (\<lambda>x. x\<lparr>st_status := StocktakeCompleted\<rparr>) (stocktakes s1)\<rparr>) = Inr ((), s')"
    unfolding completeStocktake_body_def Let_def require_open_stocktake_def
    by (simp add: tx_simps del: js_Cons) blast
  have "tx_within quiet (tx_bind (sideEffects (js ''stocktake'') t (js ''inventory.stocktake.completed'') a key)
       (\<lambda>_. tx_for (\<lambda>(c, _, _). reconcileLowStockAlert (st_warehouse x) (co_product c)) (completion_rows s t (st_warehouse x))))"
    by (intro quiet_base quiet_simple)
  from quiet_hand [OF this rest] tx_specD [OF complete_counts at_self loop] find_SomeD [OF x(1)] x(2) counted show thesis
    by (intro that [of x s1]) (auto simp: on_hand_def [abs_def] list_ex_iff)
qed


section \<open>A warehouse at work\<close>

definition demo_env :: inv_env where
  "demo_env = \<lparr>env_tbl = (\<lambda>c. [c]), env_upper = toUpperCase (\<lambda>c. [c]), env_round_div = (\<lambda>a b. (2 * a + b) div (2 * b))\<rparr>"

definition demo_warehouse :: "uuid \<Rightarrow> WarehouseRow" where
  "demo_warehouse i = \<lparr>wh_id = i, wh_code = nat_digits i, wh_name = nat_digits i, wh_type = Standard, wh_location = None,
     wh_operator = None, wh_active = True, wh_version = 1\<rparr>"

text \<open>Two warehouses, a product without tracking, an order that may reserve stock, and nothing else.\<close>

definition demo_db :: inv_db where
  "demo_db = \<lparr>fresh_id = 100, warehouses = [demo_warehouse 1, demo_warehouse 2],
     catalogue = (\<lambda>p. if p = 7 then Some \<lparr>cat_active = True, cat_product = \<lparr>tracking_mode = TrackNone, requires_expiry = False\<rparr>\<rparr> else None),
     partnerHasRole = (\<lambda>_ _. False), activeTechnician = (\<lambda>_. False), activeAccount = (\<lambda>_. False), activeLocation = (\<lambda>_. False),
     activeOperator = (\<lambda>_ _. False), reservationSources = (\<lambda>_ r. Some (r, js ''ORDER'')), stock_balances = [], stock_movements = [],
     batches = [], batch_balances = [], serialized_items = [], stock_reservations = [], reservation_serials = [], stock_returns = [],
     serial_return_events = [], serial_transfer_events = [], stocktakes = [], stocktake_counts = [], stocktake_serial_counts = [],
     stocktake_batch_counts = [], stock_settings = [], alert_subscriptions = [], low_stock_state = [], outbox_events = [],
     audit_events = []\<rparr>"

text \<open>The hash of the demonstration tells the constructors apart and, among receipts, the quantities.\<close>

definition demo_hash :: "inv_command \<Rightarrow> jsstr" where
  "demo_hash c = (case c of Receive r \<Rightarrow> re_quantity r | _ \<Rightarrow> [])"

definition demo_key :: "nat \<Rightarrow> jsstr" where
  "demo_key i = js ''request-'' @ [48 + i]"

fun demo_run :: "nat \<Rightarrow> inv_command list \<Rightarrow> inv_state \<Rightarrow> inv_state" where
  "demo_run i [] s = s"
| "demo_run i (c # cs) s = demo_run (Suc i) cs (snd (handleRequest demo_env demo_hash 3 (Some (demo_key i)) c s))"

definition demo_receive :: "uuid \<Rightarrow> string \<Rightarrow> inv_command" where
  "demo_receive w q = Receive \<lparr>re_batchNumber = None, re_expiresAt = None, re_productId = 7, re_quantity = js q, re_referenceId = js ''GR-1'',
     re_serialNumbers = None, re_supplierPartnerId = None, re_unitCostEur = Some (js ''2.5''), re_warehouseId = w\<rparr>"

definition demo_reserve :: inv_command where
  "demo_reserve = Reserve \<lparr>rv_productId = 7, rv_quantity = js ''2'', rv_referenceId = js ''SO-1'', rv_referenceType = Sales_order,
     rv_serialNumbers = None, rv_warehouseId = 1\<rparr>"

definition demo_issue :: inv_command where
  "demo_issue = IssueStock \<lparr>iss_batchNumber = None, iss_customerPartnerId = None, iss_productId = 7, iss_quantity = js ''1.5'',
     iss_reason = Sale, iss_referenceId = js ''INV-1'', iss_reservationId = None, iss_serialNumbers = None,
     iss_technicianAccountId = None, iss_warehouseId = 1\<rparr>"

definition demo_return :: inv_command where
  "demo_return = ReturnStock \<lparr>ret_destinationWarehouseId = 2, ret_disposition = Restock, ret_originalIssueId = 104, ret_quantity = js ''0.5'',
     ret_referenceId = js ''CN-1'', ret_serialNumbers = None\<rparr>"

definition demo_count :: inv_command where
  "demo_count = RecordCount 106 \<lparr>cnt_batches = None, cnt_countedQuantity = js ''3'', cnt_productId = 7, cnt_serialNumbers = None\<rparr>"

definition demo_requests :: "inv_command list" where
  "demo_requests = [demo_receive 1 ''5'', demo_reserve, demo_issue, OpenStocktake 1 (js ''COUNT''), demo_count, CompleteStocktake 106, demo_return]"

definition demo_s :: "nat \<Rightarrow> inv_state" where
  "demo_s n = demo_run 0 (take n demo_requests) ([], demo_db)"

lemma demo_run_append: "demo_run i (xs @ ys) s = demo_run (i + length xs) ys (demo_run i xs s)"
  by (induction xs arbitrary: i s) simp_all

lemma demo_s_Suc:
  assumes "n < 7"
  shows "demo_s (Suc n) = snd (handleRequest demo_env demo_hash 3 (Some (demo_key n)) (demo_requests ! n) (demo_s n))"
  using assms by (simp add: demo_s_def take_Suc_conv_app_nth demo_run_append demo_requests_def [THEN arg_cong [where f = length]])

lemma demo_reachable: "inv_reachable demo_env demo_hash demo_db (demo_s n)"
proof -
  have "inv_reachable demo_env demo_hash demo_db s \<Longrightarrow> inv_reachable demo_env demo_hash demo_db (demo_run i cs s)" for i cs s
    by (induction cs arbitrary: i s) (simp, metis demo_run.simps(2) inv_reachable.request prod.collapse)
  then show ?thesis unfolding demo_s_def using inv_reachable.start .
qed

lemma demo_later: "later demo_env demo_hash s (demo_run i cs s)"
proof -
  have "later demo_env demo_hash s0 s \<Longrightarrow> later demo_env demo_hash s0 (demo_run i cs s)" for s0 s
    by (induction cs arbitrary: i s) (simp, metis demo_run.simps(2) later.more prod.collapse)
  then show ?thesis using later.now .
qed

lemma demo_empty: "empty_stock demo_db"
  by (simp add: empty_stock_def demo_db_def)

theorem handleRequest_refines_stock_machine_witness:
  "stock_step (stock_of (snd (demo_s 2))) (stock_of (snd (demo_s 3)))"
proof -
  have "case fst (handleRequest demo_env demo_hash 3 (Some (demo_key 2)) demo_issue (demo_s 2)) of Inl e \<Rightarrow> False | Inr r \<Rightarrow>
      list_all (\<lambda>(k, row). ik_response row \<noteq> Some r) (fst (demo_s 2))" by code_simp
  moreover have "demo_s 3 = snd (handleRequest demo_env demo_hash 3 (Some (demo_key 2)) demo_issue (demo_s 2))"
    using demo_s_Suc [of 2] by (simp add: demo_requests_def numeral_eq_Suc)
  ultimately show ?thesis
    using handleRequest_refines_stock_machine [OF demo_reachable [of 2] demo_empty prod.collapse [symmetric],
      where account = 3 and key = "Some (demo_key 2)" and c = demo_issue]
    by (auto simp: ran_def list_all_iff split: sum.splits dest: map_of_SomeD)
qed




theorem answered_request_is_replayed_witness:
  "handleRequest demo_env demo_hash 5 (Some (demo_key 0)) (demo_receive 1 ''6'') (demo_s 3) =
   (Inl (Api ''IDEMPOTENCY_KEY_CONFLICT''), demo_s 3)"
proof -
  define first where "first = handleRequest demo_env demo_hash 3 (Some (demo_key 0)) (demo_receive 1 ''5'') ([], demo_db)"
  have "\<not> isl (fst first)" unfolding first_def by code_simp
  then obtain r where r: "handleRequest demo_env demo_hash 3 (Some (demo_key 0)) (demo_receive 1 ''5'') ([], demo_db) = (Inr r, snd first)"
    by (metis first_def sum.collapse(2) prod.collapse)
  have later: "later demo_env demo_hash (snd first) (demo_s 3)"
    using demo_later [of "snd first" 1 "[demo_reserve, demo_issue]"]
    by (simp add: demo_s_def demo_requests_def first_def numeral_eq_Suc)
  obtain n where n: "normalize (env_tbl demo_env) (demo_receive 1 ''5'') = Inr n" "scope_of n = ''stock-receipt.create''" "demo_hash n = js ''5.0000''"
  proof -
    have "case normalize (env_tbl demo_env) (demo_receive 1 ''5'') of Inl e \<Rightarrow> False | Inr n \<Rightarrow> scope_of n = ''stock-receipt.create'' \<and> demo_hash n = js ''5.0000''"
      by code_simp
    then show thesis using that by (auto split: sum.splits)
  qed
  obtain n' where n': "normalize (env_tbl demo_env) (demo_receive 1 ''6'') = Inr n'" "scope_of n' = ''stock-receipt.create''" "demo_hash n' = js ''6.0000''"
  proof -
    have "case normalize (env_tbl demo_env) (demo_receive 1 ''6'') of Inl e \<Rightarrow> False | Inr n \<Rightarrow> scope_of n = ''stock-receipt.create'' \<and> demo_hash n = js ''6.0000''"
      by code_simp
    then show thesis using that by (auto split: sum.splits)
  qed
  have "dto_valid (demo_receive 1 ''6'')" by code_simp
  from answered_request_is_replayed [OF r later this n(1) n'(1), of 5] n(2,3) n'(2,3) show ?thesis by simp
qed

theorem active_reservation_can_be_released_witness:
  "\<exists>v s'. handleRequest demo_env demo_hash 3 (Some (demo_key 9)) (ReleaseReservation 102) (demo_s 2) = (Inr v, s') \<and>
     reserved (snd s') 1 7 = 0"
proof -
  have "list_ex (\<lambda>r. rs_id r = 102 \<and> rs_status r = Active \<and> rs_remaining r = 20000 \<and> rs_warehouse r = 1 \<and> rs_product r = 7)
      (stock_reservations (snd (demo_s 2)))" by code_simp
  then obtain r where r: "r \<in> set (stock_reservations (snd (demo_s 2)))" "rs_status r = Active" "rs_id r = 102" "rs_remaining r = 20000"
      "rs_warehouse r = 1" "rs_product r = 7" by (auto simp: list_ex_iff)
  have key: "validKey (Some (demo_key 9)) = Inr (demo_key 9)" by code_simp
  have new: "map_of (fst (demo_s 2)) (''stock-reservation.release'', demo_key 9) = None" by code_simp
  have quiet: "\<not> list_ex (\<lambda>x. ob_key x = SideEffectKey (js ''inventory.stock.reservation_released'') (demo_key 9)) (outbox_events (snd (demo_s 2)))"
    by code_simp
  have held: "reserved (snd (demo_s 2)) 1 7 = 20000" by code_simp
  have reach: "inv_reachable demo_env demo_hash demo_db (fst (demo_s 2), snd (demo_s 2))" using demo_reachable [of 2] by simp
  from active_reservation_can_be_released [OF reach demo_empty r(1,2) key new quiet, of 3] held r(3-6) show ?thesis by auto
qed



end
