(* ===== verification/PosMoney.thy ===== *)
theory PosMoney
  imports InventoryRequests
begin

text \<open>
  The arithmetic of \<open>apps/api/src/pos/pos.service.ts\<close>: amounts and quantities as texts with four
  decimal places, worked on as \<open>bigint\<close> numbers of ten-thousandths, and the distribution of a
  discount over lines. \<open>bigint\<close> division truncates (\<open>sdiv\<close>). The lemmas show that \<open>units\<close>
  reads back what \<open>fixed\<close> printed, what each rounding step can lose, and that a distributed
  discount is complete.
\<close>

section \<open>Texts and units\<close>

text \<open>\<open>BigInt(text)\<close> on an optional minus sign and digits; the empty text is zero.\<close>

definition BigInt :: "jsstr \<Rightarrow> int" where
  "BigInt t = (case t of [] \<Rightarrow> 0 | c # ds \<Rightarrow> if c = 45 then - int (digits_val ds) else int (digits_val t))"

definition units :: "jsstr \<Rightarrow> int" where
  "units value = (case split_on 46 value of
       [] \<Rightarrow> 0
     | whole # rest \<Rightarrow> BigInt (whole @ take 4 (padEnd 4 48 (case rest of [] \<Rightarrow> [] | fraction # _ \<Rightarrow> fraction))))"

definition fixed :: "int \<Rightarrow> jsstr" where
  "fixed value = (let sign = (if value < 0 then [45] else []);
       absolute = (if value < 0 then - value else value);
       t = padStart 5 48 (bigint_toString absolute)
     in sign @ slice t 0 (- 4) @ [46] @ slice_from t (- 4))"

text \<open>\<open>decimal(value, positive)\<close>: the normal form of a decimal in a request.\<close>

definition decimal :: "jsstr \<Rightarrow> bool \<Rightarrow> inv_error + jsstr" where
  "decimal value positive =
     (if \<not> dto_decimal value then Inl (Api ''POS_DECIMAL_INVALID'')
      else let normalized = normalizeQuantity value in
        if positive \<and> units normalized \<le> 0 then Inl (Api ''POS_QUANTITY_INVALID'')
        else Inr normalized)"

definition isWhole :: "jsstr \<Rightarrow> bool" where
  "isWhole value \<longleftrightarrow> (let whole = takeWhile is_digit value in
     whole \<noteq> [] \<and> dropWhile is_digit value = js ''.0000'')"

definition add :: "jsstr \<Rightarrow> jsstr \<Rightarrow> jsstr" where
  "add left right = fixed (units left + units right)"

definition subtract :: "jsstr \<Rightarrow> jsstr \<Rightarrow> jsstr" where
  "subtract left right = fixed (units left - units right)"

definition sum_texts_of :: "jsstr list \<Rightarrow> jsstr" where
  "sum_texts_of values = fixed (foldl (\<lambda>total value. total + units value) 0 values)"

definition multiply :: "jsstr \<Rightarrow> jsstr \<Rightarrow> jsstr" where
  "multiply left right = fixed ((units left * units right + 5000) sdiv 10000)"

definition vat_rate :: "PosVatTreatment \<Rightarrow> int" where
  "vat_rate treatment = (if treatment = Reduced9 then 9 else if treatment = Standard20 \<or> treatment = Ica then 20 else 0)"

definition vat :: "jsstr \<Rightarrow> PosVatTreatment \<Rightarrow> jsstr" where
  "vat net treatment = fixed ((units net * vat_rate treatment + 50) sdiv 100)"

record line_totals =
  t_gross :: jsstr
  t_net :: jsstr
  t_vat :: jsstr

definition calculatePosLineTotals :: "jsstr \<Rightarrow> jsstr \<Rightarrow> PosVatTreatment \<Rightarrow> line_totals" where
  "calculatePosLineTotals quantity unitPrice treatment =
     (let net = multiply quantity unitPrice; v = vat net treatment
      in \<lparr>t_gross = add net v, t_net = net, t_vat = v\<rparr>)"

text \<open>The sold line of a return with what was returned of it before.\<close>

record returned_line =
  rl_net_total :: jsstr
  rl_quantity :: jsstr
  rl_returned_net_total :: jsstr
  rl_returned_quantity :: jsstr
  rl_returned_vat_total :: jsstr
  rl_vat_total :: jsstr

definition calculateReturnLineTotals :: "returned_line \<Rightarrow> jsstr \<Rightarrow> line_totals" where
  "calculateReturnLineTotals line quantity =
     (if units (rl_returned_quantity line) + units quantity = units (rl_quantity line)
      then let net = subtract (rl_net_total line) (rl_returned_net_total line);
               v = subtract (rl_vat_total line) (rl_returned_vat_total line)
           in \<lparr>t_gross = add net v, t_net = net, t_vat = v\<rparr>
      else let net = fixed ((units (rl_net_total line) * units quantity) sdiv units (rl_quantity line));
               v = fixed ((units (rl_vat_total line) * units quantity) sdiv units (rl_quantity line))
           in \<lparr>t_gross = add net v, t_net = net, t_vat = v\<rparr>)"

text \<open>An amount in whole cents, as the fiscal printer takes it.\<close>

definition fiscalMinorUnitAmount :: "jsstr \<Rightarrow> inv_error + jsstr" where
  "fiscalMinorUnitAmount value = (let amount = units value in
     if amount < 0 \<or> amount smod 100 \<noteq> 0 then Inl (Api ''POS_FISCAL_MINOR_UNIT_REQUIRED'')
     else let cents = amount sdiv 100 in
       Inr (bigint_toString (cents sdiv 100) @ [46] @ padStart 2 48 (bigint_toString (cents smod 100))))"

text \<open>For the evaluation of examples: these wait for their argument to be known.\<close>

lemma arithmetic_code [code]:
  "add [] r = fixed (units [] + units r)" "add (c # cs) r = fixed (units (c # cs) + units r)"
  "subtract [] r = fixed (units [] - units r)" "subtract (c # cs) r = fixed (units (c # cs) - units r)"
  "multiply [] r = fixed ((units [] * units r + 5000) sdiv 10000)"
  "multiply (c # cs) r = fixed ((units (c # cs) * units r + 5000) sdiv 10000)"
  by (simp_all add: add_def subtract_def multiply_def)

lemma vat_code [code]:
  "vat [] t = fixed ((units [] * vat_rate t + 50) sdiv 100)"
  "vat (c # cs) t = fixed ((units (c # cs) * vat_rate t + 50) sdiv 100)"
  by (simp_all add: vat_def)

lemma sum_texts_of_code [code]:
  "sum_texts_of [] = fixed 0"
  "sum_texts_of (x # xs) = fixed (foldl (\<lambda>total value. total + units value) (units x) xs)"
  by (simp_all add: sum_texts_of_def)

section \<open>Discounts\<close>

datatype PosDiscountType = Percentage | Fixed_amount

definition validDiscountValue :: "jsstr \<Rightarrow> PosDiscountType \<Rightarrow> inv_error + jsstr" where
  "validDiscountValue value type = res_bind (decimal value True) (\<lambda>normalized.
     if type = Percentage \<and> units normalized > 1000000 then Inl (Api ''POS_DISCOUNT_PERCENTAGE_INVALID'')
     else Inr normalized)"

definition percentageOf :: "int \<Rightarrow> jsstr \<Rightarrow> int" where
  "percentageOf value percentage = (value * units percentage + 500000) sdiv 1000000"

text \<open>The loop of \<open>allocate\<close>: \<open>totalWeight\<close> is the weight of all lines, \<open>allocated\<close> the shares given so far.\<close>

fun shares :: "int \<Rightarrow> int \<Rightarrow> int \<Rightarrow> ('k \<times> int) list \<Rightarrow> ('k \<times> int) list" where
  "shares amount totalWeight allocated [] = []"
| "shares amount totalWeight allocated [(k, w)] = [(k, amount - allocated)]"
| "shares amount totalWeight allocated ((k, w) # x # xs) =
     (let share = (amount * w) sdiv totalWeight in (k, share) # shares amount totalWeight (allocated + share) (x # xs))"

definition allocate :: "int \<Rightarrow> ('k \<times> int) list \<Rightarrow> ('k \<times> int) list" where
  "allocate amount weights =
     (let eligible = filter (\<lambda>(_, w). 0 < w) weights; totalWeight = sum_list (map snd eligible) in
      if amount \<le> 0 \<or> totalWeight \<le> 0 then map (\<lambda>(k, _). (k, 0)) weights
      else shares amount totalWeight 0 eligible)"

section \<open>Reading back\<close>

lemma split_fixed: "\<forall>c \<in> set (a @ b). is_digit c \<Longrightarrow> split_on 46 (a @ 46 # b) = [a, b]"
  using digit_not_dot [of a] digit_not_dot [of b] by (simp add: split_on_append split_on_id)

lemma BigInt_digits: "\<forall>c \<in> set s. is_digit c \<Longrightarrow> BigInt s = int (digits_val s)"
  by (cases s) (auto simp: BigInt_def is_digit_def)

lemma fixed_parts:
  obtains a b where "fixed v = (if v < 0 then [45] else []) @ a @ 46 # b" "a \<noteq> []" "length b = 4"
    "\<forall>c \<in> set (a @ b). is_digit c" "digits_val (a @ b) = nat \<bar>v\<bar>"
proof -
  obtain a b where ab: "fromFixedDecimal (int (nat \<bar>v\<bar>)) = a @ 46 # b" "a \<noteq> []" "length b = 4"
      "\<forall>c \<in> set (a @ b). is_digit c" "digits_val (a @ b) = nat \<bar>v\<bar>"
    by (rule fromFixedDecimal_parts)
  moreover have "fixed v = (if v < 0 then [45] else []) @ fromFixedDecimal (int (nat \<bar>v\<bar>))"
    by (auto simp: fixed_def fromFixedDecimal_def Let_def)
  ultimately show thesis using that by metis
qed

lemma units_fixed [simp]: "units (fixed v) = v"
proof (cases "v < 0")
  case True
  obtain a b where "fixed v = (if v < 0 then [45] else []) @ a @ 46 # b" "length b = 4"
      "\<forall>c \<in> set (a @ b). is_digit c" "digits_val (a @ b) = nat \<bar>v\<bar>"
    by (rule fixed_parts)
  with True have ab: "fixed v = 45 # (a @ 46 # b)" "length b = 4"
      "\<forall>c \<in> set (a @ b). is_digit c" "digits_val (a @ b) = nat \<bar>v\<bar>" by simp_all
  have "split_on 46 (fixed v) = [45 # a, b]"
    using digit_not_dot [of a] digit_not_dot [of b] ab(3)
    by (simp add: ab(1) split_on_append [of 46 "45 # a" b, simplified] split_on_id)
  with ab True show ?thesis by (simp add: units_def padEnd_def BigInt_def)
next
  case False
  obtain a b where "fixed v = (if v < 0 then [45] else []) @ a @ 46 # b" "length b = 4"
      "\<forall>c \<in> set (a @ b). is_digit c" "digits_val (a @ b) = nat \<bar>v\<bar>"
    by (rule fixed_parts)
  with False have ab: "fixed v = a @ 46 # b" "length b = 4"
      "\<forall>c \<in> set (a @ b). is_digit c" "digits_val (a @ b) = nat \<bar>v\<bar>" by simp_all
  with False show ?thesis by (simp add: units_def split_fixed padEnd_def BigInt_digits)
qed

lemma units_arith [simp]:
  "units (add l r) = units l + units r" "units (subtract l r) = units l - units r"
  "units (multiply l r) = (units l * units r + 5000) sdiv 10000"
  "units (vat l tr) = (units l * vat_rate tr + 50) sdiv 100"
  "units (sum_texts_of ts) = (\<Sum>t\<leftarrow>ts. units t)"
proof -
  have "foldl (\<lambda>total value. total + units value) z ts = z + (\<Sum>t\<leftarrow>ts. units t)" for z
    by (induction ts arbitrary: z) auto
  then show "units (sum_texts_of ts) = (\<Sum>t\<leftarrow>ts. units t)" by (simp add: sum_texts_of_def)
qed (simp_all add: add_def subtract_def multiply_def vat_def)

lemma dto_decimal_parts:
  assumes "dto_decimal v"
  obtains a b where "normalizeQuantity v = a @ 46 # b" "a \<noteq> []" "length b = 4" "\<forall>c \<in> set (a @ b). is_digit c"
proof -
  define a where "a = takeWhile is_digit v"
  have v: "v = a @ dropWhile is_digit v" by (simp add: a_def)
  have a: "\<forall>c \<in> set a. is_digit c" "a \<noteq> []"
    using assms by (auto simp: a_def dto_decimal_def Let_def dest: set_takeWhileD)
  show thesis
  proof (cases "dropWhile is_digit v")
    case Nil
    have "v = a" using v unfolding Nil by simp
    moreover have "split_on 46 a = [a]" using digit_not_dot [OF a(1)] by (rule split_on_id)
    ultimately have "normalizeQuantity v = a @ 46 # replicate 4 48" by (simp add: normalizeQuantity_def padEnd_def)
    moreover have "\<forall>c \<in> set (replicate 4 48). is_digit c" by (simp add: is_digit_def)
    ultimately show thesis using that a by simp
  next
    case (Cons c ds)
    with assms have ds: "c = 46" "length ds \<le> 4" "\<forall>c \<in> set ds. is_digit c"
      by (auto simp: dto_decimal_def Let_def list_all_iff)
    have "split_on 46 v = [a, ds]" using split_fixed [of a ds] a(1) ds(1,3) v Cons by auto
    then have "normalizeQuantity v = a @ 46 # (ds @ replicate (4 - length ds) 48)"
      by (simp add: normalizeQuantity_def padEnd_def)
    moreover have "\<forall>c \<in> set (ds @ replicate (4 - length ds) 48). is_digit c" using ds(3) by (auto simp: is_digit_def)
    ultimately show thesis using that [of a "ds @ replicate (4 - length ds) 48"] a ds(2) by auto
  qed
qed

lemma decimal_Inr:
  assumes "decimal v pos = Inr n"
  shows "0 \<le> units n" and "pos \<Longrightarrow> 0 < units n"
proof -
  from assms have v: "dto_decimal v" "n = normalizeQuantity v" "pos \<Longrightarrow> 0 < units n"
    by (auto simp: decimal_def Let_def split: if_splits)
  obtain a b where ab: "n = a @ 46 # b" "length b = 4" "\<forall>c \<in> set (a @ b). is_digit c"
    using dto_decimal_parts [OF v(1)] v(2) by metis
  then have "units n = int (digits_val (a @ b))" by (simp add: units_def split_fixed padEnd_def BigInt_digits)
  then show "0 \<le> units n" by simp
qed (use assms in \<open>auto simp: decimal_def Let_def split: if_splits\<close>)

section \<open>Rounding\<close>

lemma half_up: fixes x d :: int assumes "0 \<le> x" and "0 < d"
  shows "2 * \<bar>d * ((x + d div 2) div d) - x\<bar> \<le> d"
proof -
  define q where "q = (x + d div 2) div d"
  have "d * q \<le> x + d div 2" "x + d div 2 < d * q + d"
    using assms(2) pos_mod_sign [of d "x + d div 2"] pos_mod_bound [of d "x + d div 2"]
      mult_div_mod_eq [of d "x + d div 2"] by (simp_all add: q_def, linarith+)
  moreover have "2 * (d div 2) \<le> d" "d \<le> 2 * (d div 2) + 1" by presburger+
  moreover define y where "y = d * q"
  ultimately show ?thesis unfolding q_def [symmetric] y_def [symmetric] by presburger
qed

lemma multiply_rounds:
  assumes "0 \<le> units l" and "0 \<le> units r"
  shows "2 * \<bar>10000 * units (multiply l r) - units l * units r\<bar> \<le> 10000" and "0 \<le> units (multiply l r)"
  using half_up [of "units l * units r" 10000] assms
  by (simp_all add: sdiv_nonneg pos_imp_zdiv_nonneg_iff)

lemma vat_rate_range: "0 \<le> vat_rate tr" "vat_rate tr \<le> 20"
  by (auto simp: vat_rate_def)

lemma vat_rounds:
  assumes "0 \<le> units net"
  shows "2 * \<bar>100 * units (vat net tr) - units net * vat_rate tr\<bar> \<le> 100" and "0 \<le> units (vat net tr)"
  using half_up [of "units net * vat_rate tr" 100] assms vat_rate_range [of tr]
  by (simp_all add: sdiv_nonneg pos_imp_zdiv_nonneg_iff)

lemma percentage_range:
  assumes "0 \<le> value" and "0 \<le> units p" and "units p \<le> 1000000"
  shows "0 \<le> percentageOf value p \<and> percentageOf value p \<le> value"
proof -
  have "value * units p \<le> value * 1000000" using assms by (intro mult_left_mono) auto
  then have "(value * units p + 500000) div 1000000 \<le> (value * 1000000 + 500000) div 1000000"
    by (intro zdiv_mono1) auto
  also have "\<dots> = value" by simp
  finally show ?thesis using assms by (simp add: percentageOf_def sdiv_nonneg pos_imp_zdiv_nonneg_iff)
qed

section \<open>Distribution\<close>

lemma shares_keys: "map fst (shares a tw al ws) = map fst ws"
  by (induction a tw al ws rule: shares.induct) (auto simp: Let_def)

lemma shares_sum: "ws \<noteq> [] \<Longrightarrow> sum_list (map snd (shares a tw al ws)) = a - al"
  by (induction a tw al ws rule: shares.induct) (auto simp: Let_def)

text \<open>
  \<open>k\<close> shares of weight \<open>b\<close> were given before, each rounded down. A share is at most its weight,
  but for the last one, which also gets what the rounding left over.
\<close>

lemma shares_bounds:
  assumes "\<forall>x \<in> set ws. 0 < snd x" and "0 < tw" and "0 \<le> a" and "a \<le> tw"
    and "tw * al \<le> a * b" and "a * b \<le> tw * al + int k * (tw - 1)" and "b + sum_list (map snd ws) = tw"
  shows "list_all2 (\<lambda>x w. 0 \<le> snd x \<and> snd x \<le> snd w + int (k + length ws - 2)) (shares a tw al ws) ws"
  using assms
proof (induction a tw al ws arbitrary: b k rule: shares.induct)
  case (2 a tw al key w)
  have b: "b = tw - w" using "2.prems"(7) by simp
  have "a * b \<le> a * tw" using "2.prems" b by (intro mult_left_mono) auto
  then have "tw * al \<le> tw * a" using "2.prems"(5) by (simp add: mult.commute)
  then have low: "al \<le> a" using "2.prems"(2) by simp
  have "a * w \<le> tw * w" using "2.prems"(1,4) by (intro mult_right_mono) auto
  with "2.prems"(6) have "tw * (a - al) \<le> tw * w + int k * (tw - 1)"
    unfolding b by (simp add: algebra_simps)
  then have "tw * (a - al - w) \<le> int k * (tw - 1)" by (simp add: algebra_simps)
  also have "\<dots> \<le> int k * tw" by (intro mult_left_mono) auto
  finally have up: "a - al - w \<le> int k" using "2.prems"(2) by (simp add: mult.commute)
  have "a - al - w \<le> int (k - 1)"
  proof (cases k)
    case 0
    with up show ?thesis by simp
  next
    case (Suc j)
    have "a - al - w \<noteq> int k"
    proof
      assume "a - al - w = int k"
      with \<open>tw * (a - al - w) \<le> int k * (tw - 1)\<close> have "int k \<le> 0" by (simp add: algebra_simps)
      with Suc show False by simp
    qed
    with up Suc show ?thesis by simp
  qed
  with low show ?case by simp
next
  case (3 a tw al key w x xs)
  let ?s = "a * w div tw"
  have s: "a * w sdiv tw = ?s" using "3.prems"(1,2,3) by (intro sdiv_nonneg) auto
  have low: "tw * ?s \<le> a * w" and high: "a * w \<le> tw * ?s + (tw - 1)"
    using "3.prems"(2) pos_mod_sign [of tw "a * w"] pos_mod_bound [of tw "a * w"] mult_div_mod_eq [of tw "a * w"]
    by linarith+
  have "0 \<le> ?s" using "3.prems"(1,2,3) by (simp add: pos_imp_zdiv_nonneg_iff)
  have "a * w \<le> tw * w" using "3.prems"(1,4) by (intro mult_right_mono) auto
  with low have "tw * ?s \<le> tw * w" by linarith
  then have "?s \<le> w" using "3.prems"(2) by simp
  have "tw * (al + ?s) \<le> a * (b + w)" using low "3.prems"(5) by (simp add: algebra_simps)
  moreover have "a * (b + w) \<le> tw * (al + ?s) + int (Suc k) * (tw - 1)"
    using high "3.prems"(6) by (simp add: algebra_simps)
  ultimately have "list_all2 (\<lambda>y v. 0 \<le> snd y \<and> snd y \<le> snd v + int (Suc k + length (x # xs) - 2))
      (shares a tw (al + ?s) (x # xs)) (x # xs)"
    using "3.IH" [OF refl, of "b + w" "Suc k"] "3.prems" by (simp add: s)
  then show ?case using \<open>0 \<le> ?s\<close> \<open>?s \<le> w\<close> by (simp add: Let_def s)
qed simp

lemma eligible_positive: "0 < sum_list (map snd (filter (\<lambda>(_, w). 0 < w) ws)) \<Longrightarrow> filter (\<lambda>(_, w). 0 < (w::int)) ws \<noteq> []"
  by auto

text \<open>A discount up to the weight of the lines is distributed completely, no share is negative.\<close>

lemma allocate_sum:
  assumes "0 \<le> a" and "a \<le> sum_list (map snd (filter (\<lambda>(_, w). 0 < w) ws))"
  shows "sum_list (map snd (allocate a ws)) = a"
proof (cases "a \<le> 0 \<or> sum_list (map snd (filter (\<lambda>(_, w). 0 < w) ws)) \<le> 0")
  case True
  then have "a = 0" using assms by linarith
  moreover have "sum_list (map snd (map (\<lambda>(k, _). (k, 0::int)) ws)) = 0" for ws :: "('a \<times> int) list"
    by (induction ws) auto
  ultimately show ?thesis by (simp add: allocate_def)
next
  case False
  then show ?thesis using eligible_positive [of ws] by (simp add: allocate_def Let_def shares_sum)
qed

lemma allocate_bounds:
  assumes "0 \<le> a" and "a \<le> sum_list (map snd (filter (\<lambda>(_, w). 0 < w) ws))" and "(k, v) \<in> set (allocate a ws)"
  shows "\<exists>w. (k, w) \<in> set ws \<and> 0 \<le> v \<and> v \<le> max w 0 + int (length ws - 2)"
proof (cases "a \<le> 0 \<or> sum_list (map snd (filter (\<lambda>(_, w). 0 < w) ws)) \<le> 0")
  case True
  with assms(3) show ?thesis by (force simp: allocate_def)
next
  case False
  define el where "el = filter (\<lambda>(_, w). 0 < w) ws"
  define sh where "sh = shares a (sum_list (map snd el)) 0 el"
  have al: "allocate a ws = sh" using False by (simp add: allocate_def el_def sh_def Let_def)
  have "list_all2 (\<lambda>x w. 0 \<le> snd x \<and> snd x \<le> snd w + int (0 + length el - 2)) sh el"
    unfolding sh_def by (rule shares_bounds [where b = 0]) (use assms(1,2) False in \<open>auto simp: el_def\<close>)
  moreover have "map fst sh = map fst el" unfolding sh_def by (rule shares_keys)
  moreover obtain i where i: "i < length sh" "sh ! i = (k, v)" using assms(3) al by (metis in_set_conv_nth)
  ultimately have "fst (el ! i) = k" "0 \<le> v" "v \<le> snd (el ! i) + int (length el - 2)" "i < length el"
    by (auto simp: list_all2_conv_all_nth dest: arg_cong [where f = "\<lambda>l. l ! i"])
  moreover have "length el \<le> length ws" unfolding el_def by simp
  moreover have "el ! i \<in> set ws" using nth_mem [OF \<open>i < length el\<close>] by (simp add: el_def)
  ultimately show ?thesis by (intro exI [of _ "snd (el ! i)"]) (cases "el ! i", auto)
qed

end
