(* ===== verification/PosPricing.thy ===== *)
theory PosPricing
  imports PosMoney
begin

text \<open>
  Baskets of \<open>apps/api/src/pos/pos.service.ts\<close>: their normal form (\<open>normalizeBasket\<close>), the price of
  every line with its automatic, manual and loyalty discounts (\<open>prepareBasketPricing\<close>), and the
  payments of a sale (\<open>normalizeSale\<close>, \<open>prepareSalePayments\<close>). What these functions read from the
  database are arguments here; \<open>PosTables\<close> fills them in. The lemmas show that a priced basket adds up
  line by line and in total, and that payments cover it exactly.
\<close>

section \<open>Requests\<close>

text \<open>A request and its normal form have the same fields.\<close>

record BasketLine =
  bl_batchId :: "uuid option"
  bl_productId :: uuid
  bl_quantity :: jsstr
  bl_serialNumbers :: "jsstr list option"

record ManualDiscount =
  md_authorizationId :: "uuid option"
  md_discountType :: PosDiscountType
  md_discountValue :: jsstr

record Basket =
  bk_customerPartnerId :: "uuid option"
  bk_lines :: "BasketLine list"
  bk_loyaltyPointsToRedeem :: "int option"
  bk_manualDiscount :: "ManualDiscount option"
  bk_shiftId :: uuid

datatype payment_method = Cash | Card | OnAccount | Advance

record SalePayment =
  sp_advanceId :: "uuid option"
  sp_amount :: jsstr
  sp_method :: payment_method
  sp_tenderedAmount :: "jsstr option"

record SaleRequest = Basket +
  sq_clientTransactionId :: jsstr
  sq_customerLocationId :: "uuid option"
  sq_payments :: "SalePayment list"

definition serials :: "BasketLine \<Rightarrow> jsstr list" where
  "serials line = (case bl_serialNumbers line of None \<Rightarrow> [] | Some ns \<Rightarrow> ns)"

definition normalizeLine :: "BasketLine \<Rightarrow> inv_error + BasketLine" where
  "normalizeLine line = (let serialNumbers = new_Set (map trim (serials line)) in
     if [] \<in> set serialNumbers then Inl (Api ''POS_SERIAL_INVALID'')
     else res_bind (decimal (bl_quantity line) True) (\<lambda>quantity.
       Inr (line\<lparr>bl_quantity := quantity, bl_serialNumbers := Some serialNumbers\<rparr>)))"

definition normalizeDiscount :: "ManualDiscount option \<Rightarrow> inv_error + ManualDiscount option" where
  "normalizeDiscount discount = (case discount of None \<Rightarrow> Inr None
     | Some d \<Rightarrow> res_bind (validDiscountValue (md_discountValue d) (md_discountType d)) (\<lambda>v.
         Inr (Some (d\<lparr>md_discountValue := v\<rparr>))))"

definition normalizeBasket :: "'a Basket_scheme \<Rightarrow> inv_error + 'a Basket_scheme" where
  "normalizeBasket input =
     (if \<not> distinct (map bl_productId (bk_lines input)) then Inl (Api ''POS_BASKET_PRODUCT_DUPLICATE'')
      else res_bind (res_map normalizeLine (bk_lines input)) (\<lambda>ls.
        res_bind (normalizeDiscount (bk_manualDiscount input)) (\<lambda>discount.
        Inr (input\<lparr>bk_lines := ls, bk_manualDiscount := discount,
          bk_loyaltyPointsToRedeem := Some (case bk_loyaltyPointsToRedeem input of None \<Rightarrow> 0 | Some n \<Rightarrow> n)\<rparr>))))"

text \<open>An empty text is false in JavaScript, as a missing one.\<close>

definition truthy :: "jsstr option \<Rightarrow> jsstr option" where
  "truthy v = (if v = Some [] then None else v)"

definition normalizePayment :: "SalePayment \<Rightarrow> inv_error + SalePayment" where
  "normalizePayment payment =
     res_bind (decimal (sp_amount payment) True) (\<lambda>amount.
     res_bind (case truthy (sp_tenderedAmount payment) of None \<Rightarrow> Inr None
       | Some t \<Rightarrow> res_bind (decimal t False) (\<lambda>d. Inr (Some d))) (\<lambda>tendered.
     Inr (payment\<lparr>sp_amount := amount, sp_tenderedAmount := tendered\<rparr>)))"

definition normalizeSale :: "SaleRequest \<Rightarrow> inv_error + SaleRequest" where
  "normalizeSale input =
     res_bind (normalizeBasket input) (\<lambda>basket.
     if bk_customerPartnerId input = None \<and> sq_customerLocationId input \<noteq> None
     then Inl (Api ''POS_CUSTOMER_LOCATION_REQUIRED'')
     else res_bind (res_map normalizePayment (sq_payments input)) (\<lambda>payments.
       Inr (basket\<lparr>sq_payments := payments\<rparr>)))"

section \<open>Prices\<close>

record SaleProductRow =
  sp_category :: uuid
  sp_name :: jsstr
  sp_code :: jsstr
  sp_tracking :: ProductTrackingMode
  sp_unit_code :: jsstr
  sp_unit_price :: "jsstr option"
  sp_price_list :: "uuid option"
  sp_vat_treatment :: "PosVatTreatment option"
  sp_warranty_months :: "nat option"

datatype adjustment_source = Automatic | Loyalty | Manual

record PosPricingAdjustment =
  pa_amount :: jsstr
  pa_code :: jsstr
  pa_source :: adjustment_source

datatype rule_type = BundleRule | QuantityRule

record CommercialRuleRow =
  cr_code :: jsstr
  cr_discount_type :: PosDiscountType
  cr_discount_value :: jsstr
  cr_items :: "(uuid \<times> jsstr) list"
  cr_rule_type :: rule_type

text \<open>A line while its discounts are collected.\<close>

record PricingLine =
  pl_adjustments :: "PosPricingAdjustment list"
  pl_automatic :: int
  pl_base :: int
  pl_input :: BasketLine
  pl_loyalty :: int
  pl_manual :: int
  pl_product :: SaleProductRow

definition pl_key :: "PricingLine \<Rightarrow> uuid" where
  "pl_key l = bl_productId (pl_input l)"

definition required_price :: "SaleProductRow \<Rightarrow> jsstr" where
  "required_price product = (case sp_unit_price product of None \<Rightarrow> [] | Some p \<Rightarrow> p)"

definition required_vat :: "SaleProductRow \<Rightarrow> PosVatTreatment" where
  "required_vat product = (case sp_vat_treatment product of None \<Rightarrow> ZeroRate | Some v \<Rightarrow> v)"

definition pricing_line :: "(uuid \<Rightarrow> SaleProductRow option) \<Rightarrow> BasketLine \<Rightarrow> inv_error + PricingLine" where
  "pricing_line products line = (case products (bl_productId line) of
       None \<Rightarrow> Inl (InternalError ''POS pricing product lookup failed'')
     | Some product \<Rightarrow>
         if truthy (sp_unit_price product) = None then Inl (Api ''POS_PRICE_UNAVAILABLE'')
         else if sp_vat_treatment product = None then Inl (Api ''POS_VAT_UNCONFIGURED'')
         else Inr \<lparr>pl_adjustments = [], pl_automatic = 0,
           pl_base = units (multiply (bl_quantity line) (required_price product)), pl_input = line,
           pl_loyalty = 0, pl_manual = 0, pl_product = product\<rparr>)"

text \<open>\<open>prepared.find(\<dots>)\<close>; the products of a basket are distinct, so one line changes.\<close>

definition find_line :: "PricingLine list \<Rightarrow> uuid \<Rightarrow> PricingLine option" where
  "find_line prepared key = find (\<lambda>l. pl_key l = key) prepared"

definition add_adjustment :: "int \<Rightarrow> jsstr \<Rightarrow> adjustment_source \<Rightarrow> PricingLine \<Rightarrow> PricingLine" where
  "add_adjustment amount code source l =
     l\<lparr>pl_adjustments := pl_adjustments l @ [\<lparr>pa_amount = fixed amount, pa_code = code, pa_source = source\<rparr>]\<rparr>"

section \<open>Automatic discounts\<close>

fun item_sets :: "PricingLine list \<Rightarrow> uuid \<times> jsstr \<Rightarrow> int" where
  "item_sets prepared (p, q) = (case find_line prepared p of None \<Rightarrow> 0
     | Some l \<Rightarrow> units (bl_quantity (pl_input l)) sdiv units q)"

definition rule_sets :: "PricingLine list \<Rightarrow> CommercialRuleRow \<Rightarrow> int" where
  "rule_sets prepared rule = (case map (item_sets prepared) (cr_items rule) of [] \<Rightarrow> 0 | q # qs \<Rightarrow> foldl min q qs)"

fun item_weight :: "PricingLine list \<Rightarrow> int \<Rightarrow> uuid \<times> jsstr \<Rightarrow> inv_error + uuid \<times> int" where
  "item_weight prepared sets (p, q) = (case find_line prepared p of
       None \<Rightarrow> Inl (InternalError ''POS rule product lookup failed'')
     | Some l \<Rightarrow> Inr (p, units (multiply (fixed (units q * sets)) (required_price (pl_product l)))))"

definition rule_weights :: "PricingLine list \<Rightarrow> int \<Rightarrow> CommercialRuleRow \<Rightarrow> inv_error + (uuid \<times> int) list" where
  "rule_weights prepared sets rule = res_map (item_weight prepared sets) (cr_items rule)"

definition rule_discount :: "CommercialRuleRow \<Rightarrow> int \<Rightarrow> int \<Rightarrow> int" where
  "rule_discount rule sets qualifyingBase = (let requested =
       (if cr_discount_type rule = Percentage then percentageOf qualifyingBase (cr_discount_value rule)
        else units (cr_discount_value rule) * sets)
     in if requested > qualifyingBase then qualifyingBase else requested)"

definition give_automatic :: "jsstr \<Rightarrow> uuid \<times> int \<Rightarrow> PricingLine list \<Rightarrow> PricingLine list" where
  "give_automatic code = (\<lambda>(key, amount). update_where (\<lambda>l. pl_key l = key)
     (\<lambda>l. add_adjustment amount code Automatic (l\<lparr>pl_automatic := pl_automatic l + amount\<rparr>)))"

text \<open>One turn of the loop over the rules, which come in the order of their priority.\<close>

definition apply_rule :: "CommercialRuleRow \<Rightarrow> uuid list \<times> PricingLine list \<Rightarrow> inv_error + uuid list \<times> PricingLine list" where
  "apply_rule rule = (\<lambda>(claimed, prepared).
     if list_ex (\<lambda>(p, _). p \<in> set claimed) (cr_items rule) then Inr (claimed, prepared)
     else let sets = rule_sets prepared rule in
       if sets \<le> 0 \<or> cr_rule_type rule = QuantityRule \<and> length (cr_items rule) \<noteq> 1 \<or>
          cr_rule_type rule = BundleRule \<and> length (cr_items rule) < 2
       then Inr (claimed, prepared)
       else res_bind (rule_weights prepared sets rule) (\<lambda>weights.
         let discount = rule_discount rule sets (sum_list (map snd weights));
             allocations = allocate discount weights
         in Inr (claimed @ map fst allocations, fold (give_automatic (cr_code rule)) allocations prepared)))"

fun apply_rules :: "CommercialRuleRow list \<Rightarrow> uuid list \<times> PricingLine list \<Rightarrow> inv_error + uuid list \<times> PricingLine list" where
  "apply_rules [] st = Inr st"
| "apply_rules (rule # rules) st = res_bind (apply_rule rule st) (apply_rules rules)"

section \<open>Manual and loyalty discounts\<close>

definition give_manual :: "uuid \<times> int \<Rightarrow> PricingLine list \<Rightarrow> PricingLine list" where
  "give_manual = (\<lambda>(key, amount). update_where (\<lambda>l. pl_key l = key) (\<lambda>l.
     let l' = l\<lparr>pl_manual := pl_manual l + amount\<rparr> in
     if amount > 0 then add_adjustment amount (js ''MANUAL'') Manual l' else l'))"

definition apply_manual :: "ManualDiscount \<Rightarrow> PricingLine list \<Rightarrow> PricingLine list" where
  "apply_manual d prepared = (let remaining = map (\<lambda>l. (pl_key l, pl_base l - pl_automatic l)) prepared;
       available = sum_list (map snd remaining);
       requested = (if md_discountType d = Percentage then percentageOf available (md_discountValue d)
         else units (md_discountValue d));
       discount = (if requested > available then available else requested)
     in fold give_manual (allocate discount remaining) prepared)"

definition give_loyalty :: "uuid \<times> int \<Rightarrow> PricingLine list \<Rightarrow> PricingLine list" where
  "give_loyalty = (\<lambda>(key, amount). update_where (\<lambda>l. pl_key l = key) (\<lambda>l.
     let l' = l\<lparr>pl_loyalty := pl_loyalty l + amount\<rparr> in
     if amount > 0 then add_adjustment amount (js ''LOYALTY'') Loyalty l' else l'))"

text \<open>The points that are really redeemed, and the lines with their discount.\<close>

definition apply_loyalty :: "int \<Rightarrow> jsstr \<Rightarrow> PricingLine list \<Rightarrow> int \<times> PricingLine list" where
  "apply_loyalty points redemptionValueEur prepared =
     (let remaining = map (\<lambda>l. (pl_key l, pl_base l - pl_automatic l - pl_manual l)) prepared;
          available = sum_list (map snd remaining);
          pointValue = units redemptionValueEur;
          redeemed = min points (if pointValue > 0 then available sdiv pointValue else 0)
      in (redeemed, fold give_loyalty (allocate (pointValue * redeemed) remaining) prepared))"

section \<open>Totals\<close>

record PosBasketPricedLine =
  pr_automaticDiscountTotal :: jsstr
  pr_baseNetTotal :: jsstr
  pr_grossTotal :: jsstr
  pr_loyaltyDiscountTotal :: jsstr
  pr_manualDiscountTotal :: jsstr
  pr_netTotal :: jsstr
  pr_pricingAdjustments :: "PosPricingAdjustment list"
  pr_productId :: uuid
  pr_vatTotal :: jsstr

record PosBasketPricing =
  bp_automaticDiscountTotal :: jsstr
  bp_baseNetTotal :: jsstr
  bp_grossTotal :: jsstr
  bp_lines :: "PosBasketPricedLine list"
  bp_loyaltyBalance :: int
  bp_loyaltyDiscountTotal :: jsstr
  bp_loyaltyPointsRedeemed :: int
  bp_manualDiscountTotal :: jsstr
  bp_netTotal :: jsstr
  bp_vatTotal :: jsstr

definition pl_net :: "PricingLine \<Rightarrow> int" where
  "pl_net l = pl_base l - pl_automatic l - pl_manual l - pl_loyalty l"

definition priced_line :: "PricingLine \<Rightarrow> PosBasketPricedLine" where
  "priced_line l = (let net = pl_net l; vatTotal = vat (fixed net) (required_vat (pl_product l)) in
     \<lparr>pr_automaticDiscountTotal = fixed (pl_automatic l), pr_baseNetTotal = fixed (pl_base l),
      pr_grossTotal = add (fixed net) vatTotal, pr_loyaltyDiscountTotal = fixed (pl_loyalty l),
      pr_manualDiscountTotal = fixed (pl_manual l), pr_netTotal = fixed net,
      pr_pricingAdjustments = pl_adjustments l, pr_productId = pl_key l, pr_vatTotal = vatTotal\<rparr>)"

definition price_totals :: "PosBasketPricedLine list \<Rightarrow> int \<Rightarrow> int \<Rightarrow> PosBasketPricing" where
  "price_totals ls balance redeemed =
     \<lparr>bp_automaticDiscountTotal = sum_texts_of (map pr_automaticDiscountTotal ls),
      bp_baseNetTotal = sum_texts_of (map pr_baseNetTotal ls), bp_grossTotal = sum_texts_of (map pr_grossTotal ls),
      bp_lines = ls, bp_loyaltyBalance = balance,
      bp_loyaltyDiscountTotal = sum_texts_of (map pr_loyaltyDiscountTotal ls), bp_loyaltyPointsRedeemed = redeemed,
      bp_manualDiscountTotal = sum_texts_of (map pr_manualDiscountTotal ls),
      bp_netTotal = sum_texts_of (map pr_netTotal ls), bp_vatTotal = sum_texts_of (map pr_vatTotal ls)\<rparr>"

text \<open>
  \<open>prepareBasketPricing\<close> after its queries: \<open>products\<close> are the rows of the basket's products,
  \<open>rules\<close> the active rules whose products are all in the basket.
\<close>

definition price_lines :: "(uuid \<Rightarrow> SaleProductRow option) \<Rightarrow> CommercialRuleRow list \<Rightarrow> 'a Basket_scheme \<Rightarrow>
    inv_error + PricingLine list" where
  "price_lines products rules input =
     res_bind (res_map (pricing_line products) (bk_lines input)) (\<lambda>prepared.
     res_bind (apply_rules rules ([], prepared)) (\<lambda>(_, discounted).
     Inr (case bk_manualDiscount input of None \<Rightarrow> discounted | Some d \<Rightarrow> apply_manual d discounted)))"

text \<open>The rest of it: \<open>loyalty\<close> holds the points to redeem and the value of a point.\<close>

definition finish_pricing :: "PricingLine list \<Rightarrow> int \<Rightarrow> (int \<times> jsstr) option \<Rightarrow> PosBasketPricing" where
  "finish_pricing prepared balance points =
     (let (redeemed, ls) = (case points of None \<Rightarrow> (0, prepared) | Some (n, v) \<Rightarrow> apply_loyalty n v prepared)
      in price_totals (map priced_line ls) balance redeemed)"

section \<open>Payments\<close>

datatype PaymentTerminalMode = TerminalDisabled | TerminalHardware | TerminalSimulator

datatype payment_status = PaymentCompleted | PaymentSimulated

record account_terms =
  ac_id :: uuid
  ac_credit_limit_eur :: jsstr
  ac_due_on :: jsstr
  ac_outstanding_balance :: jsstr
  ac_payment_terms_days :: int

record PreparedSalePayment =
  pp_account :: "account_terms option"
  pp_adapter :: jsstr
  pp_advanceId :: "uuid option"
  pp_amount :: jsstr
  pp_changeAmount :: jsstr
  pp_method :: payment_method
  pp_providerReference :: "jsstr option"
  pp_status :: payment_status
  pp_tenderedAmount :: "jsstr option"

text \<open>
  What the payments of a sale are checked against: the owner and the available amount of an
  advance, the active terms of the customer, and what the card service answers.
\<close>

record payment_sources =
  ps_advance :: "uuid \<Rightarrow> (uuid \<times> jsstr) option"
  ps_terms :: "uuid \<Rightarrow> account_terms option"
  ps_authorize :: "jsstr \<Rightarrow> inv_error + (jsstr \<times> jsstr)"
  ps_terminal :: PaymentTerminalMode
  ps_production :: bool

definition no_payment :: PreparedSalePayment where
  "no_payment = \<lparr>pp_account = None, pp_adapter = [], pp_advanceId = None, pp_amount = [], pp_changeAmount = js ''0.0000'',
     pp_method = Cash, pp_providerReference = None, pp_status = PaymentCompleted, pp_tenderedAmount = None\<rparr>"

definition prepare_cash :: "SalePayment \<Rightarrow> inv_error + PreparedSalePayment" where
  "prepare_cash payment =
     (let tenderedAmount = (case sp_tenderedAmount payment of None \<Rightarrow> sp_amount payment | Some t \<Rightarrow> t) in
      if units tenderedAmount < units (sp_amount payment) then Inl (Api ''POS_CASH_TENDER_INSUFFICIENT'')
      else Inr (no_payment\<lparr>pp_adapter := js ''cash-drawer'', pp_amount := sp_amount payment,
        pp_changeAmount := subtract tenderedAmount (sp_amount payment), pp_tenderedAmount := Some tenderedAmount\<rparr>))"

definition prepare_advance :: "payment_sources \<Rightarrow> uuid option \<Rightarrow> SalePayment \<Rightarrow> inv_error + PreparedSalePayment" where
  "prepare_advance src customer payment = (case sp_advanceId payment of
       None \<Rightarrow> Inl (Api ''POS_ADVANCE_REQUIRED'')
     | Some advance \<Rightarrow>
         if truthy (sp_tenderedAmount payment) \<noteq> None then Inl (Api ''POS_ADVANCE_TENDER_NOT_ALLOWED'')
         else case ps_advance src advance of
           None \<Rightarrow> Inl (Api ''POS_ADVANCE_NOT_AVAILABLE'')
         | Some (owner, available) \<Rightarrow>
             if Some owner \<noteq> customer then Inl (Api ''POS_ADVANCE_NOT_AVAILABLE'')
             else if units available < units (sp_amount payment) then Inl (Api ''POS_ADVANCE_BALANCE_EXCEEDED'')
             else Inr (no_payment\<lparr>pp_adapter := js ''customer-advance'', pp_advanceId := Some advance,
               pp_amount := sp_amount payment, pp_method := Advance\<rparr>))"

definition prepare_on_account :: "payment_sources \<Rightarrow> uuid option \<Rightarrow> SalePayment \<Rightarrow> inv_error + PreparedSalePayment" where
  "prepare_on_account src customer payment =
     (if truthy (sp_tenderedAmount payment) \<noteq> None then Inl (Api ''POS_ACCOUNT_TENDER_NOT_ALLOWED'')
      else case Option.bind customer (ps_terms src) of
        None \<Rightarrow> Inl (Api ''POS_ACCOUNT_NOT_AVAILABLE'')
      | Some account \<Rightarrow>
          if units (ac_outstanding_balance account) + units (sp_amount payment) > units (ac_credit_limit_eur account)
          then Inl (Api ''POS_ACCOUNT_CREDIT_EXCEEDED'')
          else Inr (no_payment\<lparr>pp_account := Some account, pp_adapter := js ''customer-account'',
            pp_amount := sp_amount payment, pp_method := OnAccount\<rparr>))"

definition prepare_card :: "payment_sources \<Rightarrow> SalePayment \<Rightarrow> inv_error + PreparedSalePayment" where
  "prepare_card src payment =
     (if (case truthy (sp_tenderedAmount payment) of None \<Rightarrow> False | Some t \<Rightarrow> units t \<noteq> units (sp_amount payment))
      then Inl (Api ''POS_CARD_TENDER_INVALID'')
      else if ps_terminal src = TerminalDisabled then Inl (Api ''POS_PAYMENT_TERMINAL_NOT_ASSIGNED'')
      else if ps_terminal src = TerminalHardware then Inl (Api ''POS_PAYMENT_ADAPTER_UNAVAILABLE'')
      else if ps_production src then Inl (Api ''POS_PAYMENT_SIMULATOR_FORBIDDEN'')
      else res_bind (ps_authorize src (sp_amount payment)) (\<lambda>(adapter, reference).
        Inr (no_payment\<lparr>pp_adapter := adapter, pp_amount := sp_amount payment, pp_method := Card,
          pp_providerReference := Some reference, pp_status := PaymentSimulated\<rparr>)))"

definition prepare_payment :: "payment_sources \<Rightarrow> uuid option \<Rightarrow> SalePayment \<Rightarrow> inv_error + PreparedSalePayment" where
  "prepare_payment src customer payment =
     (if sp_method payment \<noteq> Advance \<and> sp_advanceId payment \<noteq> None then Inl (Api ''POS_ADVANCE_LINK_NOT_ALLOWED'')
      else case sp_method payment of
        Cash \<Rightarrow> prepare_cash payment
      | Advance \<Rightarrow> prepare_advance src customer payment
      | OnAccount \<Rightarrow> prepare_on_account src customer payment
      | Card \<Rightarrow> prepare_card src payment)"

definition prepareSalePayments :: "payment_sources \<Rightarrow> SalePayment list \<Rightarrow> jsstr \<Rightarrow> uuid option \<Rightarrow>
    inv_error + PreparedSalePayment list" where
  "prepareSalePayments src payments grossTotal customer =
     (if \<not> distinct (map sp_method payments) then Inl (Api ''POS_PAYMENT_METHOD_DUPLICATE'')
      else if units (sum_texts_of (map sp_amount payments)) \<noteq> units grossTotal then Inl (Api ''POS_PAYMENT_TOTAL_MISMATCH'')
      else if list_ex (\<lambda>p. sp_method p \<in> {Advance, OnAccount}) payments \<and> customer = None
      then Inl (Api ''POS_CUSTOMER_PAYMENT_REQUIRES_CUSTOMER'')
      else res_map (prepare_payment src customer) payments)"

section \<open>A priced basket adds up\<close>

definition line_discount :: "PricingLine \<Rightarrow> int" where
  "line_discount l = pl_automatic l + pl_manual l + pl_loyalty l"

definition adjusted :: "PricingLine \<Rightarrow> int" where
  "adjusted l = (\<Sum>a\<leftarrow>pl_adjustments l. units (pa_amount a))"

text \<open>What every stage keeps: the lines, their base amounts, and that the adjustments explain the discounts.\<close>

definition line_ok :: "PricingLine \<Rightarrow> bool" where
  "line_ok l \<longleftrightarrow> pl_base l = units (multiply (bl_quantity (pl_input l)) (required_price (pl_product l))) \<and>
     adjusted l = line_discount l"

definition frame_of :: "PricingLine list \<Rightarrow> (BasketLine \<times> SaleProductRow) list" where
  "frame_of prepared = map (\<lambda>l. (pl_input l, pl_product l)) prepared"

lemma frame_update: "(\<And>l. pl_input (f l) = pl_input l \<and> pl_product (f l) = pl_product l) \<Longrightarrow>
   frame_of (update_where p f ls) = frame_of ls"
  by (simp add: frame_of_def update_where_def)

lemma frame_keys: "frame_of ls = frame_of ls' \<Longrightarrow> map pl_key ls = map pl_key ls'"
proof -
  have "map pl_key ls = map (bl_productId \<circ> fst) (frame_of ls)" for ls by (simp add: frame_of_def pl_key_def)
  then show "frame_of ls = frame_of ls' \<Longrightarrow> map pl_key ls = map pl_key ls'" by metis
qed

lemma sum_update_key:
  fixes f :: "PricingLine \<Rightarrow> int"
  assumes "distinct (map pl_key ls)" and "k \<in> pl_key ` set ls" and "\<And>l. f (g l) = f l + a"
  shows "(\<Sum>l\<leftarrow>update_where (\<lambda>l. pl_key l = k) g ls. f l) = (\<Sum>l\<leftarrow>ls. f l) + a"
  using assms(1,2)
proof (induction ls)
  case (Cons x ls)
  show ?case
  proof (cases "pl_key x = k")
    case True
    then have "\<forall>y \<in> set ls. pl_key y \<noteq> k" using Cons.prems by (auto simp: rev_image_eqI)
    then have "update_where (\<lambda>l. pl_key l = k) g ls = ls" by (simp add: update_where_def map_idI)
    with True show ?thesis by (simp add: update_where_def assms(3))
  next
    case False
    with Cons show ?thesis by (simp add: update_where_def)
  qed
qed simp

lemma sum_update_same:
  fixes f :: "PricingLine \<Rightarrow> int"
  shows "(\<And>l. f (g l) = f l) \<Longrightarrow> (\<Sum>l\<leftarrow>update_where p g ls. f l) = (\<Sum>l\<leftarrow>ls. f l)"
  by (induction ls) (auto simp: update_where_def)

lemma key_of_allocate: "(k, a) \<in> set (allocate d ws) \<Longrightarrow> k \<in> fst ` set ws"
proof -
  assume k: "(k, a) \<in> set (allocate d ws)"
  show ?thesis
  proof (cases "d \<le> 0 \<or> sum_list (map snd (filter (\<lambda>(_, w). 0 < w) ws)) \<le> 0")
    case True
    with k show ?thesis by (force simp: allocate_def)
  next
    case False
    with k have "k \<in> set (map fst (shares d (sum_list (map snd (filter (\<lambda>(_, w). 0 < w) ws))) 0 (filter (\<lambda>(_, w). 0 < w) ws)))"
      by (force simp: allocate_def Let_def)
    then show ?thesis by (auto simp: shares_keys)
  qed
qed

text \<open>What is given is the amount, cut to what is there.\<close>

lemma positive_sum: "sum_list (map snd ws) \<le> sum_list (map snd (filter (\<lambda>(_, w). 0 < (w::int)) ws))"
  by (induction ws) auto

lemma allocate_total: "(0 < d \<Longrightarrow> d \<le> sum_list (map snd ws)) \<Longrightarrow> sum_list (map snd (allocate d ws)) = max d 0"
proof (cases "d \<le> 0")
  case True
  have "sum_list (map snd (map (\<lambda>(k, _). (k, 0::int)) ws)) = 0" by (induction ws) auto
  with True show ?thesis by (simp add: allocate_def)
next
  case False
  assume "0 < d \<Longrightarrow> d \<le> sum_list (map snd ws)"
  then have "d \<le> sum_list (map snd (filter (\<lambda>(_, w). 0 < w) ws))" using positive_sum [of ws] False by linarith
  with allocate_sum [of d ws] False show ?thesis by simp
qed

lemma allocate_nonneg: "(0 < d \<Longrightarrow> d \<le> sum_list (map snd ws)) \<Longrightarrow> \<forall>x \<in> set (allocate d ws). 0 \<le> snd x"
proof (cases "d \<le> 0")
  case False
  assume "0 < d \<Longrightarrow> d \<le> sum_list (map snd ws)"
  then have d: "d \<le> sum_list (map snd (filter (\<lambda>(_, w). 0 < w) ws))" using positive_sum [of ws] False by linarith
  show ?thesis
  proof
    fix x assume "x \<in> set (allocate d ws)"
    then show "0 \<le> snd x" using allocate_bounds [OF _ d, of "fst x" "snd x"] False by auto
  qed
qed (auto simp: allocate_def)

definition keys_ok :: "PricingLine list \<Rightarrow> bool" where
  "keys_ok ls \<longleftrightarrow> distinct (map pl_key ls) \<and> (\<forall>l \<in> set ls. line_ok l)"

text \<open>
  The three ways of giving a discount have the same shape: \<open>give\<close> adds the amount to the field
  \<open>f\<close> of the line with the key and leaves the fields in \<open>others\<close> alone.
\<close>

locale discount_stage =
  fixes give :: "uuid \<times> int \<Rightarrow> PricingLine list \<Rightarrow> PricingLine list" and f :: "PricingLine \<Rightarrow> int" and up :: "int \<Rightarrow> PricingLine \<Rightarrow> PricingLine"
    and others :: "(PricingLine \<Rightarrow> int) set"
  assumes give: "give (k, a) ls = update_where (\<lambda>l. pl_key l = k) (up a) ls"
    and field: "f (up a l) = f l + a"
    and same: "g \<in> others \<Longrightarrow> g (up a l) = g l"
    and frame: "pl_input (up a l) = pl_input l \<and> pl_product (up a l) = pl_product l"
    and keeps: "0 \<le> a \<Longrightarrow> line_ok l \<Longrightarrow> line_ok (up a l)"
begin

lemma frame_fold: "frame_of (fold give as ls) = frame_of ls"
  by (induction as arbitrary: ls) (auto simp: give frame_update frame)

lemma sum_fold:
  assumes "distinct (map pl_key ls)" and "fst ` set as \<subseteq> pl_key ` set ls"
  shows "(\<Sum>l\<leftarrow>fold give as ls. f l) = (\<Sum>l\<leftarrow>ls. f l) + sum_list (map snd as)"
  using assms
proof (induction as arbitrary: ls)
  case (Cons x as)
  obtain k a where x: "x = (k, a)" by (cases x)
  let ?ls = "give (k, a) ls"
  have fr: "frame_of ?ls = frame_of ls" using frame_fold [of "[(k, a)]" ls] by simp
  then have keys: "map pl_key ?ls = map pl_key ls" by (rule frame_keys)
  then have "pl_key ` set ?ls = pl_key ` set ls" by (metis image_set)
  with Cons keys have "(\<Sum>l\<leftarrow>fold give as ?ls. f l) = (\<Sum>l\<leftarrow>?ls. f l) + sum_list (map snd as)" by auto
  moreover have "(\<Sum>l\<leftarrow>?ls. f l) = (\<Sum>l\<leftarrow>ls. f l) + a"
    unfolding give by (rule sum_update_key) (use Cons.prems x in \<open>auto simp: field\<close>)
  ultimately show ?case by (simp add: x)
qed simp

lemma other_fold: "g \<in> others \<Longrightarrow> (\<Sum>l\<leftarrow>fold give as ls. g l) = (\<Sum>l\<leftarrow>ls. g l)"
  by (induction as arbitrary: ls) (auto simp: give sum_update_same same)

lemma ok_fold: "\<forall>x \<in> set as. 0 \<le> snd x \<Longrightarrow> \<forall>l \<in> set ls. line_ok l \<Longrightarrow> \<forall>l \<in> set (fold give as ls). line_ok l"
proof (induction as arbitrary: ls)
  case (Cons x as)
  obtain k a where x: "x = (k, a)" by (cases x)
  have "\<forall>l \<in> set (give (k, a) ls). line_ok l" using Cons.prems x by (auto simp: give set_update_where keeps)
  with Cons x show ?case by simp
qed simp

lemma stage:
  assumes "keys_ok ls" and "0 < d \<Longrightarrow> d \<le> sum_list (map snd ws)" and "fst ` set ws \<subseteq> pl_key ` set ls"
  shows "frame_of (fold give (allocate d ws) ls) = frame_of ls" and "keys_ok (fold give (allocate d ws) ls)"
    and "(\<Sum>l\<leftarrow>fold give (allocate d ws) ls. f l) = (\<Sum>l\<leftarrow>ls. f l) + max d 0"
    and "g \<in> others \<Longrightarrow> (\<Sum>l\<leftarrow>fold give (allocate d ws) ls. g l) = (\<Sum>l\<leftarrow>ls. g l)"
proof -
  show fr: "frame_of (fold give (allocate d ws) ls) = frame_of ls" by (rule frame_fold)
  have "\<forall>l \<in> set (fold give (allocate d ws) ls). line_ok l"
    using assms(1) allocate_nonneg [OF assms(2)] by (intro ok_fold) (auto simp: keys_ok_def)
  with assms(1) frame_keys [OF fr] show "keys_ok (fold give (allocate d ws) ls)" by (simp add: keys_ok_def)
  have "fst ` set (allocate d ws) \<subseteq> pl_key ` set ls" using assms(3) by (auto dest!: key_of_allocate)
  with assms(1) show "(\<Sum>l\<leftarrow>fold give (allocate d ws) ls. f l) = (\<Sum>l\<leftarrow>ls. f l) + max d 0"
    by (simp add: sum_fold keys_ok_def allocate_total [OF assms(2)])
qed (rule other_fold)

end

lemma adjusted_add [simp]: "adjusted (add_adjustment a c s l) = adjusted l + a"
  by (simp add: adjusted_def add_adjustment_def)

lemma add_adjustment_simps [simp]:
  "pl_input (add_adjustment a c s l) = pl_input l" "pl_product (add_adjustment a c s l) = pl_product l"
  "pl_base (add_adjustment a c s l) = pl_base l" "pl_automatic (add_adjustment a c s l) = pl_automatic l"
  "pl_manual (add_adjustment a c s l) = pl_manual l" "pl_loyalty (add_adjustment a c s l) = pl_loyalty l"
  by (simp_all add: add_adjustment_def)

lemma adjusted_same [simp]: "adjusted (l\<lparr>pl_automatic := a\<rparr>) = adjusted l" "adjusted (l\<lparr>pl_manual := a\<rparr>) = adjusted l"
  "adjusted (l\<lparr>pl_loyalty := a\<rparr>) = adjusted l"
  by (simp_all add: adjusted_def)

interpretation automatic: discount_stage "give_automatic code" pl_automatic
  "\<lambda>a l. add_adjustment a code Automatic (l\<lparr>pl_automatic := pl_automatic l + a\<rparr>)" "{pl_base, pl_manual, pl_loyalty}" for code
  by unfold_locales (auto simp: give_automatic_def line_ok_def line_discount_def)

interpretation manual: discount_stage give_manual pl_manual
  "\<lambda>a l. let l' = l\<lparr>pl_manual := pl_manual l + a\<rparr> in if a > 0 then add_adjustment a (js ''MANUAL'') Manual l' else l'"
  "{pl_base, pl_automatic, pl_loyalty}"
  by unfold_locales (auto simp: give_manual_def line_ok_def line_discount_def Let_def)

interpretation loyalty: discount_stage give_loyalty pl_loyalty
  "\<lambda>a l. let l' = l\<lparr>pl_loyalty := pl_loyalty l + a\<rparr> in if a > 0 then add_adjustment a (js ''LOYALTY'') Loyalty l' else l'"
  "{pl_base, pl_automatic, pl_manual}"
  by unfold_locales (auto simp: give_loyalty_def line_ok_def line_discount_def Let_def)

definition remaining_after :: "(PricingLine \<Rightarrow> int) \<Rightarrow> PricingLine list \<Rightarrow> (uuid \<times> int) list" where
  "remaining_after g ls = map (\<lambda>l. (pl_key l, g l)) ls"

lemma remaining_sum: "sum_list (map snd (remaining_after g ls)) = (\<Sum>l\<leftarrow>ls. g l)"
  by (simp add: remaining_after_def comp_def)

lemma remaining_keys: "fst ` set (allocate d (remaining_after g ls)) \<subseteq> pl_key ` set ls"
  by (auto dest!: key_of_allocate simp: remaining_after_def)

lemma sum_diff3:
  fixes f g h :: "PricingLine \<Rightarrow> int"
  shows "(\<Sum>l\<leftarrow>ls. f l - g l) = (\<Sum>l\<leftarrow>ls. f l) - (\<Sum>l\<leftarrow>ls. g l)"
  by (induction ls) auto

lemma rule_weights_keys:
  assumes "rule_weights ls sets rule = Inr ws"
  shows "fst ` set ws \<subseteq> pl_key ` set ls"
proof
  fix k assume "k \<in> fst ` set ws"
  then obtain w where w: "(k, w) \<in> set ws" by auto
  from assms have all: "list_all2 (\<lambda>x y. item_weight ls sets x = Inr y) (cr_items rule) ws" by (simp add: rule_weights_def res_map_Inr_iff)
  from w obtain i where i: "i < length ws" "ws ! i = (k, w)" by (meson in_set_conv_nth)
  obtain p q where pq: "cr_items rule ! i = (p, q)" by (cases "cr_items rule ! i")
  from list_all2_nthD2 [OF all i(1)] have "item_weight ls sets (p, q) = Inr (k, w)" unfolding i(2) pq .
  then show "k \<in> pl_key ` set ls" by (auto simp: find_line_def dest!: find_SomeD split: option.splits)
qed

lemma rule_discount_cap: "rule_discount rule sets total_base \<le> total_base"
  by (simp add: rule_discount_def Let_def)

text \<open>What a stage may change: only the discount named.\<close>

definition same_goods :: "PricingLine list \<Rightarrow> PricingLine list \<Rightarrow> bool" where
  "same_goods ls ls' \<longleftrightarrow> frame_of ls' = frame_of ls \<and> keys_ok ls' \<and> (\<Sum>l\<leftarrow>ls'. pl_base l) = (\<Sum>l\<leftarrow>ls. pl_base l)"

lemma same_goods_refl: "keys_ok ls \<Longrightarrow> same_goods ls ls"
  by (simp add: same_goods_def)

lemma same_goods_trans: "same_goods ls ls' \<Longrightarrow> same_goods ls' ls'' \<Longrightarrow> same_goods ls ls''"
  by (simp add: same_goods_def)

lemma apply_rule_goods:
  assumes "apply_rule rule (cl, ls) = Inr (cl', ls')" and "keys_ok ls"
  shows "same_goods ls ls' \<and> (\<Sum>l\<leftarrow>ls'. pl_manual l) = (\<Sum>l\<leftarrow>ls. pl_manual l) \<and> (\<Sum>l\<leftarrow>ls'. pl_loyalty l) = (\<Sum>l\<leftarrow>ls. pl_loyalty l)"
proof -
  have "ls' = ls \<or> (\<exists>ws. rule_weights ls (rule_sets ls rule) rule = Inr ws \<and>
      ls' = fold (give_automatic (cr_code rule)) (allocate (rule_discount rule (rule_sets ls rule) (sum_list (map snd ws))) ws) ls)"
    using assms(1) by (auto simp: apply_rule_def Let_def split: if_splits)
  then show ?thesis
  proof
    assume "ls' = ls"
    with assms(2) show ?thesis by (simp add: same_goods_def)
  next
    assume "\<exists>ws. rule_weights ls (rule_sets ls rule) rule = Inr ws \<and>
      ls' = fold (give_automatic (cr_code rule)) (allocate (rule_discount rule (rule_sets ls rule) (sum_list (map snd ws))) ws) ls"
    then obtain ws where ws: "rule_weights ls (rule_sets ls rule) rule = Inr ws"
      "ls' = fold (give_automatic (cr_code rule)) (allocate (rule_discount rule (rule_sets ls rule) (sum_list (map snd ws))) ws) ls"
      by blast
    note st = automatic.stage [OF assms(2) rule_discount_cap rule_weights_keys [OF ws(1)]]
    show ?thesis unfolding ws(2) same_goods_def by (intro conjI st) simp_all
  qed
qed

lemma apply_rules_goods:
  assumes "apply_rules rules (cl, ls) = Inr (cl', ls')" and "keys_ok ls"
  shows "same_goods ls ls' \<and> (\<Sum>l\<leftarrow>ls'. pl_manual l) = (\<Sum>l\<leftarrow>ls. pl_manual l) \<and> (\<Sum>l\<leftarrow>ls'. pl_loyalty l) = (\<Sum>l\<leftarrow>ls. pl_loyalty l)"
  using assms
proof (induction rules arbitrary: cl ls)
  case (Cons rule rules)
  then obtain cl1 ls1 where one: "apply_rule rule (cl, ls) = Inr (cl1, ls1)" and rest: "apply_rules rules (cl1, ls1) = Inr (cl', ls')"
    by auto
  from apply_rule_goods [OF one Cons.prems(2)] Cons.IH [OF rest] show ?case
    by (auto simp: same_goods_def)
qed (simp add: same_goods_def)

text \<open>
  The rules give away no more than the goods they claim. The price list holds no negative price and
  the items of a rule are different products in positive quantities (constraints of the tables
  \<open>sales.price_list_lines\<close> and \<open>sales.pos_commercial_rule_items\<close>).
\<close>

definition price_list_ok :: "(uuid \<Rightarrow> SaleProductRow option) \<Rightarrow> bool" where
  "price_list_ok products \<longleftrightarrow> (\<forall>k product. products k = Some product \<longrightarrow> 0 \<le> units (required_price product))"

definition rule_items_ok :: "CommercialRuleRow \<Rightarrow> bool" where
  "rule_items_ok rule \<longleftrightarrow> distinct (map fst (cr_items rule)) \<and> (\<forall>(_, q) \<in> set (cr_items rule). 0 < units q)"

definition priced_at :: "BasketLine \<times> SaleProductRow \<Rightarrow> int" where
  "priced_at x = units (multiply (bl_quantity (fst x)) (required_price (snd x)))"

definition priced_ok :: "BasketLine \<times> SaleProductRow \<Rightarrow> bool" where
  "priced_ok x \<longleftrightarrow> 0 < units (bl_quantity (fst x)) \<and> 0 \<le> units (required_price (snd x))"

definition claimed_base :: "(BasketLine \<times> SaleProductRow) list \<Rightarrow> uuid set \<Rightarrow> int" where
  "claimed_base F C = (\<Sum>x\<leftarrow>F. if bl_productId (fst x) \<in> C then priced_at x else 0)"

lemma multiply_mono: "0 \<le> a \<Longrightarrow> a \<le> units q \<Longrightarrow> 0 \<le> units p \<Longrightarrow> units (multiply (fixed a) p) \<le> units (multiply q p)"
  by (auto simp: sdiv_nonneg intro!: zdiv_mono1 mult_right_mono)

lemma priced_at_nonneg: "priced_ok x \<Longrightarrow> 0 \<le> priced_at x"
  by (simp add: priced_ok_def priced_at_def sdiv_nonneg pos_imp_zdiv_nonneg_iff)

lemma claimed_base_mono: "\<forall>x \<in> set F. priced_ok x \<Longrightarrow> C \<subseteq> D \<Longrightarrow> claimed_base F C \<le> claimed_base F D"
  unfolding claimed_base_def by (intro sum_list_mono) (auto simp: priced_at_nonneg)

lemma claimed_base_Un: "C \<inter> D = {} \<Longrightarrow> claimed_base F (C \<union> D) = claimed_base F C + claimed_base F D"
  unfolding claimed_base_def by (induction F) auto

lemma claimed_base_one:
  assumes "distinct (map (bl_productId \<circ> fst) F)" and "x \<in> set F"
  shows "claimed_base F {bl_productId (fst x)} = priced_at x"
  using assms
proof (induction F)
  case (Cons y F)
  have none: "claimed_base F {k} = 0" if "k \<notin> (bl_productId \<circ> fst) ` set F" for k
    using that unfolding claimed_base_def by (induction F) auto
  show ?case
  proof (cases "x = y")
    case True
    with Cons.prems none [of "bl_productId (fst y)"] show ?thesis by (simp add: claimed_base_def)
  next
    case False
    with Cons show ?thesis by (force simp: claimed_base_def)
  qed
qed simp

lemma weights_within_base:
  assumes "distinct (map (bl_productId \<circ> fst) F)" and "distinct (map fst ws)"
    and "\<forall>(k, w) \<in> set ws. \<exists>x \<in> set F. bl_productId (fst x) = k \<and> w \<le> priced_at x"
  shows "sum_list (map snd ws) \<le> claimed_base F (fst ` set ws)"
  using assms(2,3)
proof (induction ws)
  case Nil
  have "claimed_base F {} = 0" unfolding claimed_base_def by (induction F) auto
  then show ?case by simp
next
  case (Cons p ws)
  obtain x where x: "x \<in> set F" "bl_productId (fst x) = fst p" "snd p \<le> priced_at x" using Cons.prems(2) by (cases p) auto
  have "claimed_base F (fst ` set (p # ws)) = claimed_base F {fst p} + claimed_base F (fst ` set ws)"
    using claimed_base_Un [of "{fst p}" "fst ` set ws"] Cons.prems(1) by simp
  also have "claimed_base F {fst p} = priced_at x" using claimed_base_one [OF assms(1) x(1)] x(2) by simp
  finally show ?case using Cons x(3) by simp
qed

lemma foldl_min_le: "foldl min q qs \<le> (q :: int)" "y \<in> set qs \<Longrightarrow> foldl min q qs \<le> y"
proof (induction qs arbitrary: q)
  case (Cons z qs)
  { case 1 show ?case using Cons.IH(1) [of "min q z"] by simp }
  { case 2 then show ?case using Cons.IH(1) [of "min q z"] Cons.IH(2) [of "min q z"] by auto }
qed simp_all

lemma rule_sets_le: "x \<in> set (cr_items rule) \<Longrightarrow> rule_sets ls rule \<le> item_sets ls x"
proof (cases "cr_items rule")
  case (Cons y ys)
  moreover assume "x \<in> set (cr_items rule)"
  ultimately have "x = y \<or> item_sets ls x \<in> set (map (item_sets ls) ys)" by auto
  then show ?thesis using foldl_min_le(1) [of "item_sets ls y" "map (item_sets ls) ys"]
      foldl_min_le(2) [of "item_sets ls x" "map (item_sets ls) ys" "item_sets ls y"] Cons by (auto simp only: rule_sets_def list.case list.map)
qed simp

lemma rule_weights_items:
  assumes "rule_weights ls sets rule = Inr ws"
  shows "map fst ws = map fst (cr_items rule)"
    and "(k, w) \<in> set ws \<Longrightarrow> \<exists>q. (k, q) \<in> set (cr_items rule) \<and> item_weight ls sets (k, q) = Inr (k, w)"
proof -
  from assms have all: "list_all2 (\<lambda>x y. item_weight ls sets x = Inr y) (cr_items rule) ws" by (simp add: rule_weights_def res_map_Inr_iff)
  have key: "fst y = fst x" if "item_weight ls sets x = Inr y" for x y
    using that by (cases x) (auto split: option.splits)
  from all show "map fst ws = map fst (cr_items rule)" by (induction rule: list_all2_induct) (auto dest: key)
  show "\<exists>q. (k, q) \<in> set (cr_items rule) \<and> item_weight ls sets (k, q) = Inr (k, w)" if w: "(k, w) \<in> set ws"
  proof -
    obtain i where "i < length ws" "ws ! i = (k, w)" using w by (meson in_set_conv_nth)
    then obtain x where "x \<in> set (cr_items rule)" "item_weight ls sets x = Inr (k, w)"
      using all unfolding list_all2_conv_all_nth by (metis nth_mem)
    moreover from this have "x = (k, snd x)" using key [of x "(k, w)"] by (simp add: prod_eq_iff)
    ultimately show ?thesis by metis
  qed
qed

text \<open>An item of a rule weighs no more than its line costs.\<close>

lemma item_within_line:
  assumes "item_weight ls (rule_sets ls rule) (k, q) = Inr (k, w)" and "(k, q) \<in> set (cr_items rule)" and "0 < rule_sets ls rule"
    and "0 < units q" and "\<forall>x \<in> set (frame_of ls). priced_ok x"
  shows "\<exists>x \<in> set (frame_of ls). bl_productId (fst x) = k \<and> w \<le> priced_at x"
proof -
  obtain l where l: "l \<in> set ls" "pl_key l = k" "find_line ls k = Some l"
      "w = units (multiply (fixed (units q * rule_sets ls rule)) (required_price (pl_product l)))"
    using assms(1) by (auto simp: find_line_def dest: find_SomeD split: option.splits)
  let ?x = "(pl_input l, pl_product l)"
  have x: "?x \<in> set (frame_of ls)" using l(1) by (auto simp: frame_of_def)
  then have ok: "0 < units (bl_quantity (pl_input l))" "0 \<le> units (required_price (pl_product l))"
    using assms(5) by (force simp: priced_ok_def)+
  have "rule_sets ls rule \<le> units (bl_quantity (pl_input l)) div units q"
    using rule_sets_le [OF assms(2), of ls] l(3) ok(1) assms(4) by (simp add: sdiv_nonneg)
  then have "units q * rule_sets ls rule \<le> units q * (units (bl_quantity (pl_input l)) div units q)"
    using assms(4) by simp
  also have "\<dots> \<le> units (bl_quantity (pl_input l))"
    using assms(4) minus_mod_eq_mult_div [of "units (bl_quantity (pl_input l))" "units q"] pos_mod_sign [OF assms(4)] by (smt (verit))
  finally have "w \<le> priced_at ?x"
    unfolding l(4) priced_at_def fst_conv snd_conv using assms(3,4) ok(2) by (intro multiply_mono) simp_all
  then show ?thesis using x l(2) by (intro bexI [of _ ?x]) (simp_all add: pl_key_def)
qed

lemma allocate_claims: "0 < d \<Longrightarrow> 0 < sum_list (map snd (filter (\<lambda>(_, w). 0 < w) ws)) \<Longrightarrow>
   map fst (allocate d ws) = map fst (filter (\<lambda>(_, w). 0 < w) ws)"
  by (simp add: allocate_def Let_def shares_keys)

lemma apply_rule_within:
  assumes run: "apply_rule rule (cl, ls) = Inr (cl', ls')" and keys: "keys_ok ls" and items: "rule_items_ok rule"
    and ok: "\<forall>x \<in> set (frame_of ls). priced_ok x"
  shows "set cl \<subseteq> set cl' \<and> (\<Sum>l\<leftarrow>ls. pl_automatic l) \<le> (\<Sum>l\<leftarrow>ls'. pl_automatic l) \<and>
    (\<Sum>l\<leftarrow>ls'. pl_automatic l) - (\<Sum>l\<leftarrow>ls. pl_automatic l) \<le>
      claimed_base (frame_of ls) (set cl') - claimed_base (frame_of ls) (set cl)"
proof (cases "cl' = cl \<and> ls' = ls")
  case False
  let ?F = "frame_of ls" and ?n = "rule_sets ls rule"
  have free: "\<not> list_ex (\<lambda>(p, _). p \<in> set cl) (cr_items rule)"
    and app: "\<not> (?n \<le> 0 \<or> cr_rule_type rule = QuantityRule \<and> length (cr_items rule) \<noteq> 1 \<or>
      cr_rule_type rule = BundleRule \<and> length (cr_items rule) < 2)"
    using run False by (auto simp only: apply_rule_def Let_def prod.case Inr_inject prod.inject simp_thms split: if_split_asm)
  then have n: "0 < ?n" by linarith
  from run obtain ws where ws: "rule_weights ls ?n rule = Inr ws"
    and cl': "cl' = cl @ map fst (allocate (rule_discount rule ?n (sum_list (map snd ws))) ws)"
    and ls': "ls' = fold (give_automatic (cr_code rule)) (allocate (rule_discount rule ?n (sum_list (map snd ws))) ws) ls"
    unfolding apply_rule_def prod.case Let_def if_not_P [OF free] if_not_P [OF app] by auto
  let ?d = "rule_discount rule ?n (sum_list (map snd ws))" and ?pos = "filter (\<lambda>(_, w). 0 < w) ws"
  note st = automatic.stage(3) [OF keys rule_discount_cap rule_weights_keys [OF ws]]
  have up: "(\<Sum>l\<leftarrow>ls'. pl_automatic l) = (\<Sum>l\<leftarrow>ls. pl_automatic l) + max ?d 0" unfolding ls' by (rule st)
  have F: "distinct (map (bl_productId \<circ> fst) ?F)" using keys by (simp add: keys_ok_def frame_of_def pl_key_def [abs_def] comp_def)
  show ?thesis
  proof (cases "0 < ?d")
    case True
    then have pos: "?d \<le> sum_list (map snd ?pos)" using rule_discount_cap [of rule ?n "sum_list (map snd ws)"] positive_sum [of ws] by linarith
    have "distinct (map fst ws)" using rule_weights_items(1) [OF ws] items by (simp add: rule_items_ok_def)
    then have d: "distinct (map fst ?pos)" by (rule distinct_map_filter)
    have in_items: "\<exists>q. (k, q) \<in> set (cr_items rule) \<and> item_weight ls ?n (k, q) = Inr (k, w)" if "(k, w) \<in> set ws" for k w
      using rule_weights_items(2) [OF ws that] .
    have "\<exists>x \<in> set ?F. bl_productId (fst x) = k \<and> w \<le> priced_at x" if "(k, w) \<in> set ws" for k w
      using in_items [OF that] item_within_line [OF _ _ n _ ok, of k _ w] items unfolding rule_items_ok_def by blast
    then have "\<forall>(k, w) \<in> set ?pos. \<exists>x \<in> set ?F. bl_productId (fst x) = k \<and> w \<le> priced_at x" by auto
    from weights_within_base [OF F d this] have within: "?d \<le> claimed_base ?F (fst ` set ?pos)" using pos by linarith
    have "k \<notin> set cl" if "(k, w) \<in> set ws" for k w using in_items [OF that] free by (fastforce simp: list_ex_iff)
    then have "set cl \<inter> fst ` set ?pos = {}" by auto
    moreover have "set cl' = set cl \<union> fst ` set ?pos"
      unfolding cl' using allocate_claims [OF True, of ws] pos True by (simp del: set_filter)
    ultimately show ?thesis using within True by (simp add: up claimed_base_Un)
  qed (use claimed_base_mono [OF ok, of "set cl" "set cl'"] in \<open>simp add: up cl'\<close>)
qed simp

lemma apply_rules_within:
  assumes "apply_rules rules (cl, ls) = Inr (cl', ls')" and "keys_ok ls" and "\<forall>rule \<in> set rules. rule_items_ok rule"
    and "\<forall>x \<in> set (frame_of ls). priced_ok x"
  shows "(\<Sum>l\<leftarrow>ls. pl_automatic l) \<le> (\<Sum>l\<leftarrow>ls'. pl_automatic l) \<and>
    (\<Sum>l\<leftarrow>ls'. pl_automatic l) - (\<Sum>l\<leftarrow>ls. pl_automatic l) \<le>
      claimed_base (frame_of ls) (set cl') - claimed_base (frame_of ls) (set cl)"
  using assms
proof (induction rules arbitrary: cl ls)
  case (Cons rule rules)
  then obtain cl1 ls1 where one: "apply_rule rule (cl, ls) = Inr (cl1, ls1)" and rest: "apply_rules rules (cl1, ls1) = Inr (cl', ls')"
    by auto
  have sg: "frame_of ls1 = frame_of ls" "keys_ok ls1" using apply_rule_goods [OF one Cons.prems(2)] by (simp_all add: same_goods_def)
  show ?case using apply_rule_within [OF one Cons.prems(2)] Cons.IH [OF rest sg(2)] Cons.prems(3,4) by (simp add: sg(1))
qed simp

lemma claimed_base_all:
  assumes "keys_ok ls" and "\<forall>x \<in> set (frame_of ls). priced_ok x"
  shows "claimed_base (frame_of ls) C \<le> (\<Sum>l\<leftarrow>ls. pl_base l)"
proof -
  have "pl_base l = priced_at (pl_input l, pl_product l)" if "l \<in> set ls" for l
    using assms(1) that by (simp add: keys_ok_def line_ok_def priced_at_def)
  then have "(\<Sum>l\<leftarrow>ls. pl_base l) = (\<Sum>l\<leftarrow>ls. priced_at (pl_input l, pl_product l))" by (intro arg_cong [of _ _ sum_list] map_cong) simp_all
  then have "(\<Sum>l\<leftarrow>ls. pl_base l) = claimed_base (frame_of ls) UNIV" by (simp add: claimed_base_def frame_of_def comp_def)
  then show ?thesis using claimed_base_mono [OF assms(2), of C UNIV] by simp
qed

definition available_after :: "PricingLine list \<Rightarrow> int" where
  "available_after ls = (\<Sum>l\<leftarrow>ls. pl_base l) - (\<Sum>l\<leftarrow>ls. pl_automatic l)"

lemma apply_manual_goods:
  assumes "keys_ok ls"
  shows "same_goods ls (apply_manual d ls)"
    and "(\<Sum>l\<leftarrow>apply_manual d ls. pl_manual l) = (\<Sum>l\<leftarrow>ls. pl_manual l) + max 0 (min (available_after ls)
      (if md_discountType d = Percentage then percentageOf (available_after ls) (md_discountValue d) else units (md_discountValue d)))"
    and "(\<Sum>l\<leftarrow>apply_manual d ls. pl_automatic l) = (\<Sum>l\<leftarrow>ls. pl_automatic l)"
    and "(\<Sum>l\<leftarrow>apply_manual d ls. pl_loyalty l) = (\<Sum>l\<leftarrow>ls. pl_loyalty l)"
proof -
  let ?ws = "remaining_after (\<lambda>l. pl_base l - pl_automatic l) ls"
  let ?req = "if md_discountType d = Percentage then percentageOf (available_after ls) (md_discountValue d) else units (md_discountValue d)"
  let ?d = "if available_after ls < ?req then available_after ls else ?req"
  have av: "sum_list (map snd ?ws) = available_after ls" by (simp add: remaining_sum available_after_def sum_diff3)
  have run: "apply_manual d ls = fold give_manual (allocate ?d ?ws) ls"
    using av by (simp add: apply_manual_def Let_def remaining_after_def)
  have cap: "?d \<le> sum_list (map snd ?ws)" by (simp add: av)
  have keys: "fst ` set ?ws \<subseteq> pl_key ` set ls" by (auto simp: remaining_after_def)
  note st = manual.stage [OF assms cap keys]
  have "max ?d 0 = max 0 (min (available_after ls) ?req)" by (auto simp: max_def min_def)
  with st(3) show "(\<Sum>l\<leftarrow>apply_manual d ls. pl_manual l) = (\<Sum>l\<leftarrow>ls. pl_manual l) + max 0 (min (available_after ls) ?req)"
    unfolding run by simp
  show "same_goods ls (apply_manual d ls)" unfolding run same_goods_def by (intro conjI st) simp_all
  show "(\<Sum>l\<leftarrow>apply_manual d ls. pl_automatic l) = (\<Sum>l\<leftarrow>ls. pl_automatic l)"
    "(\<Sum>l\<leftarrow>apply_manual d ls. pl_loyalty l) = (\<Sum>l\<leftarrow>ls. pl_loyalty l)" unfolding run by (rule st, simp)+
qed

lemma sdiv_nonpos: fixes a b :: int assumes "a < 0" and "0 < b" shows "a sdiv b \<le> 0"
proof -
  have "0 \<le> (- a) div b" using assms by (simp add: pos_imp_zdiv_nonneg_iff)
  with assms show ?thesis by (simp add: signed_divide_int_def)
qed

lemma apply_loyalty_goods:
  assumes "keys_ok ls" and "apply_loyalty n v ls = (redeemed, ls')" and "0 \<le> units v"
  shows "same_goods ls ls' \<and> (\<Sum>l\<leftarrow>ls'. pl_loyalty l) = (\<Sum>l\<leftarrow>ls. pl_loyalty l) + max 0 (units v * redeemed) \<and>
    (\<Sum>l\<leftarrow>ls'. pl_automatic l) = (\<Sum>l\<leftarrow>ls. pl_automatic l) \<and> (\<Sum>l\<leftarrow>ls'. pl_manual l) = (\<Sum>l\<leftarrow>ls. pl_manual l) \<and>
    redeemed \<le> n \<and> max 0 (units v * redeemed) \<le> max 0 (available_after ls - (\<Sum>l\<leftarrow>ls. pl_manual l))"
proof -
  let ?ws = "remaining_after (\<lambda>l. pl_base l - pl_automatic l - pl_manual l) ls"
  let ?av = "sum_list (map snd ?ws)"
  have r: "redeemed = min n (if 0 < units v then ?av sdiv units v else 0)" and ls': "ls' = fold give_loyalty (allocate (units v * redeemed) ?ws) ls"
    using assms(2) by (auto simp: apply_loyalty_def Let_def remaining_after_def)
  have cap: "units v * redeemed \<le> ?av" if "0 < units v * redeemed"
  proof -
    have v: "0 < units v" "0 < redeemed" using that assms(3) by (auto simp: zero_less_mult_iff)
    then have "0 < ?av sdiv units v" using r by simp
    have "0 \<le> ?av"
    proof (rule ccontr)
      assume "\<not> 0 \<le> ?av"
      then have "?av sdiv units v \<le> 0" using sdiv_nonpos [of ?av "units v"] v(1) by simp
      with \<open>0 < ?av sdiv units v\<close> show False by simp
    qed
    then have "redeemed \<le> ?av div units v" using r v(1) by (simp add: sdiv_nonneg)
    then have "units v * redeemed \<le> units v * (?av div units v)" using v(1) by simp
    also have "\<dots> \<le> ?av" using v(1) using minus_mod_eq_mult_div [of ?av "units v"] pos_mod_sign [OF v(1), of ?av] by linarith
    finally show ?thesis .
  qed
  have keys: "fst ` set ?ws \<subseteq> pl_key ` set ls" by (auto simp: remaining_after_def)
  note st = loyalty.stage [OF assms(1) cap keys]
  have "?av = available_after ls - (\<Sum>l\<leftarrow>ls. pl_manual l)" by (simp add: remaining_sum available_after_def sum_diff3)
  then have "max 0 (units v * redeemed) \<le> max 0 (available_after ls - (\<Sum>l\<leftarrow>ls. pl_manual l))"
    using cap by (cases "0 < units v * redeemed") auto
  moreover have "redeemed \<le> n" unfolding r by simp
  ultimately show ?thesis unfolding ls' same_goods_def by (intro conjI st) (simp_all add: st(3))
qed

text \<open>The discount a cashier may give on an amount: what was asked for, within the amount.\<close>

definition granted_discount :: "ManualDiscount \<Rightarrow> int \<Rightarrow> int" where
  "granted_discount d available = max 0 (min available
     (if md_discountType d = Percentage then percentageOf available (md_discountValue d) else units (md_discountValue d)))"

lemma pricing_line_ok:
  assumes "pricing_line products line = Inr l"
  shows "pl_input l = line" and "line_ok l" and "pl_manual l = 0" and "pl_loyalty l = 0" and "pl_automatic l = 0"
    and "products (bl_productId line) = Some (pl_product l)"
  using assms by (auto simp: pricing_line_def line_ok_def adjusted_def line_discount_def split: option.splits if_splits)

lemma price_lines_goods:
  assumes "price_lines products rules b = Inr ls" and "distinct (map bl_productId (bk_lines b))"
  shows "keys_ok ls" and "map pl_input ls = bk_lines b" and "(\<Sum>l\<leftarrow>ls. pl_loyalty l) = 0"
    and "(\<Sum>l\<leftarrow>ls. pl_manual l) = (case bk_manualDiscount b of None \<Rightarrow> 0 | Some d \<Rightarrow> granted_discount d (available_after ls))"
    and "price_list_ok products \<Longrightarrow> \<forall>rule \<in> set rules. rule_items_ok rule \<Longrightarrow> \<forall>l \<in> set (bk_lines b). 0 < units (bl_quantity l) \<Longrightarrow>
      0 \<le> (\<Sum>l\<leftarrow>ls. pl_automatic l) \<and> 0 \<le> available_after ls"
proof -
  from assms(1) obtain p cl q where p: "res_map (pricing_line products) (bk_lines b) = Inr p"
      and q: "apply_rules rules ([], p) = Inr (cl, q)"
      and ls: "ls = (case bk_manualDiscount b of None \<Rightarrow> q | Some d \<Rightarrow> apply_manual d q)"
    by (auto simp: price_lines_def)
  from p have all: "list_all2 (\<lambda>x y. pricing_line products x = Inr y) (bk_lines b) p" by (simp add: res_map_Inr_iff)
  then have inp: "map pl_input p = bk_lines b"
    by (induction rule: list_all2_induct) (auto simp: pricing_line_ok)
  have ok: "line_ok l \<and> pl_manual l = 0 \<and> pl_loyalty l = 0 \<and> pl_automatic l = 0 \<and>
      pl_input l \<in> set (bk_lines b) \<and> products (bl_productId (pl_input l)) = Some (pl_product l)" if "l \<in> set p" for l
  proof -
    from that obtain i where i: "i < length p" "p ! i = l" by (auto simp: in_set_conv_nth)
    from list_all2_nthD2 [OF all i(1)] have "pricing_line products (bk_lines b ! i) = Inr l" unfolding i(2) .
    moreover have "bk_lines b ! i \<in> set (bk_lines b)" using i(1) all by (simp add: list_all2_lengthD)
    ultimately show ?thesis using pricing_line_ok by metis
  qed
  have "map pl_key p = map bl_productId (bk_lines b)" by (simp add: inp [symmetric] pl_key_def)
  then have kp: "keys_ok p" using assms(2) ok by (simp add: keys_ok_def)
  then have pq: "same_goods p q" "(\<Sum>l\<leftarrow>q. pl_manual l) = (\<Sum>l\<leftarrow>p. pl_manual l)" "(\<Sum>l\<leftarrow>q. pl_loyalty l) = (\<Sum>l\<leftarrow>p. pl_loyalty l)"
    using apply_rules_goods [OF q] by auto
  have zero: "(\<Sum>l\<leftarrow>p. pl_manual l) = 0" "(\<Sum>l\<leftarrow>p. pl_loyalty l) = 0" "(\<Sum>l\<leftarrow>p. pl_automatic l) = 0"
    using ok by (simp_all add: sum_list_0 cong: map_cong)
  have "keys_ok q" using pq(1) by (simp add: same_goods_def)
  note man = apply_manual_goods [OF this]
  have qls: "same_goods q ls" "(\<Sum>l\<leftarrow>ls. pl_automatic l) = (\<Sum>l\<leftarrow>q. pl_automatic l)" "(\<Sum>l\<leftarrow>ls. pl_loyalty l) = (\<Sum>l\<leftarrow>q. pl_loyalty l)"
    using man(1,3,4) same_goods_refl [OF \<open>keys_ok q\<close>] by (auto simp: ls split: option.splits)
  then have av: "available_after ls = available_after q" by (simp add: available_after_def same_goods_def)
  show "keys_ok ls" using qls(1) by (simp add: same_goods_def)
  show "(\<Sum>l\<leftarrow>ls. pl_loyalty l) = 0" using qls pq zero by simp
  have "frame_of ls = frame_of p" using pq(1) qls(1) by (simp add: same_goods_def)
  moreover have "map pl_input l = map fst (frame_of l)" for l by (simp add: frame_of_def)
  ultimately show "map pl_input ls = bk_lines b" using inp by metis
  show "(\<Sum>l\<leftarrow>ls. pl_manual l) = (case bk_manualDiscount b of None \<Rightarrow> 0 | Some d \<Rightarrow> granted_discount d (available_after ls))"
    unfolding av using man(2) pq zero by (auto simp: ls granted_discount_def split: option.splits)
  assume data: "price_list_ok products" "\<forall>rule \<in> set rules. rule_items_ok rule" "\<forall>l \<in> set (bk_lines b). 0 < units (bl_quantity l)"
  have priced: "\<forall>x \<in> set (frame_of p). priced_ok x"
    using ok data(1,3) by (auto simp: frame_of_def priced_ok_def price_list_ok_def)
  have "claimed_base (frame_of p) (set []) = 0" by (simp add: claimed_base_def sum_list_0)
  then have "0 \<le> (\<Sum>l\<leftarrow>q. pl_automatic l)" "(\<Sum>l\<leftarrow>q. pl_automatic l) \<le> claimed_base (frame_of p) (set cl)"
    using apply_rules_within [OF q kp data(2) priced] zero by simp_all
  then show "0 \<le> (\<Sum>l\<leftarrow>ls. pl_automatic l) \<and> 0 \<le> available_after ls"
    using claimed_base_all [OF kp priced, of "set cl"] pq(1) unfolding av unfolding qls(2) available_after_def by (simp add: same_goods_def)
qed

text \<open>A priced line in units.\<close>

definition line_adds_up :: "PosBasketPricedLine \<Rightarrow> bool" where
  "line_adds_up r \<longleftrightarrow> units (pr_baseNetTotal r) =
       units (pr_automaticDiscountTotal r) + units (pr_manualDiscountTotal r) + units (pr_loyaltyDiscountTotal r) + units (pr_netTotal r) \<and>
     units (pr_grossTotal r) = units (pr_netTotal r) + units (pr_vatTotal r) \<and>
     (\<Sum>a\<leftarrow>pr_pricingAdjustments r. units (pa_amount a)) =
       units (pr_automaticDiscountTotal r) + units (pr_manualDiscountTotal r) + units (pr_loyaltyDiscountTotal r)"

definition totals_add_up :: "PosBasketPricing \<Rightarrow> bool" where
  "totals_add_up p \<longleftrightarrow> units (bp_baseNetTotal p) =
       units (bp_automaticDiscountTotal p) + units (bp_manualDiscountTotal p) + units (bp_loyaltyDiscountTotal p) + units (bp_netTotal p) \<and>
     units (bp_grossTotal p) = units (bp_netTotal p) + units (bp_vatTotal p) \<and>
     units (bp_netTotal p) = (\<Sum>r\<leftarrow>bp_lines p. units (pr_netTotal r)) \<and> units (bp_vatTotal p) = (\<Sum>r\<leftarrow>bp_lines p. units (pr_vatTotal r))"

lemma priced_line_adds_up: "line_ok l \<Longrightarrow> line_adds_up (priced_line l)"
  by (simp add: line_adds_up_def priced_line_def Let_def pl_net_def line_ok_def adjusted_def line_discount_def)

lemma price_totals_units:
  "units (bp_automaticDiscountTotal (price_totals rs c n)) = (\<Sum>r\<leftarrow>rs. units (pr_automaticDiscountTotal r))"
  "units (bp_manualDiscountTotal (price_totals rs c n)) = (\<Sum>r\<leftarrow>rs. units (pr_manualDiscountTotal r))"
  "units (bp_loyaltyDiscountTotal (price_totals rs c n)) = (\<Sum>r\<leftarrow>rs. units (pr_loyaltyDiscountTotal r))"
  "units (bp_baseNetTotal (price_totals rs c n)) = (\<Sum>r\<leftarrow>rs. units (pr_baseNetTotal r))"
  "units (bp_netTotal (price_totals rs c n)) = (\<Sum>r\<leftarrow>rs. units (pr_netTotal r))"
  "units (bp_vatTotal (price_totals rs c n)) = (\<Sum>r\<leftarrow>rs. units (pr_vatTotal r))"
  "units (bp_grossTotal (price_totals rs c n)) = (\<Sum>r\<leftarrow>rs. units (pr_grossTotal r))"
  "bp_lines (price_totals rs c n) = rs" "bp_loyaltyPointsRedeemed (price_totals rs c n) = n"
  by (simp_all add: price_totals_def comp_def)

lemma price_totals_add_up: "\<forall>r \<in> set rs. line_adds_up r \<Longrightarrow> totals_add_up (price_totals rs c n)"
  by (induction rs) (auto simp: totals_add_up_def price_totals_units line_adds_up_def)

lemma finish_pricing_goods:
  assumes "keys_ok ls" and "\<forall>n v. points = Some (n, v) \<longrightarrow> 0 \<le> units v"
  obtains ls' n where "finish_pricing ls c points = price_totals (map priced_line ls') c n" "same_goods ls ls'"
    "(\<Sum>l\<leftarrow>ls'. pl_loyalty l) = (\<Sum>l\<leftarrow>ls. pl_loyalty l) + (case points of None \<Rightarrow> 0 | Some (_, v) \<Rightarrow> max 0 (units v * n))"
    "(\<Sum>l\<leftarrow>ls'. pl_automatic l) = (\<Sum>l\<leftarrow>ls. pl_automatic l)" "(\<Sum>l\<leftarrow>ls'. pl_manual l) = (\<Sum>l\<leftarrow>ls. pl_manual l)"
    "case points of None \<Rightarrow> n = 0 | Some (k, v) \<Rightarrow> n \<le> k \<and>
      max 0 (units v * n) \<le> max 0 (available_after ls - (\<Sum>l\<leftarrow>ls. pl_manual l))"
proof (cases points)
  case None
  with that [of ls 0] same_goods_refl [OF assms(1)] show thesis by (simp add: finish_pricing_def)
next
  case (Some p)
  obtain n v where p: "p = (n, v)" by (cases p)
  obtain k ls' where run: "apply_loyalty n v ls = (k, ls')" by (cases "apply_loyalty n v ls")
  have "0 \<le> units v" using assms(2) Some p by simp
  from apply_loyalty_goods [OF assms(1) run this] that [of ls' k] Some p run show thesis by (simp add: finish_pricing_def)
qed

lemma normalizeBasket_lines:
  assumes "normalizeBasket input = Inr b"
  shows "distinct (map bl_productId (bk_lines b))" and "map bl_productId (bk_lines b) = map bl_productId (bk_lines input)"
    and "\<forall>l \<in> set (bk_lines b). 0 < units (bl_quantity l)"
proof -
  from assms obtain ls where ls: "res_map normalizeLine (bk_lines input) = Inr ls" "bk_lines b = ls"
      and d: "distinct (map bl_productId (bk_lines input))"
    by (auto simp: normalizeBasket_def split: if_splits)
  from ls(1) have all: "list_all2 (\<lambda>x y. normalizeLine x = Inr y) (bk_lines input) ls" by (simp add: res_map_Inr_iff)
  have one: "bl_productId y = bl_productId x \<and> 0 < units (bl_quantity y)" if "normalizeLine x = Inr y" for x y
    using that by (auto simp: normalizeLine_def Let_def dest: decimal_Inr(2) split: if_splits)
  have "map bl_productId ls = map bl_productId (bk_lines input) \<and> (\<forall>l \<in> set ls. 0 < units (bl_quantity l))"
    using all by (induction rule: list_all2_induct) (auto dest: one)
  then show "distinct (map bl_productId (bk_lines b))" "map bl_productId (bk_lines b) = map bl_productId (bk_lines input)"
    "\<forall>l \<in> set (bk_lines b). 0 < units (bl_quantity l)" using d ls(2) by simp_all
qed


text \<open>Two bottles with a tenth off each pair, a euro off by the cashier, and two points of 0.50.\<close>

definition example_basket :: Basket where
  "example_basket = \<lparr>bk_customerPartnerId = Some 9, bk_lines =
     [\<lparr>bl_batchId = None, bl_productId = 1, bl_quantity = js ''2'', bl_serialNumbers = None\<rparr>,
      \<lparr>bl_batchId = None, bl_productId = 2, bl_quantity = js ''1.5'', bl_serialNumbers = None\<rparr>],
     bk_loyaltyPointsToRedeem = Some 2,
     bk_manualDiscount = Some \<lparr>md_authorizationId = None, md_discountType = Fixed_amount, md_discountValue = js ''1''\<rparr>,
     bk_shiftId = 7\<rparr>"

definition example_products :: "uuid \<Rightarrow> SaleProductRow option" where
  "example_products k = Some \<lparr>sp_category = 1, sp_name = js ''Bottle'', sp_code = js ''B'', sp_tracking = TrackNone,
     sp_unit_code = js ''pc'', sp_unit_price = Some (js ''10.0000''), sp_price_list = Some 3,
     sp_vat_treatment = Some Standard20, sp_warranty_months = None\<rparr>"

definition example_rules :: "CommercialRuleRow list" where
  "example_rules = [\<lparr>cr_code = js ''PAIR'', cr_discount_type = Percentage, cr_discount_value = js ''10.0000'',
     cr_items = [(1, js ''2.0000'')], cr_rule_type = QuantityRule\<rparr>]"

definition example_pricing :: PosBasketPricing where
  "example_pricing = (case normalizeBasket example_basket of Inr b \<Rightarrow>
     (case price_lines example_products example_rules b of Inr ls \<Rightarrow> finish_pricing ls 5 (Some (2, js ''0.5000''))))"

lemma example_priced:
  "(case normalizeBasket example_basket of Inl _ \<Rightarrow> False | Inr b \<Rightarrow>
     (case price_lines example_products example_rules b of Inl _ \<Rightarrow> False | Inr _ \<Rightarrow> True))"
  by code_simp


section \<open>Payments cover the sale\<close>

text \<open>What an accepted payment of each kind guarantees.\<close>

definition payment_backed :: "payment_sources \<Rightarrow> uuid option \<Rightarrow> PreparedSalePayment \<Rightarrow> bool" where
  "payment_backed src customer p \<longleftrightarrow> 0 < units (pp_amount p) \<and> (case pp_method p of
       Cash \<Rightarrow> (\<exists>t. pp_tenderedAmount p = Some t \<and> units (pp_changeAmount p) = units t - units (pp_amount p)) \<and> 0 \<le> units (pp_changeAmount p)
     | Advance \<Rightarrow> units (pp_changeAmount p) = 0 \<and> (\<exists>a owner available. pp_advanceId p = Some a \<and>
         ps_advance src a = Some (owner, available) \<and> customer = Some owner \<and> units (pp_amount p) \<le> units available)
     | OnAccount \<Rightarrow> units (pp_changeAmount p) = 0 \<and> (\<exists>c account. customer = Some c \<and> ps_terms src c = Some account \<and>
         pp_account p = Some account \<and> units (ac_outstanding_balance account) + units (pp_amount p) \<le> units (ac_credit_limit_eur account))
     | Card \<Rightarrow> units (pp_changeAmount p) = 0 \<and> ps_terminal src = TerminalSimulator \<and> \<not> ps_production src \<and>
         pp_status p = PaymentSimulated \<and> pp_providerReference p \<noteq> None)"

lemma zero_text: "units [48, 46, 48, 48, 48, 48] = 0"
  by code_simp

lemma prepare_payment_backed:
  assumes "prepare_payment src customer x = Inr p" and "0 < units (sp_amount x)"
  shows "payment_backed src customer p \<and> pp_amount p = sp_amount x \<and> pp_method p = sp_method x"
proof (cases "sp_method x")
  case Cash
  with assms show ?thesis
    by (auto simp: prepare_payment_def prepare_cash_def payment_backed_def no_payment_def Let_def split: if_splits)
next
  case Card
  with assms show ?thesis
    by (cases "ps_terminal src")
      (auto simp: prepare_payment_def prepare_card_def payment_backed_def no_payment_def zero_text split: if_splits)
next
  case OnAccount
  with assms show ?thesis
    by (auto simp: prepare_payment_def prepare_on_account_def payment_backed_def no_payment_def zero_text bind_eq_Some_conv
        split: if_splits option.splits)
next
  case Advance
  with assms show ?thesis
    by (auto simp: prepare_payment_def prepare_advance_def payment_backed_def no_payment_def zero_text
        split: if_splits option.splits)
qed

lemma normalizeSale_payments:
  assumes "normalizeSale input = Inr sale"
  shows "\<forall>x \<in> set (sq_payments sale). 0 < units (sp_amount x)"
proof -
  from assms obtain ps where ps: "res_map normalizePayment (sq_payments input) = Inr ps" "sq_payments sale = ps"
    by (auto simp: normalizeSale_def split: if_splits)
  have one: "0 < units (sp_amount y)" if "normalizePayment x = Inr y" for x y
    using that by (auto simp: normalizePayment_def dest: decimal_Inr(2))
  from ps(1) have "list_all2 (\<lambda>x y. normalizePayment x = Inr y) (sq_payments input) ps" by (simp add: res_map_Inr_iff)
  then show ?thesis unfolding ps(2) by (induction rule: list_all2_induct) (auto dest: one)
qed

text \<open>
  C21: the payments that are accepted for a sale cover its gross total exactly, at most one of each
  kind: change is given on cash only and is what was tendered above the amount, an advance belongs to
  the customer and holds the amount, an account stays within its credit limit, and a card is charged
  only through the simulator outside production.
\<close>

theorem payments_cover_sale:
  assumes "normalizeSale input = Inr sale" and "prepareSalePayments src (sq_payments sale) gross customer = Inr ps"
  shows "(\<Sum>p\<leftarrow>ps. units (pp_amount p)) = units gross \<and> distinct (map pp_method ps) \<and> (\<forall>p \<in> set ps. payment_backed src customer p)"
proof -
  let ?xs = "sq_payments sale"
  from assms(2) have run: "res_map (prepare_payment src customer) ?xs = Inr ps" "distinct (map sp_method ?xs)"
      "(\<Sum>x\<leftarrow>?xs. units (sp_amount x)) = units gross"
    by (auto simp: prepareSalePayments_def comp_def split: if_splits)
  from run(1) have "list_all2 (\<lambda>x y. prepare_payment src customer x = Inr y) ?xs ps" by (simp add: res_map_Inr_iff)
  then have "(\<forall>p \<in> set ps. payment_backed src customer p) \<and> map pp_amount ps = map sp_amount ?xs \<and> map pp_method ps = map sp_method ?xs"
    using normalizeSale_payments [OF assms(1)]
    by (induction rule: list_all2_induct) (auto dest: prepare_payment_backed)
  then have ok: "\<forall>p \<in> set ps. payment_backed src customer p" and amounts: "map pp_amount ps = map sp_amount ?xs"
    and methods: "map pp_method ps = map sp_method ?xs" by auto
  have "(\<Sum>p\<leftarrow>ps. units (pp_amount p)) = (\<Sum>t\<leftarrow>map pp_amount ps. units t)" by (simp add: comp_def)
  also have "\<dots> = units gross" unfolding amounts using run(3) by (simp add: comp_def)
  finally show ?thesis using ok methods run(2) by metis
qed

definition example_sale :: SaleRequest where
  "example_sale = \<lparr>bk_customerPartnerId = Some 9, bk_lines =
     [\<lparr>bl_batchId = None, bl_productId = 1, bl_quantity = js ''2'', bl_serialNumbers = None\<rparr>],
     bk_loyaltyPointsToRedeem = None, bk_manualDiscount = None, bk_shiftId = 7,
     sq_clientTransactionId = js ''t-1'', sq_customerLocationId = None, sq_payments =
     [\<lparr>sp_advanceId = Some 4, sp_amount = js ''14'', sp_method = Advance, sp_tenderedAmount = None\<rparr>,
      \<lparr>sp_advanceId = None, sp_amount = js ''10'', sp_method = Cash, sp_tenderedAmount = Some (js ''20'')\<rparr>]\<rparr>"

definition example_sources :: payment_sources where
  "example_sources = \<lparr>ps_advance = (\<lambda>a. if a = 4 then Some (9, js ''15.0000'') else None), ps_terms = (\<lambda>_. None),
     ps_authorize = (\<lambda>_. Inl (Api ''POS_PAYMENT_ADAPTER_UNAVAILABLE'')), ps_terminal = TerminalDisabled, ps_production = True\<rparr>"

definition example_payments :: "PreparedSalePayment list" where
  "example_payments = (case normalizeSale example_sale of Inr sale \<Rightarrow>
     (case prepareSalePayments example_sources (sq_payments sale) (js ''24.0000'') (Some 9) of Inr ps \<Rightarrow> ps))"

lemma example_paid:
  "(case normalizeSale example_sale of Inl _ \<Rightarrow> False | Inr sale \<Rightarrow>
     (case prepareSalePayments example_sources (sq_payments sale) (js ''24.0000'') (Some 9) of Inl _ \<Rightarrow> False
      | Inr ps \<Rightarrow> length ps = 2))"
  by code_simp

theorem payments_cover_sale_witness:
  "(\<Sum>p\<leftarrow>example_payments. units (pp_amount p)) = 240000 \<and> length example_payments = 2"
proof -
  obtain sale ps where "normalizeSale example_sale = Inr sale"
      "prepareSalePayments example_sources (sq_payments sale) (js ''24.0000'') (Some 9) = Inr ps" "length ps = 2"
    using example_paid by (auto split: sum.splits)
  moreover have "units (js ''24.0000'') = 240000" by code_simp
  ultimately show ?thesis using payments_cover_sale [of example_sale sale example_sources "js ''24.0000''" "Some 9" ps]
    by (simp add: example_payments_def)
qed

end
