(* ===== verification/PosTables.thy ===== *)
theory PosTables
  imports InventoryCommands PosPricing
begin

text \<open>
  The tables that \<open>apps/api/src/pos/pos.service.ts\<close> writes, on top of those of the warehouse
  (\<open>inv\<close>), and the statements its handlers share: \<open>lockShift\<close>, \<open>nextNumber\<close>,
  \<open>requireUsableFiscalMode\<close>, \<open>sideEffects\<close> and \<open>command\<close> with its idempotency keys. What the
  service only reads (registers, operators, customers, price lists, discount rules, the finance
  ledgers, the clock) are the answers in \<open>pos_env\<close>. Amounts of a table are integers of
  ten-thousandths, those of a JSON snapshot keep their text. Time stamps and labels of the
  responses are left out. The fiscal returns appear with what the other handlers read of them.
\<close>

section \<open>Rows\<close>

datatype fiscal_mode = FiscalDisabled | FiscalHardware | FiscalSimulator

record AssignmentRow =
  as_register :: uuid
  as_register_code :: jsstr
  as_operator :: uuid
  as_operator_code :: jsstr
  as_warehouse :: uuid
  as_fiscal_mode :: fiscal_mode
  as_payment_terminal :: PaymentTerminalMode

record ShiftRow =
  sh_id :: uuid
  sh_number :: jsstr
  sh_register :: uuid
  sh_operator :: uuid
  sh_warehouse :: uuid
  sh_open :: bool
  sh_opening_cash :: int
  sh_closing_cash :: "int option"
  sh_opened_by :: uuid
  sh_closed_by :: "uuid option"
  sh_version :: int

datatype document_type = FiscalReceiptNo | SaleNo | ShiftNo | WarrantyCardNo

text \<open>A line of a checkout with the product and the price it was prepared with.\<close>

record ReadySaleLine =
  rd_input :: BasketLine
  rd_product :: SaleProductRow
  rd_price :: PosBasketPricedLine

record FiscalSalePricingSnapshot =
  sn_basketPricing :: PosBasketPricing
  sn_payments :: "PreparedSalePayment list"
  sn_preparedLines :: "ReadySaleLine list"

datatype preparation_status = Prepared | Printing | OutcomeUnknown | ReceiptConfirmed | Finalized | Cancelled

record fiscal_receipt =
  fr_changeEur :: jsstr
  fr_fiscalDocumentNumber :: jsstr
  fr_fiscalReceiptsSinceDailyReport :: "jsstr option"
  fr_uniqueSaleId :: jsstr

record FiscalSalePreparationRow =
  fp_id :: uuid
  fp_transaction :: jsstr
  fp_shift :: uuid
  fp_register :: uuid
  fp_operator :: uuid
  fp_cashier :: uuid
  fp_device :: jsstr
  fp_operator_identifier :: jsstr
  fp_unique_sale_id :: jsstr
  fp_request_digest :: jsstr
  fp_request :: SaleRequest
  fp_pricing :: FiscalSalePricingSnapshot
  fp_status :: preparation_status
  fp_document_number :: "jsstr option"
  fp_receipt_number :: "jsstr option"
  fp_response :: "fiscal_receipt option"
  fp_cancellation_confirmed :: bool
  fp_finalized_sale :: "uuid option"

record unp_lease_row =
  ul_unique_sale_id :: jsstr
  ul_device :: jsstr
  ul_operator_identifier :: jsstr
  ul_register :: uuid
  ul_account :: uuid
  ul_transaction :: "jsstr option"
  ul_preparation :: "uuid option"

datatype return_preparation_status = ReturnPrepared | ReturnPrinting | ReturnOutcomeUnknown | ReturnDone

record return_preparation_row =
  rp_register :: uuid
  rp_shift :: uuid
  rp_status :: return_preparation_status

datatype report_type = XReport | ZReport

datatype report_status = ReportPrepared | ReportPrinting | ReportOutcomeUnknown | ReportCompleted | ReportFailed

text \<open>What the printer answers to a daily report: the totals of the tax groups A to H in this order.\<close>

record report_result =
  rr_fiscalRecordNumber :: jsstr
  rr_nonVatSalesTotalEur :: jsstr
  rr_taxGroupTotals :: "jsstr list"

record FiscalDailyReportRow =
  dr_id :: uuid
  dr_shift :: uuid
  dr_register :: uuid
  dr_operator :: uuid
  dr_cashier :: uuid
  dr_type :: report_type
  dr_status :: report_status
  dr_closing_cash :: "int option"
  dr_shift_version :: "int option"
  dr_result :: "report_result option"
  dr_failure :: "jsstr option"

record discount_authorization_row =
  da_id :: uuid
  da_shift :: uuid
  da_cashier :: uuid
  da_type :: PosDiscountType
  da_value :: int
  da_basket_digest :: jsstr
  da_expires_at :: int
  da_sale :: "uuid option"
  da_preparation :: "uuid option"

record loyalty_reservation_row =
  lo_preparation :: uuid
  lo_account :: uuid
  lo_points :: int
  lo_active :: bool

datatype loyalty_entry_type = Earned | Redeemed

record loyalty_entry =
  le_account :: uuid
  le_type :: loyalty_entry_type
  le_points :: int
  le_sale :: uuid

datatype sale_fiscal_status = Simulated | Fiscalized

record SaleRow =
  sa_id :: uuid
  sa_number :: jsstr
  sa_transaction :: jsstr
  sa_shift :: uuid
  sa_register :: uuid
  sa_operator :: uuid
  sa_warehouse :: uuid
  sa_customer :: "uuid option"
  sa_location :: "uuid option"
  sa_net :: int
  sa_vat :: int
  sa_gross :: int
  sa_base_net :: int
  sa_automatic :: int
  sa_manual :: int
  sa_loyalty :: int
  sa_points_redeemed :: int
  sa_points_earned :: int
  sa_fiscal_status :: sale_fiscal_status
  sa_receipt_number :: jsstr
  sa_completed_by :: uuid
  sa_authorization :: "uuid option"

record SaleLineRow =
  sl_id :: uuid
  sl_sale :: uuid
  sl_product :: uuid
  sl_quantity :: int
  sl_unit_price :: int
  sl_vat_treatment :: PosVatTreatment
  sl_net :: int
  sl_vat :: int
  sl_gross :: int
  sl_base_net :: int
  sl_automatic :: int
  sl_manual :: int
  sl_loyalty :: int
  sl_movement :: uuid
  sl_batch :: "uuid option"

record PaymentRow =
  py_sale :: uuid
  py_method :: payment_method
  py_amount :: int
  py_tendered :: "int option"
  py_change :: int
  py_reference :: "jsstr option"
  py_adapter :: jsstr
  py_status :: payment_status
  py_advance :: "uuid option"

record advance_entry =
  ad_advance :: uuid
  ad_amount :: int
  ad_sale :: uuid

record account_entry =
  ae_customer :: uuid
  ae_terms :: account_terms
  ae_amount :: int
  ae_sale :: uuid

record equipment_row =
  eq_id :: uuid
  eq_location :: uuid
  eq_product :: uuid
  eq_item :: uuid
  eq_serial_number :: jsstr
  eq_warranty_months :: "nat option"
  eq_active :: bool
  eq_sale :: uuid

record warranty_card_row =
  wc_number :: jsstr
  wc_customer :: uuid
  wc_location :: uuid
  wc_equipment :: uuid
  wc_sale :: uuid

record fiscal_operation_row =
  fo_sale :: uuid
  fo_external_reference :: jsstr
  fo_fiscalized :: bool

section \<open>Responses\<close>

record PosShift =
  psh_row :: ShiftRow
  psh_expectedCashEur :: int

record PosFiscalReceiptLine =
  fl_description :: jsstr
  fl_discountEur :: "jsstr option"
  fl_grossTotalEur :: jsstr
  fl_quantity :: jsstr
  fl_unitCode :: jsstr
  fl_unitPriceEur :: jsstr
  fl_vatTreatment :: PosVatTreatment

record PosFiscalSalePreparation =
  pf_cashTenderedEur :: jsstr
  pf_changeEur :: jsstr
  pf_deviceSerial :: jsstr
  pf_fiscalDocumentNumber :: "jsstr option"
  pf_fiscalReceiptNumber :: "jsstr option"
  pf_id :: uuid
  pf_lines :: "PosFiscalReceiptLine list"
  pf_status :: preparation_status
  pf_totalGrossEur :: jsstr
  pf_uniqueSaleId :: jsstr

record PosSale =
  psa_sale :: SaleRow
  psa_lines :: "SaleLineRow list"
  psa_payments :: "PaymentRow list"

record datecs_unp_lease =
  lp_cashRegisterId :: uuid
  lp_deviceSerial :: jsstr
  lp_operatorIdentifier :: jsstr
  lp_uniqueSaleIds :: "jsstr list"

datatype pos_response = ShiftDone PosShift | PreparationDone PosFiscalSalePreparation | SaleDone PosSale
  | LeaseDone datecs_unp_lease | ReportDone FiscalDailyReportRow

record pos_key_row =
  pk_request_hash :: jsstr
  pk_status :: idempotency_status
  pk_response :: "pos_response option"

section \<open>Database\<close>

text \<open>\<open>batch_reserved\<close> is the column \<open>reserved_quantity\<close> of the batch balances, which only the register uses.\<close>

record pos_db =
  inv :: inv_db
  pos_keys :: "((string \<times> jsstr) \<times> pos_key_row) list"
  batch_reserved :: "((uuid \<times> uuid) \<times> int) list"
  shifts :: "ShiftRow list"
  document_sequences :: "((uuid \<times> uuid \<times> document_type) \<times> nat) list"
  unp_sequences :: "((jsstr \<times> jsstr) \<times> nat) list"
  unp_leases :: "unp_lease_row list"
  preparations :: "FiscalSalePreparationRow list"
  return_preparations :: "return_preparation_row list"
  daily_reports :: "FiscalDailyReportRow list"
  discount_authorizations :: "discount_authorization_row list"
  loyalty_reservations :: "loyalty_reservation_row list"
  loyalty_ledger :: "loyalty_entry list"
  sales :: "SaleRow list"
  sale_lines :: "SaleLineRow list"
  sale_line_serials :: "(uuid \<times> uuid \<times> jsstr) list"
  payments :: "PaymentRow list"
  cash_refunds :: "(uuid \<times> int) list"
  advance_entries :: "advance_entry list"
  account_entries :: "account_entry list"
  equipment :: "equipment_row list"
  warranty_cards :: "warranty_card_row list"
  fiscal_operations :: "fiscal_operation_row list"

type_synonym 'a pos_tx = "(pos_db, inv_error, 'a) tx"

record loyalty_account =
  la_id :: uuid
  la_active :: bool
  la_redemption_value :: jsstr
  la_earn_points :: int

text \<open>The normal forms whose digests identify a request.\<close>

datatype pos_payload = OpenShiftPayload uuid jsstr | CloseShiftPayload uuid jsstr int
  | LeasePayload jsstr jsstr uuid | PreparePayload jsstr SaleRequest jsstr "jsstr option"
  | PreparationPayload uuid jsstr | ConfirmPayload uuid fiscal_receipt | SalePayload SaleRequest
  | ReportPayload uuid report_type "jsstr option" "int option" | ReportStepPayload uuid jsstr
  | ReportConfirmPayload uuid report_result

record pos_env =
  pe_inv :: inv_env
  pe_assignment :: "uuid \<Rightarrow> uuid \<Rightarrow> AssignmentRow option"
  pe_operator_account :: "uuid \<Rightarrow> uuid option"
  pe_configured_mode :: "uuid \<Rightarrow> fiscal_mode option"
  pe_product :: "uuid \<Rightarrow> uuid option \<Rightarrow> uuid \<Rightarrow> SaleProductRow option"
  pe_rules :: "uuid list \<Rightarrow> CommercialRuleRow list"
  pe_customer :: "uuid \<Rightarrow> bool"
  pe_location :: "uuid \<Rightarrow> uuid \<Rightarrow> bool"
  pe_loyalty :: "uuid \<Rightarrow> loyalty_account option"
  pe_advance :: "advance_entry list \<Rightarrow> uuid \<Rightarrow> (uuid \<times> jsstr) option"
  pe_terms :: "account_entry list \<Rightarrow> uuid \<Rightarrow> account_terms option"
  pe_authorize :: "jsstr \<Rightarrow> jsstr \<Rightarrow> inv_error + (jsstr \<times> jsstr)"
  pe_digest :: "pos_payload \<Rightarrow> jsstr"
  pe_basket_digest :: "SaleRequest \<Rightarrow> ManualDiscount \<Rightarrow> jsstr"
  pe_by_serial :: "serial_row list \<Rightarrow> serial_row list"
  pe_production :: bool
  pe_year :: jsstr
  pe_now :: int

section \<open>Statements\<close>

text \<open>A statement on the tables of the warehouse.\<close>

definition lift_inv :: "'a inv_tx \<Rightarrow> 'a pos_tx" where
  "lift_inv m s = (case m (inv s) of Inl e \<Rightarrow> Inl e | Inr (a, i) \<Rightarrow> Inr (a, s\<lparr>inv := i\<rparr>))"

definition newUUID :: "uuid pos_tx" where
  "newUUID = lift_inv randomUUID"

definition posSideEffects :: "jsstr \<Rightarrow> uuid \<Rightarrow> jsstr \<Rightarrow> uuid \<Rightarrow> jsstr \<Rightarrow> unit pos_tx" where
  "posSideEffects type i event accountId key = lift_inv (sideEffects type i event accountId key)"

text \<open>\<open>required(rows[0], message)\<close>\<close>

definition required_row :: "(pos_db \<Rightarrow> 'a option) \<Rightarrow> string \<Rightarrow> 'a pos_tx" where
  "required_row q message = tx_row q (InternalError message)"

definition expected_cash :: "pos_db \<Rightarrow> ShiftRow \<Rightarrow> int" where
  "expected_cash s sh = sh_opening_cash sh +
     sum_where (\<lambda>p. py_method p = Cash \<and> list_ex (\<lambda>x. sa_id x = py_sale p \<and> sa_shift x = sh_id sh) (sales s)) py_amount (payments s) -
     sum_where (\<lambda>(i, _). i = sh_id sh) snd (cash_refunds s)"

definition mapShift :: "pos_db \<Rightarrow> ShiftRow \<Rightarrow> PosShift" where
  "mapShift s row = \<lparr>psh_row = row, psh_expectedCashEur = expected_cash s row\<rparr>"

definition find_shift :: "pos_db \<Rightarrow> uuid \<Rightarrow> ShiftRow option" where
  "find_shift s i = find (\<lambda>x. sh_id x = i) (shifts s)"

definition shift :: "uuid \<Rightarrow> PosShift pos_tx" where
  "shift i = required_row (\<lambda>s. case find_shift s i of None \<Rightarrow> None | Some row \<Rightarrow> Some (mapShift s row)) ''POS shift lookup failed''"

definition lockShift :: "pos_env \<Rightarrow> uuid \<Rightarrow> uuid \<Rightarrow> ShiftRow pos_tx" where
  "lockShift env shiftId accountId = tx_row (\<lambda>s. case find_shift s shiftId of None \<Rightarrow> None
     | Some row \<Rightarrow> if pe_operator_account env (sh_operator row) = Some accountId \<and> sh_open row then Some row else None)
     (Api ''POS_SHIFT_NOT_OPEN'')"

definition requireUsableFiscalMode :: "pos_env \<Rightarrow> fiscal_mode \<Rightarrow> unit pos_tx" where
  "requireUsableFiscalMode env mode =
     tx_bind (tx_require (mode \<noteq> FiscalDisabled) (Api ''POS_FISCAL_DEVICE_NOT_ASSIGNED'')) (\<lambda>_.
     tx_require (\<not> (mode = FiscalSimulator \<and> pe_production env)) (Api ''POS_FISCAL_SIMULATOR_FORBIDDEN''))"

definition nextNumber :: "pos_env \<Rightarrow> AssignmentRow \<Rightarrow> document_type \<Rightarrow> jsstr \<Rightarrow> jsstr pos_tx" where
  "nextNumber env terminal type prefix = (let k = (as_register terminal, as_operator terminal, type) in
     tx_bind (tx_reads (\<lambda>s. case map_of (document_sequences s) k of None \<Rightarrow> 1 | Some n \<Rightarrow> n)) (\<lambda>allocated.
     tx_bind (tx_writes (\<lambda>s. s\<lparr>document_sequences := AList.update k (allocated + 1) (document_sequences s)\<rparr>)) (\<lambda>_.
     tx_return (prefix @ [45] @ as_register_code terminal @ [45] @ as_operator_code terminal @ [45] @ pe_year env @ [45] @
       padStart 6 48 (nat_digits allocated)))))"

definition requireCustomer :: "pos_env \<Rightarrow> uuid option \<Rightarrow> uuid option \<Rightarrow> unit pos_tx" where
  "requireCustomer env customer location = (case customer of None \<Rightarrow> tx_return ()
     | Some c \<Rightarrow>
         tx_bind (tx_require (pe_customer env c) (Api ''POS_CUSTOMER_NOT_FOUND'')) (\<lambda>_.
         tx_require (case location of None \<Rightarrow> True | Some l \<Rightarrow> pe_location env c l) (Api ''POS_CUSTOMER_LOCATION_NOT_FOUND'')))"

text \<open>The unresolved actions of a printer.\<close>

definition unresolved_sale :: "FiscalSalePreparationRow \<Rightarrow> bool" where
  "unresolved_sale p \<longleftrightarrow> fp_status p \<in> {Prepared, Printing, OutcomeUnknown, ReceiptConfirmed}"

definition unresolved_report :: "FiscalDailyReportRow \<Rightarrow> bool" where
  "unresolved_report r \<longleftrightarrow> dr_status r \<in> {ReportPrepared, ReportPrinting, ReportOutcomeUnknown}"

definition unresolved_return :: "return_preparation_row \<Rightarrow> bool" where
  "unresolved_return r \<longleftrightarrow> rp_status r \<in> {ReturnPrepared, ReturnPrinting, ReturnOutcomeUnknown}"

definition require_no :: "(pos_db \<Rightarrow> bool) \<Rightarrow> string \<Rightarrow> unit pos_tx" where
  "require_no q code = tx_bind (tx_reads q) (\<lambda>found. tx_require (\<not> found) (Api code))"

section \<open>Commands\<close>

definition pos_validKey :: "jsstr option \<Rightarrow> inv_error + jsstr" where
  "pos_validKey value = (case value of None \<Rightarrow> Inl (Api ''IDEMPOTENCY_KEY_REQUIRED'')
     | Some v \<Rightarrow> let key = trim v in
         if key = [] \<or> 255 < length key then Inl (Api ''IDEMPOTENCY_KEY_REQUIRED'') else Inr key)"

definition pos_claim :: "string \<Rightarrow> jsstr \<Rightarrow> jsstr \<Rightarrow> (pos_response \<Rightarrow> bool) \<Rightarrow> pos_response option pos_tx" where
  "pos_claim scope key hash isResponse =
     tx_bind (tx_reads (\<lambda>s. map_of (pos_keys s) (scope, key))) (\<lambda>found. case found of
       None \<Rightarrow> tx_bind (tx_writes (\<lambda>s. s\<lparr>pos_keys := AList.update (scope, key)
           \<lparr>pk_request_hash = hash, pk_status = Processing, pk_response = None\<rparr> (pos_keys s)\<rparr>)) (\<lambda>_. tx_return None)
     | Some row \<Rightarrow>
         tx_bind (tx_require (pk_request_hash row = hash) (Api ''IDEMPOTENCY_KEY_REUSED'')) (\<lambda>_.
         case pk_response row of
           Some r \<Rightarrow> if pk_status row = Completed \<and> isResponse r then tx_return (Some r)
                     else tx_throw (Api ''IDEMPOTENCY_REQUEST_INCOMPLETE'')
         | None \<Rightarrow> tx_throw (Api ''IDEMPOTENCY_REQUEST_INCOMPLETE'')))"

definition pos_complete_key :: "string \<Rightarrow> jsstr \<Rightarrow> pos_response \<Rightarrow> unit pos_tx" where
  "pos_complete_key scope key result = tx_writes (\<lambda>s. case map_of (pos_keys s) (scope, key) of None \<Rightarrow> s
     | Some row \<Rightarrow> s\<lparr>pos_keys := AList.update (scope, key) (row\<lparr>pk_status := Completed, pk_response := Some result\<rparr>) (pos_keys s)\<rparr>)"

definition pos_command :: "string \<Rightarrow> jsstr option \<Rightarrow> jsstr \<Rightarrow> (pos_response \<Rightarrow> bool) \<Rightarrow> (jsstr \<Rightarrow> pos_response pos_tx) \<Rightarrow>
    pos_response pos_tx" where
  "pos_command scope key requestHash isResponse action =
     tx_bind (tx_res (pos_validKey key)) (\<lambda>commandKey.
     tx_bind (pos_claim scope commandKey requestHash isResponse) (\<lambda>replay. case replay of
       Some r \<Rightarrow> tx_return r
     | None \<Rightarrow> tx_bind (action commandKey) (\<lambda>result.
         tx_bind (pos_complete_key scope commandKey result) (\<lambda>_. tx_return result))))"

text \<open>COMMIT, or ROLLBACK after an exception.\<close>

definition transact :: "'a pos_tx \<Rightarrow> pos_db \<Rightarrow> (inv_error + 'a) \<times> pos_db" where
  "transact m s = (case m s of Inl e \<Rightarrow> (Inl e, s) | Inr (a, s') \<Rightarrow> (Inr a, s'))"

end
