(* ===== verification/PosReceipt.thy ===== *)
theory PosReceipt
  imports PosTables DatecsText
begin

text \<open>
  The receipt of a prepared fiscal sale (\<open>mapFiscalSalePreparation\<close> of
  \<open>apps/api/src/pos/pos.service.ts\<close>): what the server hands to the terminal, in whole cents.
\<close>

section \<open>The receipt\<close>

text \<open>\<open>quantity.replace(/0+$/u, '').replace(/\.$/u, '')\<close>\<close>

definition receipt_quantity :: "jsstr \<Rightarrow> jsstr" where
  "receipt_quantity q = (let t = strip_zeros q in if t \<noteq> [] \<and> last t = 46 then butlast t else t)"

definition receipt_line :: "ReadySaleLine \<Rightarrow> inv_error + PosFiscalReceiptLine" where
  "receipt_line line = (case sp_unit_price (rd_product line) of
       None \<Rightarrow> Inl (InternalError ''Missing POS unit price'')
     | Some unitPriceNet \<Rightarrow> case sp_vat_treatment (rd_product line) of
       None \<Rightarrow> Inl (InternalError ''Missing POS VAT'')
     | Some treatment \<Rightarrow>
         let unitPriceGross = add unitPriceNet (vat unitPriceNet treatment);
             preDiscountGross = multiply unitPriceGross (bl_quantity (rd_input line));
             discount = subtract preDiscountGross (pr_grossTotal (rd_price line))
         in res_bind (fiscalMinorUnitAmount unitPriceGross) (\<lambda>unitPrice.
            res_bind (fiscalMinorUnitAmount (pr_grossTotal (rd_price line))) (\<lambda>grossTotal.
            res_bind (fiscalMinorUnitAmount discount) (\<lambda>formattedDiscount.
            if units discount < 0 then Inl (Api ''POS_FISCAL_LINE_ROUNDING_UNSUPPORTED'')
            else if units (multiply unitPrice (bl_quantity (rd_input line))) - units formattedDiscount \<noteq> units grossTotal
            then Inl (Api ''POS_FISCAL_LINE_ROUNDING_UNSUPPORTED'')
            else Inr \<lparr>fl_description = sp_name (rd_product line),
              fl_discountEur = (if 0 < units formattedDiscount then Some formattedDiscount else None),
              fl_grossTotalEur = grossTotal, fl_quantity = receipt_quantity (bl_quantity (rd_input line)),
              fl_unitCode = sp_unit_code (rd_product line), fl_unitPriceEur = unitPrice, fl_vatTreatment = treatment\<rparr>))))"

definition mapFiscalSalePreparation :: "FiscalSalePreparationRow \<Rightarrow> inv_error + PosFiscalSalePreparation" where
  "mapFiscalSalePreparation row = (case sn_payments (fp_pricing row) of
       [] \<Rightarrow> Inl (InternalError ''A DATECS preparation is missing its cash tender snapshot.'')
     | payment # _ \<Rightarrow> (case truthy (pp_tenderedAmount payment) of
       None \<Rightarrow> Inl (InternalError ''A DATECS preparation is missing its cash tender snapshot.'')
     | Some tendered \<Rightarrow>
         if pp_method payment \<noteq> Cash then Inl (InternalError ''A DATECS preparation is missing its cash tender snapshot.'')
         else res_bind (res_map receipt_line (sn_preparedLines (fp_pricing row))) (\<lambda>ls.
         res_bind (fiscalMinorUnitAmount (bp_grossTotal (sn_basketPricing (fp_pricing row)))) (\<lambda>totalGross.
         res_bind (fiscalMinorUnitAmount tendered) (\<lambda>cashTendered.
         res_bind (fiscalMinorUnitAmount (pp_changeAmount payment)) (\<lambda>change.
         if units (sum_texts_of (map fl_grossTotalEur ls)) \<noteq> units totalGross \<or>
            units cashTendered - units totalGross \<noteq> units change
         then Inl (Api ''POS_FISCAL_TOTAL_ROUNDING_UNSUPPORTED'')
         else Inr \<lparr>pf_cashTenderedEur = cashTendered, pf_changeEur = change, pf_deviceSerial = fp_device row,
           pf_fiscalDocumentNumber = fp_document_number row, pf_fiscalReceiptNumber = fp_receipt_number row,
           pf_id = fp_id row, pf_lines = ls, pf_status = fp_status row, pf_totalGrossEur = totalGross,
           pf_uniqueSaleId = fp_unique_sale_id row\<rparr>))))))"

section \<open>Whole cents\<close>

lemma formatCents_split:
  assumes "0 \<le> c"
  obtains a b where "formatCents c = a @ 46 # b" "a \<noteq> []" "length b = 2" "\<forall>x \<in> set (a @ b). is_digit x"
    "int (digits_val (a @ b)) = c"
proof
  let ?a = "nat_digits (nat (c div 100))" and ?b = "padStart 2 48 (nat_digits (nat (c mod 100)))"
  show "formatCents c = ?a @ 46 # ?b"
    using assms by (simp add: formatCents_def bigint_toString_def sdiv_nonneg smod_nonneg pos_imp_zdiv_neg_iff not_less
        order.strict_iff_not [of "c mod 100" 0])
  show "?a \<noteq> []" by simp
  show "length ?b = 2" by (rule cents_text(2) [OF assms])
  show "\<forall>x \<in> set (?a @ ?b). is_digit x"
    using nat_digits_are_digits by (auto simp: padStart_def is_digit_def)
  show "int (digits_val (?a @ ?b)) = c" by (rule cents_text(3) [OF assms])
qed

lemma cents_of_amount:
  assumes "fiscalMinorUnitAmount v = Inr t"
  shows "units t = units v" and "0 \<le> units v" and "units v mod 100 = 0" and "t = formatCents (units v div 100)"
    and "parseCents t = Inr (units v div 100)"
proof -
  from assms have v: "0 \<le> units v" "units v smod 100 = 0"
    and t: "t = bigint_toString (units v sdiv 100 sdiv 100) @ [46] @ padStart 2 48 (bigint_toString (units v sdiv 100 smod 100))"
    by (auto simp: fiscalMinorUnitAmount_def Let_def split: if_splits)
  show "0 \<le> units v" by (rule v(1))
  show m: "units v mod 100 = 0" using v by (simp add: smod_nonneg)
  let ?c = "units v div 100"
  have c: "0 \<le> ?c" using v(1) by (simp add: pos_imp_zdiv_nonneg_iff)
  show f: "t = formatCents ?c" using t v(1) c by (simp add: formatCents_def Let_def sdiv_nonneg smod_nonneg)
  show "parseCents t = Inr ?c" unfolding f by (rule parseCents_format [OF c])
  obtain a b where ab: "formatCents ?c = a @ 46 # b" "length b = 2" "\<forall>x \<in> set (a @ b). is_digit x"
      "int (digits_val (a @ b)) = ?c"
    using c by (rule formatCents_split)
  have "units t = int (digits_val (a @ b @ replicate 2 48))"
    unfolding f ab(1) using ab(2,3) by (simp add: units_def split_fixed padEnd_def BigInt_digits is_digit_def)
  also have "\<dots> = ?c * 100" using ab(4) digits_val_append [of "a @ b" "replicate 2 48"]
    by simp
  also have "\<dots> = units v" using m mult_div_mod_eq [of 100 "units v"] by simp
  finally show "units t = units v" .
qed

text \<open>What a mapped receipt guarantees, in ten-thousandths of a euro.\<close>

definition discount_of :: "PosFiscalReceiptLine \<Rightarrow> int" where
  "discount_of l = (case fl_discountEur l of None \<Rightarrow> 0 | Some d \<Rightarrow> units d)"

lemma receipt_line_parts:
  assumes "receipt_line line = Inr l"
  shows "units (fl_grossTotalEur l) = units (pr_grossTotal (rd_price line))"
    and "units (multiply (fl_unitPriceEur l) (bl_quantity (rd_input line))) = units (fl_grossTotalEur l) + discount_of l"
    and "fl_quantity l = receipt_quantity (bl_quantity (rd_input line))"
    and "\<exists>v. fiscalMinorUnitAmount v = Inr (fl_unitPriceEur l)" and "\<exists>v. fiscalMinorUnitAmount v = Inr (fl_grossTotalEur l)"
    and "\<forall>d. fl_discountEur l = Some d \<longrightarrow> (\<exists>v. fiscalMinorUnitAmount v = Inr d)" and "0 \<le> discount_of l"
proof -
  from assms obtain p tr price gross disc where run:
      "fiscalMinorUnitAmount (add p (vat p tr)) = Inr price" "fiscalMinorUnitAmount (pr_grossTotal (rd_price line)) = Inr gross"
      "fiscalMinorUnitAmount (subtract (multiply (add p (vat p tr)) (bl_quantity (rd_input line))) (pr_grossTotal (rd_price line))) = Inr disc"
      "units (multiply price (bl_quantity (rd_input line))) - units disc = units gross"
      "fl_grossTotalEur l = gross" "fl_unitPriceEur l = price" "fl_quantity l = receipt_quantity (bl_quantity (rd_input line))"
      "fl_discountEur l = (if 0 < units disc then Some disc else None)"
    unfolding receipt_line_def Let_def by (auto simp del: units_arith split: option.splits if_splits)
  have "0 \<le> units disc" using cents_of_amount(1,2) [OF run(3)] by simp
  then have d: "discount_of l = units disc" by (simp add: discount_of_def run(8))
  show "units (fl_grossTotalEur l) = units (pr_grossTotal (rd_price line))" using cents_of_amount(1) [OF run(2)] run(5) by simp
  show "units (multiply (fl_unitPriceEur l) (bl_quantity (rd_input line))) = units (fl_grossTotalEur l) + discount_of l"
    using run(4-6) d by simp
  show "0 \<le> discount_of l" using d \<open>0 \<le> units disc\<close> by simp
  show "\<forall>d. fl_discountEur l = Some d \<longrightarrow> (\<exists>v. fiscalMinorUnitAmount v = Inr d)" using run(3,8) by auto
qed (use assms in \<open>auto simp: receipt_line_def Let_def split: option.splits if_splits\<close>)

lemma mapped_parts:
  assumes "mapFiscalSalePreparation row = Inr p"
  shows "list_all2 (\<lambda>line l. receipt_line line = Inr l) (sn_preparedLines (fp_pricing row)) (pf_lines p)"
    and "(\<Sum>l\<leftarrow>pf_lines p. units (fl_grossTotalEur l)) = units (pf_totalGrossEur p)"
    and "units (pf_cashTenderedEur p) - units (pf_totalGrossEur p) = units (pf_changeEur p)"
    and "fiscalMinorUnitAmount (bp_grossTotal (sn_basketPricing (fp_pricing row))) = Inr (pf_totalGrossEur p)"
    and "\<exists>v. fiscalMinorUnitAmount v = Inr (pf_cashTenderedEur p)" and "\<exists>v. fiscalMinorUnitAmount v = Inr (pf_changeEur p)"
    and "pf_status p = fp_status row" and "pf_id p = fp_id row" and "pf_uniqueSaleId p = fp_unique_sale_id row"
  using assms unfolding mapFiscalSalePreparation_def
  by (auto simp: res_map_Inr_iff comp_def split: list.splits option.splits if_splits)

definition normal_quantities :: "FiscalSalePreparationRow \<Rightarrow> bool" where
  "normal_quantities row \<longleftrightarrow> (\<forall>line \<in> set (sn_preparedLines (fp_pricing row)).
     \<exists>v. dto_decimal v \<and> bl_quantity (rd_input line) = normalizeQuantity v)"

end
