(* ===== verification/PosFiscal.thy ===== *)
theory PosFiscal
  imports PosReceipt
begin

text \<open>
  Shifts, receipt references and fiscal sales of \<open>apps/api/src/pos/pos.service.ts\<close> up to the
  confirmed receipt: \<open>openShift\<close>, \<open>closeShift\<close>, \<open>reserveDatecsUnpLease\<close>, \<open>prepareFiscalSale\<close>,
  \<open>markFiscalSalePrinting\<close>, \<open>markFiscalSaleOutcomeUnknown\<close>, \<open>cancelFiscalSalePreparation\<close> and the first
  transaction of \<open>confirmFiscalSaleReceipt\<close>. Every body is the callback that \<open>command\<close> runs.
\<close>

section \<open>Shifts\<close>

definition insert_shift :: "ShiftRow \<Rightarrow> unit pos_tx" where
  "insert_shift row =
     tx_bind (tx_require (fits (sh_opening_cash row)) NumericOverflow) (\<lambda>_.
     tx_bind (tx_reads shifts) (\<lambda>rows.
     tx_bind (tx_require (\<not> list_ex (\<lambda>x. sh_number x = sh_number row) rows) (UniqueViolation ''shifts_shift_number_key'')) (\<lambda>_.
     tx_bind (tx_require (\<not> list_ex (\<lambda>x. sh_open x \<and> sh_operator x = sh_operator row) rows)
       (UniqueViolation ''pos_shift_operator_open_unique'')) (\<lambda>_.
     tx_writes (\<lambda>s. s\<lparr>shifts := shifts s @ [row]\<rparr>)))))"

definition openShift_body :: "pos_env \<Rightarrow> uuid \<Rightarrow> uuid \<Rightarrow> jsstr \<Rightarrow> jsstr \<Rightarrow> pos_response pos_tx" where
  "openShift_body env accountId cashRegisterId openingCash key =
     tx_bind (require_no (\<lambda>s. list_ex (\<lambda>x. sh_open x \<and> (sh_opened_by x = accountId \<or> sh_register x = cashRegisterId)) (shifts s))
       ''POS_SHIFT_ALREADY_OPEN'') (\<lambda>_.
     tx_bind (tx_row (\<lambda>_. pe_assignment env accountId cashRegisterId) (Api ''POS_REGISTER_NOT_ASSIGNED'')) (\<lambda>selected.
     tx_bind (requireUsableFiscalMode env (as_fiscal_mode selected)) (\<lambda>_.
     tx_bind newUUID (\<lambda>shiftId.
     tx_bind (nextNumber env selected ShiftNo (js ''SHIFT'')) (\<lambda>shiftNumber.
     tx_bind (insert_shift \<lparr>sh_id = shiftId, sh_number = shiftNumber, sh_register = as_register selected,
        sh_operator = as_operator selected, sh_warehouse = as_warehouse selected, sh_open = True,
        sh_opening_cash = units openingCash, sh_closing_cash = None, sh_opened_by = accountId, sh_closed_by = None,
        sh_version = 1\<rparr>) (\<lambda>_.
     tx_bind (shift shiftId) (\<lambda>result.
     tx_bind (posSideEffects (js ''pos_shift'') shiftId (js ''pos.shift.opened'') accountId key) (\<lambda>_.
     tx_return (ShiftDone result)))))))))"

text \<open>UPDATE pos.shifts \<open>...\<close> WHERE id = $1 AND version = $4, with the row count.\<close>

definition close_shift_row :: "uuid \<Rightarrow> uuid \<Rightarrow> int \<Rightarrow> int \<Rightarrow> bool pos_tx" where
  "close_shift_row i accountId closing version =
     tx_bind (tx_require (fits closing) NumericOverflow) (\<lambda>_.
     tx_bind (tx_reads (\<lambda>s. list_ex (\<lambda>x. sh_id x = i \<and> sh_version x = version) (shifts s))) (\<lambda>found.
     tx_bind (tx_writes (\<lambda>s. s\<lparr>shifts := update_where (\<lambda>x. sh_id x = i \<and> sh_version x = version)
        (\<lambda>x. x\<lparr>sh_open := False, sh_closing_cash := Some closing, sh_closed_by := Some accountId,
          sh_version := sh_version x + 1\<rparr>) (shifts s)\<rparr>)) (\<lambda>_. tx_return found)))"

definition closeShift_body :: "pos_env \<Rightarrow> uuid \<Rightarrow> uuid \<Rightarrow> jsstr \<Rightarrow> int \<Rightarrow> jsstr \<Rightarrow> pos_response pos_tx" where
  "closeShift_body env accountId i closingCash version key =
     tx_bind (lockShift env i accountId) (\<lambda>locked.
     tx_bind (require_no (\<lambda>s. list_ex (\<lambda>p. fp_shift p = i \<and> unresolved_sale p) (preparations s) \<or>
        list_ex (\<lambda>r. rp_shift r = i \<and> unresolved_return r) (return_preparations s)) ''POS_FISCAL_SALE_REQUIRES_REVIEW'') (\<lambda>_.
     tx_bind (tx_require (pe_configured_mode env (sh_register locked) \<noteq> Some FiscalHardware)
       (Api ''POS_FISCAL_Z_REPORT_REQUIRED'')) (\<lambda>_.
     tx_bind (close_shift_row i accountId (units closingCash) version) (\<lambda>updated.
     tx_bind (tx_require updated (Api ''POS_SHIFT_CONFLICT'')) (\<lambda>_.
     tx_bind (shift i) (\<lambda>result.
     tx_bind (posSideEffects (js ''pos_shift'') i (js ''pos.shift.closed'') accountId key) (\<lambda>_.
     tx_return (ShiftDone result))))))))"

section \<open>Receipt references\<close>

text \<open>The unique sale number: device, operator and seven digits.\<close>

definition unp :: "jsstr \<Rightarrow> jsstr \<Rightarrow> nat \<Rightarrow> jsstr" where
  "unp deviceSerial operatorIdentifier n =
     deviceSerial @ [45] @ operatorIdentifier @ [45] @ padStart 7 48 (nat_digits n)"

definition unp_number :: "jsstr \<Rightarrow> nat" where
  "unp_number t = digits_val (take 7 (drop 14 t))"

definition device_format :: "jsstr \<Rightarrow> jsstr \<Rightarrow> bool" where
  "device_format deviceSerial operatorIdentifier \<longleftrightarrow> rx [(is_upnum, 8, 8)] deviceSerial \<and> rx [(is_upnum, 4, 4)] operatorIdentifier"

definition ensure_sequence :: "jsstr \<Rightarrow> jsstr \<Rightarrow> unit pos_tx" where
  "ensure_sequence deviceSerial operatorIdentifier =
     tx_bind (tx_require (device_format deviceSerial operatorIdentifier) (CheckViolation ''datecs_unp_serial_valid'')) (\<lambda>_.
     tx_writes (\<lambda>s. case map_of (unp_sequences s) (deviceSerial, operatorIdentifier) of
       None \<Rightarrow> s\<lparr>unp_sequences := AList.update (deviceSerial, operatorIdentifier) 1 (unp_sequences s)\<rparr> | Some _ \<Rightarrow> s))"

definition set_sequence :: "jsstr \<Rightarrow> jsstr \<Rightarrow> nat \<Rightarrow> unit pos_tx" where
  "set_sequence deviceSerial operatorIdentifier n = tx_writes (\<lambda>s.
     s\<lparr>unp_sequences := AList.update (deviceSerial, operatorIdentifier) n (unp_sequences s)\<rparr>)"

definition sequence_value :: "pos_db \<Rightarrow> jsstr \<Rightarrow> jsstr \<Rightarrow> nat" where
  "sequence_value s deviceSerial operatorIdentifier =
     (case map_of (unp_sequences s) (deviceSerial, operatorIdentifier) of None \<Rightarrow> 0 | Some n \<Rightarrow> n)"

definition available_leases :: "pos_db \<Rightarrow> uuid \<Rightarrow> uuid \<Rightarrow> jsstr \<Rightarrow> jsstr \<Rightarrow> unp_lease_row list" where
  "available_leases s register accountId deviceSerial operatorIdentifier =
     sort_key (\<lambda>l. unp_number (ul_unique_sale_id l)) (filter (\<lambda>l. ul_register l = register \<and> ul_account l = accountId \<and>
       ul_device l = deviceSerial \<and> ul_operator_identifier l = operatorIdentifier \<and> ul_transaction l = None) (unp_leases s))"

definition insert_lease :: "unp_lease_row \<Rightarrow> unit pos_tx" where
  "insert_lease row =
     tx_bind (tx_reads unp_leases) (\<lambda>rows.
     tx_bind (tx_require (\<not> list_ex (\<lambda>x. ul_unique_sale_id x = ul_unique_sale_id row) rows)
       (UniqueViolation ''datecs_unp_leases_pkey'')) (\<lambda>_.
     tx_writes (\<lambda>s. s\<lparr>unp_leases := unp_leases s @ [row]\<rparr>)))"

definition DATECS_UNP_OFFLINE_BUFFER_SIZE :: nat where
  "DATECS_UNP_OFFLINE_BUFFER_SIZE = 20"

definition require_hardware :: "pos_env \<Rightarrow> AssignmentRow \<Rightarrow> ShiftRow \<Rightarrow> unit pos_tx" where
  "require_hardware env terminal sh =
     tx_bind (tx_require (as_warehouse terminal = sh_warehouse sh) (Api ''POS_TERMINAL_CHANGED'')) (\<lambda>_.
     tx_bind (requireUsableFiscalMode env (as_fiscal_mode terminal)) (\<lambda>_.
     tx_require (as_fiscal_mode terminal = FiscalHardware) (Api ''POS_DATECS_HARDWARE_REQUIRED'')))"

definition shift_terminal :: "pos_env \<Rightarrow> uuid \<Rightarrow> ShiftRow \<Rightarrow> AssignmentRow pos_tx" where
  "shift_terminal env accountId sh = required_row (\<lambda>_. pe_assignment env accountId (sh_register sh)) ''POS terminal lookup failed''"

text \<open>The references that the offline buffer of a register lacks.\<close>

definition top_up_leases :: "uuid \<Rightarrow> uuid \<Rightarrow> jsstr \<Rightarrow> jsstr \<Rightarrow> nat \<Rightarrow> nat \<Rightarrow> unit pos_tx" where
  "top_up_leases register accountId deviceSerial operatorIdentifier nextValue missing = (if missing = 0 then tx_return () else
     tx_bind (tx_require (\<not> (nextValue = 0 \<or> nextValue + missing > 10000000)) (Api ''POS_DATECS_UNP_SEQUENCE_EXHAUSTED'')) (\<lambda>_.
     tx_bind (set_sequence deviceSerial operatorIdentifier (nextValue + missing)) (\<lambda>_.
     tx_for (\<lambda>offset. insert_lease \<lparr>ul_unique_sale_id = unp deviceSerial operatorIdentifier (nextValue + offset),
       ul_device = deviceSerial, ul_operator_identifier = operatorIdentifier, ul_register = register, ul_account = accountId,
       ul_transaction = None, ul_preparation = None\<rparr>) [0..<missing])))"

definition reserveDatecsUnpLease_body :: "pos_env \<Rightarrow> uuid \<Rightarrow> jsstr \<Rightarrow> jsstr \<Rightarrow> uuid \<Rightarrow> jsstr \<Rightarrow> pos_response pos_tx" where
  "reserveDatecsUnpLease_body env accountId deviceSerial operatorIdentifier shiftId key =
     tx_bind (lockShift env shiftId accountId) (\<lambda>sh.
     tx_bind (shift_terminal env accountId sh) (\<lambda>terminal.
     tx_bind (require_hardware env terminal sh) (\<lambda>_.
     tx_bind (ensure_sequence deviceSerial operatorIdentifier) (\<lambda>_.
     tx_bind (tx_reads (\<lambda>s. sequence_value s deviceSerial operatorIdentifier)) (\<lambda>nextValue.
     tx_bind (tx_reads (\<lambda>s. available_leases s (sh_register sh) accountId deviceSerial operatorIdentifier)) (\<lambda>available.
     let missing = DATECS_UNP_OFFLINE_BUFFER_SIZE - length available in
     tx_bind (top_up_leases (sh_register sh) accountId deviceSerial operatorIdentifier nextValue missing) (\<lambda>_.
     tx_bind (posSideEffects (js ''pos_cash_register'') (sh_register sh) (js ''pos.datecs.unp_lease.reserved'') accountId key) (\<lambda>_.
     tx_return (LeaseDone \<lparr>lp_cashRegisterId = sh_register sh, lp_deviceSerial = deviceSerial,
       lp_operatorIdentifier = operatorIdentifier, lp_uniqueSaleIds = map ul_unique_sale_id available @
         map (\<lambda>offset. unp deviceSerial operatorIdentifier (nextValue + offset)) [0..<missing]\<rparr>)))))))))"

section \<open>Pricing from the database\<close>

record LoyaltyAccount =
  lc_account :: loyalty_account
  lc_balance :: int

definition loyaltyAccount :: "pos_env \<Rightarrow> uuid \<Rightarrow> LoyaltyAccount option pos_tx" where
  "loyaltyAccount env customer = tx_reads (\<lambda>s. case pe_loyalty env customer of None \<Rightarrow> None
     | Some a \<Rightarrow> Some \<lparr>lc_account = a, lc_balance = sum_where (\<lambda>e. le_account e = la_id a) le_points (loyalty_ledger s) -
         sum_where (\<lambda>r. lo_account r = la_id a \<and> lo_active r) lo_points (loyalty_reservations s)\<rparr>)"

text \<open>The products of a basket that are active and stocked in the warehouse.\<close>

definition sale_product :: "pos_env \<Rightarrow> pos_db \<Rightarrow> uuid \<Rightarrow> uuid option \<Rightarrow> uuid \<Rightarrow> SaleProductRow option" where
  "sale_product env s w customer p = (if map_of (stock_balances (inv s)) (w, p) = None then None else pe_product env w customer p)"

definition requireProducts :: "pos_env \<Rightarrow> uuid \<Rightarrow> uuid option \<Rightarrow> uuid list \<Rightarrow> (uuid \<Rightarrow> SaleProductRow option) pos_tx" where
  "requireProducts env w customer ps =
     tx_bind (tx_reads (\<lambda>s. sale_product env s w customer)) (\<lambda>products.
     tx_bind (tx_require (list_all (\<lambda>p. products p \<noteq> None) ps) (Api ''POS_PRODUCT_UNAVAILABLE'')) (\<lambda>_.
     tx_return products))"

definition require_authorization :: "pos_env \<Rightarrow> uuid \<Rightarrow> SaleRequest \<Rightarrow> unit pos_tx" where
  "require_authorization env accountId input = (case bk_manualDiscount input of None \<Rightarrow> tx_return ()
     | Some d \<Rightarrow> (case md_authorizationId d of None \<Rightarrow> tx_throw (Api ''POS_DISCOUNT_AUTHORIZATION_REQUIRED'')
       | Some i \<Rightarrow>
           tx_bind (tx_row (\<lambda>s. find (\<lambda>x. da_id x = i \<and> da_shift x = bk_shiftId input \<and> da_cashier x = accountId \<and>
              da_type x = md_discountType d \<and> da_value x = units (md_discountValue d) \<and> pe_now env < da_expires_at x)
              (discount_authorizations s)) (Api ''POS_DISCOUNT_AUTHORIZATION_INVALID'')) (\<lambda>record.
           tx_require (da_sale record = None \<and> da_preparation record = None \<and>
             da_basket_digest record = pe_basket_digest env input d) (Api ''POS_DISCOUNT_AUTHORIZATION_INVALID''))))"

definition points_of :: "SaleRequest \<Rightarrow> int" where
  "points_of input = (case bk_loyaltyPointsToRedeem input of None \<Rightarrow> 0 | Some n \<Rightarrow> n)"

definition prepareBasketPricing :: "pos_env \<Rightarrow> ShiftRow \<Rightarrow> SaleRequest \<Rightarrow> uuid \<Rightarrow> bool \<Rightarrow> PosBasketPricing pos_tx" where
  "prepareBasketPricing env sh input accountId requireAuthorization =
     tx_bind (requireCustomer env (bk_customerPartnerId input) None) (\<lambda>_.
     tx_bind (requireProducts env (sh_warehouse sh) (bk_customerPartnerId input) (map bl_productId (bk_lines input))) (\<lambda>products.
     tx_bind (tx_res (price_lines products (pe_rules env (map bl_productId (bk_lines input))) input)) (\<lambda>prepared.
     tx_bind (if requireAuthorization then require_authorization env accountId input else tx_return ()) (\<lambda>_.
     tx_bind (case bk_customerPartnerId input of None \<Rightarrow> tx_return None | Some c \<Rightarrow> loyaltyAccount env c) (\<lambda>account.
     let balance = (case account of None \<Rightarrow> 0 | Some a \<Rightarrow> lc_balance a) in
     if points_of input > 0 then
       tx_bind (tx_row (\<lambda>_. case account of None \<Rightarrow> None | Some a \<Rightarrow> if la_active (lc_account a) then Some a else None)
         (Api ''POS_LOYALTY_ACCOUNT_REQUIRED'')) (\<lambda>a.
       tx_bind (tx_require (points_of input \<le> balance) (Api ''POS_LOYALTY_BALANCE_EXCEEDED'')) (\<lambda>_.
       tx_return (finish_pricing prepared balance (Some (points_of input, la_redemption_value (lc_account a))))))
     else tx_return (finish_pricing prepared balance None))))))"

section \<open>Lines of a sale\<close>

text \<open>The checks of a line's product, price, serial numbers and batch.\<close>

definition check_line :: "SaleRequest \<Rightarrow> BasketLine \<Rightarrow> SaleProductRow \<Rightarrow> inv_error + unit" where
  "check_line sale line product =
     (if truthy (sp_unit_price product) = None then Inl (Api ''POS_PRICE_UNAVAILABLE'')
      else if sp_vat_treatment product = None then Inl (Api ''POS_VAT_UNCONFIGURED'')
      else if sp_tracking product = TrackSerial \<and>
        (\<not> isWhole (bl_quantity line) \<or> int (length (serials line)) * 10000 \<noteq> units (bl_quantity line))
      then Inl (Api ''POS_SERIAL_SELECTION_REQUIRED'')
      else if sp_tracking product = TrackSerial \<and> (bk_customerPartnerId sale = None \<or> sq_customerLocationId sale = None)
      then Inl (Api ''POS_SERIAL_CUSTOMER_REQUIRED'')
      else if sp_tracking product \<noteq> TrackSerial \<and> serials line \<noteq> [] then Inl (Api ''POS_SERIAL_NOT_ALLOWED'')
      else if sp_tracking product = TrackBatch \<and> bl_batchId line = None then Inl (Api ''POS_BATCH_REQUIRED'')
      else if sp_tracking product \<noteq> TrackBatch \<and> bl_batchId line \<noteq> None then Inl (Api ''POS_BATCH_NOT_ALLOWED'')
      else Inr ())"

definition ready_line :: "(uuid \<Rightarrow> SaleProductRow option) \<Rightarrow> SaleRequest \<Rightarrow> PosBasketPricing \<Rightarrow> BasketLine \<Rightarrow> inv_error + ReadySaleLine" where
  "ready_line products sale pricing line = (case products (bl_productId line) of
       None \<Rightarrow> Inl (InternalError ''POS product lookup failed'')
     | Some product \<Rightarrow> res_bind (check_line sale line product) (\<lambda>_.
         case find (\<lambda>r. pr_productId r = bl_productId line) (bp_lines pricing) of
           None \<Rightarrow> Inl (InternalError ''POS basket pricing line lookup failed'')
         | Some totals \<Rightarrow> Inr \<lparr>rd_input = line, rd_product = product, rd_price = totals\<rparr>))"

definition available_quantity :: "pos_db \<Rightarrow> uuid \<Rightarrow> uuid \<Rightarrow> int" where
  "available_quantity s w p = (case map_of (stock_balances (inv s)) (w, p) of None \<Rightarrow> 0
     | Some b \<Rightarrow> bal_quantity b - reserved (inv s) w p)"

definition batch_held :: "pos_db \<Rightarrow> uuid \<Rightarrow> uuid \<Rightarrow> int" where
  "batch_held s w b = (case map_of (batch_reserved s) (w, b) of None \<Rightarrow> 0 | Some q \<Rightarrow> q)"

definition batch_free :: "pos_db \<Rightarrow> uuid \<Rightarrow> uuid \<Rightarrow> int \<Rightarrow> bool" where
  "batch_free s w b q \<longleftrightarrow> (case map_of (batch_balances (inv s)) (w, b) of None \<Rightarrow> False | Some onHand \<Rightarrow> q \<le> onHand - batch_held s w b)"

definition batch_of :: "pos_db \<Rightarrow> uuid \<Rightarrow> uuid \<Rightarrow> bool" where
  "batch_of s b p = list_ex (\<lambda>x. ba_id x = b \<and> ba_product x = p) (batches (inv s))"

text \<open>The serial items of a line in their order, if they are all free.\<close>

definition serial_items :: "pos_env \<Rightarrow> (inv_db \<Rightarrow> uuid \<Rightarrow> bool) \<Rightarrow> uuid \<Rightarrow> BasketLine \<Rightarrow> serial_row list pos_tx" where
  "serial_items env ok w line = (if serials line = [] then tx_return [] else
     tx_bind (tx_reads (\<lambda>s. filter (\<lambda>x. se_product x = bl_productId line \<and> se_warehouse x = w \<and> se_status x = Available \<and>
        env_upper (pe_inv env) (se_number x) \<in> set (map (toUpperCase (env_tbl (pe_inv env))) (serials line)) \<and> ok (inv s) (se_id x))
        (serialized_items (inv s)))) (\<lambda>items.
     tx_bind (tx_require (length items = length (serials line)) (Api ''POS_SERIAL_UNAVAILABLE'')) (\<lambda>_.
     tx_return (pe_by_serial env items))))"

definition prepare_line :: "pos_env \<Rightarrow> uuid \<Rightarrow> (uuid \<Rightarrow> SaleProductRow option) \<Rightarrow> SaleRequest \<Rightarrow> PosBasketPricing \<Rightarrow> BasketLine \<Rightarrow>
    (ReadySaleLine \<times> serial_row list) pos_tx" where
  "prepare_line env w products sale pricing line =
     tx_bind (tx_res (ready_line products sale pricing line)) (\<lambda>ready.
     tx_bind (tx_reads (\<lambda>s. available_quantity s w (bl_productId line))) (\<lambda>available.
     tx_bind (tx_require (\<not> available < units (bl_quantity line)) (Api ''POS_STOCK_UNAVAILABLE'')) (\<lambda>_.
     tx_bind (tx_reads (\<lambda>s. case bl_batchId line of None \<Rightarrow> True
        | Some b \<Rightarrow> batch_of s b (bl_productId line) \<and> batch_free s w b (units (bl_quantity line)))) (\<lambda>supplied.
     tx_bind (tx_require supplied (Api ''POS_BATCH_UNAVAILABLE'')) (\<lambda>_.
     tx_bind (serial_items env (\<lambda>i x. \<not> item_reserved i x) w line) (\<lambda>items.
     tx_return (ready, items)))))))"

definition sources_of :: "pos_env \<Rightarrow> pos_db \<Rightarrow> AssignmentRow \<Rightarrow> jsstr \<Rightarrow> payment_sources" where
  "sources_of env s terminal transaction = \<lparr>ps_advance = pe_advance env (advance_entries s),
     ps_terms = pe_terms env (account_entries s), ps_authorize = pe_authorize env transaction,
     ps_terminal = as_payment_terminal terminal, ps_production = pe_production env\<rparr>"

definition prepare_payments :: "pos_env \<Rightarrow> AssignmentRow \<Rightarrow> SaleRequest \<Rightarrow> jsstr \<Rightarrow> PreparedSalePayment list pos_tx" where
  "prepare_payments env terminal sale grossTotal =
     tx_bind (tx_reads (\<lambda>s. sources_of env s terminal (sq_clientTransactionId sale))) (\<lambda>sources.
     tx_res (prepareSalePayments sources (sq_payments sale) grossTotal (bk_customerPartnerId sale)))"

section \<open>Preparing a fiscal sale\<close>

record PreparePosFiscalSaleRequest =
  rq_sale :: SaleRequest
  rq_deviceSerial :: jsstr
  rq_operatorIdentifier :: jsstr
  rq_uniqueSaleId :: "jsstr option"

text \<open>A lease of the register if there is one, or the next number of the sequence.\<close>

definition choose_unp :: "uuid \<Rightarrow> uuid \<Rightarrow> jsstr \<Rightarrow> jsstr \<Rightarrow> jsstr option \<Rightarrow> (jsstr \<times> bool) pos_tx" where
  "choose_unp register accountId deviceSerial operatorIdentifier requested =
     tx_bind (tx_reads (\<lambda>s. filter (\<lambda>l. case requested of None \<Rightarrow> True | Some r \<Rightarrow> ul_unique_sale_id l = r)
        (available_leases s register accountId deviceSerial operatorIdentifier))) (\<lambda>leases.
     case leases of
       l # _ \<Rightarrow> tx_return (ul_unique_sale_id l, True)
     | [] \<Rightarrow>
         tx_bind (tx_require (truthy requested = None) (Api ''POS_DATECS_UNP_LEASE_UNAVAILABLE'')) (\<lambda>_.
         tx_bind (ensure_sequence deviceSerial operatorIdentifier) (\<lambda>_.
         tx_bind (tx_reads (\<lambda>s. sequence_value s deviceSerial operatorIdentifier)) (\<lambda>n.
         tx_bind (tx_require (n \<le> 9999999) (Api ''POS_DATECS_UNP_SEQUENCE_EXHAUSTED'')) (\<lambda>_.
         tx_bind (set_sequence deviceSerial operatorIdentifier (n + 1)) (\<lambda>_.
         tx_return (unp deviceSerial operatorIdentifier n, False)))))))"

definition insert_preparation :: "FiscalSalePreparationRow \<Rightarrow> unit pos_tx" where
  "insert_preparation row =
     tx_bind (tx_require (device_format (fp_device row) (fp_operator_identifier row))
       (CheckViolation ''pos_fiscal_preparation_device_serial_valid'')) (\<lambda>_.
     tx_bind (tx_reads preparations) (\<lambda>rows.
     tx_bind (tx_require (\<not> list_ex (\<lambda>x. fp_transaction x = fp_transaction row) rows)
       (UniqueViolation ''fiscal_sale_preparations_client_transaction_id_key'')) (\<lambda>_.
     tx_bind (tx_require (\<not> list_ex (\<lambda>x. fp_unique_sale_id x = fp_unique_sale_id row) rows)
       (UniqueViolation ''fiscal_sale_preparations_unique_sale_id_key'')) (\<lambda>_.
     tx_bind (tx_require (\<not> list_ex (\<lambda>x. fp_register x = fp_register row \<and> unresolved_sale x) rows)
       (UniqueViolation ''pos_fiscal_preparation_one_unresolved_per_register'')) (\<lambda>_.
     tx_writes (\<lambda>s. s\<lparr>preparations := preparations s @ [row]\<rparr>))))))"

definition claim_lease :: "jsstr \<Rightarrow> jsstr \<Rightarrow> uuid \<Rightarrow> unit pos_tx" where
  "claim_lease i transaction preparationId =
     tx_bind (tx_reads (\<lambda>s. list_ex (\<lambda>l. ul_unique_sale_id l = i \<and> ul_transaction l = None) (unp_leases s))) (\<lambda>claimed.
     tx_bind (tx_writes (\<lambda>s. s\<lparr>unp_leases := update_where (\<lambda>l. ul_unique_sale_id l = i \<and> ul_transaction l = None)
        (\<lambda>l. l\<lparr>ul_transaction := Some transaction, ul_preparation := Some preparationId\<rparr>) (unp_leases s)\<rparr>)) (\<lambda>_.
     tx_require claimed (Api ''POS_DATECS_UNP_LEASE_UNAVAILABLE'')))"

definition hold_authorization :: "pos_env \<Rightarrow> SaleRequest \<Rightarrow> uuid \<Rightarrow> unit pos_tx" where
  "hold_authorization env sale preparationId = (case Option.bind (bk_manualDiscount sale) md_authorizationId of None \<Rightarrow> tx_return ()
     | Some i \<Rightarrow>
         let free = (\<lambda>x. da_id x = i \<and> da_sale x = None \<and> da_preparation x = None \<and> pe_now env < da_expires_at x) in
         tx_bind (tx_reads (\<lambda>s. list_ex free (discount_authorizations s))) (\<lambda>held.
         tx_bind (tx_writes (\<lambda>s. s\<lparr>discount_authorizations := update_where free (\<lambda>x. x\<lparr>da_preparation := Some preparationId\<rparr>)
            (discount_authorizations s)\<rparr>)) (\<lambda>_.
         tx_require held (Api ''POS_DISCOUNT_AUTHORIZATION_INVALID''))))"

definition hold_points :: "pos_env \<Rightarrow> SaleRequest \<Rightarrow> PosBasketPricing \<Rightarrow> uuid \<Rightarrow> unit pos_tx" where
  "hold_points env sale pricing preparationId = (case bk_customerPartnerId sale of None \<Rightarrow> tx_return ()
     | Some c \<Rightarrow> if bp_loyaltyPointsRedeemed pricing \<le> 0 then tx_return () else
         tx_bind (tx_row (\<lambda>_. case pe_loyalty env c of None \<Rightarrow> None | Some a \<Rightarrow> if la_active a then Some a else None)
           (Api ''POS_LOYALTY_ACCOUNT_REQUIRED'')) (\<lambda>a.
         tx_writes (\<lambda>s. s\<lparr>loyalty_reservations := loyalty_reservations s @ [\<lparr>lo_preparation = preparationId, lo_account = la_id a,
           lo_points = bp_loyaltyPointsRedeemed pricing, lo_active = True\<rparr>]\<rparr>)))"

definition hold_batch :: "uuid \<Rightarrow> uuid \<Rightarrow> int \<Rightarrow> unit pos_tx" where
  "hold_batch w b q =
     tx_bind (tx_reads (\<lambda>s. batch_free s w b q)) (\<lambda>ok.
     tx_bind (tx_require ok (Api ''POS_BATCH_UNAVAILABLE'')) (\<lambda>_.
     tx_writes (\<lambda>s. s\<lparr>batch_reserved := AList.update (w, b) (batch_held s w b + q) (batch_reserved s)\<rparr>)))"

definition hold_line :: "uuid \<Rightarrow> uuid \<Rightarrow> ReadySaleLine \<times> serial_row list \<Rightarrow> unit pos_tx" where
  "hold_line w preparationId = (\<lambda>(line, items). let q = units (bl_quantity (rd_input line)) in
     tx_bind newUUID (\<lambda>reservationId.
     tx_bind (lift_inv (insert_reservation \<lparr>rs_id = reservationId, rs_warehouse = w, rs_product = bl_productId (rd_input line),
        rs_reference_type = PosFiscalPreparation, rs_reference_id = uuid_text preparationId, rs_initial = q, rs_remaining = q,
        rs_status = Active, rs_ended_by = None, rs_version = 1\<rparr>)) (\<lambda>_.
     tx_bind (case bl_batchId (rd_input line) of None \<Rightarrow> tx_return () | Some b \<Rightarrow> hold_batch w b q) (\<lambda>_.
     tx_for (\<lambda>x. lift_inv (reserve_item reservationId (se_id x))) items))))"

definition fiscalSalePreparation :: "uuid \<Rightarrow> PosFiscalSalePreparation pos_tx" where
  "fiscalSalePreparation i =
     tx_bind (required_row (\<lambda>s. find (\<lambda>p. fp_id p = i) (preparations s)) ''POS fiscal-sale preparation lookup failed'') (\<lambda>row.
     tx_res (mapFiscalSalePreparation row))"

text \<open>What must not be pending at the register of the shift.\<close>

definition require_no_pending :: "ShiftRow \<Rightarrow> unit pos_tx" where
  "require_no_pending sh =
     tx_bind (require_no (\<lambda>s. list_ex (\<lambda>r. dr_shift r = sh_id sh \<and> unresolved_report r) (daily_reports s))
       ''POS_FISCAL_REPORT_REQUIRES_REVIEW'') (\<lambda>_.
     require_no (\<lambda>s. list_ex (\<lambda>r. rp_register r = sh_register sh \<and> unresolved_return r) (return_preparations s))
       ''POS_FISCAL_RETURN_REQUIRES_REVIEW'')"

text \<open>The new preparation: pricing, payments, reference and holds.\<close>

definition new_preparation :: "pos_env \<Rightarrow> uuid \<Rightarrow> ShiftRow \<Rightarrow> AssignmentRow \<Rightarrow> SaleRequest \<Rightarrow> jsstr \<Rightarrow> jsstr \<Rightarrow> jsstr option \<Rightarrow>
    jsstr \<Rightarrow> jsstr \<Rightarrow> pos_response pos_tx" where
  "new_preparation env accountId sh terminal sale deviceSerial operatorIdentifier requested requestDigest key =
     (let w = sh_warehouse sh in
     tx_bind (requireCustomer env (bk_customerPartnerId sale) (sq_customerLocationId sale)) (\<lambda>_.
     tx_bind (requireProducts env w (bk_customerPartnerId sale) (map bl_productId (bk_lines sale))) (\<lambda>products.
     tx_bind (prepareBasketPricing env sh sale accountId True) (\<lambda>pricing.
     tx_bind (tx_map (prepare_line env w products sale pricing) (bk_lines sale)) (\<lambda>prepared.
     tx_bind (prepare_payments env terminal sale (bp_grossTotal pricing)) (\<lambda>paid.
     tx_bind newUUID (\<lambda>preparationId.
     tx_bind (choose_unp (sh_register sh) accountId deviceSerial operatorIdentifier requested) (\<lambda>(uniqueSaleId, leased).
     tx_bind (insert_preparation \<lparr>fp_id = preparationId, fp_transaction = sq_clientTransactionId sale, fp_shift = sh_id sh,
        fp_register = as_register terminal, fp_operator = as_operator terminal, fp_cashier = accountId, fp_device = deviceSerial,
        fp_operator_identifier = operatorIdentifier, fp_unique_sale_id = uniqueSaleId, fp_request_digest = requestDigest,
        fp_request = sale, fp_pricing = \<lparr>sn_basketPricing = pricing, sn_payments = paid, sn_preparedLines = map fst prepared\<rparr>,
        fp_status = Prepared, fp_document_number = None, fp_receipt_number = None, fp_response = None,
        fp_cancellation_confirmed = False, fp_finalized_sale = None\<rparr>) (\<lambda>_.
     tx_bind (if leased then claim_lease uniqueSaleId (sq_clientTransactionId sale) preparationId else tx_return ()) (\<lambda>_.
     tx_bind (hold_authorization env sale preparationId) (\<lambda>_.
     tx_bind (hold_points env sale pricing preparationId) (\<lambda>_.
     tx_bind (tx_for (hold_line w preparationId) prepared) (\<lambda>_.
     tx_bind (fiscalSalePreparation preparationId) (\<lambda>preparation.
     tx_bind (posSideEffects (js ''pos_fiscal_sale_preparation'') preparationId (js ''pos.fiscal_sale.prepared'') accountId key) (\<lambda>_.
     tx_return (PreparationDone preparation))))))))))))))))"

definition prepareFiscalSale_body :: "pos_env \<Rightarrow> uuid \<Rightarrow> SaleRequest \<Rightarrow> jsstr \<Rightarrow> jsstr \<Rightarrow> jsstr option \<Rightarrow> jsstr \<Rightarrow> pos_response pos_tx" where
  "prepareFiscalSale_body env accountId sale deviceSerial operatorIdentifier requested key =
     (let requestDigest = pe_digest env (PreparePayload deviceSerial sale operatorIdentifier requested) in
     tx_bind (lockShift env (bk_shiftId sale) accountId) (\<lambda>sh.
     tx_bind (require_no_pending sh) (\<lambda>_.
     tx_bind (shift_terminal env accountId sh) (\<lambda>terminal.
     tx_bind (require_hardware env terminal sh) (\<lambda>_.
     tx_bind (tx_reads (\<lambda>s. find (\<lambda>p. fp_transaction p = sq_clientTransactionId sale) (preparations s))) (\<lambda>existing.
     case existing of
       Some row \<Rightarrow>
         tx_bind (tx_require (fp_cashier row = accountId \<and> fp_request_digest row = requestDigest) (Api ''POS_TRANSACTION_ID_REUSED'')) (\<lambda>_.
         tx_bind (tx_res (mapFiscalSalePreparation row)) (\<lambda>p. tx_return (PreparationDone p)))
     | None \<Rightarrow>
         tx_bind (require_no (\<lambda>s. list_ex (\<lambda>x. sa_transaction x = sq_clientTransactionId sale) (sales s))
           ''POS_TRANSACTION_ALREADY_COMPLETED'') (\<lambda>_.
         tx_bind (require_no (\<lambda>s. list_ex (\<lambda>p. fp_register p = as_register terminal \<and> unresolved_sale p) (preparations s))
           ''POS_FISCAL_SALE_REQUIRES_REVIEW'') (\<lambda>_.
         tx_bind (require_no (\<lambda>s. list_ex (\<lambda>r. rp_register r = as_register terminal \<and> unresolved_return r) (return_preparations s))
           ''POS_FISCAL_RETURN_REQUIRES_REVIEW'') (\<lambda>_.
         new_preparation env accountId sh terminal sale deviceSerial operatorIdentifier requested requestDigest key)))))))))"

section \<open>Steps of a prepared sale\<close>

definition find_preparation :: "uuid \<Rightarrow> uuid \<Rightarrow> FiscalSalePreparationRow pos_tx" where
  "find_preparation i accountId = required_row (\<lambda>s. find (\<lambda>p. fp_id p = i \<and> fp_cashier p = accountId) (preparations s))
     ''Fiscal sale preparation was not found''"

definition update_preparation :: "uuid \<Rightarrow> (FiscalSalePreparationRow \<Rightarrow> FiscalSalePreparationRow) \<Rightarrow> unit pos_tx" where
  "update_preparation i f = tx_writes (\<lambda>s. s\<lparr>preparations := update_where (\<lambda>p. fp_id p = i) f (preparations s)\<rparr>)"

text \<open>The end of every step: read the row again, record the event, answer.\<close>

definition preparation_done :: "uuid \<Rightarrow> jsstr \<Rightarrow> uuid \<Rightarrow> jsstr \<Rightarrow> pos_response pos_tx" where
  "preparation_done i event accountId key =
     tx_bind (fiscalSalePreparation i) (\<lambda>p.
     tx_bind (posSideEffects (js ''pos_fiscal_sale_preparation'') i event accountId key) (\<lambda>_.
     tx_return (PreparationDone p)))"

definition as_it_is :: "FiscalSalePreparationRow \<Rightarrow> pos_response pos_tx" where
  "as_it_is row = tx_bind (tx_res (mapFiscalSalePreparation row)) (\<lambda>p. tx_return (PreparationDone p))"

definition markFiscalSalePrinting_body :: "uuid \<Rightarrow> uuid \<Rightarrow> jsstr \<Rightarrow> pos_response pos_tx" where
  "markFiscalSalePrinting_body accountId i key =
     tx_bind (find_preparation i accountId) (\<lambda>row.
     if fp_status row = Printing then as_it_is row else
     tx_bind (tx_require (fp_status row = Prepared) (Api ''POS_FISCAL_PREPARATION_STATE_CONFLICT'')) (\<lambda>_.
     tx_bind (update_preparation i (\<lambda>p. p\<lparr>fp_status := Printing\<rparr>)) (\<lambda>_.
     preparation_done i (js ''pos.fiscal_sale.printing_started'') accountId key)))"

definition markFiscalSaleOutcomeUnknown_body :: "uuid \<Rightarrow> uuid \<Rightarrow> jsstr \<Rightarrow> pos_response pos_tx" where
  "markFiscalSaleOutcomeUnknown_body accountId i key =
     tx_bind (find_preparation i accountId) (\<lambda>row.
     if fp_status row = OutcomeUnknown then as_it_is row else
     tx_bind (tx_require (fp_status row = Printing) (Api ''POS_FISCAL_PREPARATION_STATE_CONFLICT'')) (\<lambda>_.
     tx_bind (update_preparation i (\<lambda>p. p\<lparr>fp_status := OutcomeUnknown\<rparr>)) (\<lambda>_.
     preparation_done i (js ''pos.fiscal_sale.outcome_requires_review'') accountId key)))"

text \<open>The holds of a preparation on stock, discount approval and points.\<close>

definition held_by :: "uuid \<Rightarrow> ReservationRow \<Rightarrow> bool" where
  "held_by i r \<longleftrightarrow> rs_reference_type r = PosFiscalPreparation \<and> rs_reference_id r = uuid_text i \<and> rs_status r = Active"

definition free_serial_holds :: "uuid \<Rightarrow> unit pos_tx" where
  "free_serial_holds i = lift_inv (tx_writes (\<lambda>s. s\<lparr>reservation_serials := update_where
     (\<lambda>x. rsi_active x \<and> list_ex (\<lambda>r. rs_id r = rsi_reservation x \<and> held_by i r) (stock_reservations s))
     (\<lambda>x. x\<lparr>rsi_active := False\<rparr>) (reservation_serials s)\<rparr>))"

definition free_points :: "uuid \<Rightarrow> unit pos_tx" where
  "free_points i = tx_writes (\<lambda>s. s\<lparr>loyalty_reservations := update_where (\<lambda>x. lo_preparation x = i \<and> lo_active x)
     (\<lambda>x. x\<lparr>lo_active := False\<rparr>) (loyalty_reservations s)\<rparr>)"

definition release_batch :: "uuid \<Rightarrow> ReadySaleLine \<Rightarrow> unit pos_tx" where
  "release_batch shiftId line = (case bl_batchId (rd_input line) of None \<Rightarrow> tx_return ()
     | Some b \<Rightarrow> let q = units (bl_quantity (rd_input line)) in
         tx_bind (tx_row (\<lambda>s. case find_shift s shiftId of None \<Rightarrow> None
            | Some sh \<Rightarrow> if q \<le> batch_held s (sh_warehouse sh) b then Some (sh_warehouse sh) else None)
            (Api ''POS_FISCAL_BATCH_RESERVATION_MISSING'')) (\<lambda>w.
         tx_writes (\<lambda>s. s\<lparr>batch_reserved := AList.update (w, b) (batch_held s w b - q) (batch_reserved s)\<rparr>)))"

definition releaseFiscalSaleReservations :: "FiscalSalePreparationRow \<Rightarrow> uuid \<Rightarrow> unit pos_tx" where
  "releaseFiscalSaleReservations row accountId =
     tx_bind (tx_for (release_batch (fp_shift row)) (sn_preparedLines (fp_pricing row))) (\<lambda>_.
     tx_bind (free_serial_holds (fp_id row)) (\<lambda>_.
     tx_bind (lift_inv (tx_writes (\<lambda>s. s\<lparr>stock_reservations := update_where (held_by (fp_id row))
        (\<lambda>r. r\<lparr>rs_status := Released, rs_ended_by := Some accountId, rs_version := rs_version r + 1\<rparr>)
        (stock_reservations s)\<rparr>))) (\<lambda>_.
     tx_bind (tx_writes (\<lambda>s. s\<lparr>discount_authorizations := update_where
        (\<lambda>x. da_preparation x = Some (fp_id row) \<and> da_sale x = None) (\<lambda>x. x\<lparr>da_preparation := None\<rparr>)
        (discount_authorizations s)\<rparr>)) (\<lambda>_.
     free_points (fp_id row)))))"

datatype cancellation_evidence = BeforePrinting | PrinterOpenRejected | PrinterReceiptCancelled

definition cancelFiscalSalePreparation_body :: "uuid \<Rightarrow> uuid \<Rightarrow> cancellation_evidence \<Rightarrow> jsstr \<Rightarrow> pos_response pos_tx" where
  "cancelFiscalSalePreparation_body accountId i evidence key =
     tx_bind (find_preparation i accountId) (\<lambda>row.
     if fp_status row = Cancelled then as_it_is row else
     let printerCancellationConfirmed = (evidence \<noteq> BeforePrinting);
         safeBeforePrinting = (fp_status row = Prepared \<and> evidence = BeforePrinting);
         safePrinterResolution = (fp_status row = Printing \<and> printerCancellationConfirmed) in
     tx_bind (tx_require (safeBeforePrinting \<or> safePrinterResolution) (Api ''POS_FISCAL_PREPARATION_CANNOT_CANCEL'')) (\<lambda>_.
     tx_bind (releaseFiscalSaleReservations row accountId) (\<lambda>_.
     tx_bind (update_preparation i (\<lambda>p. p\<lparr>fp_status := Cancelled, fp_cancellation_confirmed := printerCancellationConfirmed\<rparr>)) (\<lambda>_.
     preparation_done i (if safePrinterResolution
       then (if evidence = PrinterOpenRejected then js ''pos.fiscal_sale.printer_open_rejected''
             else js ''pos.fiscal_sale.printer_cancellation_confirmed'')
       else js ''pos.fiscal_sale.cancelled_before_printing'') accountId key))))"

definition normalizeFiscalSaleReceipt :: "fiscal_receipt \<Rightarrow> inv_error + fiscal_receipt" where
  "normalizeFiscalSaleReceipt input = res_bind (fiscalMinorUnitAmount (fr_changeEur input)) (\<lambda>change.
     Inr (input\<lparr>fr_changeEur := change,
       fr_fiscalReceiptsSinceDailyReport := truthy (fr_fiscalReceiptsSinceDailyReport input)\<rparr>))"

text \<open>
  The first transaction of \<open>confirmFiscalSaleReceipt\<close>; its input is the normal form of the receipt,
  and two receipts have the same digest when they are the same.
\<close>

definition confirmReceipt_body :: "uuid \<Rightarrow> uuid \<Rightarrow> fiscal_receipt \<Rightarrow> jsstr \<Rightarrow> pos_response pos_tx" where
  "confirmReceipt_body accountId i receipt key =
     tx_bind (find_preparation i accountId) (\<lambda>row.
     if fp_status row \<in> {ReceiptConfirmed, Finalized} then
       tx_bind (required_row (\<lambda>_. fp_response row) ''Fiscal receipt evidence was not found'') (\<lambda>response.
       tx_bind (tx_res (normalizeFiscalSaleReceipt response)) (\<lambda>recorded.
       tx_bind (tx_require (recorded = receipt) (Api ''POS_FISCAL_RECEIPT_CONFLICT'')) (\<lambda>_. as_it_is row)))
     else
     tx_bind (tx_require (fp_status row \<in> {Printing, OutcomeUnknown}) (Api ''POS_FISCAL_PREPARATION_STATE_CONFLICT'')) (\<lambda>_.
     tx_bind (tx_require (fr_uniqueSaleId receipt = fp_unique_sale_id row) (Api ''POS_FISCAL_RECEIPT_ID_MISMATCH'')) (\<lambda>_.
     tx_bind (tx_res (fiscalMinorUnitAmount (case sn_payments (fp_pricing row) of [] \<Rightarrow> js ''0.0000'' | p # _ \<Rightarrow> pp_changeAmount p))) (\<lambda>expectedChange.
     tx_bind (tx_require (fr_changeEur receipt = expectedChange) (Api ''POS_FISCAL_RECEIPT_TOTAL_MISMATCH'')) (\<lambda>_.
     tx_bind (update_preparation i (\<lambda>p. p\<lparr>fp_status := ReceiptConfirmed, fp_document_number := Some (fr_fiscalDocumentNumber receipt),
        fp_receipt_number := Some (fp_device row @ [45] @ fr_fiscalDocumentNumber receipt), fp_response := Some receipt\<rparr>)) (\<lambda>_.
     preparation_done i (js ''pos.fiscal_sale.receipt_confirmed'') accountId key))))))"

end
