(* ===== verification/RegisterMachine.thy ===== *)
theory RegisterMachine
  imports PosFiscal StockMachine
begin

text \<open>
  The abstract specification of a fiscal register: shifts, the sequences and leases of receipt
  references, the prepared fiscal sales with their status, the daily reports and the completed
  sales. A step is a guarded change; nothing here knows of prices, stock, requests or events.
\<close>

section \<open>State\<close>

record register =
  g_shifts :: "ShiftRow list"
  g_sequences :: "jsstr \<times> jsstr \<Rightarrow> nat"
  g_leases :: "unp_lease_row list"
  g_sales_pending :: "FiscalSalePreparationRow list"
  g_reports :: "FiscalDailyReportRow list"
  g_sales :: "SaleRow list"
  g_next :: uuid

definition new_lease :: "uuid \<Rightarrow> uuid \<Rightarrow> jsstr \<Rightarrow> jsstr \<Rightarrow> jsstr \<Rightarrow> unp_lease_row" where
  "new_lease register account d o' i = \<lparr>ul_unique_sale_id = i, ul_device = d, ul_operator_identifier = o',
     ul_register = register, ul_account = account, ul_transaction = None, ul_preparation = None\<rparr>"

definition with_status :: "uuid \<Rightarrow> (FiscalSalePreparationRow \<Rightarrow> FiscalSalePreparationRow) \<Rightarrow> register \<Rightarrow> register" where
  "with_status i f g = g\<lparr>g_sales_pending := update_where (\<lambda>p. fp_id p = i) f (g_sales_pending g)\<rparr>"

text \<open>A preparation whose receipt is confirmed by the printer's answer, and one that its sale finalizes.\<close>

abbreviation with_receipt :: "FiscalSalePreparationRow \<Rightarrow> fiscal_receipt \<Rightarrow> register \<Rightarrow> register" where
  "with_receipt p receipt g \<equiv> with_status (fp_id p) (\<lambda>x. x\<lparr>fp_status := ReceiptConfirmed,
     fp_document_number := Some (fr_fiscalDocumentNumber receipt),
     fp_receipt_number := Some (fp_device p @ [45] @ fr_fiscalDocumentNumber receipt), fp_response := Some receipt\<rparr>) g"

abbreviation with_sale :: "FiscalSalePreparationRow \<Rightarrow> SaleRow \<Rightarrow> register \<Rightarrow> register" where
  "with_sale p x g \<equiv> with_status (fp_id p) (\<lambda>q. q\<lparr>fp_status := Finalized, fp_finalized_sale := Some (sa_id x)\<rparr>)
     (g\<lparr>g_sales := g_sales g @ [x]\<rparr>)"

definition with_report :: "uuid \<Rightarrow> (FiscalDailyReportRow \<Rightarrow> FiscalDailyReportRow) \<Rightarrow> register \<Rightarrow> register" where
  "with_report i f g = g\<lparr>g_reports := update_where (\<lambda>r. dr_id r = i) f (g_reports g)\<rparr>"

definition closed :: "uuid \<Rightarrow> int \<Rightarrow> ShiftRow \<Rightarrow> ShiftRow" where
  "closed account cash sh = sh\<lparr>sh_open := False, sh_closing_cash := Some cash, sh_closed_by := Some account,
     sh_version := sh_version sh + 1\<rparr>"

definition with_closed :: "uuid \<Rightarrow> uuid \<Rightarrow> int \<Rightarrow> register \<Rightarrow> register" where
  "with_closed i account cash g = g\<lparr>g_shifts := update_where (\<lambda>x. sh_id x = i) (closed account cash) (g_shifts g)\<rparr>"

text \<open>What a new preparation looks like, and when it may be made.\<close>

definition fresh_preparation :: "FiscalSalePreparationRow \<Rightarrow> bool" where
  "fresh_preparation p \<longleftrightarrow> fp_status p = Prepared \<and> fp_response p = None \<and> fp_finalized_sale p = None \<and>
     device_format (fp_device p) (fp_operator_identifier p)"

definition may_prepare :: "register \<Rightarrow> FiscalSalePreparationRow \<Rightarrow> bool" where
  "may_prepare g p \<longleftrightarrow> fresh_preparation p \<and> g_next g \<le> fp_id p \<and>
     (\<exists>sh \<in> set (g_shifts g). sh_open sh \<and> sh_id sh = fp_shift p \<and> sh_register sh = fp_register p) \<and>
     (\<forall>r \<in> set (g_reports g). dr_shift r = fp_shift p \<longrightarrow> \<not> unresolved_report r) \<and>
     (\<forall>q \<in> set (g_sales_pending g). fp_transaction q \<noteq> fp_transaction p \<and> \<not> (fp_register q = fp_register p \<and> unresolved_sale q)) \<and>
     (\<forall>x \<in> set (g_sales g). sa_transaction x \<noteq> fp_transaction p)"

text \<open>A sale takes its amounts from the pricing.\<close>

definition priced_as :: "PosBasketPricing \<Rightarrow> SaleRow \<Rightarrow> bool" where
  "priced_as b x \<longleftrightarrow> sa_net x = units (bp_netTotal b) \<and> sa_vat x = units (bp_vatTotal b) \<and> sa_gross x = units (bp_grossTotal b)"

text \<open>The sale that a printed receipt becomes.\<close>

definition books :: "FiscalSalePreparationRow \<Rightarrow> SaleRow \<Rightarrow> bool" where
  "books p x \<longleftrightarrow> sa_transaction x = fp_transaction p \<and> sa_shift x = fp_shift p \<and> sa_fiscal_status x = Fiscalized \<and>
     fp_receipt_number p = Some (sa_receipt_number x) \<and> priced_as (sn_basketPricing (fp_pricing p)) x"

definition new_sale :: "register \<Rightarrow> SaleRow \<Rightarrow> bool" where
  "new_sale g x \<longleftrightarrow> g_next g \<le> sa_id x \<and>
     (\<forall>y \<in> set (g_sales g). sa_transaction y \<noteq> sa_transaction x \<and> sa_receipt_number y \<noteq> sa_receipt_number x)"

section \<open>Steps\<close>

inductive reg_step :: "register \<Rightarrow> register \<Rightarrow> bool" where
  open_shift: "sh_open sh \<Longrightarrow> \<forall>x \<in> set (g_shifts g). \<not> (sh_open x \<and> (sh_register x = sh_register sh \<or>
      sh_opened_by x = sh_opened_by sh \<or> sh_operator x = sh_operator sh)) \<Longrightarrow> g_next g \<le> sh_id sh \<Longrightarrow> sh_id sh < n \<Longrightarrow>
    reg_step g (g\<lparr>g_shifts := g_shifts g @ [sh], g_next := n\<rparr>)"
| close_shift: "sh \<in> set (g_shifts g) \<Longrightarrow> sh_open sh \<Longrightarrow>
    \<forall>p \<in> set (g_sales_pending g). fp_shift p = sh_id sh \<longrightarrow> \<not> unresolved_sale p \<Longrightarrow> g_next g \<le> n \<Longrightarrow>
    reg_step g (with_closed (sh_id sh) account cash g\<lparr>g_next := n\<rparr>)"
| lease: "device_format d o' \<Longrightarrow> g_sequences g (d, o') + m \<le> 10000000 \<Longrightarrow> g_next g \<le> n \<Longrightarrow>
    reg_step g (g\<lparr>g_sequences := (g_sequences g)((d, o') := g_sequences g (d, o') + m),
      g_leases := g_leases g @ map (\<lambda>k. new_lease register account d o' (unp d o' (g_sequences g (d, o') + k))) [0..<m],
      g_next := n\<rparr>)"
| prepare_new: "may_prepare g p \<Longrightarrow> g_sequences g (fp_device p, fp_operator_identifier p) \<le> 9999999 \<Longrightarrow>
    fp_unique_sale_id p = unp (fp_device p) (fp_operator_identifier p) (g_sequences g (fp_device p, fp_operator_identifier p)) \<Longrightarrow>
    fp_id p < n \<Longrightarrow>
    reg_step g (g\<lparr>g_sequences := (g_sequences g)((fp_device p, fp_operator_identifier p) :=
        g_sequences g (fp_device p, fp_operator_identifier p) + 1),
      g_sales_pending := g_sales_pending g @ [p], g_next := n\<rparr>)"
| prepare_leased: "may_prepare g p \<Longrightarrow> l \<in> set (g_leases g) \<Longrightarrow> ul_transaction l = None \<Longrightarrow>
    fp_unique_sale_id p = ul_unique_sale_id l \<Longrightarrow> ul_device l = fp_device p \<Longrightarrow> ul_operator_identifier l = fp_operator_identifier p \<Longrightarrow>
    fp_id p < n \<Longrightarrow>
    reg_step g (g\<lparr>g_leases := update_where (\<lambda>x. ul_unique_sale_id x = fp_unique_sale_id p \<and> ul_transaction x = None)
        (\<lambda>x. x\<lparr>ul_transaction := Some (fp_transaction p), ul_preparation := Some (fp_id p)\<rparr>) (g_leases g),
      g_sales_pending := g_sales_pending g @ [p], g_next := n\<rparr>)"
| print: "p \<in> set (g_sales_pending g) \<Longrightarrow> fp_status p = Prepared \<Longrightarrow> g_next g \<le> n \<Longrightarrow>
    reg_step g (with_status (fp_id p) (\<lambda>x. x\<lparr>fp_status := Printing\<rparr>) g\<lparr>g_next := n\<rparr>)"
| doubt: "p \<in> set (g_sales_pending g) \<Longrightarrow> fp_status p = Printing \<Longrightarrow> g_next g \<le> n \<Longrightarrow>
    reg_step g (with_status (fp_id p) (\<lambda>x. x\<lparr>fp_status := OutcomeUnknown\<rparr>) g\<lparr>g_next := n\<rparr>)"
| cancel: "p \<in> set (g_sales_pending g) \<Longrightarrow> fp_status p = Prepared \<and> \<not> c \<or> fp_status p = Printing \<and> c \<Longrightarrow> g_next g \<le> n \<Longrightarrow>
    reg_step g (with_status (fp_id p) (\<lambda>x. x\<lparr>fp_status := Cancelled, fp_cancellation_confirmed := c\<rparr>) g\<lparr>g_next := n\<rparr>)"
| confirm: "p \<in> set (g_sales_pending g) \<Longrightarrow> fp_status p \<in> {Printing, OutcomeUnknown} \<Longrightarrow>
    fr_uniqueSaleId receipt = fp_unique_sale_id p \<Longrightarrow> g_next g \<le> n \<Longrightarrow>
    reg_step g (with_receipt p receipt g\<lparr>g_next := n\<rparr>)"
| finalize: "p \<in> set (g_sales_pending g) \<Longrightarrow> fp_status p = ReceiptConfirmed \<Longrightarrow> books p x \<Longrightarrow> new_sale g x \<Longrightarrow> sa_id x < n \<Longrightarrow>
    reg_step g (with_sale p x g\<lparr>g_next := n\<rparr>)"
| sell: "new_sale g x \<Longrightarrow> sa_fiscal_status x = Simulated \<Longrightarrow> sa_id x < n \<Longrightarrow> reg_step g (g\<lparr>g_sales := g_sales g @ [x], g_next := n\<rparr>)"
| report: "sh \<in> set (g_shifts g) \<Longrightarrow> sh_open sh \<Longrightarrow> dr_shift r = sh_id sh \<Longrightarrow> dr_register r = sh_register sh \<Longrightarrow>
    dr_status r = ReportPrepared \<Longrightarrow> \<forall>p \<in> set (g_sales_pending g). fp_register p = dr_register r \<longrightarrow> \<not> unresolved_sale p \<Longrightarrow>
    \<forall>q \<in> set (g_reports g). dr_register q = dr_register r \<longrightarrow> \<not> unresolved_report q \<Longrightarrow>
    \<forall>q \<in> set (g_reports g). dr_type r = ZReport \<and> dr_shift q = dr_shift r \<and> dr_type q = ZReport \<longrightarrow> dr_status q = ReportFailed \<Longrightarrow>
    g_next g \<le> dr_id r \<Longrightarrow> dr_id r < n \<Longrightarrow>
    reg_step g (g\<lparr>g_reports := g_reports g @ [r], g_next := n\<rparr>)"
| report_on: "r \<in> set (g_reports g) \<Longrightarrow> dr_status r = ReportPrepared \<and> st = ReportPrinting \<or>
      dr_status r = ReportPrinting \<and> st = ReportOutcomeUnknown \<Longrightarrow> g_next g \<le> n \<Longrightarrow>
    reg_step g (with_report (dr_id r) (\<lambda>x. x\<lparr>dr_status := st\<rparr>) g\<lparr>g_next := n\<rparr>)"
| reject: "r \<in> set (g_reports g) \<Longrightarrow> dr_status r \<in> {ReportPrepared, ReportPrinting} \<Longrightarrow> g_next g \<le> n \<Longrightarrow>
    reg_step g (with_report (dr_id r) (\<lambda>x. x\<lparr>dr_status := ReportFailed, dr_failure := Some reason\<rparr>) g\<lparr>g_next := n\<rparr>)"
| report_x: "r \<in> set (g_reports g) \<Longrightarrow> dr_type r = XReport \<Longrightarrow> dr_status r \<in> {ReportPrinting, ReportOutcomeUnknown} \<Longrightarrow> g_next g \<le> n \<Longrightarrow>
    reg_step g (with_report (dr_id r) (\<lambda>x. x\<lparr>dr_status := ReportCompleted, dr_result := Some res\<rparr>) g\<lparr>g_next := n\<rparr>)"
| report_z: "r \<in> set (g_reports g) \<Longrightarrow> dr_type r = ZReport \<Longrightarrow> dr_status r \<in> {ReportPrinting, ReportOutcomeUnknown} \<Longrightarrow>
    sh \<in> set (g_shifts g) \<Longrightarrow> sh_open sh \<Longrightarrow> sh_id sh = dr_shift r \<Longrightarrow> dr_shift_version r = Some (sh_version sh) \<Longrightarrow>
    dr_closing_cash r = Some cash \<Longrightarrow> g_next g \<le> n \<Longrightarrow>
    reg_step g (with_report (dr_id r) (\<lambda>x. x\<lparr>dr_status := ReportCompleted, dr_result := Some res\<rparr>)
      (with_closed (sh_id sh) account cash g)\<lparr>g_next := n\<rparr>)"
| advance: "\<forall>k. g_sequences g k \<le> q k \<and> q k \<le> 10000000 \<Longrightarrow> g_next g \<le> n \<Longrightarrow> reg_step g (g\<lparr>g_sequences := q, g_next := n\<rparr>)"
| other: "g_next g \<le> n \<Longrightarrow> reg_step g (g\<lparr>g_next := n\<rparr>)"

text \<open>
  The two steps that the confirmation of a receipt takes: the evidence of preparation \<open>i\<close> is recorded,
  then its sale is booked. Either may find its work done and leave the register as it is.
\<close>

definition evidence_step :: "uuid \<Rightarrow> register \<Rightarrow> register \<Rightarrow> bool" where
  "evidence_step i g g' \<longleftrightarrow> reg_step g g' \<and> (\<exists>n. g' = g\<lparr>g_next := n\<rparr> \<or>
     (\<exists>p \<in> set (g_sales_pending g). \<exists>receipt. fp_id p = i \<and> fp_status p \<in> {Printing, OutcomeUnknown} \<and>
        fr_uniqueSaleId receipt = fp_unique_sale_id p \<and> g' = with_receipt p receipt g\<lparr>g_next := n\<rparr>))"

definition booking_step :: "uuid \<Rightarrow> register \<Rightarrow> register \<Rightarrow> bool" where
  "booking_step i g g' \<longleftrightarrow> reg_step g g' \<and> (\<exists>n. g' = g\<lparr>g_next := n\<rparr> \<or>
     (\<exists>p \<in> set (g_sales_pending g). \<exists>x. fp_id p = i \<and> fp_status p = ReceiptConfirmed \<and> books p x \<and>
        g' = with_sale p x g\<lparr>g_next := n\<rparr>))"

lemma evidence_other: "g_next g \<le> n \<Longrightarrow> evidence_step i g (g\<lparr>g_next := n\<rparr>)"
  using reg_step.other by (auto simp: evidence_step_def)

lemma booking_other: "g_next g \<le> n \<Longrightarrow> booking_step i g (g\<lparr>g_next := n\<rparr>)"
  using reg_step.other by (auto simp: booking_step_def)

section \<open>Invariant\<close>

definition rows_ok :: "register \<Rightarrow> bool" where
  "rows_ok g \<longleftrightarrow> unique_rows sh_id (g_next g) (g_shifts g) \<and> unique_rows fp_id (g_next g) (g_sales_pending g) \<and>
     unique_rows dr_id (g_next g) (g_reports g) \<and> unique_rows sa_id (g_next g) (g_sales g)"

definition same_till :: "ShiftRow \<Rightarrow> ShiftRow \<Rightarrow> bool" where
  "same_till x y \<longleftrightarrow> sh_register x = sh_register y \<or> sh_opened_by x = sh_opened_by y \<or> sh_operator x = sh_operator y"

definition shifts_ok :: "register \<Rightarrow> bool" where
  "shifts_ok g \<longleftrightarrow> (\<forall>x \<in> set (g_shifts g). \<forall>y \<in> set (g_shifts g). sh_open x \<and> sh_open y \<and> same_till x y \<longrightarrow> x = y)"

definition issued :: "register \<Rightarrow> jsstr \<Rightarrow> jsstr \<Rightarrow> jsstr \<Rightarrow> bool" where
  "issued g d o' u \<longleftrightarrow> device_format d o' \<and> (\<exists>n. 0 < n \<and> n < g_sequences g (d, o') \<and> u = unp d o' n)"

definition lease_ok :: "register \<Rightarrow> unp_lease_row \<Rightarrow> bool" where
  "lease_ok g l \<longleftrightarrow> issued g (ul_device l) (ul_operator_identifier l) (ul_unique_sale_id l) \<and>
     (case ul_transaction l of None \<Rightarrow> ul_unique_sale_id l \<notin> fp_unique_sale_id ` set (g_sales_pending g)
      | Some t \<Rightarrow> \<exists>p \<in> set (g_sales_pending g). fp_transaction p = t \<and> fp_unique_sale_id p = ul_unique_sale_id l \<and>
          ul_preparation l = Some (fp_id p))"

definition references_ok :: "register \<Rightarrow> bool" where
  "references_ok g \<longleftrightarrow> (\<forall>k. 0 < g_sequences g k \<and> g_sequences g k \<le> 10000000) \<and>
     distinct (map ul_unique_sale_id (g_leases g)) \<and> distinct (map fp_unique_sale_id (g_sales_pending g)) \<and>
     (\<forall>l \<in> set (g_leases g). lease_ok g l) \<and>
     (\<forall>p \<in> set (g_sales_pending g). issued g (fp_device p) (fp_operator_identifier p) (fp_unique_sale_id p))"

text \<open>The unresolved receipts, the open shifts and the unresolved reports, by what ties them together.\<close>

definition pending_at :: "register \<Rightarrow> (uuid \<times> uuid \<times> uuid) set" where
  "pending_at g = (\<lambda>p. (fp_id p, fp_shift p, fp_register p)) ` {p \<in> set (g_sales_pending g). unresolved_sale p}"

definition open_at :: "register \<Rightarrow> (uuid \<times> uuid) set" where
  "open_at g = (\<lambda>sh. (sh_id sh, sh_register sh)) ` {sh \<in> set (g_shifts g). sh_open sh}"

definition reporting_at :: "register \<Rightarrow> (uuid \<times> uuid \<times> uuid) set" where
  "reporting_at g = (\<lambda>r. (dr_id r, dr_shift r, dr_register r)) ` {r \<in> set (g_reports g). unresolved_report r}"

definition counted_z :: "register \<Rightarrow> (uuid \<times> uuid) set" where
  "counted_z g = (\<lambda>r. (dr_id r, dr_shift r)) ` {r \<in> set (g_reports g). dr_type r = ZReport \<and> dr_status r \<noteq> ReportFailed}"

definition printer_ok :: "register \<Rightarrow> bool" where
  "printer_ok g \<longleftrightarrow> (\<forall>i sh till. (i, sh, till) \<in> pending_at g \<longrightarrow> (sh, till) \<in> open_at g \<and>
       (\<forall>j sh'. (j, sh', till) \<in> pending_at g \<longrightarrow> j = i) \<and> (\<forall>j till'. (j, sh, till') \<notin> reporting_at g))"

definition closed_by_z :: "register \<Rightarrow> bool" where
  "closed_by_z g \<longleftrightarrow> (\<forall>r \<in> set (g_reports g). dr_type r = ZReport \<and> dr_status r = ReportCompleted \<longrightarrow>
       (\<exists>sh \<in> set (g_shifts g). sh_id sh = dr_shift r \<and> \<not> sh_open sh \<and> sh_closing_cash sh = dr_closing_cash r \<and>
          dr_shift_version r = Some (sh_version sh - 1)))"

definition reports_ok :: "register \<Rightarrow> bool" where
  "reports_ok g \<longleftrightarrow> (\<forall>i j sh sh' till. (i, sh, till) \<in> reporting_at g \<longrightarrow> (j, sh', till) \<in> reporting_at g \<longrightarrow> j = i) \<and>
     (\<forall>i j sh. (i, sh) \<in> counted_z g \<longrightarrow> (j, sh) \<in> counted_z g \<longrightarrow> j = i) \<and> closed_by_z g"

text \<open>A report belongs to a shift of its register, and no report is under way in a shift that a Z report closed.\<close>

definition shifts_at :: "register \<Rightarrow> (uuid \<times> uuid) set" where
  "shifts_at g = (\<lambda>sh. (sh_id sh, sh_register sh)) ` set (g_shifts g)"

definition z_closed :: "register \<Rightarrow> uuid set" where
  "z_closed g = dr_shift ` {r \<in> set (g_reports g). dr_type r = ZReport \<and> dr_status r = ReportCompleted}"

definition settled_by_z :: "register \<Rightarrow> bool" where
  "settled_by_z g \<longleftrightarrow> (\<forall>i sh till. (i, sh, till) \<in> reporting_at g \<longrightarrow> (sh, till) \<in> shifts_at g \<and> sh \<notin> z_closed g)"

definition receipt_ok :: "SaleRow list \<Rightarrow> FiscalSalePreparationRow \<Rightarrow> bool" where
  "receipt_ok xs p \<longleftrightarrow> (fp_status p \<in> {ReceiptConfirmed, Finalized} \<longrightarrow>
       (\<exists>r. fp_response p = Some r \<and> fr_uniqueSaleId r = fp_unique_sale_id p \<and>
          fp_receipt_number p = Some (fp_device p @ [45] @ fr_fiscalDocumentNumber r))) \<and>
     (if fp_status p = Finalized then \<exists>x \<in> set xs. fp_finalized_sale p = Some (sa_id x) \<and> books p x
      else fp_finalized_sale p = None)"

definition receipts_ok :: "register \<Rightarrow> bool" where
  "receipts_ok g \<longleftrightarrow> distinct (map fp_transaction (g_sales_pending g)) \<and> distinct (map sa_transaction (g_sales g)) \<and>
     distinct (map sa_receipt_number (g_sales g)) \<and> (\<forall>p \<in> set (g_sales_pending g). receipt_ok (g_sales g) p)"

text \<open>A fiscal sale has a printed receipt.\<close>

definition evidence_ok :: "register \<Rightarrow> bool" where
  "evidence_ok g \<longleftrightarrow> (\<forall>x \<in> set (g_sales g). sa_fiscal_status x = Fiscalized \<longrightarrow>
     (\<exists>p \<in> set (g_sales_pending g). fp_status p = Finalized \<and> fp_finalized_sale p = Some (sa_id x)))"

definition reg_ok :: "register \<Rightarrow> bool" where
  "reg_ok g \<longleftrightarrow> rows_ok g \<and> shifts_ok g \<and> references_ok g \<and> printer_ok g \<and> reports_ok g \<and> settled_by_z g \<and>
     receipts_ok g \<and> evidence_ok g"

section \<open>Every step keeps it\<close>

lemmas with_defs = with_status_def with_report_def with_closed_def

lemma with_simps [simp]:
  "g_shifts (with_status i f g) = g_shifts g" "g_leases (with_status i f g) = g_leases g"
  "g_sequences (with_status i f g) = g_sequences g" "g_reports (with_status i f g) = g_reports g"
  "g_sales (with_status i f g) = g_sales g" "g_next (with_status i f g) = g_next g"
  "g_sales_pending (with_status i f g) = update_where (\<lambda>p. fp_id p = i) f (g_sales_pending g)"
  "g_shifts (with_report i h g) = g_shifts g" "g_leases (with_report i h g) = g_leases g"
  "g_sequences (with_report i h g) = g_sequences g" "g_sales_pending (with_report i h g) = g_sales_pending g"
  "g_sales (with_report i h g) = g_sales g" "g_next (with_report i h g) = g_next g"
  "g_reports (with_report i h g) = update_where (\<lambda>r. dr_id r = i) h (g_reports g)"
  "g_reports (with_closed i a c g) = g_reports g" "g_leases (with_closed i a c g) = g_leases g"
  "g_sequences (with_closed i a c g) = g_sequences g" "g_sales_pending (with_closed i a c g) = g_sales_pending g"
  "g_sales (with_closed i a c g) = g_sales g" "g_next (with_closed i a c g) = g_next g"
  "g_shifts (with_closed i a c g) = update_where (\<lambda>x. sh_id x = i) (closed a c) (g_shifts g)"
  by (simp_all add: with_defs)

lemma closed_simps [simp]: "sh_id (closed a c sh) = sh_id sh" "sh_register (closed a c sh) = sh_register sh"
  "sh_open (closed a c sh) = False" "sh_closing_cash (closed a c sh) = Some c" "sh_version (closed a c sh) = sh_version sh + 1"
  by (simp_all add: closed_def)

lemma step_rows: "reg_step g g' \<Longrightarrow> rows_ok g \<Longrightarrow> rows_ok g'"
  by (induction rule: reg_step.induct)
    (auto simp: rows_ok_def may_prepare_def new_sale_def closed_def intro!: unique_rows_update elim: unique_rows_mono unique_rows_add)

lemma shift_eqI: "rows_ok g \<Longrightarrow> x \<in> set (g_shifts g) \<Longrightarrow> y \<in> set (g_shifts g) \<Longrightarrow> sh_id x = sh_id y \<Longrightarrow> x = y"
  by (auto simp: rows_ok_def unique_rows_def intro: row_eqI [of sh_id])

lemma preparation_eqI: "rows_ok g \<Longrightarrow> x \<in> set (g_sales_pending g) \<Longrightarrow> y \<in> set (g_sales_pending g) \<Longrightarrow> fp_id x = fp_id y \<Longrightarrow> x = y"
  by (auto simp: rows_ok_def unique_rows_def intro: row_eqI [of fp_id])

lemma report_eqI: "rows_ok g \<Longrightarrow> x \<in> set (g_reports g) \<Longrightarrow> y \<in> set (g_reports g) \<Longrightarrow> dr_id x = dr_id y \<Longrightarrow> x = y"
  by (auto simp: rows_ok_def unique_rows_def intro: row_eqI [of dr_id])

lemma step_shifts: "reg_step g g' \<Longrightarrow> rows_ok g \<Longrightarrow> shifts_ok g \<Longrightarrow> shifts_ok g'"
  by (induction rule: reg_step.induct) (auto simp: shifts_ok_def same_till_def set_update_where)

text \<open>The printer has one action to finish at most, and the shift of an unresolved receipt stays open.\<close>

lemma printer_mono: "printer_ok g \<Longrightarrow> pending_at g' \<subseteq> pending_at g \<Longrightarrow> open_at g \<subseteq> open_at g' \<Longrightarrow>
   reporting_at g' \<subseteq> reporting_at g \<Longrightarrow> printer_ok g'"
  unfolding printer_ok_def by blast

lemma at_next [simp]: "pending_at (g\<lparr>g_next := n\<rparr>) = pending_at g" "open_at (g\<lparr>g_next := n\<rparr>) = open_at g"
  "reporting_at (g\<lparr>g_next := n\<rparr>) = reporting_at g" "counted_z (g\<lparr>g_next := n\<rparr>) = counted_z g"
  by (simp_all add: pending_at_def open_at_def reporting_at_def counted_z_def with_defs)

lemma at_cong:
  "g_sales_pending g' = g_sales_pending g \<Longrightarrow> pending_at g' = pending_at g" "g_shifts g' = g_shifts g \<Longrightarrow> open_at g' = open_at g"
  "g_reports g' = g_reports g \<Longrightarrow> reporting_at g' = reporting_at g" "g_reports g' = g_reports g \<Longrightarrow> counted_z g' = counted_z g"
  by (simp_all add: pending_at_def open_at_def reporting_at_def counted_z_def)

lemma pending_status:
  assumes "rows_ok g" and "p \<in> set (g_sales_pending g)" and "unresolved_sale p"
    and "fp_id (f p) = fp_id p" "fp_shift (f p) = fp_shift p" "fp_register (f p) = fp_register p"
    and "g_sales_pending g' = update_where (\<lambda>x. fp_id x = fp_id p) f (g_sales_pending g)"
  shows "pending_at g' \<subseteq> pending_at g"
proof
  fix v assume "v \<in> pending_at g'"
  then obtain q where q: "q \<in> set (g_sales_pending g)" "v = (\<lambda>p. (fp_id p, fp_shift p, fp_register p)) (if fp_id q = fp_id p then f q else q)"
      "unresolved_sale (if fp_id q = fp_id p then f q else q)"
    by (auto simp: pending_at_def assms(7) set_update_where)
  show "v \<in> pending_at g"
  proof (cases "fp_id q = fp_id p")
    case True
    then have "q = p" using preparation_eqI [OF assms(1) q(1) assms(2)] by simp
    then show ?thesis using q assms by (auto simp: pending_at_def image_iff)
  qed (use q in \<open>auto simp: pending_at_def image_iff\<close>)
qed

lemma reporting_status:
  assumes "rows_ok g" and "r \<in> set (g_reports g)" and "unresolved_report r"
    and "dr_id (f r) = dr_id r" "dr_shift (f r) = dr_shift r" "dr_register (f r) = dr_register r" "dr_type (f r) = dr_type r"
    and "g_reports g' = update_where (\<lambda>x. dr_id x = dr_id r) f (g_reports g)"
  shows "reporting_at g' \<subseteq> reporting_at g" and "counted_z g' \<subseteq> counted_z g"
proof -
  have same: "x = r" if "x \<in> set (g_reports g)" "dr_id x = dr_id r" for x
    using report_eqI [OF assms(1) that(1) assms(2) that(2)] .
  have "dr_status r \<noteq> ReportFailed" using assms(3) by (auto simp: unresolved_report_def)
  with assms same show "reporting_at g' \<subseteq> reporting_at g" "counted_z g' \<subseteq> counted_z g"
    unfolding reporting_at_def counted_z_def by (auto simp: set_update_where image_iff) metis+
qed

lemma printer_status:
  assumes "rows_ok g" and "printer_ok g" and "p \<in> set (g_sales_pending g)" and "unresolved_sale p"
    and "fp_id (f p) = fp_id p" "fp_shift (f p) = fp_shift p" "fp_register (f p) = fp_register p"
    and "g_sales_pending g' = update_where (\<lambda>x. fp_id x = fp_id p) f (g_sales_pending g)"
    and "g_shifts g' = g_shifts g" "g_reports g' = g_reports g"
  shows "printer_ok g'"
  using printer_mono [OF assms(2) pending_status [OF assms(1,3-8)]] at_cong(2) [OF assms(9)] at_cong(3) [OF assms(10)] by simp

lemma printer_report:
  assumes "rows_ok g" and "printer_ok g" and "r \<in> set (g_reports g)" and "unresolved_report r"
    and "dr_id (f r) = dr_id r" "dr_shift (f r) = dr_shift r" "dr_register (f r) = dr_register r" "dr_type (f r) = dr_type r"
    and "g_reports g' = update_where (\<lambda>x. dr_id x = dr_id r) f (g_reports g)"
    and "g_shifts g' = g_shifts g" "g_sales_pending g' = g_sales_pending g"
  shows "printer_ok g'"
  using printer_mono [OF assms(2) _ _ reporting_status(1) [OF assms(1,3-9)]] at_cong(2) [OF assms(10)] at_cong(1) [OF assms(11)] by simp

text \<open>Closing a shift that no unresolved receipt belongs to.\<close>

lemma printer_close:
  assumes "printer_ok g" and "\<forall>i till. (i, sh, till) \<notin> pending_at g"
    and "g_shifts g' = update_where (\<lambda>x. sh_id x = sh) (closed a c) (g_shifts g)"
    and "pending_at g' \<subseteq> pending_at g" "reporting_at g' \<subseteq> reporting_at g"
  shows "printer_ok g'"
proof -
  have "(s, till) \<in> open_at g'" if "(s, till) \<in> open_at g" "s \<noteq> sh" for s till
    using that by (auto simp: open_at_def assms(3) set_update_where image_iff)
  with assms(1,2,4,5) show ?thesis unfolding printer_ok_def by blast
qed

lemma printer_prepare:
  assumes "printer_ok g" and "may_prepare g p" and "g_sales_pending g' = g_sales_pending g @ [p]"
    and "g_shifts g' = g_shifts g" "g_reports g' = g_reports g"
  shows "printer_ok g'"
proof -
  from assms(2) have "(fp_shift p, fp_register p) \<in> open_at g" "\<forall>j till. (j, fp_shift p, till) \<notin> reporting_at g"
    "\<forall>j sh. (j, sh, fp_register p) \<notin> pending_at g"
    by (force simp: may_prepare_def open_at_def reporting_at_def pending_at_def)+
  moreover have "pending_at g' = insert (fp_id p, fp_shift p, fp_register p) (pending_at g)"
    using assms(2,3) by (auto simp: pending_at_def may_prepare_def fresh_preparation_def unresolved_sale_def)
  moreover have "open_at g' = open_at g" "reporting_at g' = reporting_at g" using assms(4,5) by (simp_all add: open_at_def reporting_at_def)
  ultimately show ?thesis using assms(1) unfolding printer_ok_def by (auto; metis)
qed

lemma step_printer: "reg_step g g' \<Longrightarrow> rows_ok g \<Longrightarrow> printer_ok g \<Longrightarrow> printer_ok g'"
proof (induction rule: reg_step.induct)
  case (print p g n)
  then show ?case by (intro printer_status [OF print.prems print(1)]) (simp_all add: unresolved_sale_def)
next
  case (doubt p g n)
  then show ?case by (intro printer_status [OF doubt.prems doubt(1)]) (simp_all add: unresolved_sale_def)
next
  case (cancel p g c n)
  then show ?case by (intro printer_status [OF cancel.prems cancel(1)]) (auto simp: unresolved_sale_def)
next
  case (confirm p g receipt n)
  then show ?case by (intro printer_status [OF confirm.prems confirm(1)]) (auto simp: unresolved_sale_def)
next
  case (finalize p g x n)
  then show ?case by (intro printer_status [OF finalize.prems finalize(1)]) (simp_all add: unresolved_sale_def)
next
  case (report_on r g st n)
  then show ?case by (intro printer_report [OF report_on.prems report_on(1)]) (auto simp: unresolved_report_def)
next
  case (reject r g n reason)
  then show ?case by (intro printer_report [OF reject.prems reject(1)]) (auto simp: unresolved_report_def)
next
  case (report_x r g n res)
  then show ?case by (intro printer_report [OF report_x.prems report_x(1)]) (auto simp: unresolved_report_def)
next
  case (prepare_new g p n)
  then show ?case by (intro printer_prepare [OF prepare_new.prems(2) prepare_new(1)]) simp_all
next
  case (prepare_leased g p l n)
  then show ?case by (intro printer_prepare [OF prepare_leased.prems(2) prepare_leased(1)]) simp_all
next
  case (close_shift sh g n account cash)
  show ?case by (rule printer_close [OF close_shift.prems(2)])
    (use close_shift(3) in \<open>auto simp: pending_at_def reporting_at_def\<close>)
next
  case (report_z r g sh cash n res account)
  have r: "(dr_id r, sh_id sh, dr_register r) \<in> reporting_at g" using report_z(1,3,6) by (auto simp: reporting_at_def unresolved_report_def)
  show ?case
  proof (rule printer_close [OF report_z.prems(2)])
    show "\<forall>i till. (i, sh_id sh, till) \<notin> pending_at g" using r report_z.prems(2) by (auto simp: printer_ok_def)
    show "reporting_at (with_report (dr_id r) (\<lambda>x. x\<lparr>dr_status := ReportCompleted, dr_result := Some res\<rparr>)
        (with_closed (sh_id sh) account cash g)\<lparr>g_next := n\<rparr>) \<subseteq> reporting_at g"
      by (rule reporting_status(1) [OF report_z.prems(1) report_z(1)]) (use report_z(3) in \<open>auto simp: unresolved_report_def\<close>)
  qed (auto simp: pending_at_def)
next
  case (report sh g r n)
  have "\<forall>i. (i, sh_id sh, sh_register sh) \<notin> pending_at g" using report(4,6) by (auto simp: pending_at_def)
  moreover have "till = sh_register sh" if "(sh_id sh, till) \<in> open_at g" for till
    using that shift_eqI [OF report.prems(1) _ report(1)] by (auto simp: open_at_def)
  ultimately have "\<forall>i till. (i, sh_id sh, till) \<notin> pending_at g" using report.prems(2) unfolding printer_ok_def by metis
  then have "\<forall>i till. (i, dr_shift r, till) \<notin> pending_at g" using report(3) by simp
  moreover have "reporting_at (g\<lparr>g_reports := g_reports g @ [r], g_next := n\<rparr>) = insert (dr_id r, dr_shift r, dr_register r) (reporting_at g)"
    using report(5) by (auto simp: reporting_at_def unresolved_report_def)
  moreover have "pending_at (g\<lparr>g_reports := g_reports g @ [r], g_next := n\<rparr>) = pending_at g"
    "open_at (g\<lparr>g_reports := g_reports g @ [r], g_next := n\<rparr>) = open_at g" by (simp_all add: pending_at_def open_at_def)
  ultimately show ?case using report.prems(2) unfolding printer_ok_def by auto
next
  case (open_shift sh g n)
  show ?case by (rule printer_mono [OF open_shift.prems(2)]) (auto simp: pending_at_def open_at_def reporting_at_def)
qed (erule printer_mono; simp add: pending_at_def open_at_def reporting_at_def)+

text \<open>At most one unresolved report per register and one Z report per shift, which closes it.\<close>

lemma reports_mono: "reports_ok g \<Longrightarrow> reporting_at g' \<subseteq> reporting_at g \<Longrightarrow> counted_z g' \<subseteq> counted_z g \<Longrightarrow> closed_by_z g' \<Longrightarrow> reports_ok g'"
  unfolding reports_ok_def by blast

lemma reports_same: assumes "reports_ok g" and "g_reports g' = g_reports g" "g_shifts g' = g_shifts g" shows "reports_ok g'"
  using assms(1) unfolding reports_ok_def reporting_at_def counted_z_def closed_by_z_def assms(2,3) .

lemma closed_by_z_shifts:
  assumes "closed_by_z g" and "g_reports g' = g_reports g" and "\<And>sh. sh \<in> set (g_shifts g) \<Longrightarrow> \<not> sh_open sh \<Longrightarrow> sh \<in> set (g_shifts g')"
  shows "closed_by_z g'"
  using assms unfolding closed_by_z_def by (metis (no_types, lifting))

lemma closed_by_z_report:
  assumes "closed_by_z g" and "\<And>sh. sh \<in> set (g_shifts g) \<Longrightarrow> \<not> sh_open sh \<Longrightarrow> sh \<in> set (g_shifts g')"
    and "g_reports g' = update_where (\<lambda>x. dr_id x = dr_id r) f (g_reports g)" and "rows_ok g" and "r \<in> set (g_reports g)"
    and "dr_type (f r) = ZReport \<Longrightarrow> dr_status (f r) = ReportCompleted \<Longrightarrow> \<exists>sh \<in> set (g_shifts g'). sh_id sh = dr_shift (f r) \<and>
      \<not> sh_open sh \<and> sh_closing_cash sh = dr_closing_cash (f r) \<and> dr_shift_version (f r) = Some (sh_version sh - 1)"
  shows "closed_by_z g'"
  unfolding closed_by_z_def
proof (intro ballI impI)
  fix q assume q: "q \<in> set (g_reports g')" "dr_type q = ZReport \<and> dr_status q = ReportCompleted"
  then obtain x where x: "x \<in> set (g_reports g)" "q = (if dr_id x = dr_id r then f x else x)" by (auto simp: assms(3) set_update_where)
  show "\<exists>sh \<in> set (g_shifts g'). sh_id sh = dr_shift q \<and> \<not> sh_open sh \<and> sh_closing_cash sh = dr_closing_cash q \<and>
      dr_shift_version q = Some (sh_version sh - 1)"
  proof (cases "dr_id x = dr_id r")
    case True
    then have "x = r" using report_eqI [OF assms(4) x(1) assms(5)] by simp
    then show ?thesis using assms(6) q(2) x(2) by simp
  next
    case False
    then have "q = x" using x(2) by simp
    then show ?thesis using assms(1,2) q(2) x(1) unfolding closed_by_z_def by (metis (no_types, lifting))
  qed
qed

lemma reports_update:
  assumes "rows_ok g" and "reports_ok g" and "r \<in> set (g_reports g)" and "unresolved_report r"
    and "dr_id (f r) = dr_id r" "dr_shift (f r) = dr_shift r" "dr_register (f r) = dr_register r" "dr_type (f r) = dr_type r"
    and "g_reports g' = update_where (\<lambda>x. dr_id x = dr_id r) f (g_reports g)"
    and "\<And>sh. sh \<in> set (g_shifts g) \<Longrightarrow> \<not> sh_open sh \<Longrightarrow> sh \<in> set (g_shifts g')"
    and "dr_type (f r) = ZReport \<Longrightarrow> dr_status (f r) = ReportCompleted \<Longrightarrow> \<exists>sh \<in> set (g_shifts g'). sh_id sh = dr_shift (f r) \<and>
      \<not> sh_open sh \<and> sh_closing_cash sh = dr_closing_cash (f r) \<and> dr_shift_version (f r) = Some (sh_version sh - 1)"
  shows "reports_ok g'"
proof (rule reports_mono [OF assms(2)])
  show "reporting_at g' \<subseteq> reporting_at g" "counted_z g' \<subseteq> counted_z g" by (rule reporting_status [OF assms(1,3-9)])+
  have "closed_by_z g" using assms(2) by (simp add: reports_ok_def)
  then show "closed_by_z g'" by (rule closed_by_z_report [OF _ assms(10,9,1,3,11)])
qed

text \<open>Shifts are added, or the open ones of one identifier closed.\<close>

lemma closed_kept: "rows_ok g \<Longrightarrow> x \<in> set (g_shifts g) \<Longrightarrow> sh_open x \<Longrightarrow> sh \<in> set (g_shifts g) \<Longrightarrow> \<not> sh_open sh \<Longrightarrow>
   sh \<in> set (update_where (\<lambda>y. sh_id y = sh_id x) (closed a c) (g_shifts g))"
  using shift_eqI [of g sh x] by (auto simp: set_update_where image_iff intro: bexI [of _ sh])

lemma one_more:
  assumes "\<forall>i j k. (i, k) \<in> A \<longrightarrow> (j, k) \<in> A \<longrightarrow> j = i" and "\<forall>i. (i, k0) \<notin> A" and "B \<subseteq> insert (i0, k0) A"
  shows "(i, k) \<in> B \<longrightarrow> (j, k) \<in> B \<longrightarrow> j = i"
proof (intro impI)
  assume "(i, k) \<in> B" "(j, k) \<in> B"
  then have "(i, k) = (i0, k0) \<or> (i, k) \<in> A" "(j, k) = (i0, k0) \<or> (j, k) \<in> A" using assms(3) by auto
  then show "j = i" using assms(1,2) by auto
qed

lemma step_reports: "reg_step g g' \<Longrightarrow> rows_ok g \<Longrightarrow> reports_ok g \<Longrightarrow> reports_ok g'"
proof (induction rule: reg_step.induct)
  case (report sh g r n)
  let ?g = "g\<lparr>g_reports := g_reports g @ [r], g_next := n\<rparr>"
  have at: "reporting_at ?g = insert (dr_id r, dr_shift r, dr_register r) (reporting_at g)"
    using report(5) by (auto simp: reporting_at_def unresolved_report_def)
  have "\<forall>i s. (i, s, dr_register r) \<notin> reporting_at g" using report(7) by (auto simp: reporting_at_def)
  with report.prems(2) have "(i, s, till) \<in> reporting_at ?g \<longrightarrow> (j, s', till) \<in> reporting_at ?g \<longrightarrow> j = i" for i j s s' till
    unfolding reports_ok_def at by auto
  moreover have z: "counted_z ?g \<subseteq> (if dr_type r = ZReport then insert (dr_id r, dr_shift r) (counted_z g) else counted_z g)"
    by (auto simp: counted_z_def)
  have free: "dr_type r = ZReport \<longrightarrow> (\<forall>i. (i, dr_shift r) \<notin> counted_z g)" using report(8) by (auto simp: counted_z_def)
  have old: "\<forall>i j k. (i, k) \<in> counted_z g \<longrightarrow> (j, k) \<in> counted_z g \<longrightarrow> j = i" using report.prems(2) by (auto simp: reports_ok_def)
  have "(i, s) \<in> counted_z ?g \<longrightarrow> (j, s) \<in> counted_z ?g \<longrightarrow> j = i" for i j s
  proof (cases "dr_type r = ZReport")
    case True
    then show ?thesis using one_more [OF old] free z by simp
  next
    case False
    then show ?thesis using old z by auto
  qed
  moreover have "closed_by_z ?g" using report.prems(2) report(5) by (auto simp: closed_by_z_def reports_ok_def)
  ultimately show ?case unfolding reports_ok_def by blast
next
  case (report_on r g st n)
  then have un: "unresolved_report r" by (auto simp: unresolved_report_def)
  show ?case by (rule reports_update [OF report_on.prems report_on(1) un]) (use report_on(2) in auto)
next
  case (reject r g n reason)
  then have un: "unresolved_report r" by (auto simp: unresolved_report_def)
  show ?case by (rule reports_update [OF reject.prems reject(1) un]) auto
next
  case (report_x r g n res)
  then have un: "unresolved_report r" by (auto simp: unresolved_report_def)
  show ?case by (rule reports_update [OF report_x.prems report_x(1) un]) (use report_x(2) in auto)
next
  case (report_z r g sh cash n res account)
  then have un: "unresolved_report r" by (auto simp: unresolved_report_def)
  have "closed account cash sh \<in> set (update_where (\<lambda>y. sh_id y = sh_id sh) (closed account cash) (g_shifts g))"
    using report_z(4) by (auto simp: set_update_where image_iff intro!: bexI [of _ sh])
  with report_z(4-8) have z: "\<exists>s \<in> set (update_where (\<lambda>y. sh_id y = sh_id sh) (closed account cash) (g_shifts g)). sh_id s = dr_shift r \<and>
      \<not> sh_open s \<and> sh_closing_cash s = dr_closing_cash r \<and> dr_shift_version r = Some (sh_version s - 1)"
    by (intro bexI [of _ "closed account cash sh"]) simp_all
  show ?case
    by (rule reports_update [OF report_z.prems report_z(1) un, where f = "\<lambda>x. x\<lparr>dr_status := ReportCompleted, dr_result := Some res\<rparr>"])
      (use z closed_kept [OF report_z.prems(1) report_z(4,5)] in simp_all)
next
  case (close_shift sh g n account cash)
  have "closed_by_z g" using close_shift.prems(2) unfolding reports_ok_def by blast
  then have "closed_by_z ((with_closed (sh_id sh) account cash g)\<lparr>g_next := n\<rparr>)"
    by (rule closed_by_z_shifts) (use closed_kept [OF close_shift.prems(1) close_shift(1,2)] in simp_all)
  then show ?case by (rule_tac reports_mono [OF close_shift.prems(2)]) (simp_all add: reporting_at_def counted_z_def)
next
  case (open_shift sh g n)
  have "closed_by_z g" using open_shift.prems(2) unfolding reports_ok_def by blast
  then have "closed_by_z (g\<lparr>g_shifts := g_shifts g @ [sh], g_next := n\<rparr>)" by (rule closed_by_z_shifts) simp_all
  then show ?case by (rule_tac reports_mono [OF open_shift.prems(2)]) (simp_all add: reporting_at_def counted_z_def)
qed (erule reports_same; simp)+

text \<open>The Z report that closes a shift is the only report of it under way.\<close>

lemma settled_mono: "settled_by_z g \<Longrightarrow> reporting_at g' \<subseteq> reporting_at g \<Longrightarrow> shifts_at g \<subseteq> shifts_at g' \<Longrightarrow>
   z_closed g' \<subseteq> z_closed g \<Longrightarrow> settled_by_z g'"
  unfolding settled_by_z_def by blast

lemma shifts_at_simps [simp]: "shifts_at (g\<lparr>g_next := n\<rparr>) = shifts_at g" "shifts_at (with_status i f g) = shifts_at g"
  "shifts_at (with_report i h g) = shifts_at g" "z_closed (g\<lparr>g_next := n\<rparr>) = z_closed g" "z_closed (with_status i f g) = z_closed g"
  by (simp_all add: shifts_at_def z_closed_def)

lemma shifts_at_closed [simp]: "shifts_at (with_closed i a c g) = shifts_at g" "z_closed (with_closed i a c g) = z_closed g"
proof -
  have "map (\<lambda>sh. (sh_id sh, sh_register sh)) (update_where (\<lambda>x. sh_id x = i) (closed a c) xs) = map (\<lambda>sh. (sh_id sh, sh_register sh)) xs" for xs
    by (rule map_key_update) simp
  then show "shifts_at (with_closed i a c g) = shifts_at g" unfolding shifts_at_def set_map [symmetric] by simp
qed (simp add: z_closed_def)

lemma shifts_at_eqI: "rows_ok g \<Longrightarrow> (sh, till) \<in> shifts_at g \<Longrightarrow> (sh, till') \<in> shifts_at g \<Longrightarrow> till = till'"
  by (auto simp: shifts_at_def dest: shift_eqI)

lemma settled_update:
  assumes "rows_ok g" and "settled_by_z g" and "r \<in> set (g_reports g)" and "unresolved_report r"
    and "dr_id (f r) = dr_id r" "dr_shift (f r) = dr_shift r" "dr_register (f r) = dr_register r" "dr_type (f r) = dr_type r"
    and "\<not> (dr_type r = ZReport \<and> dr_status (f r) = ReportCompleted)"
  shows "settled_by_z (with_report (dr_id r) f g\<lparr>g_next := n\<rparr>)" (is "settled_by_z ?g")
proof (rule settled_mono [OF assms(2)])
  show "reporting_at ?g \<subseteq> reporting_at g" by (rule reporting_status(1) [OF assms(1,3,4), where f = f]) (simp_all add: assms)
  have "f x = f r" if "x \<in> set (g_reports g)" "dr_id x = dr_id r" for x using report_eqI [OF assms(1) that(1) assms(3) that(2)] by simp
  then show "z_closed ?g \<subseteq> z_closed g" using assms(8,9) by (auto simp: z_closed_def set_update_where)
qed simp

lemma step_settled: "reg_step g g' \<Longrightarrow> rows_ok g \<Longrightarrow> reports_ok g \<Longrightarrow> settled_by_z g \<Longrightarrow> settled_by_z g'"
proof (induction rule: reg_step.induct)
  case (report sh g r n)
  let ?g = "g\<lparr>g_reports := g_reports g @ [r], g_next := n\<rparr>"
  have at: "reporting_at ?g = insert (dr_id r, dr_shift r, dr_register r) (reporting_at g)"
    using report(5) by (auto simp: reporting_at_def unresolved_report_def)
  have z: "z_closed ?g = z_closed g" "shifts_at ?g = shifts_at g" using report(5) by (auto simp: z_closed_def shifts_at_def)
  have "(dr_shift r, dr_register r) \<in> shifts_at g" using report(1,3,4) by (auto simp: shifts_at_def)
  moreover have "dr_shift r \<notin> z_closed g"
  proof
    assume "dr_shift r \<in> z_closed g"
    then obtain x where x: "x \<in> set (g_shifts g)" "sh_id x = dr_shift r" "\<not> sh_open x"
      using report.prems(2) by (auto simp: z_closed_def reports_ok_def closed_by_z_def)
    then show False using shift_eqI [OF report.prems(1) x(1) report(1)] report(2,3) by simp
  qed
  ultimately show ?case using report.prems(3) unfolding settled_by_z_def at z by auto
next
  case (report_on r g st n)
  then have un: "unresolved_report r" by (auto simp: unresolved_report_def)
  show ?case by (rule settled_update [OF report_on.prems(1,3) report_on(1) un]) (use report_on(2) in auto)
next
  case (reject r g n reason)
  then have un: "unresolved_report r" by (auto simp: unresolved_report_def)
  show ?case by (rule settled_update [OF reject.prems(1,3) reject(1) un]) auto
next
  case (report_x r g n res)
  then have un: "unresolved_report r" by (auto simp: unresolved_report_def)
  show ?case by (rule settled_update [OF report_x.prems(1,3) report_x(1) un]) (use report_x(2) in auto)
next
  case (report_z r g sh cash n res account)
  let ?f = "\<lambda>x. x\<lparr>dr_status := ReportCompleted, dr_result := Some res\<rparr>"
  let ?g = "with_report (dr_id r) ?f (with_closed (sh_id sh) account cash g)\<lparr>g_next := n\<rparr>"
  have un: "unresolved_report r" using report_z(3) by (auto simp: unresolved_report_def)
  have less: "reporting_at ?g \<subseteq> reporting_at g"
    by (rule reporting_status(1) [OF report_z.prems(1) report_z(1) un, where f = ?f]) simp_all
  have z: "z_closed ?g \<subseteq> insert (dr_shift r) (z_closed g)"
    by (auto simp: z_closed_def set_update_where dest: report_eqI [OF report_z.prems(1) _ report_z(1)])
  have r: "(dr_id r, dr_shift r, dr_register r) \<in> reporting_at g" using report_z(1) un by (auto simp: reporting_at_def)
  have gone: "(dr_id r, s, till) \<notin> reporting_at ?g" for s till
    by (auto simp: reporting_at_def set_update_where unresolved_report_def)
  have "(i, dr_shift r, till) \<notin> reporting_at ?g" for i till
  proof
    assume i: "(i, dr_shift r, till) \<in> reporting_at ?g"
    then have g: "(i, dr_shift r, till) \<in> reporting_at g" using less by blast
    then have "till = dr_register r"
      using report_z.prems(3) r shifts_at_eqI [OF report_z.prems(1)] unfolding settled_by_z_def by blast
    then have "i = dr_id r" using report_z.prems(2) g r unfolding reports_ok_def by blast
    then show False using gone i by blast
  qed
  then show ?case using report_z.prems(3) less z unfolding settled_by_z_def by (auto; blast)
next
  case (open_shift sh g n)
  show ?case by (rule settled_mono [OF open_shift.prems(3)]) (auto simp: reporting_at_def z_closed_def shifts_at_def)
next
  case (close_shift sh g n account cash)
  show ?case by (rule settled_mono [OF close_shift.prems(3)]) (simp_all add: reporting_at_def)
qed (erule settled_mono; simp add: reporting_at_def z_closed_def shifts_at_def)+

text \<open>A finalized preparation is booked by the sale of its receipt.\<close>

lemma receipt_ok_mono: "receipt_ok xs p \<Longrightarrow> set xs \<subseteq> set ys \<Longrightarrow> receipt_ok ys p"
  by (auto simp: receipt_ok_def split: if_splits)

lemma receipts_update:
  assumes "rows_ok g" and "receipts_ok g" and "p \<in> set (g_sales_pending g)"
    and "\<And>x. fp_transaction (f x) = fp_transaction x"
    and "g_sales_pending g' = update_where (\<lambda>x. fp_id x = fp_id p) f (g_sales_pending g)"
    and "set (g_sales g) \<subseteq> set (g_sales g')" "distinct (map sa_transaction (g_sales g'))" "distinct (map sa_receipt_number (g_sales g'))"
    and "receipt_ok (g_sales g') (f p)"
  shows "receipts_ok g'"
proof -
  have "receipt_ok (g_sales g') q" if q: "q \<in> set (g_sales_pending g')" for q
  proof -
    obtain x where x: "x \<in> set (g_sales_pending g)" "q = (if fp_id x = fp_id p then f x else x)"
      using q unfolding assms(5) set_update_where by blast
    show ?thesis
    proof (cases "fp_id x = fp_id p")
      case True
      then have "x = p" using preparation_eqI [OF assms(1) x(1) assms(3)] by simp
      then show ?thesis using assms(9) x(2) by simp
    next
      case False
      then show ?thesis using receipt_ok_mono [OF _ assms(6)] assms(2) x by (simp add: receipts_ok_def)
    qed
  qed
  then show ?thesis using assms(2,4,7,8) by (simp add: receipts_ok_def assms(5) map_key_update)
qed

lemma step_receipts: "reg_step g g' \<Longrightarrow> rows_ok g \<Longrightarrow> receipts_ok g \<Longrightarrow> receipts_ok g'"
proof (induction rule: reg_step.induct)
  case (print p g n)
  then show ?case by (intro receipts_update [OF print.prems print(1)]) (auto simp: receipts_ok_def receipt_ok_def)
next
  case (doubt p g n)
  then show ?case by (intro receipts_update [OF doubt.prems doubt(1)]) (auto simp: receipts_ok_def receipt_ok_def)
next
  case (cancel p g c n)
  then show ?case by (intro receipts_update [OF cancel.prems cancel(1)]) (auto simp: receipts_ok_def receipt_ok_def)
next
  case (confirm p g receipt n)
  then show ?case by (intro receipts_update [OF confirm.prems confirm(1)]) (auto simp: receipts_ok_def receipt_ok_def)
next
  case (finalize p g x n)
  then show ?case
    by (intro receipts_update [OF finalize.prems finalize(1)]) (auto simp: receipts_ok_def receipt_ok_def new_sale_def books_def)
next
  case (sell g x n)
  then show ?case by (auto simp: receipts_ok_def new_sale_def elim!: receipt_ok_mono [of "g_sales g"])
next
  case (prepare_new g p n)
  then show ?case by (auto simp: receipts_ok_def may_prepare_def fresh_preparation_def receipt_ok_def [of _ p])
next
  case (prepare_leased g p l n)
  then show ?case by (auto simp: receipts_ok_def may_prepare_def fresh_preparation_def receipt_ok_def [of _ p])
qed (simp_all add: receipts_ok_def)

text \<open>Every reference is issued once.\<close>

lemma unp_inject: "device_format d o' \<Longrightarrow> device_format e q \<Longrightarrow> unp d o' n = unp e q m \<longleftrightarrow> d = e \<and> o' = q \<and> n = m"
proof
  assume f: "device_format d o'" "device_format e q" and u: "unp d o' n = unp e q m"
  have "length d = 8" "length e = 8" "length o' = 4" "length q = 4"
    using f by (auto simp: device_format_def rx_fixed simp del: rx.simps(2))
  with u have "d = e" "o' = q" and t: "padStart 7 48 (nat_digits n) = padStart 7 48 (nat_digits m)" by (auto simp: unp_def)
  moreover have "n = m" using arg_cong [OF t, of digits_val] by (simp add: padStart_def digits_val_append)
  ultimately show "d = e \<and> o' = q \<and> n = m" by simp
qed simp

definition ref_view :: "FiscalSalePreparationRow \<Rightarrow> uuid \<times> jsstr \<times> jsstr \<times> jsstr \<times> jsstr" where
  "ref_view p = (fp_id p, fp_transaction p, fp_device p, fp_operator_identifier p, fp_unique_sale_id p)"

lemma issued_cong: "g_sequences g' = g_sequences g \<Longrightarrow> issued g' = issued g"
  by (simp add: issued_def fun_eq_iff)

lemma references_cong:
  assumes "references_ok g" and v: "map ref_view (g_sales_pending g') = map ref_view (g_sales_pending g)"
    and "g_leases g' = g_leases g" "g_sequences g' = g_sequences g"
  shows "references_ok g'"
proof -
  let ?u = "\<lambda>(_, _, _, _, u). u" and ?t = "\<lambda>(_, t, _). t" and ?i = fst
  have u: "map fp_unique_sale_id ps = map ?u (map ref_view ps)" for ps by (simp add: ref_view_def comp_def)
  have i: "(\<forall>p \<in> set ps. issued g (fp_device p) (fp_operator_identifier p) (fp_unique_sale_id p)) \<longleftrightarrow>
      (\<forall>(_, _, d, o', u) \<in> set (map ref_view ps). issued g d o' u)" for ps by (auto simp: ref_view_def)
  have e: "(\<exists>p \<in> set ps. fp_transaction p = t \<and> fp_unique_sale_id p = u \<and> k = Some (fp_id p)) \<longleftrightarrow>
      (\<exists>(i, t', _, _, u') \<in> set (map ref_view ps). t' = t \<and> u' = u \<and> k = Some i)" for ps t u k by (auto simp: ref_view_def)
  have s: "fp_unique_sale_id ` set ps = set (map ?u (map ref_view ps))" for ps by (auto simp: ref_view_def image_iff)
  show ?thesis using assms(1) unfolding references_ok_def lease_ok_def issued_cong [OF assms(4)] u i e s v assms(3,4) .
qed

lemma issued_mono: "issued g d o' u \<Longrightarrow> (\<And>k. g_sequences g k \<le> g_sequences g' k) \<Longrightarrow> issued g' d o' u"
  unfolding issued_def using order_less_le_trans by blast

lemma not_issued: "issued g d o' u \<Longrightarrow> device_format e q \<Longrightarrow> g_sequences g (e, q) \<le> n \<Longrightarrow> u \<noteq> unp e q n"
  by (auto simp: issued_def unp_inject)

text \<open>A preparation with a reference of its own.\<close>

lemma references_prepare:
  assumes "references_ok g" and "g_sales_pending g' = g_sales_pending g @ [p]"
    and "issued g' (fp_device p) (fp_operator_identifier p) (fp_unique_sale_id p)"
    and "\<And>k. g_sequences g k \<le> g_sequences g' k" "\<And>k. g_sequences g' k \<le> 10000000"
    and "fp_unique_sale_id p \<notin> fp_unique_sale_id ` set (g_sales_pending g)"
    and "distinct (map ul_unique_sale_id (g_leases g'))" and "\<forall>l \<in> set (g_leases g'). lease_ok g' l"
  shows "references_ok g'"
proof -
  have "0 < g_sequences g' k" for k
    using assms(1,4) by (metis (no_types, lifting) order_less_le_trans references_ok_def)
  then show ?thesis
    using assms(1) issued_mono [OF _ assms(4)] assms(3,5-8) by (auto simp: references_ok_def assms(2))
qed

lemma lease_ok_kept:
  assumes "lease_ok g l" and "g_sales_pending g' = g_sales_pending g @ ps" and "\<And>k. g_sequences g k \<le> g_sequences g' k"
    and "ul_transaction l = None \<Longrightarrow> ul_unique_sale_id l \<notin> fp_unique_sale_id ` set ps"
  shows "lease_ok g' l"
  using assms issued_mono [OF _ assms(3)] by (auto simp: lease_ok_def split: option.splits)

lemma step_references: "reg_step g g' \<Longrightarrow> rows_ok g \<Longrightarrow> references_ok g \<Longrightarrow> references_ok g'"
proof (induction rule: reg_step.induct)
  case (prepare_new g p n)
  let ?k = "(fp_device p, fp_operator_identifier p)"
  let ?g = "g\<lparr>g_sequences := (g_sequences g)(?k := g_sequences g ?k + 1), g_sales_pending := g_sales_pending g @ [p], g_next := n\<rparr>"
  have f: "device_format (fp_device p) (fp_operator_identifier p)" using prepare_new(1) by (simp add: may_prepare_def fresh_preparation_def)
  have new: "u \<noteq> fp_unique_sale_id p" if "issued g d o' u" for d o' u using not_issued [OF that f] prepare_new(3) by simp
  have mono: "g_sequences g k \<le> g_sequences ?g k" for k by simp
  show ?case
  proof (rule references_prepare [OF prepare_new.prems(2) _ _ mono])
    show "issued ?g (fp_device p) (fp_operator_identifier p) (fp_unique_sale_id p)"
      using f prepare_new(3) prepare_new.prems(2) by (auto simp: issued_def references_ok_def intro!: exI [of _ "g_sequences g ?k"])
    show "fp_unique_sale_id p \<notin> fp_unique_sale_id ` set (g_sales_pending g)"
      using new prepare_new.prems(2) by (fastforce simp: references_ok_def)
    show "\<forall>l \<in> set (g_leases ?g). lease_ok ?g l"
    proof
      fix l assume "l \<in> set (g_leases ?g)"
      then have l: "lease_ok g l" using prepare_new.prems(2) by (simp add: references_ok_def)
      then have "ul_unique_sale_id l \<noteq> fp_unique_sale_id p" using new by (auto simp: lease_ok_def)
      then show "lease_ok ?g l" by (intro lease_ok_kept [OF l _ mono]) auto
    qed
  qed (use prepare_new.prems(2) prepare_new(2) in \<open>auto simp: references_ok_def\<close>)
next
  case (prepare_leased g p l n)
  let ?f = "\<lambda>x. x\<lparr>ul_transaction := Some (fp_transaction p), ul_preparation := Some (fp_id p)\<rparr>"
  let ?rows = "update_where (\<lambda>x. ul_unique_sale_id x = fp_unique_sale_id p \<and> ul_transaction x = None) ?f (g_leases g)"
  let ?g = "g\<lparr>g_leases := ?rows, g_sales_pending := g_sales_pending g @ [p], g_next := n\<rparr>"
  have l: "lease_ok g l" using prepare_leased(2) prepare_leased.prems(2) by (simp add: references_ok_def)
  show ?case
  proof (rule references_prepare [OF prepare_leased.prems(2)])
    show "issued ?g (fp_device p) (fp_operator_identifier p) (fp_unique_sale_id p)"
      using l prepare_leased(4-6) by (simp add: lease_ok_def issued_def)
    show "fp_unique_sale_id p \<notin> fp_unique_sale_id ` set (g_sales_pending g)" using l prepare_leased(3,4) by (simp add: lease_ok_def)
    show "\<forall>m \<in> set (g_leases ?g). lease_ok ?g m"
    proof
      fix m assume "m \<in> set (g_leases ?g)"
      then obtain x where x: "x \<in> set (g_leases g)"
          "m = (if ul_unique_sale_id x = fp_unique_sale_id p \<and> ul_transaction x = None then ?f x else x)"
        by (auto simp: set_update_where)
      then have ok: "lease_ok g x" using prepare_leased.prems(2) by (simp add: references_ok_def)
      show "lease_ok ?g m"
      proof (cases "ul_unique_sale_id x = fp_unique_sale_id p \<and> ul_transaction x = None")
        case True
        then show ?thesis using ok x(2) by (simp add: lease_ok_def issued_def)
      next
        case False
        then have "m = x" unfolding x(2) by (rule if_not_P)
        then show ?thesis using False by (auto intro!: lease_ok_kept [OF ok])
      qed
    qed
  qed (use prepare_leased.prems(2) in \<open>auto simp: references_ok_def map_key_update\<close>)
next
  case (lease d o' g m n register account)
  let ?s = "g_sequences g (d, o')" and ?k = "(d, o')"
  let ?new = "map (\<lambda>k. new_lease register account d o' (unp d o' (?s + k))) [0..<m]"
  let ?g = "g\<lparr>g_sequences := (g_sequences g)(?k := ?s + m), g_leases := g_leases g @ ?new, g_next := n\<rparr>"
  have mono: "g_sequences g k \<le> g_sequences ?g k" for k by simp
  have ok: "references_ok g" by (rule lease.prems(2))
  have new: "u \<notin> ul_unique_sale_id ` set ?new" if "issued g e q u" for e q u
    using not_issued [OF that lease(1) le_add1] by (force simp: new_lease_def)
  have "map ul_unique_sale_id ?new = map (\<lambda>k. unp d o' (?s + k)) [0..<m]" by (simp add: new_lease_def)
  then have "distinct (map ul_unique_sale_id ?new)" using lease(1) by (simp add: distinct_map inj_on_def unp_inject)
  then have "distinct (map ul_unique_sale_id (g_leases ?g))" using ok new by (fastforce simp: references_ok_def lease_ok_def)
  moreover have "lease_ok ?g l" if l: "l \<in> set (g_leases ?g)" for l
  proof (cases "l \<in> set (g_leases g)")
    case True
    then show ?thesis using ok by (auto simp: references_ok_def intro!: lease_ok_kept [OF _ _ mono])
  next
    case False
    then obtain k where k: "k < m" "l = new_lease register account d o' (unp d o' (?s + k))" using l by auto
    have "0 < ?s" using ok by (simp add: references_ok_def)
    then have "issued ?g d o' (unp d o' (?s + k))" using k(1) lease(1) by (auto simp: issued_def)
    moreover have "unp d o' (?s + k) \<notin> fp_unique_sale_id ` set (g_sales_pending g)"
      using ok not_issued [OF _ lease(1), of g _ _ _ "?s + k"] by (fastforce simp: references_ok_def)
    ultimately show ?thesis by (simp add: lease_ok_def k(2) new_lease_def)
  qed
  ultimately show ?case using ok issued_mono [OF _ mono] lease(2) by (auto simp: references_ok_def)
next
  case (advance g q n)
  let ?g = "g\<lparr>g_sequences := q, g_next := n\<rparr>"
  have mono: "g_sequences g k \<le> g_sequences ?g k" for k using spec [OF advance(1), of k] by simp
  have "lease_ok ?g l" if "lease_ok g l" for l by (rule lease_ok_kept [OF that, of _ "[]"]) (use mono in simp_all)
  moreover have "0 < q k" for k using advance(1) advance.prems(2) by (metis order_less_le_trans references_ok_def)
  ultimately show ?case using advance(1) advance.prems(2) issued_mono [OF _ mono] by (auto simp: references_ok_def)
qed (erule references_cong; simp add: map_key_update ref_view_def)+

section \<open>Histories\<close>

text \<open>A preparation keeps what was printed or will be, and its status only goes forward.\<close>

fun next_status :: "preparation_status \<Rightarrow> preparation_status list" where
  "next_status Prepared = [Printing, Cancelled]"
| "next_status Printing = [OutcomeUnknown, ReceiptConfirmed, Cancelled]"
| "next_status OutcomeUnknown = [ReceiptConfirmed]"
| "next_status ReceiptConfirmed = [Finalized]"
| "next_status Finalized = []"
| "next_status Cancelled = []"

definition same_sale :: "FiscalSalePreparationRow \<Rightarrow> FiscalSalePreparationRow \<Rightarrow> bool" where
  "same_sale p q \<longleftrightarrow> ref_view q = ref_view p \<and> fp_shift q = fp_shift p \<and> fp_register q = fp_register p \<and>
     fp_request q = fp_request p \<and> fp_pricing q = fp_pricing p"

lemma same_sale_simps [simp]: "same_sale x x" "same_sale x (x\<lparr>fp_status := st\<rparr>)"
  "same_sale x (x\<lparr>fp_status := st, fp_cancellation_confirmed := c\<rparr>)" "same_sale x (x\<lparr>fp_status := st, fp_finalized_sale := i\<rparr>)"
  "same_sale x (x\<lparr>fp_status := st, fp_document_number := dn, fp_receipt_number := rn, fp_response := rs\<rparr>)"
  by (simp_all add: same_sale_def ref_view_def)

lemma status_moves:
  assumes "reg_step g g'" and "rows_ok g" and "p \<in> set (g_sales_pending g)"
  shows "\<exists>q \<in> set (g_sales_pending g'). same_sale p q \<and> (q = p \<or> fp_status q \<in> set (next_status (fp_status p)))"
proof -
  have upd: "\<exists>q \<in> set (update_where (\<lambda>x. fp_id x = fp_id r) f (g_sales_pending g)). same_sale p q \<and>
      (q = p \<or> fp_status q \<in> set (next_status (fp_status p)))"
    if "r \<in> set (g_sales_pending g)" "same_sale r (f r)" "fp_status (f r) \<in> set (next_status (fp_status r))" for r f
  proof (cases "fp_id p = fp_id r")
    case True
    then have "p = r" using preparation_eqI [OF assms(2,3) that(1)] by simp
    moreover have "f r \<in> set (update_where (\<lambda>x. fp_id x = fp_id r) f (g_sales_pending g))"
      using that(1) by (auto simp: set_update_where image_iff)
    ultimately show ?thesis using that by blast
  next
    case False
    then show ?thesis using assms(3) by (auto simp: set_update_where same_sale_def image_iff intro!: bexI [of _ p])
  qed
  from assms(1,3) show ?thesis
    by cases (auto intro!: upd intro: bexI [of _ p])
qed

lemma step_evidence:
  assumes "reg_step g g'" and "rows_ok g" and "evidence_ok g"
  shows "evidence_ok g'"
proof -
  have kept: "p \<in> set (g_sales_pending g')" if "p \<in> set (g_sales_pending g)" "fp_status p = Finalized" for p
    using status_moves [OF assms(1,2) that(1)] that(2) by auto
  have fresh: "x \<in> set (g_sales g) \<or> sa_fiscal_status x = Simulated \<or>
      (\<exists>p \<in> set (g_sales_pending g'). fp_status p = Finalized \<and> fp_finalized_sale p = Some (sa_id x))"
    if "x \<in> set (g_sales g')" for x
    using assms(1)
  proof cases
    case (finalize p y n)
    then have "p\<lparr>fp_status := Finalized, fp_finalized_sale := Some (sa_id y)\<rparr> \<in> set (g_sales_pending g')"
      by (auto simp: set_update_where)
    then have "\<exists>p \<in> set (g_sales_pending g'). fp_status p = Finalized \<and> fp_finalized_sale p = Some (sa_id y)"
      by (rule bexI [rotated]) simp
    then show ?thesis using that finalize(1) by auto
  qed (use that in \<open>auto simp: with_status_def with_report_def with_closed_def\<close>)
  show ?thesis using assms(3) kept fresh unfolding evidence_ok_def by (metis sale_fiscal_status.distinct(1))
qed

theorem reg_step_ok: "reg_step g g' \<Longrightarrow> reg_ok g \<Longrightarrow> reg_ok g'"
  unfolding reg_ok_def
  using step_rows step_shifts step_references step_printer step_reports step_settled step_receipts step_evidence by blast

end
