(* ===== verification/PosSales.thy ===== *)
theory PosSales
  imports PosFiscal
begin

text \<open>
  Completing a sale (\<open>completeSale\<close> of \<open>apps/api/src/pos/pos.service.ts\<close>) with its stock issue,
  serial numbers, equipment, points, payments and fiscal evidence; \<open>confirmFiscalSaleReceipt\<close> and
  \<open>finalizeConfirmedFiscalSale\<close>, which run it for a prepared sale; and the requests of shifts and sales.
  \<open>hold\<close> is the fiscal preparation of the sale, if it has one.
\<close>

section \<open>Statements\<close>

definition nonneg :: "int list \<Rightarrow> string \<Rightarrow> unit pos_tx" where
  "nonneg ns name =
     tx_bind (tx_require (list_all fits ns) NumericOverflow) (\<lambda>_. tx_require (list_all (\<lambda>n. 0 \<le> n) ns) (CheckViolation name))"

definition insert_sale :: "SaleRow \<Rightarrow> unit pos_tx" where
  "insert_sale row =
     tx_bind (nonneg [sa_net row, sa_vat row, sa_gross row] ''pos_sale_totals_nonnegative'') (\<lambda>_.
     tx_bind (nonneg [sa_base_net row, sa_automatic row, sa_manual row, sa_loyalty row] ''pos_sale_commercial_totals_nonnegative'') (\<lambda>_.
     tx_bind (tx_require (sa_gross row = sa_net row + sa_vat row) (CheckViolation ''pos_sale_total_balanced'')) (\<lambda>_.
     tx_bind (tx_reads sales) (\<lambda>rows.
     tx_bind (tx_require (\<not> list_ex (\<lambda>x. sa_number x = sa_number row) rows) (UniqueViolation ''sales_sale_number_key'')) (\<lambda>_.
     tx_bind (tx_require (\<not> list_ex (\<lambda>x. sa_transaction x = sa_transaction row) rows)
       (UniqueViolation ''sales_client_transaction_id_key'')) (\<lambda>_.
     tx_bind (tx_require (\<not> list_ex (\<lambda>x. sa_receipt_number x = sa_receipt_number row) rows)
       (UniqueViolation ''sales_fiscal_receipt_number_key'')) (\<lambda>_.
     tx_writes (\<lambda>s. s\<lparr>sales := sales s @ [row]\<rparr>))))))))"

definition insert_sale_line :: "SaleLineRow \<Rightarrow> unit pos_tx" where
  "insert_sale_line row =
     tx_bind (nonneg [sl_unit_price row] ''pos_sale_line_price_nonnegative'') (\<lambda>_.
     tx_bind (nonneg [sl_net row, sl_vat row, sl_gross row] ''pos_sale_line_totals_nonnegative'') (\<lambda>_.
     tx_bind (nonneg [sl_base_net row, sl_automatic row, sl_manual row, sl_loyalty row]
       ''pos_sale_line_commercial_totals_nonnegative'') (\<lambda>_.
     tx_bind (tx_require (0 < sl_quantity row) (CheckViolation ''pos_sale_line_quantity_positive'')) (\<lambda>_.
     tx_bind (tx_require (sl_gross row = sl_net row + sl_vat row) (CheckViolation ''pos_sale_line_total_balanced'')) (\<lambda>_.
     tx_bind (tx_reads sale_lines) (\<lambda>rows.
     tx_bind (tx_require (\<not> list_ex (\<lambda>x. sl_sale x = sl_sale row \<and> sl_product x = sl_product row) rows)
       (UniqueViolation ''pos_sale_line_product_unique'')) (\<lambda>_.
     tx_writes (\<lambda>s. s\<lparr>sale_lines := sale_lines s @ [row]\<rparr>))))))))"

text \<open>The stock that a line takes out, past the other reservations.\<close>

definition held_for :: "uuid option \<Rightarrow> ReservationRow \<Rightarrow> bool" where
  "held_for hold r \<longleftrightarrow> (case hold of None \<Rightarrow> False
     | Some i \<Rightarrow> rs_reference_type r = PosFiscalPreparation \<and> rs_reference_id r = uuid_text i)"

definition available_to :: "pos_db \<Rightarrow> uuid option \<Rightarrow> uuid \<Rightarrow> uuid \<Rightarrow> int" where
  "available_to s hold w p = (case map_of (stock_balances (inv s)) (w, p) of None \<Rightarrow> 0
     | Some b \<Rightarrow> bal_quantity b - sum_where (\<lambda>r. rs_warehouse r = w \<and> rs_product r = p \<and> rs_status r = Active \<and>
         \<not> held_for hold r) rs_remaining (stock_reservations (inv s)))"

definition require_held :: "uuid option \<Rightarrow> uuid \<Rightarrow> uuid \<Rightarrow> int \<Rightarrow> unit pos_tx" where
  "require_held hold w p q = (case hold of None \<Rightarrow> tx_return ()
     | Some i \<Rightarrow> tx_bind (tx_reads (\<lambda>s. list_ex (\<lambda>r. held_by i r \<and> rs_warehouse r = w \<and> rs_product r = p \<and> rs_remaining r = q)
         (stock_reservations (inv s)))) (\<lambda>ok.
       tx_require ok (Api ''POS_FISCAL_RESERVATION_MISSING'')))"

text \<open>UPDATE stock_balances SET quantity = quantity - q; answers the average cost it read.\<close>

definition take_stock :: "uuid option \<Rightarrow> uuid \<Rightarrow> uuid \<Rightarrow> int \<Rightarrow> int pos_tx" where
  "take_stock hold w p q =
     tx_bind (tx_row (\<lambda>s. map_of (stock_balances (inv s)) (w, p)) (Api ''POS_STOCK_UNAVAILABLE'')) (\<lambda>valuation.
     tx_bind (tx_reads (\<lambda>s. available_to s hold w p)) (\<lambda>available.
     tx_bind (tx_require (\<not> available < q) (Api ''POS_STOCK_UNAVAILABLE'')) (\<lambda>_.
     tx_bind (lift_inv (tx_bind (tx_require (q \<le> bal_quantity valuation) (CheckViolation ''stock_balance_nonnegative'')) (\<lambda>_.
        tx_writes (\<lambda>s. s\<lparr>stock_balances := AList.update (w, p)
          (valuation\<lparr>bal_quantity := bal_quantity valuation - q\<rparr>) (stock_balances s)\<rparr>)))) (\<lambda>_.
     tx_return (bal_average_unit_cost valuation)))))"

definition take_batch :: "uuid option \<Rightarrow> uuid \<Rightarrow> uuid \<Rightarrow> uuid \<Rightarrow> int \<Rightarrow> unit pos_tx" where
  "take_batch hold w b p q =
     tx_bind (tx_row (\<lambda>s. case map_of (batch_balances (inv s)) (w, b) of None \<Rightarrow> None
        | Some n \<Rightarrow> if batch_of s b p \<and> q \<le> n \<and> (hold = None \<or> q \<le> batch_held s w b) then Some (n, batch_held s w b) else None)
        (Api ''POS_BATCH_UNAVAILABLE'')) (\<lambda>(n, h).
     let h' = (if hold = None then h else h - q) in
     tx_bind (tx_require (h' \<le> n - q) (CheckViolation ''batch_stock_reserved_quantity_valid'')) (\<lambda>_.
     tx_bind (tx_writes (\<lambda>s. s\<lparr>batch_reserved := AList.update (w, b) h' (batch_reserved s)\<rparr>)) (\<lambda>_.
     lift_inv (tx_writes (\<lambda>s. s\<lparr>batch_balances := AList.update (w, b) (n - q) (batch_balances s)\<rparr>)))))"

text \<open>The items a sale may issue: free ones, or those its preparation holds.\<close>

definition issuable :: "uuid option \<Rightarrow> inv_db \<Rightarrow> uuid \<Rightarrow> bool" where
  "issuable hold s item = (case hold of None \<Rightarrow> \<not> item_reserved s item
     | Some i \<Rightarrow> list_ex (\<lambda>x. rsi_item x = item \<and> rsi_active x \<and>
         list_ex (\<lambda>r. rs_id r = rsi_reservation x \<and> held_by i r) (stock_reservations s)) (reservation_serials s))"

definition issue_items :: "uuid list \<Rightarrow> uuid \<Rightarrow> unit pos_tx" where
  "issue_items items movementId = lift_inv (tx_writes (\<lambda>s. s\<lparr>serialized_items := update_where (\<lambda>x. se_id x \<in> set items)
     (\<lambda>x. x\<lparr>se_status := Issued, se_issued_movement := Some movementId\<rparr>) (serialized_items s)\<rparr>))"

definition free_item_hold :: "uuid option \<Rightarrow> uuid \<Rightarrow> unit pos_tx" where
  "free_item_hold hold item = (case hold of None \<Rightarrow> tx_return ()
     | Some i \<Rightarrow> lift_inv (tx_writes (\<lambda>s. s\<lparr>reservation_serials := update_where
         (\<lambda>x. rsi_item x = item \<and> rsi_active x \<and> list_ex (\<lambda>r. rs_id r = rsi_reservation x \<and> held_by i r) (stock_reservations s))
         (\<lambda>x. x\<lparr>rsi_active := False\<rparr>) (reservation_serials s)\<rparr>)))"

definition insert_equipment :: "pos_env \<Rightarrow> equipment_row \<Rightarrow> unit pos_tx" where
  "insert_equipment env row =
     tx_bind (tx_reads equipment) (\<lambda>rows.
     tx_bind (tx_require (\<not> list_ex (\<lambda>x. eq_active x \<and> eq_item x = eq_item row) rows)
       (UniqueViolation ''customer_equipment_active_serial_item_unique'')) (\<lambda>_.
     tx_bind (tx_require (\<not> list_ex (\<lambda>x. eq_active x \<and> env_upper (pe_inv env) (eq_serial_number x) =
        env_upper (pe_inv env) (eq_serial_number row)) rows) (UniqueViolation ''customer_equipment_active_serial_number_unique'')) (\<lambda>_.
     tx_writes (\<lambda>s. s\<lparr>equipment := equipment s @ [row]\<rparr>))))"

text \<open>The warranty ends some months after the sale, and without months there is no card.\<close>

definition registerSoldEquipment :: "pos_env \<Rightarrow> uuid \<Rightarrow> AssignmentRow \<Rightarrow> uuid \<Rightarrow> SaleProductRow \<Rightarrow> serial_row \<Rightarrow> uuid \<Rightarrow> uuid \<Rightarrow>
    unit pos_tx" where
  "registerSoldEquipment env saleId terminal productId product item customer location =
     tx_bind newUUID (\<lambda>equipmentId.
     tx_bind (insert_equipment env \<lparr>eq_id = equipmentId, eq_location = location, eq_product = productId, eq_item = se_id item,
        eq_serial_number = se_number item, eq_warranty_months = sp_warranty_months product, eq_active = True, eq_sale = saleId\<rparr>) (\<lambda>_.
     if sp_warranty_months product = None then tx_return () else
     tx_bind (nextNumber env terminal WarrantyCardNo (js ''WCR'')) (\<lambda>number.
     tx_writes (\<lambda>s. s\<lparr>warranty_cards := warranty_cards s @ [\<lparr>wc_number = number, wc_customer = customer, wc_location = location,
        wc_equipment = equipmentId, wc_sale = saleId\<rparr>]\<rparr>))))"

definition sell_item :: "pos_env \<Rightarrow> uuid option \<Rightarrow> SaleRequest \<Rightarrow> AssignmentRow \<Rightarrow> uuid \<Rightarrow> uuid \<Rightarrow> ReadySaleLine \<Rightarrow> serial_row \<Rightarrow>
    unit pos_tx" where
  "sell_item env hold sale terminal saleId saleLineId line item =
     tx_bind (free_item_hold hold (se_id item)) (\<lambda>_.
     tx_bind (tx_writes (\<lambda>s. s\<lparr>sale_line_serials := sale_line_serials s @ [(saleLineId, se_id item, se_number item)]\<rparr>)) (\<lambda>_.
     case (bk_customerPartnerId sale, sq_customerLocationId sale) of
       (Some customer, Some location) \<Rightarrow>
         registerSoldEquipment env saleId terminal (bl_productId (rd_input line)) (rd_product line) item customer location
     | (Some _, None) \<Rightarrow> tx_throw (InternalError ''Customer location is required'')
     | (None, _) \<Rightarrow> tx_throw (InternalError ''Customer is required'')))"

definition sell_line :: "pos_env \<Rightarrow> uuid option \<Rightarrow> SaleRequest \<Rightarrow> AssignmentRow \<Rightarrow> uuid \<Rightarrow> uuid \<Rightarrow> uuid \<Rightarrow> ReadySaleLine \<Rightarrow> unit pos_tx" where
  "sell_line env hold sale terminal w accountId saleId line =
     (let p = bl_productId (rd_input line); q = units (bl_quantity (rd_input line)); price = rd_price line in
     tx_bind (require_held hold w p q) (\<lambda>_.
     tx_bind (take_stock hold w p q) (\<lambda>averageCost.
     tx_bind (case bl_batchId (rd_input line) of None \<Rightarrow> tx_return () | Some b \<Rightarrow> take_batch hold w b p q) (\<lambda>_.
     tx_bind (serial_items env (issuable hold) w (rd_input line)) (\<lambda>items.
     tx_bind newUUID (\<lambda>saleLineId.
     tx_bind newUUID (\<lambda>movementId.
     tx_bind (lift_inv (insert_movement \<lparr>mv_id = movementId, mv_warehouse = w, mv_product = p, mv_type = Issue, mv_quantity = q,
        mv_reference_type = js ''pos_sale'', mv_reference_id = uuid_text saleLineId, mv_actor = accountId,
        mv_unit_cost = averageCost, mv_batch = bl_batchId (rd_input line), mv_customer = bk_customerPartnerId sale,
        mv_supplier = None, mv_technician = None\<rparr>)) (\<lambda>_.
     tx_bind (insert_sale_line \<lparr>sl_id = saleLineId, sl_sale = saleId, sl_product = p, sl_quantity = q,
        sl_unit_price = units (required_price (rd_product line)), sl_vat_treatment = required_vat (rd_product line),
        sl_net = units (pr_netTotal price), sl_vat = units (pr_vatTotal price), sl_gross = units (pr_grossTotal price),
        sl_base_net = units (pr_baseNetTotal price), sl_automatic = units (pr_automaticDiscountTotal price),
        sl_manual = units (pr_manualDiscountTotal price), sl_loyalty = units (pr_loyaltyDiscountTotal price),
        sl_movement = movementId, sl_batch = bl_batchId (rd_input line)\<rparr>) (\<lambda>_.
     tx_bind (if items = [] then tx_return () else issue_items (map se_id items) movementId) (\<lambda>_.
     tx_for (sell_item env hold sale terminal saleId saleLineId line) items))))))))))"

definition record_points :: "pos_env \<Rightarrow> uuid option \<Rightarrow> int \<Rightarrow> int \<Rightarrow> uuid \<Rightarrow> unit pos_tx" where
  "record_points env customer grossTotal pointsRedeemed saleId = (case Option.bind customer (pe_loyalty env) of
       None \<Rightarrow> tx_return ()
     | Some a \<Rightarrow> if \<not> la_active a then tx_return () else
         let earned = (grossTotal * la_earn_points a) sdiv 10000;
             entries = (if pointsRedeemed > 0 then [\<lparr>le_account = la_id a, le_type = Redeemed, le_points = - pointsRedeemed, le_sale = saleId\<rparr>] else []) @
               (if earned > 0 then [\<lparr>le_account = la_id a, le_type = Earned, le_points = earned, le_sale = saleId\<rparr>] else []) in
         tx_bind (tx_writes (\<lambda>s. s\<lparr>loyalty_ledger := loyalty_ledger s @ entries\<rparr>)) (\<lambda>_.
         tx_bind (tx_require (0 \<le> earned) (CheckViolation ''pos_sale_commercial_totals_nonnegative'')) (\<lambda>_.
         tx_writes (\<lambda>s. s\<lparr>sales := update_where (\<lambda>x. sa_id x = saleId) (\<lambda>x. x\<lparr>sa_points_earned := earned\<rparr>) (sales s)\<rparr>))))"

definition record_payment :: "SaleRequest \<Rightarrow> uuid \<Rightarrow> PreparedSalePayment \<Rightarrow> unit pos_tx" where
  "record_payment sale saleId p = (let amount = units (pp_amount p) in
     tx_bind (tx_require (fits amount \<and> fits (units (pp_changeAmount p))) NumericOverflow) (\<lambda>_.
     tx_bind (tx_require (0 < amount) (CheckViolation ''pos_payment_amount_positive'')) (\<lambda>_.
     tx_bind (tx_writes (\<lambda>s. s\<lparr>payments := payments s @ [\<lparr>py_sale = saleId, py_method = pp_method p, py_amount = amount,
        py_tendered = map_option units (pp_tenderedAmount p), py_change = units (pp_changeAmount p),
        py_reference = pp_providerReference p, py_adapter = pp_adapter p, py_status = pp_status p, py_advance = pp_advanceId p\<rparr>]\<rparr>)) (\<lambda>_.
     tx_bind (case (pp_method p, pp_advanceId p) of
         (Advance, Some a) \<Rightarrow> tx_writes (\<lambda>s. s\<lparr>advance_entries := advance_entries s @
           [\<lparr>ad_advance = a, ad_amount = amount, ad_sale = saleId\<rparr>]\<rparr>)
       | _ \<Rightarrow> tx_return ()) (\<lambda>_.
     case (pp_method p, bk_customerPartnerId sale, pp_account p) of
       (OnAccount, Some c, Some terms) \<Rightarrow> tx_writes (\<lambda>s. s\<lparr>account_entries := account_entries s @
         [\<lparr>ae_customer = c, ae_terms = terms, ae_amount = amount, ae_sale = saleId\<rparr>]\<rparr>)
     | _ \<Rightarrow> tx_return ())))))"

definition insert_fiscal_operation :: "fiscal_operation_row \<Rightarrow> unit pos_tx" where
  "insert_fiscal_operation row =
     tx_bind (tx_reads fiscal_operations) (\<lambda>rows.
     tx_bind (tx_require (\<not> list_ex (\<lambda>x. fo_external_reference x = fo_external_reference row) rows)
       (UniqueViolation ''fiscal_operations_external_reference_key'')) (\<lambda>_.
     tx_writes (\<lambda>s. s\<lparr>fiscal_operations := fiscal_operations s @ [row]\<rparr>)))"

text \<open>The holds of a preparation become the sale.\<close>

definition consume_holds :: "uuid \<Rightarrow> uuid \<Rightarrow> uuid \<Rightarrow> unit pos_tx" where
  "consume_holds i accountId saleId =
     tx_bind (free_serial_holds i) (\<lambda>_.
     tx_bind (lift_inv (tx_writes (\<lambda>s. s\<lparr>stock_reservations := update_where (held_by i)
        (\<lambda>r. r\<lparr>rs_remaining := 0, rs_status := Consumed, rs_ended_by := Some accountId, rs_version := rs_version r + 1\<rparr>)
        (stock_reservations s)\<rparr>))) (\<lambda>_.
     tx_bind (tx_writes (\<lambda>s. s\<lparr>discount_authorizations := update_where (\<lambda>x. da_preparation x = Some i \<and> da_sale x = None)
        (\<lambda>x. x\<lparr>da_sale := Some saleId, da_preparation := None\<rparr>) (discount_authorizations s)\<rparr>)) (\<lambda>_.
     tx_bind (free_points i) (\<lambda>_.
     tx_writes (\<lambda>s. s\<lparr>preparations := update_where (\<lambda>p. fp_id p = i \<and> fp_status p = ReceiptConfirmed)
        (\<lambda>p. p\<lparr>fp_status := Finalized, fp_finalized_sale := Some saleId\<rparr>) (preparations s)\<rparr>)))))"

definition find_sale :: "pos_db \<Rightarrow> uuid \<Rightarrow> PosSale option" where
  "find_sale s i = (case find (\<lambda>x. sa_id x = i) (sales s) of None \<Rightarrow> None
     | Some row \<Rightarrow> Some \<lparr>psa_sale = row, psa_lines = filter (\<lambda>l. sl_sale l = i) (sale_lines s),
         psa_payments = filter (\<lambda>p. py_sale p = i) (payments s)\<rparr>)"

definition sale_of :: "uuid \<Rightarrow> PosSale pos_tx" where
  "sale_of i = required_row (\<lambda>s. find_sale s i) ''POS sale lookup failed''"

section \<open>The sale\<close>

text \<open>The confirmed preparation that the sale is for.\<close>

definition require_confirmed :: "pos_env \<Rightarrow> uuid \<Rightarrow> SaleRequest \<Rightarrow> uuid option \<Rightarrow> FiscalSalePreparationRow option pos_tx" where
  "require_confirmed env accountId sale hold = (case hold of None \<Rightarrow> tx_return None
     | Some i \<Rightarrow>
         tx_bind (tx_row (\<lambda>s. find (\<lambda>p. fp_id p = i \<and> fp_cashier p = accountId) (preparations s))
           (Api ''POS_FISCAL_PREPARATION_NOT_FOUND'')) (\<lambda>row.
         tx_bind (tx_require (fp_status row = ReceiptConfirmed) (Api ''POS_FISCAL_PREPARATION_STATE_CONFLICT'')) (\<lambda>_.
         tx_bind (if fp_shift row \<noteq> bk_shiftId sale \<or> fp_transaction row \<noteq> sq_clientTransactionId sale
           then tx_throw (Api ''POS_FISCAL_PREPARATION_SNAPSHOT_MISMATCH'')
           else tx_bind (tx_res (normalizeSale (fp_request row))) (\<lambda>snapshot.
             tx_require (pe_digest env (SalePayload sale) = pe_digest env (SalePayload snapshot))
               (Api ''POS_FISCAL_PREPARATION_SNAPSHOT_MISMATCH''))) (\<lambda>_.
         tx_return (Some row)))))"

definition sale_terminal :: "pos_env \<Rightarrow> uuid \<Rightarrow> ShiftRow \<Rightarrow> bool \<Rightarrow> AssignmentRow pos_tx" where
  "sale_terminal env accountId sh fiscal =
     tx_bind (tx_row (\<lambda>_. case pe_assignment env accountId (sh_register sh) of None \<Rightarrow> None
        | Some t \<Rightarrow> if as_warehouse t = sh_warehouse sh then Some t else None) (Api ''POS_TERMINAL_CHANGED'')) (\<lambda>terminal.
     tx_bind (requireUsableFiscalMode env (as_fiscal_mode terminal)) (\<lambda>_.
     tx_bind (tx_require (as_fiscal_mode terminal = FiscalSimulator \<or> as_fiscal_mode terminal = FiscalHardware \<and> fiscal)
       (Api ''POS_FISCAL_ADAPTER_UNAVAILABLE'')) (\<lambda>_.
     tx_bind (tx_require (\<not> (as_fiscal_mode terminal = FiscalSimulator \<and> fiscal)) (Api ''POS_FISCAL_REGISTER_CHANGED'')) (\<lambda>_.
     tx_return terminal))))"

text \<open>Price, lines and payments: those of the preparation, or new ones.\<close>

definition sale_snapshot :: "pos_env \<Rightarrow> uuid \<Rightarrow> ShiftRow \<Rightarrow> AssignmentRow \<Rightarrow> SaleRequest \<Rightarrow> FiscalSalePreparationRow option \<Rightarrow>
    FiscalSalePricingSnapshot pos_tx" where
  "sale_snapshot env accountId sh terminal sale prepared = (case prepared of Some row \<Rightarrow> tx_return (fp_pricing row)
     | None \<Rightarrow>
         tx_bind (requireProducts env (sh_warehouse sh) (bk_customerPartnerId sale) (map bl_productId (bk_lines sale))) (\<lambda>products.
         tx_bind (prepareBasketPricing env sh sale accountId True) (\<lambda>pricing.
         tx_bind (tx_res (res_map (ready_line products sale pricing) (bk_lines sale))) (\<lambda>ready.
         tx_bind (prepare_payments env terminal sale (bp_grossTotal pricing)) (\<lambda>paid.
         tx_return \<lparr>sn_basketPricing = pricing, sn_payments = paid, sn_preparedLines = ready\<rparr>)))))"

definition record_sale :: "pos_env \<Rightarrow> uuid \<Rightarrow> ShiftRow \<Rightarrow> AssignmentRow \<Rightarrow> SaleRequest \<Rightarrow> uuid option \<Rightarrow> FiscalSalePreparationRow option \<Rightarrow>
    FiscalSalePricingSnapshot \<Rightarrow> jsstr \<Rightarrow> pos_response pos_tx" where
  "record_sale env accountId sh terminal sale hold prepared snapshot key =
     (let pricing = sn_basketPricing snapshot in
     tx_bind newUUID (\<lambda>saleId.
     tx_bind (nextNumber env terminal SaleNo (js ''SALE'')) (\<lambda>saleNumber.
     tx_bind (case Option.bind prepared fp_receipt_number of Some n \<Rightarrow> tx_return n
        | None \<Rightarrow> nextNumber env terminal FiscalReceiptNo (js ''SIM-RECEIPT'')) (\<lambda>receiptNumber.
     tx_bind (insert_sale \<lparr>sa_id = saleId, sa_number = saleNumber, sa_transaction = sq_clientTransactionId sale, sa_shift = sh_id sh,
        sa_register = sh_register sh, sa_operator = sh_operator sh, sa_warehouse = sh_warehouse sh,
        sa_customer = bk_customerPartnerId sale, sa_location = sq_customerLocationId sale, sa_net = units (bp_netTotal pricing),
        sa_vat = units (bp_vatTotal pricing), sa_gross = units (bp_grossTotal pricing), sa_base_net = units (bp_baseNetTotal pricing),
        sa_automatic = units (bp_automaticDiscountTotal pricing), sa_manual = units (bp_manualDiscountTotal pricing),
        sa_loyalty = units (bp_loyaltyDiscountTotal pricing), sa_points_redeemed = bp_loyaltyPointsRedeemed pricing,
        sa_points_earned = 0, sa_fiscal_status = (if prepared = None then Simulated else Fiscalized),
        sa_receipt_number = receiptNumber, sa_completed_by = accountId,
        sa_authorization = Option.bind (bk_manualDiscount sale) md_authorizationId\<rparr>) (\<lambda>_.
     tx_bind (tx_for (sell_line env hold sale terminal (sh_warehouse sh) accountId saleId) (sn_preparedLines snapshot)) (\<lambda>_.
     tx_bind (case bk_manualDiscount sale of None \<Rightarrow> tx_return ()
        | Some d \<Rightarrow> tx_writes (\<lambda>s. s\<lparr>discount_authorizations := update_where
            (\<lambda>x. Some (da_id x) = md_authorizationId d \<and> da_sale x = None) (\<lambda>x. x\<lparr>da_sale := Some saleId\<rparr>)
            (discount_authorizations s)\<rparr>)) (\<lambda>_.
     tx_bind (record_points env (bk_customerPartnerId sale) (units (bp_grossTotal pricing)) (bp_loyaltyPointsRedeemed pricing) saleId) (\<lambda>_.
     tx_bind (tx_for (record_payment sale saleId) (sn_payments snapshot)) (\<lambda>_.
     tx_bind (insert_fiscal_operation \<lparr>fo_sale = saleId,
        fo_external_reference = (case prepared of None \<Rightarrow> receiptNumber | Some row \<Rightarrow> fp_unique_sale_id row),
        fo_fiscalized = (prepared \<noteq> None)\<rparr>) (\<lambda>_.
     tx_bind (case hold of None \<Rightarrow> tx_return () | Some i \<Rightarrow> consume_holds i accountId saleId) (\<lambda>_.
     tx_bind (sale_of saleId) (\<lambda>result.
     tx_bind (posSideEffects (js ''pos_sale'') saleId (js ''pos.sale.completed'') accountId key) (\<lambda>_.
     tx_return (SaleDone result))))))))))))))"

definition completeSale_body :: "pos_env \<Rightarrow> uuid \<Rightarrow> SaleRequest \<Rightarrow> uuid option \<Rightarrow> jsstr \<Rightarrow> pos_response pos_tx" where
  "completeSale_body env accountId sale hold key =
     tx_bind (lockShift env (bk_shiftId sale) accountId) (\<lambda>sh.
     tx_bind (require_no_pending sh) (\<lambda>_.
     tx_bind (require_confirmed env accountId sale hold) (\<lambda>prepared.
     tx_bind (tx_reads (\<lambda>s. find (\<lambda>x. sa_transaction x = sq_clientTransactionId sale) (sales s))) (\<lambda>existing.
     case existing of
       Some row \<Rightarrow>
         tx_bind (tx_require (sa_shift row = bk_shiftId sale) (Api ''POS_TRANSACTION_ID_REUSED'')) (\<lambda>_.
         tx_bind (sale_of (sa_id row)) (\<lambda>result. tx_return (SaleDone result)))
     | None \<Rightarrow>
         tx_bind (sale_terminal env accountId sh (prepared \<noteq> None)) (\<lambda>terminal.
         tx_bind (requireCustomer env (bk_customerPartnerId sale) (sq_customerLocationId sale)) (\<lambda>_.
         tx_bind (sale_snapshot env accountId sh terminal sale prepared) (\<lambda>snapshot.
         record_sale env accountId sh terminal sale hold prepared snapshot key)))))))"

section \<open>Requests\<close>

fun is_sale :: "pos_response \<Rightarrow> bool" where
  "is_sale (SaleDone _) = True" | "is_sale _ = False"

fun is_shift :: "pos_response \<Rightarrow> bool" where
  "is_shift (ShiftDone _) = True" | "is_shift _ = False"

fun is_preparation :: "pos_response \<Rightarrow> bool" where
  "is_preparation (PreparationDone _) = True" | "is_preparation _ = False"

fun is_lease :: "pos_response \<Rightarrow> bool" where
  "is_lease (LeaseDone _) = True" | "is_lease _ = False"

definition completeSale :: "pos_env \<Rightarrow> uuid \<Rightarrow> jsstr option \<Rightarrow> SaleRequest \<Rightarrow> uuid option \<Rightarrow> pos_db \<Rightarrow> (inv_error + pos_response) \<times> pos_db" where
  "completeSale env accountId key input hold s = (case normalizeSale input of Inl e \<Rightarrow> (Inl e, s)
     | Inr sale \<Rightarrow> transact (pos_command ''pos.sale.complete'' key (pe_digest env (SalePayload sale)) is_sale
         (completeSale_body env accountId sale hold)) s)"

text \<open>\<open>`datecs-finalize-${preparationId}`\<close>\<close>

definition finalize_key :: "uuid \<Rightarrow> jsstr" where
  "finalize_key i = js ''datecs-finalize-'' @ uuid_text i"

text \<open>A read after the transaction, on the pool.\<close>

definition from_pool :: "'a pos_tx \<Rightarrow> pos_db \<Rightarrow> inv_error + 'a" where
  "from_pool m s = (case m s of Inl e \<Rightarrow> Inl e | Inr (a, _) \<Rightarrow> Inr a)"

definition finalized_sale :: "uuid \<Rightarrow> uuid \<Rightarrow> PosSale pos_tx" where
  "finalized_sale i accountId =
     tx_bind (required_row (\<lambda>s. Option.bind (find (\<lambda>p. fp_id p = i \<and> fp_cashier p = accountId) (preparations s)) fp_finalized_sale)
       ''Finalized POS sale link was not found'') sale_of"

definition confirmed_request :: "uuid \<Rightarrow> uuid \<Rightarrow> SaleRequest pos_tx" where
  "confirmed_request i accountId =
     tx_bind (required_row (\<lambda>s. find (\<lambda>p. fp_id p = i \<and> fp_cashier p = accountId \<and> fp_status p = ReceiptConfirmed) (preparations s))
       ''Confirmed fiscal sale was not found'') (\<lambda>row. tx_return (fp_request row))"

definition confirmFiscalSaleReceipt :: "pos_env \<Rightarrow> uuid \<Rightarrow> jsstr option \<Rightarrow> uuid \<Rightarrow> fiscal_receipt \<Rightarrow> pos_db \<Rightarrow>
    (inv_error + pos_response) \<times> pos_db" where
  "confirmFiscalSaleReceipt env accountId key i input s = (case normalizeFiscalSaleReceipt input of Inl e \<Rightarrow> (Inl e, s)
     | Inr receipt \<Rightarrow> (case transact (pos_command ''pos.fiscal-sale.receipt-confirm'' key
           (pe_digest env (ConfirmPayload i receipt)) is_preparation (confirmReceipt_body accountId i receipt)) s of
         (Inr (PreparationDone p), s') \<Rightarrow>
           if pf_status p = Finalized
           then (case from_pool (finalized_sale i accountId) s' of Inl e \<Rightarrow> (Inl e, s') | Inr r \<Rightarrow> (Inr (SaleDone r), s'))
           else (case from_pool (confirmed_request i accountId) s' of Inl e \<Rightarrow> (Inl e, s')
             | Inr request \<Rightarrow> completeSale env accountId (Some (finalize_key i)) request (Some i) s')
       | (r, s') \<Rightarrow> (r, s')))"

definition finalizeConfirmedFiscalSale :: "pos_env \<Rightarrow> uuid \<Rightarrow> uuid \<Rightarrow> pos_db \<Rightarrow> (inv_error + pos_response) \<times> pos_db" where
  "finalizeConfirmedFiscalSale env accountId i s = (case from_pool (find_preparation i accountId) s of Inl e \<Rightarrow> (Inl e, s)
     | Inr row \<Rightarrow>
         if fp_status row = Finalized \<and> fp_finalized_sale row \<noteq> None
         then (case from_pool (sale_of (the (fp_finalized_sale row))) s of Inl e \<Rightarrow> (Inl e, s) | Inr r \<Rightarrow> (Inr (SaleDone r), s))
         else if fp_status row \<noteq> ReceiptConfirmed then (Inl (Api ''POS_FISCAL_RECEIPT_NOT_CONFIRMED''), s)
         else completeSale env accountId (Some (finalize_key i)) (fp_request row) (Some i) s)"

definition identity_text :: "pos_env \<Rightarrow> jsstr \<Rightarrow> jsstr" where
  "identity_text env t = toUpperCase (env_tbl (pe_inv env)) (trim t)"

definition prepareFiscalSale :: "pos_env \<Rightarrow> uuid \<Rightarrow> jsstr option \<Rightarrow> PreparePosFiscalSaleRequest \<Rightarrow> pos_db \<Rightarrow>
    (inv_error + pos_response) \<times> pos_db" where
  "prepareFiscalSale env accountId key input s = (case normalizeSale (rq_sale input) of Inl e \<Rightarrow> (Inl e, s)
     | Inr sale \<Rightarrow>
         let deviceSerial = identity_text env (rq_deviceSerial input); operatorIdentifier = identity_text env (rq_operatorIdentifier input);
             requested = map_option (identity_text env) (rq_uniqueSaleId input) in
         if \<not> (case sq_payments sale of [p] \<Rightarrow> sp_method p = Cash \<and> truthy (sp_tenderedAmount p) \<noteq> None | _ \<Rightarrow> False)
         then (Inl (Api ''POS_DATECS_CASH_PAYMENT_REQUIRED''), s)
         else transact (pos_command ''pos.fiscal-sale.prepare'' key
           (pe_digest env (PreparePayload deviceSerial sale operatorIdentifier requested)) is_preparation
           (prepareFiscalSale_body env accountId sale deviceSerial operatorIdentifier requested)) s)"

definition reserveDatecsUnpLease :: "pos_env \<Rightarrow> uuid \<Rightarrow> jsstr option \<Rightarrow> jsstr \<Rightarrow> jsstr \<Rightarrow> uuid \<Rightarrow> pos_db \<Rightarrow>
    (inv_error + pos_response) \<times> pos_db" where
  "reserveDatecsUnpLease env accountId key device operator shiftId s =
     (let deviceSerial = identity_text env device; operatorIdentifier = identity_text env operator in
     if \<not> device_format deviceSerial operatorIdentifier then (Inl (Api ''POS_DATECS_IDENTITY_INVALID''), s)
     else transact (pos_command ''pos.datecs-unp.reserve'' key (pe_digest env (LeasePayload deviceSerial operatorIdentifier shiftId))
       is_lease (reserveDatecsUnpLease_body env accountId deviceSerial operatorIdentifier shiftId)) s)"

definition openShift :: "pos_env \<Rightarrow> uuid \<Rightarrow> jsstr option \<Rightarrow> uuid \<Rightarrow> jsstr \<Rightarrow> pos_db \<Rightarrow> (inv_error + pos_response) \<times> pos_db" where
  "openShift env accountId key cashRegisterId openingCash s = (case decimal openingCash False of Inl e \<Rightarrow> (Inl e, s)
     | Inr cash \<Rightarrow> transact (pos_command ''pos.shift.open'' key (pe_digest env (OpenShiftPayload cashRegisterId cash)) is_shift
         (openShift_body env accountId cashRegisterId cash)) s)"

definition closeShift :: "pos_env \<Rightarrow> uuid \<Rightarrow> jsstr option \<Rightarrow> uuid \<Rightarrow> jsstr \<Rightarrow> int \<Rightarrow> pos_db \<Rightarrow> (inv_error + pos_response) \<times> pos_db" where
  "closeShift env accountId key i closingCash version s = (case decimal closingCash False of Inl e \<Rightarrow> (Inl e, s)
     | Inr cash \<Rightarrow> transact (pos_command ''pos.shift.close'' key (pe_digest env (CloseShiftPayload i cash version)) is_shift
         (closeShift_body env accountId i cash version)) s)"

definition markFiscalSalePrinting :: "pos_env \<Rightarrow> uuid \<Rightarrow> jsstr option \<Rightarrow> uuid \<Rightarrow> pos_db \<Rightarrow> (inv_error + pos_response) \<times> pos_db" where
  "markFiscalSalePrinting env accountId key i = transact (pos_command ''pos.fiscal-sale.printing'' key
     (pe_digest env (PreparationPayload i [])) is_preparation (markFiscalSalePrinting_body accountId i))"

definition markFiscalSaleOutcomeUnknown :: "pos_env \<Rightarrow> uuid \<Rightarrow> jsstr option \<Rightarrow> uuid \<Rightarrow> jsstr \<Rightarrow> pos_db \<Rightarrow>
    (inv_error + pos_response) \<times> pos_db" where
  "markFiscalSaleOutcomeUnknown env accountId key i commandCode = transact (pos_command ''pos.fiscal-sale.outcome-unknown'' key
     (pe_digest env (PreparationPayload i commandCode)) is_preparation (markFiscalSaleOutcomeUnknown_body accountId i))"

definition evidence_text :: "cancellation_evidence \<Rightarrow> jsstr" where
  "evidence_text e = (case e of BeforePrinting \<Rightarrow> js ''before_printing'' | PrinterOpenRejected \<Rightarrow> js ''printer_open_rejected''
     | PrinterReceiptCancelled \<Rightarrow> js ''printer_receipt_cancelled'')"

definition cancelFiscalSalePreparation :: "pos_env \<Rightarrow> uuid \<Rightarrow> jsstr option \<Rightarrow> uuid \<Rightarrow> cancellation_evidence \<Rightarrow> pos_db \<Rightarrow>
    (inv_error + pos_response) \<times> pos_db" where
  "cancelFiscalSalePreparation env accountId key i evidence = transact (pos_command ''pos.fiscal-sale.cancel'' key
     (pe_digest env (PreparationPayload i (evidence_text evidence))) is_preparation
     (cancelFiscalSalePreparation_body accountId i evidence))"

end
