(* ===== verification/PosReports.thy ===== *)
theory PosReports
  imports PosSales
begin

text \<open>
  The daily reports of a fiscal printer (\<open>prepareFiscalDailyReport\<close>, \<open>updateFiscalDailyReportState\<close>,
  \<open>rejectFiscalDailyReport\<close> and \<open>confirmFiscalDailyReport\<close> of \<open>apps/api/src/pos/pos.service.ts\<close>). A confirmed
  Z report closes its shift in the same transaction. The second part gathers the requests of the
  register's cash side as one datatype, and what one request does to the database.
\<close>

section \<open>Preparing a report\<close>

record CreatePosFiscalDailyReportRequest =
  cr_type :: report_type
  cr_shiftId :: uuid
  cr_closingCashEur :: "jsstr option"
  cr_shiftVersion :: "int option"

text \<open>A version of zero is false in JavaScript.\<close>

definition report_request_valid :: "CreatePosFiscalDailyReportRequest \<Rightarrow> bool" where
  "report_request_valid input \<longleftrightarrow> (case cr_type input of
     ZReport \<Rightarrow> truthy (cr_closingCashEur input) \<noteq> None \<and> cr_shiftVersion input \<noteq> None \<and> cr_shiftVersion input \<noteq> Some 0
   | XReport \<Rightarrow> cr_closingCashEur input = None \<and> cr_shiftVersion input = None)"

definition insert_report :: "FiscalDailyReportRow \<Rightarrow> unit pos_tx" where
  "insert_report row =
     tx_bind (tx_require (case dr_closing_cash row of None \<Rightarrow> True | Some c \<Rightarrow> fits c) NumericOverflow) (\<lambda>_.
     tx_bind (tx_reads daily_reports) (\<lambda>rows.
     tx_bind (tx_require (\<not> list_ex (\<lambda>x. dr_register x = dr_register row \<and> unresolved_report x) rows)
       (UniqueViolation ''pos_fiscal_daily_report_one_unresolved_per_register'')) (\<lambda>_.
     tx_bind (tx_require (\<not> (dr_type row = ZReport \<and>
         list_ex (\<lambda>x. dr_shift x = dr_shift row \<and> dr_type x = ZReport \<and> dr_status x \<noteq> ReportFailed) rows))
       (UniqueViolation ''pos_fiscal_daily_report_one_z_per_shift'')) (\<lambda>_.
     tx_writes (\<lambda>s. s\<lparr>daily_reports := daily_reports s @ [row]\<rparr>)))))"

definition fiscalDailyReport :: "uuid \<Rightarrow> FiscalDailyReportRow pos_tx" where
  "fiscalDailyReport i = required_row (\<lambda>s. find (\<lambda>r. dr_id r = i) (daily_reports s)) ''POS fiscal daily report lookup failed''"

definition report_event :: "report_type \<Rightarrow> string \<Rightarrow> jsstr" where
  "report_event type step = js ''pos.fiscal_daily_report.'' @ (case type of XReport \<Rightarrow> js ''x'' | ZReport \<Rightarrow> js ''z'') @ [46] @ js step"

definition report_done :: "uuid \<Rightarrow> string \<Rightarrow> uuid \<Rightarrow> jsstr \<Rightarrow> pos_response pos_tx" where
  "report_done i step accountId key =
     tx_bind (fiscalDailyReport i) (\<lambda>report.
     tx_bind (posSideEffects (js ''pos_fiscal_daily_report'') i (report_event (dr_type report) step) accountId key) (\<lambda>_.
     tx_return (ReportDone report)))"

definition prepareFiscalDailyReport_body :: "pos_env \<Rightarrow> uuid \<Rightarrow> CreatePosFiscalDailyReportRequest \<Rightarrow> jsstr option \<Rightarrow> jsstr \<Rightarrow>
    pos_response pos_tx" where
  "prepareFiscalDailyReport_body env accountId input closingCash key =
     tx_bind (lockShift env (cr_shiftId input) accountId) (\<lambda>sh.
     tx_bind (tx_require (\<not> (cr_type input = ZReport \<and> cr_shiftVersion input \<noteq> Some (sh_version sh))) (Api ''POS_SHIFT_CONFLICT'')) (\<lambda>_.
     tx_bind (shift_terminal env accountId sh) (\<lambda>terminal.
     tx_bind (tx_require (as_fiscal_mode terminal = FiscalHardware) (Api ''POS_DATECS_HARDWARE_REQUIRED'')) (\<lambda>_.
     tx_bind (require_no (\<lambda>s. list_ex (\<lambda>p. fp_register p = sh_register sh \<and> unresolved_sale p) (preparations s))
       ''POS_FISCAL_SALE_REQUIRES_REVIEW'') (\<lambda>_.
     tx_bind (require_no (\<lambda>s. list_ex (\<lambda>r. dr_register r = sh_register sh \<and> unresolved_report r) (daily_reports s))
       ''POS_FISCAL_REPORT_REQUIRES_REVIEW'') (\<lambda>_.
     tx_bind (require_no (\<lambda>s. list_ex (\<lambda>r. rp_register r = sh_register sh \<and> unresolved_return r) (return_preparations s))
       ''POS_FISCAL_RETURN_REQUIRES_REVIEW'') (\<lambda>_.
     tx_bind newUUID (\<lambda>i.
     tx_bind (insert_report \<lparr>dr_id = i, dr_shift = sh_id sh, dr_register = sh_register sh, dr_operator = sh_operator sh,
        dr_cashier = accountId, dr_type = cr_type input, dr_status = ReportPrepared, dr_closing_cash = map_option units closingCash,
        dr_shift_version = (if cr_type input = ZReport then Some (sh_version sh) else None), dr_result = None, dr_failure = None\<rparr>) (\<lambda>_.
     report_done i ''prepared'' accountId key)))))))))"

section \<open>Steps of a report\<close>

definition find_report :: "uuid \<Rightarrow> uuid \<Rightarrow> FiscalDailyReportRow pos_tx" where
  "find_report i accountId = required_row (\<lambda>s. find (\<lambda>r. dr_id r = i \<and> dr_cashier r = accountId) (daily_reports s))
     ''Fiscal daily report was not found''"

definition update_report :: "uuid \<Rightarrow> (FiscalDailyReportRow \<Rightarrow> FiscalDailyReportRow) \<Rightarrow> unit pos_tx" where
  "update_report i f = tx_writes (\<lambda>s. s\<lparr>daily_reports := update_where (\<lambda>r. dr_id r = i) f (daily_reports s)\<rparr>)"

text \<open>\<open>unknown\<close>: to the review of an unknown outcome, otherwise to the printer.\<close>

definition updateFiscalDailyReportState_body :: "uuid \<Rightarrow> uuid \<Rightarrow> bool \<Rightarrow> jsstr \<Rightarrow> pos_response pos_tx" where
  "updateFiscalDailyReportState_body accountId i unknown key =
     (let next' = (if unknown then ReportOutcomeUnknown else ReportPrinting);
          allowed = (if unknown then ReportPrinting else ReportPrepared) in
     tx_bind (find_report i accountId) (\<lambda>row.
     if dr_status row = next' then tx_return (ReportDone row) else
     tx_bind (tx_require (dr_status row = allowed) (Api ''POS_FISCAL_REPORT_STATE_CONFLICT'')) (\<lambda>_.
     tx_bind (update_report i (\<lambda>r. r\<lparr>dr_status := next'\<rparr>)) (\<lambda>_.
     report_done i (if unknown then ''outcome_unknown'' else ''printing'') accountId key))))"

definition rejectFiscalDailyReport_body :: "uuid \<Rightarrow> uuid \<Rightarrow> jsstr \<Rightarrow> jsstr \<Rightarrow> pos_response pos_tx" where
  "rejectFiscalDailyReport_body accountId i reason key =
     tx_bind (find_report i accountId) (\<lambda>row.
     if dr_status row = ReportFailed then tx_return (ReportDone row) else
     tx_bind (tx_require (dr_status row \<in> {ReportPrepared, ReportPrinting}) (Api ''POS_FISCAL_REPORT_STATE_CONFLICT'')) (\<lambda>_.
     tx_bind (tx_require (reason = js ''printer_rejected'') (CheckViolation ''pos_fiscal_daily_report_failure_valid'')) (\<lambda>_.
     tx_bind (update_report i (\<lambda>r. r\<lparr>dr_status := ReportFailed, dr_failure := Some reason\<rparr>)) (\<lambda>_.
     report_done i ''rejected'' accountId key))))"

text \<open>\<open>/^-?\d{1,12}(?:\.\d{1,2})?$/\<close>\<close>

definition report_amount :: "jsstr \<Rightarrow> bool" where
  "report_amount t \<longleftrightarrow> (let body = (if t \<noteq> [] \<and> hd t = 45 then tl t else t); whole = takeWhile is_digit body; rest = dropWhile is_digit body in
     1 \<le> length whole \<and> length whole \<le> 12 \<and> (case rest of [] \<Rightarrow> True
       | c # f \<Rightarrow> c = 46 \<and> 1 \<le> length f \<and> length f \<le> 2 \<and> list_all is_digit f))"

definition normalizeFiscalDailyReportResult :: "report_result \<Rightarrow> inv_error + report_result" where
  "normalizeFiscalDailyReportResult input =
     (if \<not> rx [(is_digit, 1, 4)] (rr_fiscalRecordNumber input) then Inl (Api ''POS_FISCAL_REPORT_RECORD_INVALID'')
      else if \<not> list_all report_amount (rr_taxGroupTotals input) then Inl (Api ''POS_FISCAL_REPORT_TOTAL_INVALID'')
      else if \<not> report_amount (rr_nonVatSalesTotalEur input) then Inl (Api ''POS_FISCAL_REPORT_TOTAL_INVALID'')
      else Inr input)"

definition same_result :: "report_result option \<Rightarrow> report_result \<Rightarrow> bool" where
  "same_result recorded result \<longleftrightarrow> (case recorded of None \<Rightarrow> False
     | Some r \<Rightarrow> rr_fiscalRecordNumber r = rr_fiscalRecordNumber result \<and>
         units (rr_nonVatSalesTotalEur r) = units (rr_nonVatSalesTotalEur result) \<and>
         map units (rr_taxGroupTotals r) = map units (rr_taxGroupTotals result))"

text \<open>The Z report closes the shift at the version that was counted.\<close>

definition close_with_z :: "FiscalDailyReportRow \<Rightarrow> ShiftRow \<Rightarrow> uuid \<Rightarrow> unit pos_tx" where
  "close_with_z row sh accountId =
     tx_bind (tx_require (dr_shift_version row = Some (sh_version sh)) (Api ''POS_SHIFT_CONFLICT'')) (\<lambda>_.
     tx_bind (required_row (\<lambda>_. dr_closing_cash row) ''Z report without counted cash'') (\<lambda>cash.
     tx_bind (tx_reads (\<lambda>s. list_ex (\<lambda>x. sh_id x = dr_shift row \<and> sh_version x = sh_version sh \<and> sh_open x) (shifts s))) (\<lambda>open.
     tx_bind (tx_writes (\<lambda>s. s\<lparr>shifts := update_where (\<lambda>x. sh_id x = dr_shift row \<and> sh_version x = sh_version sh \<and> sh_open x)
        (\<lambda>x. x\<lparr>sh_open := False, sh_closing_cash := Some cash, sh_closed_by := Some accountId, sh_version := sh_version x + 1\<rparr>)
        (shifts s)\<rparr>)) (\<lambda>_.
     tx_require open (Api ''POS_SHIFT_CONFLICT'')))))"

definition confirmFiscalDailyReport_body :: "pos_env \<Rightarrow> uuid \<Rightarrow> uuid \<Rightarrow> report_result \<Rightarrow> jsstr \<Rightarrow> pos_response pos_tx" where
  "confirmFiscalDailyReport_body env accountId i result key =
     tx_bind (find_report i accountId) (\<lambda>initial.
     if dr_status initial = ReportCompleted then
       tx_bind (fiscalDailyReport i) (\<lambda>report.
       tx_bind (tx_require (same_result (dr_result report) result) (Api ''POS_FISCAL_REPORT_RESULT_CONFLICT'')) (\<lambda>_.
       tx_return (ReportDone report)))
     else
     tx_bind (lockShift env (dr_shift initial) accountId) (\<lambda>sh.
     tx_bind (find_report i accountId) (\<lambda>row.
     tx_bind (tx_require (dr_status row \<in> {ReportPrinting, ReportOutcomeUnknown}) (Api ''POS_FISCAL_REPORT_STATE_CONFLICT'')) (\<lambda>_.
     tx_bind (if dr_type row = ZReport then close_with_z row sh accountId else tx_return ()) (\<lambda>_.
     tx_bind (update_report i (\<lambda>r. r\<lparr>dr_status := ReportCompleted, dr_result := Some result\<rparr>)) (\<lambda>_.
     tx_bind (if dr_type row = ZReport then
        tx_bind (shift (dr_shift row)) (\<lambda>_. posSideEffects (js ''pos_shift'') (dr_shift row)
          (js ''pos.shift.closed.with_fiscal_z_report'') accountId key)
        else tx_return ()) (\<lambda>_.
     report_done i ''completed'' accountId key)))))))"

fun is_report :: "pos_response \<Rightarrow> bool" where
  "is_report (ReportDone _) = True" | "is_report _ = False"

definition prepareFiscalDailyReport :: "pos_env \<Rightarrow> uuid \<Rightarrow> jsstr option \<Rightarrow> CreatePosFiscalDailyReportRequest \<Rightarrow> pos_db \<Rightarrow>
    (inv_error + pos_response) \<times> pos_db" where
  "prepareFiscalDailyReport env accountId key input s =
     (if \<not> report_request_valid input then (Inl (Api ''POS_FISCAL_REPORT_CLOSE_SNAPSHOT_INVALID''), s)
      else case (case cr_closingCashEur input of Some c \<Rightarrow> res_bind (decimal c False) (\<lambda>d. Inr (Some d)) | None \<Rightarrow> Inr None) of
        Inl e \<Rightarrow> (Inl e, s)
      | Inr cash \<Rightarrow> transact (pos_command ''pos.fiscal-daily-report.prepare'' key
          (pe_digest env (ReportPayload (cr_shiftId input) (cr_type input) cash (cr_shiftVersion input))) is_report
          (prepareFiscalDailyReport_body env accountId input cash)) s)"

definition updateFiscalDailyReportState :: "pos_env \<Rightarrow> uuid \<Rightarrow> jsstr option \<Rightarrow> uuid \<Rightarrow> bool \<Rightarrow> pos_db \<Rightarrow>
    (inv_error + pos_response) \<times> pos_db" where
  "updateFiscalDailyReportState env accountId key i unknown = transact (pos_command
     (if unknown then ''pos.fiscal-daily-report.outcome_unknown'' else ''pos.fiscal-daily-report.printing'') key
     (pe_digest env (ReportStepPayload i [])) is_report (updateFiscalDailyReportState_body accountId i unknown))"

definition rejectFiscalDailyReport :: "pos_env \<Rightarrow> uuid \<Rightarrow> jsstr option \<Rightarrow> uuid \<Rightarrow> jsstr \<Rightarrow> pos_db \<Rightarrow> (inv_error + pos_response) \<times> pos_db" where
  "rejectFiscalDailyReport env accountId key i reason = transact (pos_command ''pos.fiscal-daily-report.reject'' key
     (pe_digest env (ReportStepPayload i reason)) is_report (rejectFiscalDailyReport_body accountId i reason))"

definition confirmFiscalDailyReport :: "pos_env \<Rightarrow> uuid \<Rightarrow> jsstr option \<Rightarrow> uuid \<Rightarrow> report_result \<Rightarrow> pos_db \<Rightarrow>
    (inv_error + pos_response) \<times> pos_db" where
  "confirmFiscalDailyReport env accountId key i input s = (case normalizeFiscalDailyReportResult input of Inl e \<Rightarrow> (Inl e, s)
     | Inr result \<Rightarrow> transact (pos_command ''pos.fiscal-daily-report.confirm'' key
         (pe_digest env (ReportConfirmPayload i result)) is_report (confirmFiscalDailyReport_body env accountId i result)) s)"

section \<open>Requests\<close>

datatype pos_request = OpenShift uuid jsstr | CloseShift uuid jsstr int | ReserveLease jsstr jsstr uuid
  | PrepareSale PreparePosFiscalSaleRequest | MarkPrinting uuid | MarkUnknown uuid jsstr
  | CancelSale uuid cancellation_evidence | ConfirmReceipt uuid fiscal_receipt | FinalizeSale uuid
  | CompleteSale SaleRequest | PrepareReport CreatePosFiscalDailyReportRequest | StepReport uuid bool
  | RejectReport uuid jsstr | ConfirmReport uuid report_result

fun pos_handle :: "pos_env \<Rightarrow> uuid \<Rightarrow> jsstr option \<Rightarrow> pos_request \<Rightarrow> pos_db \<Rightarrow> (inv_error + pos_response) \<times> pos_db" where
  "pos_handle env a key (OpenShift r c) s = openShift env a key r c s"
| "pos_handle env a key (CloseShift i c v) s = closeShift env a key i c v s"
| "pos_handle env a key (ReserveLease d o' sh) s = reserveDatecsUnpLease env a key d o' sh s"
| "pos_handle env a key (PrepareSale q) s = prepareFiscalSale env a key q s"
| "pos_handle env a key (MarkPrinting i) s = markFiscalSalePrinting env a key i s"
| "pos_handle env a key (MarkUnknown i c) s = markFiscalSaleOutcomeUnknown env a key i c s"
| "pos_handle env a key (CancelSale i e) s = cancelFiscalSalePreparation env a key i e s"
| "pos_handle env a key (ConfirmReceipt i r) s = confirmFiscalSaleReceipt env a key i r s"
| "pos_handle env a key (FinalizeSale i) s = finalizeConfirmedFiscalSale env a i s"
| "pos_handle env a key (CompleteSale q) s = completeSale env a key q None s"
| "pos_handle env a key (PrepareReport q) s = prepareFiscalDailyReport env a key q s"
| "pos_handle env a key (StepReport i u) s = updateFiscalDailyReportState env a key i u s"
| "pos_handle env a key (RejectReport i r) s = rejectFiscalDailyReport env a key i r s"
| "pos_handle env a key (ConfirmReport i r) s = confirmFiscalDailyReport env a key i r s"

end
