(* ===== verification/RegisterLedger.thy ===== *)
theory RegisterLedger
  imports RegisterMachine PosReports InventoryLedger
begin

text \<open>
  The POS service implements the register machine: every request is a step of it, a confirmed
  receipt with the completion of its sale at most two, and a failed transaction none. The
  invariant of the machine therefore holds in every state that the service reaches.
\<close>

section \<open>Abstraction\<close>

text \<open>The points that a sale earned are written after its row; the machine does not know them.\<close>

definition sale_entry :: "SaleRow \<Rightarrow> SaleRow" where
  "sale_entry x = x\<lparr>sa_points_earned := 0\<rparr>"

definition next_reference :: "pos_db \<Rightarrow> jsstr \<times> jsstr \<Rightarrow> nat" where
  "next_reference s k = (case map_of (unp_sequences s) k of None \<Rightarrow> 1 | Some n \<Rightarrow> n)"

definition register_of :: "pos_db \<Rightarrow> register" where
  "register_of s = \<lparr>g_shifts = shifts s, g_sequences = next_reference s, g_leases = unp_leases s,
     g_sales_pending = preparations s, g_reports = daily_reports s, g_sales = map sale_entry (sales s), g_next = fresh_id (inv s)\<rparr>"

lemma register_of_simps [simp]:
  "g_shifts (register_of s) = shifts s" "g_sequences (register_of s) = next_reference s" "g_leases (register_of s) = unp_leases s"
  "g_sales_pending (register_of s) = preparations s" "g_reports (register_of s) = daily_reports s"
  "g_sales (register_of s) = map sale_entry (sales s)" "g_next (register_of s) = fresh_id (inv s)"
  by (simp_all add: register_of_def)

lemma sale_entry_simps [simp]:
  "sa_id (sale_entry x) = sa_id x" "sa_transaction (sale_entry x) = sa_transaction x" "sa_shift (sale_entry x) = sa_shift x"
  "sa_receipt_number (sale_entry x) = sa_receipt_number x" "sa_fiscal_status (sale_entry x) = sa_fiscal_status x"
  "sa_number (sale_entry x) = sa_number x" "sa_net (sale_entry x) = sa_net x" "sa_vat (sale_entry x) = sa_vat x" "sa_gross (sale_entry x) = sa_gross x"
  by (simp_all add: sale_entry_def)

text \<open>\<open>reg_at T n s\<close>: the register of \<open>s\<close> is \<open>T\<close>, but for its identifiers, of which the next is at least \<open>n\<close>.\<close>

definition reg_at :: "register \<Rightarrow> uuid \<Rightarrow> pos_db \<Rightarrow> bool" where
  "reg_at T n s \<longleftrightarrow> shifts s = g_shifts T \<and> next_reference s = g_sequences T \<and> unp_leases s = g_leases T \<and>
     preparations s = g_sales_pending T \<and> daily_reports s = g_reports T \<and> map sale_entry (sales s) = g_sales T \<and>
     n \<le> fresh_id (inv s)"

lemma reg_at_self: "reg_at (register_of s) (fresh_id (inv s)) s"
  by (simp add: reg_at_def)

lemma reg_at_of: "reg_at T n s \<Longrightarrow> register_of s = T\<lparr>g_next := fresh_id (inv s)\<rparr> \<and> n \<le> fresh_id (inv s)"
  by (cases T) (simp add: reg_at_def register_of_def)

text \<open>A statement that may draw identifiers and write the other tables, but not those of the register nor the keys.\<close>

definition calm :: "pos_db \<Rightarrow> pos_db \<Rightarrow> bool" where
  "calm s s' \<longleftrightarrow> (\<forall>T n. reg_at T n s \<longrightarrow> reg_at T n s') \<and> pos_keys s' = pos_keys s"

interpretation calm: step_relation calm
  by unfold_locales (auto simp: calm_def)

lemma calmI: "shifts s' = shifts s \<Longrightarrow> unp_sequences s' = unp_sequences s \<Longrightarrow> unp_leases s' = unp_leases s \<Longrightarrow>
   preparations s' = preparations s \<Longrightarrow> daily_reports s' = daily_reports s \<Longrightarrow> map sale_entry (sales s') = map sale_entry (sales s) \<Longrightarrow>
   fresh_id (inv s) \<le> fresh_id (inv s') \<Longrightarrow> pos_keys s' = pos_keys s \<Longrightarrow> calm s s'"
  by (auto simp: calm_def reg_at_def next_reference_def [abs_def])

text \<open>Statements on the warehouse.\<close>

definition draws :: "inv_db \<Rightarrow> inv_db \<Rightarrow> bool" where
  "draws s s' \<longleftrightarrow> fresh_id s \<le> fresh_id s'"

interpretation draws: step_relation draws
  by unfold_locales (auto simp: draws_def)

lemma calm_lift: "tx_within draws m \<Longrightarrow> tx_within calm (lift_inv m)"
  by (auto simp: tx_within_def lift_inv_def draws_def intro!: calmI split: sum.splits)

lemma draws_quiet: "tx_within quiet m \<Longrightarrow> tx_within draws m"
  by (auto simp: tx_within_def quiet_alt draws_def)

lemma draws_writes: "(\<And>s. fresh_id (g s) = fresh_id s) \<Longrightarrow> tx_within draws (tx_writes g)"
  by (intro draws.within) (simp add: draws_def)

lemma draws_insert: "tx_within draws (insert_movement m)" "tx_within draws (insert_reservation r)" "tx_within draws (reserve_item i x)"
  unfolding insert_movement_def insert_reservation_def reserve_item_def
  by (intro draws.within draws_quiet [OF quiet_randomUUID]; simp add: draws_def)+

lemma calm_uuid: "tx_within calm newUUID"
  unfolding newUUID_def by (intro calm_lift draws_quiet quiet_randomUUID)

lemma calm_events: "tx_within calm (posSideEffects t i ev a k)"
  unfolding posSideEffects_def by (intro calm_lift draws_quiet quiet_events)

lemmas calm_base = calm.within calm_uuid calm_events calm_lift draws_quiet draws_insert draws_writes

section \<open>Statements that leave the register alone\<close>

lemma calm_tables:
  "tx_within calm (required_row q e)" "tx_within calm (shift i)" "tx_within calm (lockShift env i a)"
  "tx_within calm (requireUsableFiscalMode env mode)" "tx_within calm (nextNumber env t ty p)"
  "tx_within calm (requireCustomer env c l)" "tx_within calm (require_no q' c')"
  unfolding required_row_def shift_def lockShift_def requireUsableFiscalMode_def nextNumber_def requireCustomer_def require_no_def Let_def
  by (intro calm_base calmI; simp)+

lemma calm_ensure: "tx_within calm (ensure_sequence d o')"
proof -
  have "calm s (case map_of (unp_sequences s) (d, o') of
      None \<Rightarrow> s\<lparr>unp_sequences := AList.update (d, o') 1 (unp_sequences s)\<rparr> | Some _ \<Rightarrow> s)" for s
    by (auto simp: calm_def reg_at_def next_reference_def fun_eq_iff split: option.splits)
  then show ?thesis unfolding ensure_sequence_def by (intro calm_base)
qed

lemma calm_terminal: "tx_within calm (require_hardware env t sh)" "tx_within calm (shift_terminal env a sh)"
  unfolding require_hardware_def shift_terminal_def by (intro calm_base calm_tables)+

lemma calm_pricing:
  "tx_within calm (loyaltyAccount env c)" "tx_within calm (requireProducts env w c' ps)"
  "tx_within calm (require_authorization env a b)" "tx_within calm (serial_items env ok w l)"
  "tx_within calm (prepare_payments env t b g)"
  unfolding loyaltyAccount_def requireProducts_def require_authorization_def serial_items_def prepare_payments_def
  by (intro calm_base)+

lemma calm_basket: "tx_within calm (prepareBasketPricing env sh b a r)" "tx_within calm (prepare_line env w ps b pr l)"
  unfolding prepareBasketPricing_def prepare_line_def Let_def by (intro calm_base calm_tables calm_pricing)+

lemma calm_holds:
  "tx_within calm (hold_authorization env b i)" "tx_within calm (hold_points env b pr i)" "tx_within calm (hold_batch w bt q)"
  "tx_within calm (free_serial_holds i)" "tx_within calm (free_points i)" "tx_within calm (release_batch s l)"
  unfolding hold_authorization_def hold_points_def hold_batch_def free_serial_holds_def free_points_def release_batch_def Let_def
  by (intro calm_base calmI; simp)+

lemma calm_hold_line: "tx_within calm (hold_line w i x)"
  unfolding hold_line_def Let_def by (cases x; simp only: prod.case) (intro calm_base calm_holds)

lemma calm_release: "tx_within calm (releaseFiscalSaleReservations row a)"
  unfolding releaseFiscalSaleReservations_def by (intro calm_base calm_holds calmI; simp)

lemma calm_preparation:
  "tx_within calm (fiscalSalePreparation i)" "tx_within calm (require_no_pending sh)" "tx_within calm (find_preparation i a)"
  "tx_within calm (preparation_done i ev a k)" "tx_within calm (as_it_is row)"
  unfolding fiscalSalePreparation_def require_no_pending_def find_preparation_def preparation_done_def as_it_is_def
  by (intro calm_base calm_tables)+

lemma calm_stock:
  "tx_within calm (nonneg ns c)" "tx_within calm (insert_sale_line l)" "tx_within calm (require_held h w p q)"
  "tx_within calm (take_stock h w p q)" "tx_within calm (issue_items is m)"
  "tx_within calm (free_item_hold h x)" "tx_within calm (insert_equipment env e)" "tx_within calm (insert_fiscal_operation fo)"
  unfolding nonneg_def insert_sale_line_def require_held_def take_stock_def issue_items_def free_item_hold_def
    insert_equipment_def insert_fiscal_operation_def
  by (intro calm_base draws.within calmI; simp add: draws_def)+

lemma calm_batch: "tx_within calm (take_batch h w b p q)"
  unfolding take_batch_def Let_def
  by (intro calm.within_bind calm.within_row; simp only: case_prod_unfold; intro calm_base draws.within calmI; simp add: draws_def)

lemma calm_sold: "tx_within calm (registerSoldEquipment env i t p pr x c l)" "tx_within calm (sell_item env h b t i li ln x)"
proof -
  show r: "tx_within calm (registerSoldEquipment env i t p pr x c l)" for i t p pr x c l
    unfolding registerSoldEquipment_def by (intro calm_base calm_tables calm_stock calmI; simp)
  show "tx_within calm (sell_item env h b t i li ln x)"
    unfolding sell_item_def by (intro calm_base calm_stock r calmI; simp)
qed

lemma calm_line: "tx_within calm (sell_line env h b t w a i ln)"
  unfolding sell_line_def Let_def
  by (intro calm_base calm_stock calm_batch calm_pricing calm_sold)

lemma sale_entry_points: "map sale_entry (update_where p (\<lambda>x. x\<lparr>sa_points_earned := n\<rparr>) xs) = map sale_entry xs"
  by (rule map_key_update) (simp add: sale_entry_def)

lemma calm_payments: "tx_within calm (record_points env c g r i)" "tx_within calm (record_payment b i pay)"
proof -
  show "tx_within calm (record_points env c g r i)" unfolding record_points_def Let_def
    by (intro calm_base calmI; simp add: sale_entry_points)
  show "tx_within calm (record_payment b i pay)" unfolding record_payment_def Let_def
    by (intro calm.within_bind calm.within_require calm.within_writes calmI)
      (auto split: prod.split payment_method.split option.split intro!: calm_base calmI)
qed

lemma calm_sale: "tx_within calm (sale_of i)" "tx_within calm (require_confirmed env a b h)" "tx_within calm (sale_terminal env a sh f)"
  "tx_within calm (sale_snapshot env a sh t b pr)"
  unfolding sale_of_def require_confirmed_def sale_terminal_def sale_snapshot_def
  by (intro calm_base calm_tables calm_basket calm_pricing)+

lemma calm_reports: "tx_within calm (fiscalDailyReport i)" "tx_within calm (report_done i st a k)" "tx_within calm (find_report i a)"
  unfolding fiscalDailyReport_def report_done_def find_report_def by (intro calm_base calm_tables)+

lemmas calm_simple = calm_uuid calm_events calm_tables calm_terminal calm_pricing calm_basket calm_holds calm_hold_line calm_release
  calm_preparation calm_stock calm_line calm_payments calm_sale calm_reports calm.within_res calm.within_reads calm.within_require

section \<open>Rules\<close>

lemma bind_calm: "tx_within calm m \<Longrightarrow> (\<And>a. tx_spec (reg_at T n) (f a) Q) \<Longrightarrow> tx_spec (reg_at T n) (tx_bind m f) Q"
  by (rule bind_run [where R = "\<lambda>_. reg_at T n" and A = "\<lambda>_. True"]) (auto simp: calm_def dest!: tx_withinD)

lemma bind_known: "tx_within calm m \<Longrightarrow> (\<And>s a s'. reg_at T n s \<Longrightarrow> m s = Inr (a, s') \<Longrightarrow> A a) \<Longrightarrow>
   (\<And>a. A a \<Longrightarrow> tx_spec (reg_at T n) (f a) Q) \<Longrightarrow> tx_spec (reg_at T n) (tx_bind m f) Q"
  by (rule bind_run [where R = "\<lambda>_. reg_at T n" and A = A]) (auto simp: calm_def dest: tx_withinD)

lemma bind_update: "(\<And>s a s'. reg_at T n s \<Longrightarrow> m s = Inr (a, s') \<Longrightarrow> A a \<and> reg_at T' n' s') \<Longrightarrow>
   (\<And>a. A a \<Longrightarrow> tx_spec (reg_at T' n') (f a) Q) \<Longrightarrow> tx_spec (reg_at T n) (tx_bind m f) Q"
  by (rule bind_run [where R = "\<lambda>_. reg_at T' n'" and A = A]) auto

lemma bind_identifier: "(\<And>i. n \<le> i \<Longrightarrow> tx_spec (reg_at T (Suc i)) (f i) Q) \<Longrightarrow> tx_spec (reg_at T n) (tx_bind newUUID f) Q"
  by (rule bind_run [where A = "\<lambda>i. n \<le> i" and R = "\<lambda>i. reg_at T (Suc i)"])
    (auto simp: newUUID_def lift_inv_def randomUUID_def reg_at_def next_reference_def [abs_def])

lemma reg_stepI: "reg_at T' n s \<Longrightarrow> (\<And>m. n \<le> m \<Longrightarrow> reg_step T (T'\<lparr>g_next := m\<rparr>)) \<Longrightarrow> reg_step T (register_of s)"
  using reg_at_of by metis

text \<open>\<open>leads R T m\<close>: on the register \<open>T\<close>, whatever \<open>m\<close> commits is a change in \<open>R\<close>.\<close>

abbreviation leads :: "(register \<Rightarrow> register \<Rightarrow> bool) \<Rightarrow> register \<Rightarrow> 'a pos_tx \<Rightarrow> bool" where
  "leads R T m \<equiv> tx_spec (reg_at T (g_next T)) m (\<lambda>_ s'. R T (register_of s'))"

abbreviation becomes :: "register \<Rightarrow> pos_response pos_tx \<Rightarrow> bool" where
  "becomes \<equiv> leads reg_step"

lemma leads_calm: "(\<And>k. g_next T \<le> k \<Longrightarrow> R T (T\<lparr>g_next := k\<rparr>)) \<Longrightarrow> tx_within calm m \<Longrightarrow> leads R T m"
  by (auto simp: tx_spec_def calm_def dest!: tx_withinD) (metis reg_at_of)

lemma leads_end: "tx_within calm m \<Longrightarrow> (\<And>k. n \<le> k \<Longrightarrow> R T (T'\<lparr>g_next := k\<rparr>)) \<Longrightarrow>
   tx_spec (reg_at T' n) m (\<lambda>_ s'. R T (register_of s'))"
  by (auto simp: tx_spec_def calm_def dest!: tx_withinD) (metis reg_at_of)

lemma leads_mono: "leads R T m \<Longrightarrow> (\<And>g'. R T g' \<Longrightarrow> R' T g') \<Longrightarrow> leads R' T m"
  by (auto simp: tx_spec_def)

lemma becomes_same: "tx_spec (reg_at T n) m (\<lambda>_. reg_at T n) \<Longrightarrow> n = g_next T \<Longrightarrow> becomes T m"
  by (auto simp: tx_spec_def intro!: reg_stepI reg_step.other)

lemma calm_becomes: "tx_within calm m \<Longrightarrow> becomes T m"
  by (auto simp: tx_spec_def calm_def dest!: tx_withinD intro!: reg_stepI reg_step.other)

text \<open>Finding a row.\<close>

lemma bind_lock: "(\<And>sh. sh \<in> set (g_shifts T) \<Longrightarrow> sh_open sh \<Longrightarrow> sh_id sh = i \<Longrightarrow> tx_spec (reg_at T n) (f sh) Q) \<Longrightarrow>
   tx_spec (reg_at T n) (tx_bind (lockShift env i a) f) Q"
  by (rule bind_known [OF calm_tables(3), where A = "\<lambda>sh. sh \<in> set (g_shifts T) \<and> sh_open sh \<and> sh_id sh = i"])
    (auto simp: lockShift_def tx_simps find_shift_def reg_at_def dest!: find_SomeD split: option.splits if_splits)

lemma bind_preparation: "(\<And>p. p \<in> set (g_sales_pending T) \<Longrightarrow> fp_id p = i \<Longrightarrow> tx_spec (reg_at T n) (f p) Q) \<Longrightarrow>
   tx_spec (reg_at T n) (tx_bind (find_preparation i a) f) Q"
  by (rule bind_known [OF calm_preparation(3), where A = "\<lambda>p. p \<in> set (g_sales_pending T) \<and> fp_id p = i"])
    (auto simp: find_preparation_def required_row_def tx_simps reg_at_def dest!: find_SomeD)

lemma bind_report: "(\<And>r. r \<in> set (g_reports T) \<Longrightarrow> dr_id r = i \<Longrightarrow> tx_spec (reg_at T n) (f r) Q) \<Longrightarrow>
   tx_spec (reg_at T n) (tx_bind (find_report i a) f) Q"
  by (rule bind_known [OF calm_reports(3), where A = "\<lambda>r. r \<in> set (g_reports T) \<and> dr_id r = i"])
    (auto simp: find_report_def required_row_def tx_simps reg_at_def dest!: find_SomeD)

lemma bind_no: "(\<And>s. reg_at T n s \<Longrightarrow> K \<Longrightarrow> q s) \<Longrightarrow> (\<And>u. \<not> K \<Longrightarrow> tx_spec (reg_at T n) (f u) Q) \<Longrightarrow>
   tx_spec (reg_at T n) (tx_bind (require_no q c) f) Q"
  by (rule bind_known [OF calm_tables(7), where A = "\<lambda>_. \<not> K"]) (auto simp: require_no_def tx_simps)

section \<open>Shifts\<close>

text \<open>The query of an assignment names its register.\<close>

definition assignments_ok :: "pos_env \<Rightarrow> bool" where
  "assignments_ok env \<longleftrightarrow> (\<forall>a r t. pe_assignment env a r = Some t \<longrightarrow> as_register t = r)"

lemma bind_shift_insert: "(\<And>u. \<forall>x \<in> set (g_shifts T). \<not> (sh_open x \<and> sh_operator x = sh_operator row) \<Longrightarrow>
     tx_spec (reg_at (T\<lparr>g_shifts := g_shifts T @ [row]\<rparr>) n) (f u) Q) \<Longrightarrow>
   tx_spec (reg_at T n) (tx_bind (insert_shift row) f) Q"
  by (rule bind_update [where A = "\<lambda>_. \<forall>x \<in> set (g_shifts T). \<not> (sh_open x \<and> sh_operator x = sh_operator row)"])
    (auto simp: insert_shift_def tx_simps reg_at_def list_ex_iff next_reference_def [abs_def])

lemma bind_assignment: "assignments_ok env \<Longrightarrow> (\<And>t. as_register t = r \<Longrightarrow> tx_spec (reg_at T n) (f t) Q) \<Longrightarrow>
   tx_spec (reg_at T n) (tx_bind (tx_row (\<lambda>_. pe_assignment env a r) e) f) Q"
  by (rule bind_known [OF calm.within_row, where A = "\<lambda>t. as_register t = r"]) (auto simp: tx_simps assignments_ok_def)

lemma bind_terminal: "assignments_ok env \<Longrightarrow> (\<And>t. as_register t = sh_register sh \<Longrightarrow> tx_spec (reg_at T n) (f t) Q) \<Longrightarrow>
   tx_spec (reg_at T n) (tx_bind (shift_terminal env a sh) f) Q"
  unfolding shift_terminal_def required_row_def by (rule bind_assignment)

lemma bind_no_shift: "(\<And>u. \<forall>x \<in> set (g_shifts T). \<not> K x \<Longrightarrow> tx_spec (reg_at T n) (f u) Q) \<Longrightarrow>
   tx_spec (reg_at T n) (tx_bind (require_no (\<lambda>s. list_ex K (shifts s)) c) f) Q"
  by (rule bind_no [where K = "\<exists>x \<in> set (g_shifts T). K x"]) (auto simp: reg_at_def list_ex_iff)

lemma bind_no_sale: "(\<And>u. \<forall>x \<in> set (g_sales T). sa_transaction x \<noteq> t \<Longrightarrow> tx_spec (reg_at T n) (f u) Q) \<Longrightarrow>
   tx_spec (reg_at T n) (tx_bind (require_no (\<lambda>s. list_ex (\<lambda>x. sa_transaction x = t) (sales s)) c) f) Q"
proof (rule bind_no [where K = "\<exists>x \<in> set (g_sales T). sa_transaction x = t"])
  fix s assume at: "reg_at T n s" and K: "\<exists>x \<in> set (g_sales T). sa_transaction x = t"
  have "g_sales T = map sale_entry (sales s)" using at by (simp add: reg_at_def)
  with K show "list_ex (\<lambda>x. sa_transaction x = t) (sales s)" by (auto simp: list_ex_iff)
qed auto

lemma bind_no_preparation: "(\<And>u. \<forall>p \<in> set (g_sales_pending T). \<not> K p \<Longrightarrow> tx_spec (reg_at T n) (f u) Q) \<Longrightarrow>
   tx_spec (reg_at T n) (tx_bind (require_no (\<lambda>s. list_ex K (preparations s)) c) f) Q"
  by (rule bind_no [where K = "\<exists>x \<in> set (g_sales_pending T). K x"]) (auto simp: reg_at_def list_ex_iff)

lemma bind_no_preparation_or: "(\<And>u. \<forall>p \<in> set (g_sales_pending T). \<not> K p \<Longrightarrow> tx_spec (reg_at T n) (f u) Q) \<Longrightarrow>
   tx_spec (reg_at T n) (tx_bind (require_no (\<lambda>s. list_ex K (preparations s) \<or> B s) c) f) Q"
  by (rule bind_no [where K = "\<exists>x \<in> set (g_sales_pending T). K x"]) (auto simp: reg_at_def list_ex_iff)

lemma bind_no_report: "(\<And>u. \<forall>r \<in> set (g_reports T). \<not> K r \<Longrightarrow> tx_spec (reg_at T n) (f u) Q) \<Longrightarrow>
   tx_spec (reg_at T n) (tx_bind (require_no (\<lambda>s. list_ex K (daily_reports s)) c) f) Q"
  by (rule bind_no [where K = "\<exists>x \<in> set (g_reports T). K x"]) (auto simp: reg_at_def list_ex_iff)

lemma bind_pending: "(\<And>u. \<forall>r \<in> set (g_reports T). \<not> (dr_shift r = sh_id sh \<and> unresolved_report r) \<Longrightarrow> tx_spec (reg_at T n) (f u) Q) \<Longrightarrow>
   tx_spec (reg_at T n) (tx_bind (require_no_pending sh) f) Q"
  unfolding require_no_pending_def tx_bind_assoc by (intro bind_no_report bind_calm [OF calm_tables(7)])

lemmas register_binds = bind_no_shift bind_no_sale bind_no_preparation_or bind_no_preparation bind_no_report bind_pending
  bind_lock bind_preparation bind_report bind_shift_insert bind_identifier

lemmas calm_binds = calm_simple [THEN bind_calm]

lemma open_becomes:
  assumes "assignments_ok env"
  shows "becomes T (openShift_body env a r c key)"
  unfolding openShift_body_def
  by (intro register_binds bind_assignment [OF assms] calm_binds spec_return; erule_tac reg_stepI; auto intro!: reg_step.open_shift)

text \<open>Closing: the row of the identifier is the one that was locked.\<close>

lemma bind_close_row:
  assumes "rows_ok T" and "sh \<in> set (g_shifts T)" and "sh_id sh = i"
    and "\<And>found. (found \<Longrightarrow> sh_version sh = v) \<Longrightarrow> tx_spec (reg_at (if found then with_closed i a c T else T) n) (f found) Q"
  shows "tx_spec (reg_at T n) (tx_bind (close_shift_row i a c v) f) Q"
proof (rule bind_run [where A = "\<lambda>found. found \<longrightarrow> sh_version sh = v" and R = "\<lambda>found. reg_at (if found then with_closed i a c T else T) n"])
  fix s found s' assume at: "reg_at T n s" and run: "close_shift_row i a c v s = Inr (found, s')"
  have same: "x = sh" if "x \<in> set (g_shifts T)" "sh_id x = i" for x using shift_eqI [OF assms(1) that(1) assms(2)] that(2) assms(3) by simp
  have upd: "update_where (\<lambda>x. sh_id x = i \<and> sh_version x = v) (closed a c) (g_shifts T) =
      (if found then update_where (\<lambda>x. sh_id x = i) (closed a c) (g_shifts T) else g_shifts T)" if "found = (sh_version sh = v)"
    using same that by (auto simp: update_where_def intro!: map_idI)
  have cl: "(\<lambda>x. x\<lparr>sh_open := False, sh_closing_cash := Some c, sh_closed_by := Some a, sh_version := sh_version x + 1\<rparr>) = closed a c"
    by (simp add: closed_def fun_eq_iff)
  have "shifts s = g_shifts T" using at by (simp add: reg_at_def)
  with run have ex: "found = list_ex (\<lambda>x. sh_id x = i \<and> sh_version x = v) (g_shifts T)"
    and s': "s' = s\<lparr>shifts := update_where (\<lambda>x. sh_id x = i \<and> sh_version x = v) (closed a c) (g_shifts T)\<rparr>"
    unfolding close_shift_row_def cl by (auto simp: tx_simps)
  have found: "found = (sh_version sh = v)" unfolding ex list_ex_iff using assms(2,3) same by blast
  show "(found \<longrightarrow> sh_version sh = v) \<and> reg_at (if found then with_closed i a c T else T) n s'"
    using at upd [OF found] found unfolding s' by (simp add: reg_at_def with_closed_def next_reference_def [abs_def])
qed (use assms(4) in auto)

lemma close_becomes:
  assumes "rows_ok T"
  shows "becomes T (closeShift_body env a i c v key)"
  unfolding closeShift_body_def
  by (intro register_binds calm_binds bind_close_row [OF assms] bind_require spec_return, assumption, assumption, simp,
      erule_tac reg_stepI, auto intro!: reg_step.close_shift)

section \<open>Receipt references\<close>

lemma bind_sequence:
  assumes "device_format d o' \<Longrightarrow> tx_spec (reg_at T n) (f (g_sequences T (d, o'))) Q"
  shows "tx_spec (reg_at T n) (tx_bind (ensure_sequence d o') (\<lambda>u. tx_bind (tx_reads (\<lambda>s. sequence_value s d o')) f)) Q"
proof (rule tx_specI)
  fix s a s' assume at: "reg_at T n s"
    and run: "tx_bind (ensure_sequence d o') (\<lambda>u. tx_bind (tx_reads (\<lambda>s. sequence_value s d o')) f) s = Inr (a, s')"
  then obtain u t where e: "ensure_sequence d o' s = Inr (u, t)" and r: "f (sequence_value t d o') t = Inr (a, s')"
    by (auto simp: tx_simps)
  have t: "reg_at T n t" using tx_withinD [OF calm_ensure e] at by (simp add: calm_def)
  have "device_format d o'" "map_of (unp_sequences t) (d, o') \<noteq> None"
    using e by (auto simp: ensure_sequence_def tx_simps split: option.splits)
  moreover have "g_sequences T (d, o') = next_reference t (d, o')" using t by (simp add: reg_at_def)
  ultimately show "Q a s'" using tx_specD [OF assms t] r by (auto simp: sequence_value_def next_reference_def)
qed

lemma bind_set_sequence: "(\<And>u. tx_spec (reg_at (T\<lparr>g_sequences := (g_sequences T)((d, o') := m)\<rparr>) n) (f u) Q) \<Longrightarrow>
   tx_spec (reg_at T n) (tx_bind (set_sequence d o' m) f) Q"
  by (rule bind_update [where A = "\<lambda>_. True"]) (auto simp: set_sequence_def tx_simps reg_at_def next_reference_def fun_eq_iff)

lemma run_leases: "reg_at T n s \<Longrightarrow> tx_for (\<lambda>k. insert_lease (row k)) ks s = Inr (u, s') \<Longrightarrow>
   reg_at (T\<lparr>g_leases := g_leases T @ map row ks\<rparr>) n s'"
proof (induction ks arbitrary: T s)
  case Nil
  then show ?case by (simp add: tx_simps)
next
  case (Cons k ks)
  then obtain s1 where "insert_lease (row k) s = Inr ((), s1)" and r: "tx_for (\<lambda>k. insert_lease (row k)) ks s1 = Inr (u, s')"
    by (auto simp: tx_simps)
  then have "reg_at (T\<lparr>g_leases := g_leases T @ [row k]\<rparr>) n s1"
    using Cons.prems(1) by (auto simp: insert_lease_def tx_simps reg_at_def next_reference_def [abs_def])
  from Cons.IH [OF this r] show ?case by simp
qed

lemma bind_top_up:
  assumes "\<And>u. m = 0 \<or> k + m \<le> 10000000 \<Longrightarrow> tx_spec (reg_at (T\<lparr>g_sequences := (g_sequences T)((d, o') := k + m),
      g_leases := g_leases T @ map (\<lambda>j. new_lease r a d o' (unp d o' (k + j))) [0..<m]\<rparr>) n) (f u) Q"
    and "k = g_sequences T (d, o')"
  shows "tx_spec (reg_at T n) (tx_bind (top_up_leases r a d o' k m) f) Q"
proof (cases "m = 0")
  case True
  then show ?thesis using assms by (auto simp: top_up_leases_def tx_bind_return)
next
  case False
  let ?T = "T\<lparr>g_sequences := (g_sequences T)((d, o') := k + m)\<rparr>"
  have "tx_spec (reg_at ?T n) (tx_bind (tx_for (\<lambda>j. insert_lease (new_lease r a d o' (unp d o' (k + j)))) [0..<m]) f) Q"
    if "k + m \<le> 10000000"
  proof (rule bind_update [where A = "\<lambda>_. True"])
    show "True \<and> reg_at (?T\<lparr>g_leases := g_leases ?T @ map (\<lambda>j. new_lease r a d o' (unp d o' (k + j))) [0..<m]\<rparr>) n s'"
      if "reg_at ?T n s" "tx_for (\<lambda>j. insert_lease (new_lease r a d o' (unp d o' (k + j)))) [0..<m] s = Inr (u, s')" for s u s'
      using run_leases [OF that] by simp
  qed (use assms(1) that in simp)
  then show ?thesis using False
    by (auto simp: top_up_leases_def tx_bind_assoc new_lease_def intro!: bind_require bind_set_sequence)
qed

lemma lease_becomes:
  assumes "assignments_ok env" and "references_ok T"
  shows "becomes T (reserveDatecsUnpLease_body env a d o' i key)"
  unfolding reserveDatecsUnpLease_body_def Let_def
  by (intro bind_lock bind_terminal [OF assms(1)] calm_binds bind_sequence bind_top_up spec_return, erule_tac reg_stepI,
      rule_tac reg_step.lease) (use assms(2) in \<open>auto simp: references_ok_def\<close>)

section \<open>Prepared sales\<close>

lemma available_leasesD: "l \<in> set (available_leases s r a d o') \<Longrightarrow>
   l \<in> set (unp_leases s) \<and> ul_device l = d \<and> ul_operator_identifier l = o' \<and> ul_transaction l = None"
  by (simp add: available_leases_def)

lemma bind_choose:
  assumes leased: "\<And>l. l \<in> set (g_leases T) \<Longrightarrow> ul_transaction l = None \<Longrightarrow> ul_device l = d \<Longrightarrow> ul_operator_identifier l = o' \<Longrightarrow>
      tx_spec (reg_at T n) (f (ul_unique_sale_id l, True)) Q"
    and new: "device_format d o' \<Longrightarrow> g_sequences T (d, o') \<le> 9999999 \<Longrightarrow>
      tx_spec (reg_at (T\<lparr>g_sequences := (g_sequences T)((d, o') := g_sequences T (d, o') + 1)\<rparr>) n)
        (f (unp d o' (g_sequences T (d, o')), False)) Q"
  shows "tx_spec (reg_at T n) (tx_bind (choose_unp r a d o' requested) f) Q"
  unfolding choose_unp_def tx_bind_assoc
proof (rule bind_known [OF calm.within_reads, where A = "\<lambda>ls. \<forall>l \<in> set ls. l \<in> set (g_leases T) \<and> ul_device l = d \<and>
      ul_operator_identifier l = o' \<and> ul_transaction l = None"])
  fix ls :: "unp_lease_row list"
  assume ls: "\<forall>l \<in> set ls. l \<in> set (g_leases T) \<and> ul_device l = d \<and> ul_operator_identifier l = o' \<and> ul_transaction l = None"
  show "tx_spec (reg_at T n) (tx_bind (case ls of [] \<Rightarrow>
         tx_bind (tx_require (truthy requested = None) (Api ''POS_DATECS_UNP_LEASE_UNAVAILABLE'')) (\<lambda>_.
         tx_bind (ensure_sequence d o') (\<lambda>_.
         tx_bind (tx_reads (\<lambda>s. sequence_value s d o')) (\<lambda>n.
         tx_bind (tx_require (n \<le> 9999999) (Api ''POS_DATECS_UNP_SEQUENCE_EXHAUSTED'')) (\<lambda>_.
         tx_bind (set_sequence d o' (n + 1)) (\<lambda>_.
         tx_return (unp d o' n, False))))))
       | l # _ \<Rightarrow> tx_return (ul_unique_sale_id l, True)) f) Q"
  proof (cases ls)
    case Nil
    show ?thesis unfolding Nil list.case tx_bind_assoc
      by (intro bind_require bind_sequence bind_set_sequence) (use new in \<open>simp add: tx_bind_return\<close>)
  next
    case (Cons l rest)
    then show ?thesis using ls leased by (simp add: tx_bind_return)
  qed
qed (auto simp: tx_simps reg_at_def dest!: available_leasesD)

lemma bind_insert_preparation: "(\<And>u. device_format (fp_device row) (fp_operator_identifier row) \<Longrightarrow>
     \<forall>q \<in> set (g_sales_pending T). fp_transaction q \<noteq> fp_transaction row \<and> \<not> (fp_register q = fp_register row \<and> unresolved_sale q) \<Longrightarrow>
     tx_spec (reg_at (T\<lparr>g_sales_pending := g_sales_pending T @ [row]\<rparr>) n) (f u) Q) \<Longrightarrow>
   tx_spec (reg_at T n) (tx_bind (insert_preparation row) f) Q"
  by (rule bind_update [where A = "\<lambda>_. device_format (fp_device row) (fp_operator_identifier row) \<and>
      (\<forall>q \<in> set (g_sales_pending T). fp_transaction q \<noteq> fp_transaction row \<and> \<not> (fp_register q = fp_register row \<and> unresolved_sale q))"])
    (auto simp: insert_preparation_def tx_simps reg_at_def list_ex_iff next_reference_def [abs_def])

lemma bind_claim_lease: "(\<And>u. tx_spec (reg_at (T\<lparr>g_leases := update_where (\<lambda>x. ul_unique_sale_id x = i \<and> ul_transaction x = None)
        (\<lambda>x. x\<lparr>ul_transaction := Some t, ul_preparation := Some p\<rparr>) (g_leases T)\<rparr>) n) (f u) Q) \<Longrightarrow>
   tx_spec (reg_at T n) (tx_bind (claim_lease i t p) f) Q"
  by (rule bind_update [where A = "\<lambda>_. True"]) (auto simp: claim_lease_def tx_simps reg_at_def next_reference_def [abs_def])

lemma spec_option: "(v = None \<Longrightarrow> tx_spec P m Q) \<Longrightarrow> (\<And>x. v = Some x \<Longrightarrow> tx_spec P (g x) Q) \<Longrightarrow>
   tx_spec P (case v of None \<Rightarrow> m | Some x \<Rightarrow> g x) Q"
  by (simp split: option.split)

lemma same_register: "g_sales_pending d = g_sales_pending d' \<Longrightarrow> g_sales d = g_sales d' \<Longrightarrow> g_shifts d = g_shifts d' \<Longrightarrow>
   g_sequences d = g_sequences d' \<Longrightarrow> g_leases d = g_leases d' \<Longrightarrow> g_reports d = g_reports d' \<Longrightarrow> g_next d = g_next d' \<Longrightarrow>
   reg_step T d \<Longrightarrow> reg_step T d'"
  by (metis (full_types) register.equality old.unit.exhaust)

lemma same_booking: "g_sales_pending d = g_sales_pending d' \<Longrightarrow> g_sales d = g_sales d' \<Longrightarrow> g_shifts d = g_shifts d' \<Longrightarrow>
   g_sequences d = g_sequences d' \<Longrightarrow> g_leases d = g_leases d' \<Longrightarrow> g_reports d = g_reports d' \<Longrightarrow> g_next d = g_next d' \<Longrightarrow>
   booking_step i T d \<Longrightarrow> booking_step i T d'"
  by (metis (full_types) register.equality old.unit.exhaust)

lemma new_becomes:
  assumes "sh \<in> set (g_shifts T)" and "sh_open sh" and "as_register t = sh_register sh"
    and "\<forall>r \<in> set (g_reports T). \<not> (dr_shift r = sh_id sh \<and> unresolved_report r)"
    and "\<forall>x \<in> set (g_sales T). sa_transaction x \<noteq> sq_clientTransactionId b"
  shows "becomes T (new_preparation env a sh t b d o' requested dg key)"
proof -
  have sh: "\<exists>x \<in> set (g_shifts T). sh_open x \<and> sh_id x = sh_id sh \<and> sh_register x = sh_register sh" using assms(1,2) by blast
  show ?thesis unfolding new_preparation_def Let_def
    apply (intro bind_identifier bind_choose calm_binds bind_calm [OF calm.within_map] calm_simple;
        simp only: prod.case if_True if_False tx_bind_return;
        intro bind_insert_preparation bind_claim_lease calm_binds bind_calm [OF calm.within_for] calm_simple spec_return; erule_tac reg_stepI)
     apply (rule same_register [OF _ _ _ _ _ _ _ reg_step.prepare_leased], simp_all add: may_prepare_def fresh_preparation_def)
      apply (use assms sh in simp_all)
    apply (rule same_register [OF _ _ _ _ _ _ _ reg_step.prepare_new], simp_all add: may_prepare_def fresh_preparation_def)
         apply simp_all
    done
qed

lemma spec_calm: "tx_within calm m \<Longrightarrow> tx_spec (reg_at T n) m (\<lambda>_. reg_at T n)"
  by (auto simp: tx_spec_def calm_def dest: tx_withinD)

lemma spec_end: "tx_within calm m \<Longrightarrow> (\<And>k. n \<le> k \<Longrightarrow> reg_step T (T'\<lparr>g_next := k\<rparr>)) \<Longrightarrow>
   tx_spec (reg_at T' n) m (\<lambda>_ s'. reg_step T (register_of s'))"
  by (auto simp: tx_spec_def calm_def dest!: tx_withinD intro!: reg_stepI)

lemma spec_if: "(b \<Longrightarrow> tx_spec P m Q) \<Longrightarrow> (\<not> b \<Longrightarrow> tx_spec P m' Q) \<Longrightarrow> tx_spec P (if b then m else m') Q"
  by simp

lemma prepare_becomes:
  assumes "assignments_ok env"
  shows "becomes T (prepareFiscalSale_body env a b d o' requested key)"
  unfolding prepareFiscalSale_body_def Let_def
  by (intro bind_lock bind_pending bind_terminal [OF assms] bind_no_sale bind_no_preparation calm_binds spec_option new_becomes
      spec_end [OF calm.within_return]) (auto intro: reg_step.other)

section \<open>Steps of a prepared sale\<close>

lemma bind_update_preparation: "(\<And>u. tx_spec (reg_at (with_status i g T) n) (f u) Q) \<Longrightarrow>
   tx_spec (reg_at T n) (tx_bind (update_preparation i g) f) Q"
  by (rule bind_update [where A = "\<lambda>_. True"]) (auto simp: update_preparation_def tx_simps reg_at_def next_reference_def [abs_def])

lemma print_becomes: "becomes T (markFiscalSalePrinting_body a i key)"
  unfolding markFiscalSalePrinting_body_def
  by (intro bind_preparation spec_if calm_becomes calm_preparation bind_require bind_update_preparation spec_end)
    (auto intro!: reg_step.print)

lemma doubt_becomes: "becomes T (markFiscalSaleOutcomeUnknown_body a i key)"
  unfolding markFiscalSaleOutcomeUnknown_body_def
  by (intro bind_preparation spec_if calm_becomes calm_preparation bind_require bind_update_preparation spec_end)
    (auto intro!: reg_step.doubt)

lemma cancel_becomes: "becomes T (cancelFiscalSalePreparation_body a i e key)"
  unfolding cancelFiscalSalePreparation_body_def Let_def
  by (intro bind_preparation spec_if calm_becomes calm_preparation bind_require bind_calm [OF calm_release] bind_update_preparation spec_end)
    (auto intro!: reg_step.cancel)

lemma confirm_leads: "leads (evidence_step i) T (confirmReceipt_body a i receipt key)"
  unfolding confirmReceipt_body_def
  apply (intro bind_preparation spec_if)
   apply (intro leads_calm [where R = "evidence_step i"] evidence_other calm_base calm_tables calm_preparation, assumption)
  apply (intro bind_require bind_calm [OF calm.within_res] bind_update_preparation leads_end [where R = "evidence_step i"] calm_preparation)
  apply (unfold evidence_step_def, rule conjI)
   apply (erule subst, rule reg_step.confirm; simp)
  apply blast
  done

section \<open>Sales\<close>

lemma bind_insert_sale: "(\<And>u. \<forall>y \<in> set (g_sales T). sa_transaction y \<noteq> sa_transaction row \<and> sa_receipt_number y \<noteq> sa_receipt_number row \<Longrightarrow>
     tx_spec (reg_at (T\<lparr>g_sales := g_sales T @ [sale_entry row]\<rparr>) n) (f u) Q) \<Longrightarrow>
   tx_spec (reg_at T n) (tx_bind (insert_sale row) f) Q"
proof (rule bind_update [where A = "\<lambda>_. \<forall>y \<in> set (g_sales T). sa_transaction y \<noteq> sa_transaction row \<and> sa_receipt_number y \<noteq> sa_receipt_number row"])
  fix s u s' assume at: "reg_at T n s" and run: "insert_sale row s = Inr (u, s')"
  have T: "g_sales T = map sale_entry (sales s)" using at by (simp add: reg_at_def)
  from run have "\<not> list_ex (\<lambda>x. sa_transaction x = sa_transaction row) (sales s)"
      "\<not> list_ex (\<lambda>x. sa_receipt_number x = sa_receipt_number row) (sales s)"
    by (auto simp: insert_sale_def nonneg_def tx_simps)
  moreover have "s' = s\<lparr>sales := sales s @ [row]\<rparr>" using run by (auto simp: insert_sale_def nonneg_def tx_simps)
  moreover from this have "reg_at (T\<lparr>g_sales := g_sales T @ [sale_entry row]\<rparr>) n s'"
    using at by (simp add: reg_at_def next_reference_def [abs_def])
  ultimately show "(\<forall>y \<in> set (g_sales T). sa_transaction y \<noteq> sa_transaction row \<and> sa_receipt_number y \<noteq> sa_receipt_number row) \<and>
      reg_at (T\<lparr>g_sales := g_sales T @ [sale_entry row]\<rparr>) n s'"
    unfolding T list_ex_iff by auto
qed auto

lemma bind_consume_holds:
  assumes "\<forall>q \<in> set (g_sales_pending T). fp_id q = fp_id p \<longrightarrow> q = p" and "fp_status p = ReceiptConfirmed"
    and "\<And>u. tx_spec (reg_at (with_status (fp_id p) (\<lambda>q. q\<lparr>fp_status := Finalized, fp_finalized_sale := Some x\<rparr>) T) n) (f u) Q"
  shows "tx_spec (reg_at T n) (tx_bind (consume_holds (fp_id p) a x) f) Q"
proof -
  let ?f = "\<lambda>q. q\<lparr>fp_status := Finalized, fp_finalized_sale := Some x\<rparr>"
  have "update_where (\<lambda>q. fp_id q = fp_id p \<and> fp_status q = ReceiptConfirmed) ?f (g_sales_pending T) =
      update_where (\<lambda>q. fp_id q = fp_id p) ?f (g_sales_pending T)"
    using assms(1,2) by (auto simp: update_where_def)
  then have last: "tx_spec (reg_at T n) (tx_bind (tx_writes (\<lambda>s. s\<lparr>preparations :=
      update_where (\<lambda>q. fp_id q = fp_id p \<and> fp_status q = ReceiptConfirmed) ?f (preparations s)\<rparr>)) f) Q"
    using assms(3) by (intro bind_update [where A = "\<lambda>_. True"]) (auto simp: tx_simps reg_at_def next_reference_def [abs_def])
  show ?thesis unfolding consume_holds_def tx_bind_assoc
    by (intro bind_calm [OF calm_holds(4)] bind_calm [OF calm_holds(5)] bind_calm [OF calm_lift] bind_calm [OF calm.within_writes] last
        draws_writes calmI) simp_all
qed

lemma calm_authorization: "tx_within calm (case v of None \<Rightarrow> tx_return () | Some d \<Rightarrow> tx_writes (\<lambda>s. s\<lparr>discount_authorizations := g d s\<rparr>))"
  by (intro calm_base calmI) simp_all

lemma finalize_books: "p \<in> set (g_sales_pending g) \<Longrightarrow> fp_status p = ReceiptConfirmed \<Longrightarrow> books p x \<Longrightarrow> new_sale g x \<Longrightarrow> sa_id x < n \<Longrightarrow>
   booking_step (fp_id p) g (with_sale p x g\<lparr>g_next := n\<rparr>)"
  using reg_step.finalize by (fastforce simp: booking_step_def)

lemma fiscal_sale_leads:
  assumes ok: "reg_ok T" and p: "p \<in> set (g_sales_pending T)" "fp_status p = ReceiptConfirmed"
    and b: "fp_transaction p = sq_clientTransactionId b" "fp_shift p = sh_id sh"
  shows "leads (booking_step (fp_id p)) T (record_sale env a sh t b (Some (fp_id p)) (Some p) (fp_pricing p) key)"
proof -
  have one: "\<forall>q \<in> set (g_sales_pending T). fp_id q = fp_id p \<longrightarrow> q = p"
    using ok preparation_eqI [OF _ _ p(1)] by (auto simp: reg_ok_def)
  obtain n where n: "Option.bind (Some p) fp_receipt_number = Some n" using ok p by (auto simp: reg_ok_def receipts_ok_def receipt_ok_def)
  show ?thesis unfolding record_sale_def Let_def n option.case tx_bind_return
    apply (intro bind_identifier bind_insert_sale bind_consume_holds calm_binds bind_calm [OF calm.within_for]
        bind_calm [OF calm_authorization] calm.within calm_simple leads_end [where R = "booking_step (fp_id p)"])
      apply (simp add: one)
     apply (rule p(2))
    apply (rule same_booking [OF _ _ _ _ _ _ _ finalize_books [OF p]])
    apply (simp_all add: books_def new_sale_def priced_as_def)
      apply (use n b in simp_all)
    done
qed

lemma simulated_sale_becomes: "becomes T (record_sale env a sh t b None None snapshot key)"
  unfolding record_sale_def Let_def option.case tx_bind_return
  apply (intro bind_identifier bind_insert_sale calm_binds bind_calm [OF calm.within_for] bind_calm [OF calm_authorization]
      bind_calm [OF calm.within_option] calm.within calm_simple spec_end)
  apply (rule same_register [OF _ _ _ _ _ _ _ reg_step.sell], simp_all add: new_sale_def)
   apply simp_all
  done

lemma bind_confirmed: "(\<And>p. p \<in> set (g_sales_pending T) \<Longrightarrow> fp_id p = i \<Longrightarrow> fp_status p = ReceiptConfirmed \<Longrightarrow>
     fp_transaction p = sq_clientTransactionId b \<Longrightarrow> fp_shift p = bk_shiftId b \<Longrightarrow> tx_spec (reg_at T n) (f (Some p)) Q) \<Longrightarrow>
   tx_spec (reg_at T n) (tx_bind (require_confirmed env a b (Some i)) f) Q"
  by (rule bind_known [OF calm_sale(2), where A = "\<lambda>v. \<exists>p. v = Some p \<and> p \<in> set (g_sales_pending T) \<and> fp_id p = i \<and>
      fp_status p = ReceiptConfirmed \<and> fp_transaction p = sq_clientTransactionId b \<and> fp_shift p = bk_shiftId b"])
    (auto simp: require_confirmed_def tx_simps reg_at_def dest!: find_SomeD split: if_splits)

lemma complete_leads:
  assumes "reg_ok T"
  shows "leads (booking_step i) T (completeSale_body env a b (Some i) key)"
  unfolding completeSale_body_def
  apply (intro bind_lock bind_pending bind_confirmed)
  apply (simp only: sale_snapshot_def option.case tx_bind_return)
  apply (intro calm_binds spec_option leads_end [OF calm.within_return, where R = "booking_step i"])
   apply (metis fiscal_sale_leads [OF assms])
  apply (rule booking_other, assumption)
  done

lemma complete_becomes:
  assumes "reg_ok T"
  shows "becomes T (completeSale_body env a b hold key)"
proof (cases hold)
  case None
  show ?thesis unfolding completeSale_body_def None require_confirmed_def option.case tx_bind_return
    by (intro bind_lock bind_pending calm_binds spec_option simulated_sale_becomes spec_end [OF calm.within_return])
      (auto simp: sale_snapshot_def intro: reg_step.other)
next
  case (Some i)
  show ?thesis unfolding Some by (rule leads_mono [where R = "booking_step i", OF complete_leads [OF assms]]) (simp add: booking_step_def)
qed

section \<open>Daily reports\<close>

lemma bind_insert_report: "(\<And>u. \<forall>q \<in> set (g_reports T). dr_register q = dr_register r \<longrightarrow> \<not> unresolved_report q \<Longrightarrow>
     \<forall>q \<in> set (g_reports T). dr_type r = ZReport \<and> dr_shift q = dr_shift r \<and> dr_type q = ZReport \<longrightarrow> dr_status q = ReportFailed \<Longrightarrow>
     tx_spec (reg_at (T\<lparr>g_reports := g_reports T @ [r]\<rparr>) n) (f u) Q) \<Longrightarrow>
   tx_spec (reg_at T n) (tx_bind (insert_report r) f) Q"
  by (rule bind_update [where A = "\<lambda>_. (\<forall>q \<in> set (g_reports T). dr_register q = dr_register r \<longrightarrow> \<not> unresolved_report q) \<and>
      (\<forall>q \<in> set (g_reports T). dr_type r = ZReport \<and> dr_shift q = dr_shift r \<and> dr_type q = ZReport \<longrightarrow> dr_status q = ReportFailed)"])
    (auto simp: insert_report_def tx_simps reg_at_def list_ex_iff next_reference_def [abs_def])

lemma bind_update_report: "(\<And>u. tx_spec (reg_at (with_report i g T) n) (f u) Q) \<Longrightarrow>
   tx_spec (reg_at T n) (tx_bind (update_report i g) f) Q"
  by (rule bind_update [where A = "\<lambda>_. True"]) (auto simp: update_report_def tx_simps reg_at_def next_reference_def [abs_def])

lemma report_becomes:
  assumes "assignments_ok env"
  shows "becomes T (prepareFiscalDailyReport_body env a q cash key)"
  unfolding prepareFiscalDailyReport_body_def
  apply (intro bind_lock bind_terminal [OF assms] bind_no_preparation bind_no_report bind_identifier bind_insert_report calm_binds
      calm_simple spec_end)
  apply (rule same_register [OF _ _ _ _ _ _ _ reg_step.report], simp_all)
       apply (assumption | simp)+
  done

lemma report_on_becomes: "becomes T (updateFiscalDailyReportState_body a i u key)"
  unfolding updateFiscalDailyReportState_body_def Let_def
  by (intro bind_report spec_if bind_require bind_update_report spec_end [OF calm.within_return] spec_end [OF calm_reports(2)])
    (auto intro!: reg_step.report_on reg_step.other)

lemma reject_becomes: "becomes T (rejectFiscalDailyReport_body a i reason key)"
  unfolding rejectFiscalDailyReport_body_def
  by (intro bind_report spec_if bind_require bind_update_report spec_end [OF calm.within_return] spec_end [OF calm_reports(2)])
    (auto intro!: reg_step.reject reg_step.other)

text \<open>The Z report closes the shift that was locked.\<close>

lemma bind_close_with_z:
  assumes "rows_ok T" and "sh \<in> set (g_shifts T)" and "sh_open sh" and "sh_id sh = dr_shift r"
    and "\<And>u cash. dr_shift_version r = Some (sh_version sh) \<Longrightarrow> dr_closing_cash r = Some cash \<Longrightarrow>
      tx_spec (reg_at (with_closed (sh_id sh) a cash T) n) (f u) Q"
  shows "tx_spec (reg_at T n) (tx_bind (close_with_z r sh a) f) Q"
proof (rule tx_specI)
  fix s v s' assume at: "reg_at T n s" and run: "tx_bind (close_with_z r sh a) f s = Inr (v, s')"
  have cl: "(\<lambda>x. x\<lparr>sh_open := False, sh_closing_cash := Some c, sh_closed_by := Some a, sh_version := sh_version x + 1\<rparr>) = closed a c" for c
    by (simp add: closed_def fun_eq_iff)
  have same: "update_where (\<lambda>x. sh_id x = dr_shift r \<and> sh_version x = sh_version sh \<and> sh_open x) g (g_shifts T) =
      update_where (\<lambda>x. sh_id x = sh_id sh) g (g_shifts T)" for g
    using shift_eqI [OF assms(1) _ assms(2)] assms(3,4) by (auto simp: update_where_def)
  from run obtain cash t where c: "dr_shift_version r = Some (sh_version sh)" "dr_closing_cash r = Some cash" "f () t = Inr (v, s')"
    and t: "t = s\<lparr>shifts := update_where (\<lambda>x. sh_id x = dr_shift r \<and> sh_version x = sh_version sh \<and> sh_open x) (closed a cash) (shifts s)\<rparr>"
    unfolding close_with_z_def cl required_row_def by (auto simp: tx_simps)
  have "shifts s = g_shifts T" using at by (simp add: reg_at_def)
  then have "reg_at (with_closed (sh_id sh) a cash T) n t"
    using at unfolding t same by (simp add: reg_at_def with_closed_def next_reference_def [abs_def] same)
  then show "Q v s'" using tx_specD [OF assms(5) [OF c(1,2)]] c(3) by blast
qed

lemma confirm_report_becomes:
  assumes "rows_ok T"
  shows "becomes T (confirmFiscalDailyReport_body env a i res key)"
  unfolding confirmFiscalDailyReport_body_def
proof (intro bind_report spec_if)
  fix r0 assume "r0 \<in> set (g_reports T)" "dr_id r0 = i"
  show "becomes T (tx_bind (fiscalDailyReport i) (\<lambda>report.
       tx_bind (tx_require (same_result (dr_result report) res) (Api ''POS_FISCAL_REPORT_RESULT_CONFLICT'')) (\<lambda>_.
       tx_return (ReportDone report))))"
    by (intro calm_becomes calm_base calm_reports)
next
  fix r0 assume r0: "r0 \<in> set (g_reports T)" "dr_id r0 = i"
  show "becomes T (tx_bind (lockShift env (dr_shift r0) a) (\<lambda>sh.
     tx_bind (find_report i a) (\<lambda>row.
     tx_bind (tx_require (dr_status row \<in> {ReportPrinting, ReportOutcomeUnknown}) (Api ''POS_FISCAL_REPORT_STATE_CONFLICT'')) (\<lambda>_.
     tx_bind (if dr_type row = ZReport then close_with_z row sh a else tx_return ()) (\<lambda>_.
     tx_bind (update_report i (\<lambda>r. r\<lparr>dr_status := ReportCompleted, dr_result := Some res\<rparr>)) (\<lambda>_.
     tx_bind (if dr_type row = ZReport then
        tx_bind (shift (dr_shift row)) (\<lambda>_. posSideEffects (js ''pos_shift'') (dr_shift row)
          (js ''pos.shift.closed.with_fiscal_z_report'') a key)
        else tx_return ()) (\<lambda>_.
     report_done i ''completed'' a key)))))))"
  proof (intro bind_lock bind_report bind_require)
    fix sh r assume sh: "sh \<in> set (g_shifts T)" "sh_open sh" "sh_id sh = dr_shift r0"
      and r: "r \<in> set (g_reports T)" "dr_id r = i" "dr_status r \<in> {ReportPrinting, ReportOutcomeUnknown}"
    have "r0 = r" using report_eqI [OF assms r0(1) r(1)] r0(2) r(2) by simp
    then have s: "sh_id sh = dr_shift r" using sh(3) by simp
    show "becomes T (tx_bind (if dr_type r = ZReport then close_with_z r sh a else tx_return ()) (\<lambda>_.
     tx_bind (update_report i (\<lambda>r. r\<lparr>dr_status := ReportCompleted, dr_result := Some res\<rparr>)) (\<lambda>_.
     tx_bind (if dr_type r = ZReport then
        tx_bind (shift (dr_shift r)) (\<lambda>_. posSideEffects (js ''pos_shift'') (dr_shift r)
          (js ''pos.shift.closed.with_fiscal_z_report'') a key)
        else tx_return ()) (\<lambda>_.
     report_done i ''completed'' a key))))"
    proof (cases "dr_type r")
      case XReport
      then show ?thesis using r
        by (simp add: tx_bind_return) (intro bind_update_report spec_end [OF calm_reports(2)], auto intro!: reg_step.report_x)
    next
      case ZReport
      have z: "reg_step T (with_report i (\<lambda>x. x\<lparr>dr_status := ReportCompleted, dr_result := Some res\<rparr>)
          (with_closed (sh_id sh) a cash T)\<lparr>g_next := k\<rparr>)"
        if "dr_shift_version r = Some (sh_version sh)" "dr_closing_cash r = Some cash" "g_next T \<le> k" for cash k
        by (rule reg_step.report_z [OF r(1) ZReport r(3) sh(1,2) s that, unfolded r(2)])
      show ?thesis unfolding ZReport if_P [OF refl]
        by (intro bind_close_with_z [OF assms sh(1,2) s] bind_update_report bind_calm [OF calm.within_bind] spec_end [OF calm_reports(2)]
            calm_tables calm_events) (rule z)
    qed
  qed
qed

end
