(* ===== verification/PosPrinting.thy ===== *)
theory PosPrinting
  imports PosReceipt FiscalSale
begin

text \<open>
  The server's receipt meets the printer driver. \<open>PosTerminal.tsx\<close> passes the lines and amounts of a
  prepared sale (\<open>mapFiscalSalePreparation\<close>) to \<open>issueCashReceipt\<close> of the driver unchanged; the
  lemmas show that the driver's own checks of the amounts agree with the server's.
\<close>

section \<open>The driver agrees\<close>

text \<open>The lines and the sale as the terminal hands them to the driver.\<close>

definition printer_line :: "PosFiscalReceiptLine \<Rightarrow> DatecsFiscalSaleLine" where
  "printer_line l = \<lparr>description = fl_description l, discountEur = fl_discountEur l, grossTotalEur = fl_grossTotalEur l,
     quantity = fl_quantity l, unitCode = Some (fl_unitCode l), unitPriceEur = fl_unitPriceEur l,
     vatTreatment = fl_vatTreatment l\<rparr>"

definition printer_sale :: "PosFiscalSalePreparation \<Rightarrow> DatecsFiscalCashSaleRequest" where
  "printer_sale p = \<lparr>cashTenderedEur = pf_cashTenderedEur p, lines = map printer_line (pf_lines p),
     totalGrossEur = pf_totalGrossEur p, uniqueSaleId = pf_uniqueSaleId p\<rparr>"

text \<open>A quantity that the driver reads has the value of the four-place text it came from.\<close>

lemma receipt_quantity_value:
  assumes "dto_decimal v" and "parseDecimal 3 (receipt_quantity (normalizeQuantity v)) = Inr q"
  shows "coefficient q * 10 ^ (4 - scale q) = units (normalizeQuantity v)" and "scale q \<le> 3"
proof -
  obtain a b where ab: "normalizeQuantity v = a @ 46 # b" "a \<noteq> []" "length b = 4" "\<forall>c \<in> set (a @ b). is_digit c"
    by (rule dto_decimal_parts [OF assms(1)])
  obtain z where z: "b = strip_zeros b @ replicate z 48" using strip_zeros_append by blast
  have st: "strip_zeros (a @ 46 # b) = a @ 46 # strip_zeros b"
  proof (cases "strip_zeros b = []")
    case True
    then have "b = replicate z 48" using z by simp
    moreover have "dropWhile (\<lambda>c. c = 48) (replicate z 48 @ 46 # rev a) = 46 # rev a" by (induction z) auto
    ultimately show ?thesis using True by (simp add: strip_zeros_def)
  next
    case False
    then have "dropWhile (\<lambda>c. c = 48) (rev b) \<noteq> []" by (simp add: strip_zeros_def)
    then show ?thesis by (simp add: strip_zeros_def dropWhile_append1 dropWhile_append)
  qed
  have fdig: "\<forall>c \<in> set (strip_zeros b). is_digit c" using ab(4) z by (metis Un_iff set_append)
  then have dot: "46 \<notin> set (strip_zeros b)" by (auto simp: is_digit_def)
  have rq: "receipt_quantity (normalizeQuantity v) = (if strip_zeros b = [] then a else a @ 46 # strip_zeros b)"
  proof (cases "strip_zeros b = []")
    case False
    then have "last (strip_zeros b) \<noteq> 46" using dot last_in_set by metis
    with False show ?thesis by (simp add: receipt_quantity_def ab(1) st)
  qed (simp add: receipt_quantity_def ab(1) st butlast_append)
  have dm: "decimal_match (receipt_quantity (normalizeQuantity v)) = Some (a, strip_zeros b)"
    unfolding rq using ab(2,4) fdig by (auto simp: decimal_match_eq list_all_iff)
  have "length (strip_zeros b) \<le> 3 \<and> q = \<lparr>coefficient = int (digits_val (a @ strip_zeros b)), scale = length (strip_zeros b)\<rparr>"
    using assms(2) by (auto simp: parseDecimal_def trim_decimal [OF dm] dm split: if_splits)
  then have q: "length (strip_zeros b) \<le> 3" "coefficient q = int (digits_val (a @ strip_zeros b))" "scale q = length (strip_zeros b)" by simp_all
  have lz: "length (strip_zeros b) + z = 4" using arg_cong [OF z, of length] ab(3) by simp
  have "units (normalizeQuantity v) = int (digits_val (a @ b))"
    using ab by (simp add: units_def split_fixed padEnd_def BigInt_digits)
  also have "a @ b = (a @ strip_zeros b) @ replicate z 48" using z by simp
  also have "digits_val \<dots> = digits_val (a @ strip_zeros b) * 10 ^ z"
    using digits_val_append [of "a @ strip_zeros b" "replicate z 48"] by simp
  also have "z = 4 - scale q" using lz q(3) by simp
  finally show "coefficient q * 10 ^ (4 - scale q) = units (normalizeQuantity v)" using q(2) by simp
  show "scale q \<le> 3" using q by simp
qed

text \<open>A product that is whole cents after rounding to four places is the driver's product in cents.\<close>

lemma same_cents: fixes x y m :: int
  assumes "(x + 5000) div 10000 = m" and "m mod 100 = 0"
  shows "(x + 500000) div 1000000 = m div 100"
proof -
  define k where "k = m div 100"
  have m: "m = 100 * k" using assms(2) mult_div_mod_eq [of 100 m] unfolding k_def by linarith
  have "10000 * m \<le> x + 5000" "x + 5000 < 10000 * m + 10000"
    using assms(1) mult_div_mod_eq [of 10000 "x + 5000"] pos_mod_sign [of 10000 "x + 5000"] pos_mod_bound [of 10000 "x + 5000"]
    by linarith+
  then have "(x + 500000) div 1000000 = k"
    by (intro int_div_pos_eq [where r = "x + 500000 - 1000000 * k"]) (use m in linarith)+
  then show ?thesis unfolding k_def .
qed

lemma driver_product:
  assumes "scale price = 2" and "0 \<le> coefficient price" and "0 \<le> coefficient q" and "scale q \<le> 3"
    and "units p = coefficient price * 100" and "units w = coefficient q * 10 ^ (4 - scale q)"
    and "units (multiply p w) mod 100 = 0"
  shows "multiplyToCents price q = units (multiply p w) div 100"
proof -
  define e where "e = (10::int) ^ (4 - scale q)"
  define d where "d = (10::int) ^ (2 + scale q)"
  have e: "0 < e" "0 < d" by (simp_all add: e_def d_def)
  have "d * e = 10 ^ (2 + scale q + (4 - scale q))" unfolding d_def e_def by (simp only: power_add)
  then have de: "d * e = 1000000" using assms(4) by simp
  have d2: "d div 2 * 2 = d" by (simp add: d_def power_add)
  let ?n = "coefficient price * coefficient q * 100"
  have n: "0 \<le> ?n" using assms(2,3) by simp
  have x: "units p * units w = ?n * e" unfolding assms(5,6) e_def by simp
  have nn: "0 \<le> ?n * e" using n e by simp
  have "units (multiply p w) = (?n * e + 5000) div 10000" using nn by (simp add: x sdiv_nonneg)
  then have "(?n * e + 500000) div 1000000 = units (multiply p w) div 100" using same_cents assms(7) by metis
  also have "?n * e + 500000 = (?n + d div 2) * e"
  proof -
    have "(d div 2 * 2) * e = 1000000" by (simp only: d2 de)
    then have "d div 2 * e = 500000" by (simp add: mult.commute mult.left_commute)
    then show ?thesis by (simp only: distrib_right)
  qed
  also have "(?n + d div 2) * e div 1000000 = (?n + d div 2) div d"
    using e de by (metis div_mult_mult2 less_irrefl mult.commute)
  finally have "units (multiply p w) div 100 = (?n + d div 2) div d" by simp
  moreover have "multiplyToCents price q = (?n + d sdiv 2) sdiv d"
    by (simp only: multiplyToCents_def Let_def d_def assms(1))
  moreover have "d sdiv 2 = d div 2" "0 \<le> ?n + d div 2" using n e by (simp_all add: sdiv_nonneg pos_imp_zdiv_nonneg_iff)
  ultimately show ?thesis using e by (simp add: sdiv_nonneg)
qed

text \<open>The problems of the driver that are about amounts.\<close>

definition amount_problem :: "config_problem \<Rightarrow> bool" where
  "amount_problem e \<longleftrightarrow> e \<in> {LineTotals, SaleTotal, TenderTooSmall}"

lemma res_map_Inl: "res_map f xs = Inl e \<Longrightarrow> \<exists>x \<in> set xs. f x = Inl e"
  by (induction xs) (auto simp: res_bind_eq_Inl)

lemma text_problems:
  "parseDecimal m t = Inl e \<Longrightarrow> \<not> amount_problem e"
  "parseCents t = Inl e \<Longrightarrow> \<not> amount_problem e"
  "encodeDatecsWindows1251 t = Inl e \<Longrightarrow> \<not> amount_problem e"
  "splitDescription t = Inl e \<Longrightarrow> \<not> amount_problem e"
proof -
  show d: "parseDecimal m t = Inl e \<Longrightarrow> \<not> amount_problem e" for m
    by (auto simp: parseDecimal_def amount_problem_def split: option.splits if_splits)
  show "parseCents t = Inl e \<Longrightarrow> \<not> amount_problem e" by (auto simp: parseCents_def res_bind_eq_Inl dest: d)
  have en: "res_map (encode_character NotEncodable) t = Inl e \<Longrightarrow> \<not> amount_problem e"
    by (auto dest!: res_map_Inl simp: encode_character_def amount_problem_def split: option.splits if_splits)
  then show "encodeDatecsWindows1251 t = Inl e \<Longrightarrow> \<not> amount_problem e" by (simp add: encodeDatecsWindows1251_def)
  show "splitDescription t = Inl e \<Longrightarrow> \<not> amount_problem e"
    using en by (auto simp: splitDescription_def res_bind_eq_Inl amount_problem_def split: if_splits)
qed

lemma group_problems: "check_tax_groups cfg m = Inl e \<Longrightarrow> \<not> amount_problem e"
  by (induction cfg m rule: check_tax_groups.induct)
    (auto simp: res_bind_eq_Inl normalizeRate_def amount_problem_def dest: text_problems(1) [unfolded amount_problem_def] split: if_splits)

lemma validate_line_after:
  assumes "parseDecimal 4 (unitPriceEur x) = Inr price" and "parseDecimal 3 (quantity x) = Inr q"
    and "parseCents (grossTotalEur x) = Inr gross" and "parseCents (case discountEur x of None \<Rightarrow> [48] | Some d \<Rightarrow> d) = Inr disc"
    and "validate_line groups x = Inl e" and "\<not> multiplyToCents price q < disc" and "multiplyToCents price q - disc = gross"
  shows "e = PriceQuantity \<or> splitDescription (description x) = Inl e \<or> e = UnitCode \<or> e = TaxGroupTypeError \<or>
    (\<exists>t. encodeDatecsWindows1251 t = Inl e)"
proof (cases "splitDescription (description x)")
  case (Inl a)
  with assms show ?thesis by (auto simp: validate_line_def split: if_splits)
next
  case (Inr ab)
  obtain a b where ab: "ab = (a, b)" by (cases ab)
  let ?u = "case unitCode x of None \<Rightarrow> [] | Some u \<Rightarrow> u"
  show ?thesis
  proof (cases "encodeDatecsWindows1251 ?u")
    case u: (Inl c)
    with assms Inr ab show ?thesis by (auto simp: validate_line_def split: if_splits)
  next
    case u: (Inr ub)
    show ?thesis
    proof (cases "map_of groups (vatTreatment x)")
      case None
      with assms Inr ab u show ?thesis by (auto simp: validate_line_def Let_def split: if_splits)
    next
      case (Some grp)
      let ?t = "tg_group grp @ formatDecimal price @ ([42] @ formatDecimal q) @ (if ub \<noteq> [] then [35] @ ?u else []) @
        (if disc > 0 then [59] @ formatCents disc else [])"
      show ?thesis
        using assms Inr ab u Some by (cases "encodeDatecsWindows1251 ?t") (auto simp: validate_line_def Let_def split: if_splits)
    qed
  qed
qed

text \<open>A line from the server has the amounts the driver computes.\<close>

lemma driver_line:
  assumes "receipt_line line = Inr l" and "dto_decimal v" and "bl_quantity (rd_input line) = normalizeQuantity v"
  shows "validate_line groups (printer_line l) = Inl e \<Longrightarrow> \<not> amount_problem e"
    and "validate_line groups (printer_line l) = Inr (dat, c) \<Longrightarrow> c * 100 = units (fl_grossTotalEur l)"
proof -
  note parts = receipt_line_parts [OF assms(1)]
  obtain x where x: "fiscalMinorUnitAmount x = Inr (fl_grossTotalEur l)" using parts(5) by blast
  note gross = cents_of_amount [OF x]
  have g: "parseCents (fl_grossTotalEur l) = Inr (units (fl_grossTotalEur l) div 100)" "units (fl_grossTotalEur l) mod 100 = 0"
    using gross(1,3,5) by simp_all
  obtain y where y: "fiscalMinorUnitAmount y = Inr (fl_unitPriceEur l)" using parts(4) by blast
  note pr = cents_of_amount [OF y]
  have d: "parseCents (case fl_discountEur l of None \<Rightarrow> [48] | Some d \<Rightarrow> d) = Inr (discount_of l div 100) \<and> discount_of l mod 100 = 0"
  proof (cases "fl_discountEur l")
    case None
    moreover have "parseCents [48] = Inr 0" by code_simp
    ultimately show ?thesis by (simp add: discount_of_def)
  next
    case (Some t)
    then obtain z where "fiscalMinorUnitAmount z = Inr t" using parts(6) by blast
    from cents_of_amount [OF this] Some show ?thesis by (simp add: discount_of_def)
  qed
  have base: "multiplyToCents price q - discount_of l div 100 = units (fl_grossTotalEur l) div 100 \<and> discount_of l div 100 \<le> multiplyToCents price q"
    if price: "parseDecimal 4 (fl_unitPriceEur l) = Inr price" and q: "parseDecimal 3 (fl_quantity l) = Inr q" for price q
  proof -
    have q': "parseDecimal 3 (receipt_quantity (normalizeQuantity v)) = Inr q" using q parts(3) assms(3) by simp
    note qv = receipt_quantity_value [OF assms(2) q']
    have p0: "0 \<le> units y div 100" using pr(2) by (simp add: pos_imp_zdiv_nonneg_iff)
    obtain a b where ab: "fl_unitPriceEur l = a @ 46 # b" "a \<noteq> []" "length b = 2" "\<forall>c \<in> set (a @ b). is_digit c"
        "int (digits_val (a @ b)) = units y div 100"
      using formatCents_split [OF p0] pr(4) by metis
    then have dm: "decimal_match (fl_unitPriceEur l) = Some (a, b)" by (auto simp: decimal_match_eq list_all_iff)
    have pc: "price = \<lparr>coefficient = units y div 100, scale = 2\<rparr>"
      using price ab(3,5) by (auto simp: parseDecimal_def trim_decimal [OF dm] dm)
    have "units (fl_unitPriceEur l) = coefficient price * 100" using pc pr(1,3) mult_div_mod_eq [of 100 "units y"] by simp
    moreover have "units (multiply (fl_unitPriceEur l) (normalizeQuantity v)) = units (fl_grossTotalEur l) + discount_of l"
      using parts(2) assms(3) by simp
    moreover obtain k1 k2 where k: "units (fl_grossTotalEur l) = 100 * k1" "discount_of l = 100 * k2"
      using g(2) d by (auto simp: mod_eq_0_iff_dvd elim!: dvdE)
    moreover have "(units (fl_grossTotalEur l) + discount_of l) mod 100 = 0" by (simp add: k)
    ultimately have "multiplyToCents price q = (units (fl_grossTotalEur l) + discount_of l) div 100"
      using driver_product [of price q "fl_unitPriceEur l" "normalizeQuantity v"] pc p0 qv parseDecimal_nonneg [OF q'] by simp
    moreover have "0 \<le> units (fl_grossTotalEur l)" using gross(1,2) by simp
    moreover have "(100 * k1 + 100 * k2) div 100 = k1 + k2" by simp
    ultimately show ?thesis using parts(7) by (simp add: k)
  qed
  show "\<not> amount_problem e" if v: "validate_line groups (printer_line l) = Inl e"
  proof (cases "parseDecimal 4 (fl_unitPriceEur l)")
    case (Inl a)
    with v text_problems(1) [OF Inl] show ?thesis by (simp add: validate_line_def printer_line_def)
  next
    case price: (Inr price)
    show ?thesis
    proof (cases "parseDecimal 3 (fl_quantity l)")
      case (Inl a)
      with v price text_problems(1) [OF Inl] show ?thesis by (simp add: validate_line_def printer_line_def)
    next
      case q: (Inr q)
      from base [OF price q] have b: "multiplyToCents price q - discount_of l div 100 = units (fl_grossTotalEur l) div 100"
        "\<not> multiplyToCents price q < discount_of l div 100" by simp_all
      from v have "e = PriceQuantity \<or> splitDescription (fl_description l) = Inl e \<or> e = UnitCode \<or> e = TaxGroupTypeError \<or>
          (\<exists>t. encodeDatecsWindows1251 t = Inl e)"
        using validate_line_after [of "printer_line l" price q _ _ groups e] price q g(1) d b by (simp add: printer_line_def)
      then show ?thesis using text_problems(3,4) by (auto simp: amount_problem_def)
    qed
  qed
  show "validate_line groups (printer_line l) = Inr (dat, c) \<Longrightarrow> c * 100 = units (fl_grossTotalEur l)"
    using g by (auto simp: validate_line_def printer_line_def Let_def split: if_splits option.splits)
qed

lemma driver_lines:
  assumes "mapFiscalSalePreparation row = Inr p" and "normal_quantities row" and "l \<in> set (pf_lines p)"
  shows "validate_line groups (printer_line l) = Inl e \<Longrightarrow> \<not> amount_problem e"
    and "validate_line groups (printer_line l) = Inr (dat, c) \<Longrightarrow> c * 100 = units (fl_grossTotalEur l)"
proof -
  from assms(3) obtain i where i: "i < length (pf_lines p)" "pf_lines p ! i = l" by (auto simp: in_set_conv_nth)
  let ?line = "sn_preparedLines (fp_pricing row) ! i"
  note all = mapped_parts(1) [OF assms(1)]
  have line: "receipt_line ?line = Inr l" using list_all2_nthD2 [OF all i(1)] unfolding i(2) .
  have "?line \<in> set (sn_preparedLines (fp_pricing row))" using list_all2_lengthD [OF all] i(1) by simp
  then obtain v where "dto_decimal v" "bl_quantity (rd_input ?line) = normalizeQuantity v"
    using assms(2) unfolding normal_quantities_def by blast
  from driver_line [OF line this] show "validate_line groups (printer_line l) = Inl e \<Longrightarrow> \<not> amount_problem e"
    "validate_line groups (printer_line l) = Inr (dat, c) \<Longrightarrow> c * 100 = units (fl_grossTotalEur l)" by blast+
qed

text \<open>The driver's validation of a sale whose lines add up.\<close>

lemma validate_sale_amounts:
  assumes "parseCents (totalGrossEur request) = Inr a" and "parseCents (cashTenderedEur request) = Inr b" and "0 < a" and "a \<le> b"
    and "\<And>e. res_map (validate_line (taxGroups config)) (lines request) = Inl e \<Longrightarrow> \<not> amount_problem e"
    and "\<And>rs. res_map (validate_line (taxGroups config)) (lines request) = Inr rs \<Longrightarrow> (\<Sum>r\<leftarrow>rs. snd r) = a"
  shows "case validateSaleRequest request config of Inl e \<Rightarrow> \<not> amount_problem e | Inr sale \<Rightarrow> changeCents sale = b - a"
proof (cases "validateSaleRequest request config")
  case (Inr sale)
  with assms(1,2) show ?thesis by (auto simp: validateSaleRequest_def split: if_splits)
next
  case (Inl e)
  let ?formats = "{UniqueSaleIdFormat, OperatorNumber, OperatorPassword, RegisterNumber, LineCount}"
  note simps = validateSaleRequest_def assms(1,2) foldl_sum
  have pos: "\<not> (a \<le> 0 \<or> b < a)" using assms(3,4) by simp
  consider (groups) x where "check_tax_groups (taxGroups config) Map.empty = Inl x"
    | (line) x m where "check_tax_groups (taxGroups config) Map.empty = Inr m" "res_map (validate_line (taxGroups config)) (lines request) = Inl x"
    | (all) rs m where "check_tax_groups (taxGroups config) Map.empty = Inr m" "res_map (validate_line (taxGroups config)) (lines request) = Inr rs"
    by (metis sum.exhaust)
  then have "e \<in> ?formats \<or> \<not> amount_problem e"
  proof cases
    case groups
    from Inl have "e \<in> ?formats \<or> e = x" by (simp add: simps pos groups split: if_splits)
    then show ?thesis using group_problems [OF groups] by blast
  next
    case line
    from Inl have "e \<in> ?formats \<or> e = x" by (simp add: simps pos line split: if_splits)
    then show ?thesis using assms(5) [OF line(2)] by blast
  next
    case all
    from Inl have "e \<in> ?formats" by (simp add: simps pos all assms(6) [OF all(2)] split: if_splits)
    then show ?thesis by blast
  qed
  with Inl show ?thesis by (auto simp: amount_problem_def)
qed

text \<open>
  C18: A receipt that the server prepares is one the printer driver accepts as far as its amounts go:
  the line totals add up to the sale total and the change is the tendered cash less it; the driver
  never answers that a line, the sale or the tender does not add up, whatever its configuration; and
  the change it computes is the server's.
\<close>

theorem prepared_receipt_suits_driver:
  assumes "mapFiscalSalePreparation row = Inr p" and "normal_quantities row" and "0 < units (pf_totalGrossEur p)"
  shows "(\<Sum>l\<leftarrow>pf_lines p. units (fl_grossTotalEur l)) = units (pf_totalGrossEur p) \<and>
    units (pf_totalGrossEur p) = units (bp_grossTotal (sn_basketPricing (fp_pricing row))) \<and>
    units (pf_changeEur p) = units (pf_cashTenderedEur p) - units (pf_totalGrossEur p) \<and> 0 \<le> units (pf_changeEur p) \<and>
    (case validateSaleRequest (printer_sale p) config of
       Inl e \<Rightarrow> \<not> amount_problem e
     | Inr sale \<Rightarrow> changeCents sale * 100 = units (pf_changeEur p))"
proof -
  note m = mapped_parts [OF assms(1)]
  obtain x y where x: "fiscalMinorUnitAmount x = Inr (pf_cashTenderedEur p)" and y: "fiscalMinorUnitAmount y = Inr (pf_changeEur p)"
    using m(5,6) by blast
  note total = cents_of_amount [OF m(4)] and tender = cents_of_amount [OF x] and change = cents_of_amount [OF y]
  have t: "parseCents (pf_totalGrossEur p) = Inr (units (pf_totalGrossEur p) div 100)" "units (pf_totalGrossEur p) mod 100 = 0"
    using total(1,3,5) by simp_all
  have c: "parseCents (pf_cashTenderedEur p) = Inr (units (pf_cashTenderedEur p) div 100)" "units (pf_cashTenderedEur p) mod 100 = 0"
    using tender(1,3,5) by simp_all
  have ch: "0 \<le> units (pf_changeEur p)" using change(1,2) by simp
  obtain a b where ab: "units (pf_totalGrossEur p) = 100 * a" "units (pf_cashTenderedEur p) = 100 * b"
    using t(2) c(2) by (auto simp: mod_eq_0_iff_dvd elim!: dvdE)
  let ?v = "\<lambda>l. validate_line (taxGroups config) (printer_line l)"
  have lines_ok: "(\<Sum>r\<leftarrow>rs. snd r) * 100 = units (pf_totalGrossEur p)" if "res_map ?v (pf_lines p) = Inr rs" for rs
  proof -
    from that have "list_all2 (\<lambda>l r. ?v l = Inr r) (pf_lines p) rs" by (simp add: res_map_Inr_iff)
    then have "list_all2 (\<lambda>l r. snd r * 100 = units (fl_grossTotalEur l)) (pf_lines p) rs"
      by (rule list.rel_mono_strong) (metis driver_lines(2) [OF assms(1,2)] prod.collapse)
    then have "(\<Sum>r\<leftarrow>rs. snd r) * 100 = (\<Sum>l\<leftarrow>pf_lines p. units (fl_grossTotalEur l))"
      by (induction rule: list_all2_induct) auto
    then show ?thesis using m(2) by simp
  qed
  have lines_fail: "\<not> amount_problem e" if "res_map ?v (pf_lines p) = Inl e" for e
    using res_map_Inl [OF that] driver_lines(1) [OF assms(1,2)] by blast
  have map: "res_map (validate_line (taxGroups config)) (map printer_line ls) = res_map ?v ls" for ls
    by (induction ls) simp_all
  have "case validateSaleRequest (printer_sale p) config of Inl e \<Rightarrow> \<not> amount_problem e | Inr sale \<Rightarrow> changeCents sale = b - a"
  proof (rule validate_sale_amounts)
    show "parseCents (totalGrossEur (printer_sale p)) = Inr a" "parseCents (cashTenderedEur (printer_sale p)) = Inr b"
      using t(1) c(1) by (simp_all add: printer_sale_def ab)
    show "0 < a" "a \<le> b" using assms(3) ch m(3) ab by simp_all
    show "\<not> amount_problem e" if "res_map (validate_line (taxGroups config)) (lines (printer_sale p)) = Inl e" for e
      using that lines_fail by (simp add: printer_sale_def map)
    show "(\<Sum>r\<leftarrow>rs. snd r) = a" if "res_map (validate_line (taxGroups config)) (lines (printer_sale p)) = Inr rs" for rs
      using that lines_ok [of rs] ab by (simp add: printer_sale_def map)
  qed
  then have "case validateSaleRequest (printer_sale p) config of Inl e \<Rightarrow> \<not> amount_problem e
     | Inr sale \<Rightarrow> changeCents sale * 100 = units (pf_changeEur p)"
    using m(3) ab by (auto split: sum.splits)
  then show ?thesis using m(2,3) total(1) ch by simp
qed

text \<open>Two and a half kilograms at 1.20 with VAT, paid with a five euro note.\<close>

definition example_ready_line :: ReadySaleLine where
  "example_ready_line = \<lparr>rd_input = \<lparr>bl_batchId = None, bl_productId = 1, bl_quantity = js ''2.5000'', bl_serialNumbers = Some []\<rparr>,
     rd_product = \<lparr>sp_category = 1, sp_name = js ''Tea'', sp_code = js ''T'', sp_tracking = TrackNone, sp_unit_code = js ''kg'',
       sp_unit_price = Some (js ''1.0000''), sp_price_list = Some 3, sp_vat_treatment = Some Standard20, sp_warranty_months = None\<rparr>,
     rd_price = \<lparr>pr_automaticDiscountTotal = js ''0.0000'', pr_baseNetTotal = js ''2.5000'', pr_grossTotal = js ''3.0000'',
       pr_loyaltyDiscountTotal = js ''0.0000'', pr_manualDiscountTotal = js ''0.0000'', pr_netTotal = js ''2.5000'',
       pr_pricingAdjustments = [], pr_productId = 1, pr_vatTotal = js ''0.5000''\<rparr>\<rparr>"

definition example_preparation :: FiscalSalePreparationRow where
  "example_preparation = \<lparr>fp_id = 50, fp_transaction = js ''t-1'', fp_shift = 7, fp_register = 2, fp_operator = 3, fp_cashier = 4,
     fp_device = js ''DT000001'', fp_operator_identifier = js ''0001'', fp_unique_sale_id = js ''DT000001-0001-0000001'',
     fp_request_digest = [], fp_request = example_sale,
     fp_pricing = \<lparr>sn_basketPricing = price_totals [rd_price example_ready_line] 0 0,
       sn_payments = [no_payment\<lparr>pp_amount := js ''3.0000'', pp_changeAmount := js ''2.0000'', pp_tenderedAmount := Some (js ''5.0000'')\<rparr>],
       sn_preparedLines = [example_ready_line]\<rparr>,
     fp_status = Prepared, fp_document_number = None, fp_receipt_number = None, fp_response = None,
     fp_cancellation_confirmed = False, fp_finalized_sale = None\<rparr>"

definition example_receipt :: PosFiscalSalePreparation where
  "example_receipt = (case mapFiscalSalePreparation example_preparation of Inr p \<Rightarrow> p)"

lemma example_mapped:
  "(case mapFiscalSalePreparation example_preparation of Inl _ \<Rightarrow> False | Inr p \<Rightarrow> 0 < units (pf_totalGrossEur p))"
  by code_simp

theorem prepared_receipt_suits_driver_witness:
  "units (pf_changeEur example_receipt) = units (pf_cashTenderedEur example_receipt) - units (pf_totalGrossEur example_receipt) \<and>
   (case validateSaleRequest (printer_sale example_receipt) sample_config of
      Inl e \<Rightarrow> \<not> amount_problem e | Inr sale \<Rightarrow> changeCents sale * 100 = units (pf_changeEur example_receipt))"
proof -
  obtain p where p: "mapFiscalSalePreparation example_preparation = Inr p" "0 < units (pf_totalGrossEur p)"
    using example_mapped by (auto split: sum.splits)
  have "dto_decimal (js ''2.5'') \<and> normalizeQuantity (js ''2.5'') = js ''2.5000''" by code_simp
  then have "normal_quantities example_preparation"
    unfolding normal_quantities_def by (auto simp: example_preparation_def example_ready_line_def intro!: exI [of _ "js ''2.5''"])
  note suits = prepared_receipt_suits_driver [OF p(1) this p(2), of sample_config]
  have "example_receipt = p" by (simp add: example_receipt_def p(1))
  then show ?thesis using suits by metis
qed

end
