(* ===== verification/PosGuarantees.thy ===== *)
theory PosGuarantees
  imports RegisterLedger PosPrinting InventoryGuarantees
begin

text \<open>
  What the cash side of the POS service guarantees, over all interleavings of its requests with each
  other and with the rest of the system: every request is a step of the register machine, so in every
  reachable database receipt references are given out once, a printer has one unresolved receipt, a
  printed receipt is booked as one sale, and a Z report closes its shift with the counted cash.
\<close>

section \<open>Requests as steps\<close>

lemma reg_step_refl: "reg_step g g"
  using reg_step.other [of g "g_next g"] by simp

lemma transact_leads:
  assumes "leads R (register_of s) m" and "transact m s = (r, s')" and "R (register_of s) (register_of s)"
  shows "R (register_of s) (register_of s')" and "r = Inl e \<Longrightarrow> s' = s"
  using assms reg_at_self [of s] by (auto simp: transact_def tx_spec_def split: sum.splits)

lemmas transact_step = transact_leads [where R = reg_step, OF _ _ reg_step_refl]

lemma quiet_steps [simp]: "evidence_step i g g" "booking_step i g g"
  using evidence_other [of g "g_next g"] booking_other [of g "g_next g"] by simp_all

lemma key_claimed: "pos_claim scope key h f s = Inr (v, s') \<Longrightarrow> reg_at T n s \<Longrightarrow> reg_at T n s'"
  by (auto simp: pos_claim_def tx_simps reg_at_def next_reference_def [abs_def] split: option.splits if_splits)

lemma bind_claim: "(\<And>v. tx_spec (reg_at T n) (g v) Q) \<Longrightarrow> tx_spec (reg_at T n) (tx_bind (pos_claim scope key h f) g) Q"
  by (rule bind_run [where R = "\<lambda>_. reg_at T n" and A = "\<lambda>_. True"]) (auto dest: key_claimed)

lemma key_completed: "pos_complete_key scope key r s = Inr (u, s') \<Longrightarrow> register_of s' = register_of s"
  by (auto simp: pos_complete_key_def tx_simps register_of_def next_reference_def fun_eq_iff split: option.splits)

lemma command_leads:
  assumes "\<And>k. leads R T (action k)" and "\<And>k. g_next T \<le> k \<Longrightarrow> R T (T\<lparr>g_next := k\<rparr>)"
  shows "leads R T (pos_command scope key h f action)"
  unfolding pos_command_def
proof (intro bind_res bind_claim)
  fix k replay
  have "leads R T (tx_bind (action k) (\<lambda>result. tx_bind (pos_complete_key scope k result) (\<lambda>_. tx_return result)))"
    using assms(1) [of k] by (auto simp: tx_spec_def tx_simps dest!: key_completed)
  then show "leads R T (case replay of Some r \<Rightarrow> tx_return r | None \<Rightarrow>
      tx_bind (action k) (\<lambda>result. tx_bind (pos_complete_key scope k result) (\<lambda>_. tx_return result)))"
    using leads_calm [where R = R, OF assms(2) calm.within_return] by (auto split: option.split)
qed

lemma command_becomes: "(\<And>k. becomes T (action k)) \<Longrightarrow> becomes T (pos_command scope key h f action)"
  by (rule command_leads) (auto intro: reg_step.other)

lemma completion_step:
  assumes "reg_ok (register_of s)" and "completeSale env a key q hold s = (r, s')"
  shows "reg_step (register_of s) (register_of s')" and "r = Inl e \<Longrightarrow> s' = s"
  using assms(2) transact_step [OF command_becomes [OF complete_becomes [OF assms(1)]]] reg_step_refl
  by (auto simp: completeSale_def split: sum.splits)

text \<open>A confirmed receipt is a step, and the completion of its sale another one.\<close>

definition one_step :: "pos_request \<Rightarrow> bool" where
  "one_step q \<longleftrightarrow> (case q of ConfirmReceipt _ _ \<Rightarrow> False | _ \<Rightarrow> True)"

lemma booking:
  assumes "reg_ok (register_of s)" and "completeSale env a key q (Some i) s = (r, s')"
  shows "booking_step i (register_of s) (register_of s')" and "r = Inl e \<Longrightarrow> s' = s"
  using assms(2) transact_leads [where R = "booking_step i", OF command_leads [where R = "booking_step i", OF complete_leads [OF assms(1)] booking_other]]
  by (auto simp: completeSale_def split: sum.splits)

lemma confirm_steps:
  assumes ok: "reg_ok (register_of s)" and run: "confirmFiscalSaleReceipt env a key i receipt s = (r, s')"
  shows "\<exists>s1. evidence_step i (register_of s) (register_of s1) \<and> booking_step i (register_of s1) (register_of s') \<and>
    (\<forall>e. r = Inl e \<longrightarrow> s' = s1)"
proof (cases "normalizeFiscalSaleReceipt receipt")
  case (Inl e)
  then have "s' = s" using run by (simp add: confirmFiscalSaleReceipt_def)
  then show ?thesis by (intro exI [of _ s]) simp
next
  case (Inr n)
  obtain r1 s1 where first: "transact (pos_command ''pos.fiscal-sale.receipt-confirm'' key
      (pe_digest env (ConfirmPayload i n)) is_preparation (confirmReceipt_body a i n)) s = (r1, s1)" by fastforce
  have one: "evidence_step i (register_of s) (register_of s1)"
    by (rule transact_leads(1) [where R = "evidence_step i", OF command_leads [where R = "evidence_step i", OF confirm_leads evidence_other] first])
      simp_all
  then have "reg_ok (register_of s1)" using reg_step_ok ok by (auto simp: evidence_step_def)
  then have "booking_step i (register_of s1) (register_of s') \<and> (\<forall>e. r = Inl e \<longrightarrow> s' = s1)"
    using run Inr first booking
    by (auto simp: confirmFiscalSaleReceipt_def split: sum.splits pos_response.splits if_splits)
  then show ?thesis using one by blast
qed

lemma finalize_step:
  assumes "reg_ok (register_of s)" and "finalizeConfirmedFiscalSale env a i s = (r, s')"
  shows "reg_step (register_of s) (register_of s')" and "r = Inl e \<Longrightarrow> s' = s"
  using assms(2) completion_step [OF assms(1)] reg_step_refl
  by (auto simp: finalizeConfirmedFiscalSale_def split: sum.splits if_splits)

lemma request_step:
  assumes env: "assignments_ok env" and ok: "reg_ok (register_of s)" and run: "pos_handle env a key q s = (r, s')" and q: "one_step q"
  shows "reg_step (register_of s) (register_of s') \<and> (\<forall>e. r = Inl e \<longrightarrow> s' = s)"
proof -
  have rows: "rows_ok (register_of s)" and refs: "references_ok (register_of s)" using ok by (auto simp: reg_ok_def)
  note bodies = open_becomes [OF env] close_becomes [OF rows] lease_becomes [OF env refs] prepare_becomes [OF env]
    print_becomes doubt_becomes cancel_becomes report_becomes [OF env] report_on_becomes reject_becomes confirm_report_becomes [OF rows]
  note steps = bodies [THEN command_becomes, THEN transact_step(1)] bodies [THEN command_becomes, THEN transact_step(2)]
  show ?thesis
  proof (cases q)
    case (ConfirmReceipt i n)
    then show ?thesis using q by (simp add: one_step_def)
  next
    case (FinalizeSale i)
    then show ?thesis using run finalize_step [OF ok] by auto
  next
    case (CompleteSale x)
    then show ?thesis using run completion_step [OF ok] by auto
  qed (use run reg_step_refl in \<open>auto simp: openShift_def closeShift_def reserveDatecsUnpLease_def prepareFiscalSale_def
      markFiscalSalePrinting_def markFiscalSaleOutcomeUnknown_def cancelFiscalSalePreparation_def prepareFiscalDailyReport_def
      updateFiscalDailyReportState_def rejectFiscalDailyReport_def confirmFiscalDailyReport_def Let_def
      split: sum.splits option.splits if_splits dest: steps\<close>)
qed

lemma request_steps:
  assumes "assignments_ok env" and "reg_ok (register_of s)" and "pos_handle env a key q s = (r, s')"
  shows "\<exists>g. reg_step (register_of s) g \<and> reg_step g (register_of s')"
proof (cases "one_step q")
  case True
  then show ?thesis using request_step [OF assms True] reg_step_refl by blast
next
  case False
  then obtain i receipt where "q = ConfirmReceipt i receipt" by (auto simp: one_step_def split: pos_request.splits)
  then show ?thesis using confirm_steps [OF assms(2)] assms(3) by (fastforce simp: evidence_step_def booking_step_def)
qed

section \<open>Reachable databases\<close>

text \<open>
  The registers start empty. Requests come in any order from any account, and the assignments,
  prices and the clock may change between them. In between other operations write: they may draw receipt
  references from a sequence (as the preparation of a return does) and change every table that is not
  listed. The return workflow, which marks a sale it returned as reversed, is not part of these histories.
\<close>

definition new_registers :: "pos_db \<Rightarrow> bool" where
  "new_registers s \<longleftrightarrow> shifts s = [] \<and> unp_sequences s = [] \<and> unp_leases s = [] \<and> preparations s = [] \<and>
     daily_reports s = [] \<and> sales s = []"

definition elsewhere :: "pos_db \<Rightarrow> pos_db \<Rightarrow> bool" where
  "elsewhere s s' \<longleftrightarrow> shifts s' = shifts s \<and> unp_leases s' = unp_leases s \<and>
     (\<forall>k. next_reference s k \<le> next_reference s' k \<and> next_reference s' k \<le> 10000000) \<and>
     preparations s' = preparations s \<and> daily_reports s' = daily_reports s \<and> sales s' = sales s \<and> fresh_id (inv s) \<le> fresh_id (inv s')"

inductive pos_reachable :: "pos_db \<Rightarrow> bool" where
  start: "new_registers s \<Longrightarrow> pos_reachable s"
| request: "pos_reachable s \<Longrightarrow> assignments_ok env \<Longrightarrow> pos_handle env account key q s = (r, s') \<Longrightarrow> pos_reachable s'"
| elsewhere: "pos_reachable s \<Longrightarrow> elsewhere s s' \<Longrightarrow> pos_reachable s'"

lemma elsewhere_step: "elsewhere s s' \<Longrightarrow> reg_step (register_of s) (register_of s')"
  using reg_step.advance [of "register_of s" "next_reference s'" "fresh_id (inv s')"]
  by (simp add: elsewhere_def register_of_def)

lemma new_registers_ok: "new_registers s \<Longrightarrow> reg_ok (register_of s)"
  by (simp add: new_registers_def reg_ok_def rows_ok_def unique_rows_def shifts_ok_def references_ok_def printer_ok_def reports_ok_def
      receipts_ok_def evidence_ok_def pending_at_def reporting_at_def counted_z_def closed_by_z_def settled_by_z_def next_reference_def)

lemma pos_reachable_ok: "pos_reachable s \<Longrightarrow> reg_ok (register_of s)"
proof (induction rule: pos_reachable.induct)
  case (request s env account key q r s')
  then show ?case using request_steps reg_step_ok by blast
qed (use new_registers_ok elsewhere_step reg_step_ok in blast)+


section \<open>A register at work\<close>

text \<open>One register with a fiscal printer, one account, and tea at 1.00 without VAT per kilogram.\<close>

definition till_terminal :: AssignmentRow where
  "till_terminal = \<lparr>as_register = 2, as_register_code = js ''R2'', as_operator = 3, as_operator_code = js ''O3'', as_warehouse = 1,
     as_fiscal_mode = FiscalHardware, as_payment_terminal = TerminalDisabled\<rparr>"

definition till_product :: SaleProductRow where
  "till_product = \<lparr>sp_category = 1, sp_name = js ''Tea'', sp_code = js ''T'', sp_tracking = TrackNone, sp_unit_code = js ''kg'',
     sp_unit_price = Some (js ''1.0000''), sp_price_list = Some 3, sp_vat_treatment = Some Standard20, sp_warranty_months = None\<rparr>"

definition till_env :: pos_env where
  "till_env = \<lparr>pe_inv = demo_env, pe_assignment = (\<lambda>a r. if a = 4 \<and> r = 2 then Some till_terminal else None),
     pe_operator_account = (\<lambda>i. if i = 3 then Some 4 else None), pe_configured_mode = (\<lambda>_. Some FiscalHardware),
     pe_product = (\<lambda>_ _ p. if p = 7 then Some till_product else None), pe_rules = (\<lambda>_. []), pe_customer = (\<lambda>_. False),
     pe_location = (\<lambda>_ _. False), pe_loyalty = (\<lambda>_. None), pe_advance = (\<lambda>_ _. None), pe_terms = (\<lambda>_ _. None),
     pe_authorize = (\<lambda>_ _. Inl (Api ''POS_PAYMENT_ADAPTER_UNAVAILABLE'')), pe_digest = (\<lambda>_. []), pe_basket_digest = (\<lambda>_ _. []),
     pe_by_serial = (\<lambda>xs. xs), pe_production = True, pe_year = js ''2026'', pe_now = 0\<rparr>"

definition till_db :: pos_db where
  "till_db = \<lparr>inv = demo_db\<lparr>stock_balances := [((1, 7), \<lparr>bal_quantity = 50000, bal_average_unit_cost = 5000\<rparr>)]\<rparr>, pos_keys = [],
     batch_reserved = [], shifts = [], document_sequences = [], unp_sequences = [], unp_leases = [], preparations = [],
     return_preparations = [], daily_reports = [], discount_authorizations = [], loyalty_reservations = [], loyalty_ledger = [],
     sales = [], sale_lines = [], sale_line_serials = [], payments = [], cash_refunds = [], advance_entries = [], account_entries = [],
     equipment = [], warranty_cards = [], fiscal_operations = []\<rparr>"

definition till_sale :: SaleRequest where
  "till_sale = \<lparr>bk_customerPartnerId = None, bk_lines =
     [\<lparr>bl_batchId = None, bl_productId = 7, bl_quantity = js ''2.5'', bl_serialNumbers = None\<rparr>],
     bk_loyaltyPointsToRedeem = None, bk_manualDiscount = None, bk_shiftId = 100,
     sq_clientTransactionId = js ''t-1'', sq_customerLocationId = None, sq_payments =
     [\<lparr>sp_advanceId = None, sp_amount = js ''3'', sp_method = Cash, sp_tenderedAmount = Some (js ''5'')\<rparr>]\<rparr>"

fun till_run :: "nat \<Rightarrow> pos_request list \<Rightarrow> pos_db \<Rightarrow> pos_db" where
  "till_run i [] s = s"
| "till_run i (q # qs) s = till_run (Suc i) qs (snd (pos_handle till_env 4 (Some (demo_key i)) q s))"

definition till_requests :: "pos_request list" where
  "till_requests = [OpenShift 2 (js ''100''),
     PrepareSale \<lparr>rq_sale = till_sale, rq_deviceSerial = js ''dt000001'', rq_operatorIdentifier = js ''0001'', rq_uniqueSaleId = None\<rparr>,
     MarkPrinting 102,
     ConfirmReceipt 102 \<lparr>fr_changeEur = js ''2.00'', fr_fiscalDocumentNumber = js ''0000017'', fr_fiscalReceiptsSinceDailyReport = None,
       fr_uniqueSaleId = js ''DT000001-0001-0000001''\<rparr>,
     PrepareReport \<lparr>cr_type = ZReport, cr_shiftId = 100, cr_closingCashEur = Some (js ''103''), cr_shiftVersion = Some 1\<rparr>,
     StepReport 111 False, ConfirmReport 111 \<lparr>rr_fiscalRecordNumber = js ''12'', rr_nonVatSalesTotalEur = js ''0.00'',
       rr_taxGroupTotals = [js ''0.00'', js ''3.00'']\<rparr>]"

definition till :: "nat \<Rightarrow> pos_db" where
  "till n = till_run 0 (take n till_requests) till_db"

lemma till_run_append: "till_run i (xs @ ys) s = till_run (i + length xs) ys (till_run i xs s)"
  by (induction xs arbitrary: i s) simp_all

lemma till_Suc:
  assumes "n < length till_requests"
  shows "till (Suc n) = snd (pos_handle till_env 4 (Some (demo_key n)) (till_requests ! n) (till n))"
  using assms by (simp add: till_def take_Suc_conv_app_nth till_run_append)

lemma till_assignments: "assignments_ok till_env"
  by (simp add: assignments_ok_def till_env_def till_terminal_def)

lemma till_reachable: "pos_reachable (till n)"
proof -
  have "pos_reachable s \<Longrightarrow> pos_reachable (till_run i qs s)" for i qs s
    by (induction qs arbitrary: i s) (simp, metis till_run.simps(2) pos_reachable.request [OF _ till_assignments] prod.collapse)
  moreover have "pos_reachable till_db" by (rule pos_reachable.start) (simp add: new_registers_def till_db_def)
  ultimately show ?thesis by (simp add: till_def)
qed

definition till_view :: "pos_db \<Rightarrow> preparation_status list \<times> int list \<times> int option list \<times> (report_type \<times> report_status) list" where
  "till_view s = (map fp_status (preparations s), map sa_gross (sales s), map sh_closing_cash (shifts s),
     map (\<lambda>r. (dr_type r, dr_status r)) (daily_reports s))"

lemma till_prepared: "till_view (till 2) = ([Prepared], [], [None], [])"
  by code_simp

lemma till_closed: "till_view (till 7) = ([Finalized], [30000], [Some 1030000], [(ZReport, ReportCompleted)])"
  by code_simp

section \<open>Guarantees\<close>



text \<open>
  C4: A receipt reference is given out once. The prepared sales carry pairwise different references,
  and so do the leases of the offline registers; every reference of a sale came from the sequence of
  its printer and operator, and a lease that is still free belongs to no sale.
\<close>

theorem receipt_references_issued_once:
  assumes "pos_reachable s"
  shows "distinct (map fp_unique_sale_id (preparations s)) \<and> distinct (map ul_unique_sale_id (unp_leases s)) \<and>
    (\<forall>p \<in> set (preparations s). \<exists>n. 0 < n \<and> n < next_reference s (fp_device p, fp_operator_identifier p) \<and> n \<le> 9999999 \<and>
       fp_unique_sale_id p = unp (fp_device p) (fp_operator_identifier p) n) \<and>
    (\<forall>l \<in> set (unp_leases s). ul_transaction l = None \<longrightarrow> ul_unique_sale_id l \<notin> fp_unique_sale_id ` set (preparations s))"
proof -
  have ok: "references_ok (register_of s)" using pos_reachable_ok [OF assms] by (simp add: reg_ok_def)
  then have le: "next_reference s k \<le> 10000000" for k unfolding references_ok_def register_of_simps by blast
  have "\<exists>n. 0 < n \<and> n < next_reference s (d, o') \<and> n \<le> 9999999 \<and> u = unp d o' n" if "issued (register_of s) d o' u" for d o' u
    using that le [of "(d, o')"] by (auto simp: issued_def)
  then show ?thesis using ok by (fastforce simp: references_ok_def lease_ok_def)
qed

theorem receipt_references_issued_once_witness:
  "distinct (map fp_unique_sale_id (preparations (till 2))) \<and> length (preparations (till 2)) = 1"
proof -
  obtain p where "preparations (till 2) = [p]" using till_prepared by (auto simp: till_view_def)
  then show ?thesis using receipt_references_issued_once [OF till_reachable [of 2]] by simp
qed

text \<open>
  C10: A printer has one action to finish. Two unresolved receipts of one register are the same; its
  shift is open, is the only open shift of its register, account and operator, and no daily report of
  the shift is unresolved.
\<close>

theorem one_unresolved_receipt:
  assumes "pos_reachable s" and "p \<in> set (preparations s)" and "q \<in> set (preparations s)" and "unresolved_sale p" and "unresolved_sale q"
    and "fp_register q = fp_register p"
  shows "q = p \<and> (\<exists>sh \<in> set (shifts s). sh_open sh \<and> sh_id sh = fp_shift p \<and> sh_register sh = fp_register p \<and>
    (\<forall>x \<in> set (shifts s). sh_open x \<and> same_till x sh \<longrightarrow> x = sh)) \<and>
    (\<forall>r \<in> set (daily_reports s). dr_shift r = fp_shift p \<longrightarrow> \<not> unresolved_report r)"
proof -
  let ?g = "register_of s"
  have ok: "rows_ok ?g" "printer_ok ?g" "shifts_ok ?g" using pos_reachable_ok [OF assms(1)] by (auto simp: reg_ok_def)
  have p: "(fp_id p, fp_shift p, fp_register p) \<in> pending_at ?g" "(fp_id q, fp_shift q, fp_register p) \<in> pending_at ?g"
    using assms by (auto simp: pending_at_def image_iff)
  then have "fp_id q = fp_id p" and op: "(fp_shift p, fp_register p) \<in> open_at ?g"
    and rep: "\<forall>j till'. (j, fp_shift p, till') \<notin> reporting_at ?g" using ok(2) unfolding printer_ok_def by blast+
  then have "q = p" using preparation_eqI [OF ok(1)] assms(2,3) by simp
  moreover have "\<forall>r \<in> set (daily_reports s). dr_shift r = fp_shift p \<longrightarrow> \<not> unresolved_report r"
  proof (intro ballI impI notI)
    fix r assume "r \<in> set (daily_reports s)" "dr_shift r = fp_shift p" "unresolved_report r"
    then have "(dr_id r, fp_shift p, dr_register r) \<in> reporting_at ?g" by (auto simp: reporting_at_def image_iff)
    then show False using rep by blast
  qed
  moreover obtain sh where "sh \<in> set (shifts s)" "sh_open sh" "sh_id sh = fp_shift p" "sh_register sh = fp_register p"
    using op by (auto simp: open_at_def)
  ultimately show ?thesis using ok(3) by (fastforce simp: shifts_ok_def)
qed

theorem one_unresolved_receipt_witness:
  "\<exists>p. preparations (till 2) = [p] \<and> (\<exists>sh \<in> set (shifts (till 2)). sh_open sh \<and> sh_id sh = fp_shift p)"
proof -
  obtain p where p: "preparations (till 2) = [p]" "fp_status p = Prepared" using till_prepared by (auto simp: till_view_def)
  then show ?thesis using one_unresolved_receipt [OF till_reachable [of 2], of p p] by (auto simp: unresolved_sale_def)
qed

text \<open>
  C3: A printed receipt is booked as one sale. A finalized preparation is linked to a fiscal sale of
  its transaction, shift and receipt number with the totals that were priced before printing; no other
  sale has that transaction or number. And every fiscal sale is the one of a finalized preparation.
\<close>

theorem finalized_receipt_is_one_sale:
  assumes "pos_reachable s"
  shows "(\<forall>p \<in> set (preparations s). fp_status p = Finalized \<longrightarrow>
      (\<exists>x \<in> set (sales s). fp_finalized_sale p = Some (sa_id x) \<and> books p x \<and>
        (\<forall>y \<in> set (sales s). sa_transaction y = fp_transaction p \<or> sa_receipt_number y = sa_receipt_number x \<longrightarrow> y = x))) \<and>
    (\<forall>x \<in> set (sales s). sa_fiscal_status x = Fiscalized \<longrightarrow>
      (\<exists>p \<in> set (preparations s). fp_status p = Finalized \<and> fp_finalized_sale p = Some (sa_id x)))"
proof -
  let ?g = "register_of s"
  have ok: "receipts_ok ?g" "evidence_ok ?g" using pos_reachable_ok [OF assms] by (auto simp: reg_ok_def)
  have views: "map sa_transaction (map sale_entry xs) = map sa_transaction xs"
    "map sa_receipt_number (map sale_entry xs) = map sa_receipt_number xs" for xs by simp_all
  have d: "distinct (map sa_transaction (sales s))" "distinct (map sa_receipt_number (sales s))"
    using ok(1) by (simp_all add: receipts_ok_def views del: map_map)
  have "\<exists>x \<in> set (sales s). fp_finalized_sale p = Some (sa_id x) \<and> books p x \<and>
        (\<forall>y \<in> set (sales s). sa_transaction y = fp_transaction p \<or> sa_receipt_number y = sa_receipt_number x \<longrightarrow> y = x)"
    if p: "p \<in> set (preparations s)" "fp_status p = Finalized" for p
  proof -
    have "receipt_ok (map sale_entry (sales s)) p" using ok(1) p(1) by (simp add: receipts_ok_def)
    then obtain x where x: "x \<in> set (sales s)" "fp_finalized_sale p = Some (sa_id x)" "books p x"
      using p(2) by (auto simp: receipt_ok_def books_def priced_as_def)
    moreover have "y = x" if "y \<in> set (sales s)" "sa_transaction y = fp_transaction p \<or> sa_receipt_number y = sa_receipt_number x" for y
      using that x row_eqI [OF d(1)] row_eqI [OF d(2)] by (auto simp: books_def)
    ultimately show ?thesis by blast
  qed
  then show ?thesis using ok(2) by (auto simp: evidence_ok_def)
qed

theorem finalized_receipt_is_one_sale_witness:
  "\<exists>p x. preparations (till 7) = [p] \<and> sales (till 7) = [x] \<and> fp_finalized_sale p = Some (sa_id x) \<and> books p x \<and> sa_gross x = 30000"
proof -
  obtain p x where p: "preparations (till 7) = [p]" "fp_status p = Finalized" "sales (till 7) = [x]" "sa_gross x = 30000"
    using till_closed by (auto simp: till_view_def)
  then show ?thesis using finalized_receipt_is_one_sale [OF till_reachable [of 7]] by auto
qed



text \<open>
  C14: A prepared sale is never lost or changed. After any request it is still there with the same
  reference, request, pricing, shift and register, and its status has not moved or has moved forward
  along the life of a receipt; what was finalized or cancelled stays so.
\<close>

theorem receipts_move_forward:
  assumes "pos_reachable s" and "assignments_ok env" and "pos_handle env account key q s = (r, s')" and "p \<in> set (preparations s)"
  shows "\<exists>p' \<in> set (preparations s'). same_sale p p' \<and>
    (p' = p \<or> (\<lambda>a b. b \<in> set (next_status a))\<^sup>+\<^sup>+ (fp_status p) (fp_status p'))"
proof -
  have ok: "rows_ok (register_of s)" using pos_reachable_ok [OF assms(1)] by (simp add: reg_ok_def)
  obtain g where g: "reg_step (register_of s) g" "reg_step g (register_of s')"
    using request_steps [OF assms(2) pos_reachable_ok [OF assms(1)] assms(3)] by blast
  obtain x where x: "x \<in> set (g_sales_pending g)" "same_sale p x" "x = p \<or> fp_status x \<in> set (next_status (fp_status p))"
    using status_moves [OF g(1) ok] assms(4) by auto
  obtain y where y: "y \<in> set (preparations s')" "same_sale x y" "y = x \<or> fp_status y \<in> set (next_status (fp_status x))"
    using status_moves [OF g(2) step_rows [OF g(1) ok] x(1)] by auto
  have "same_sale p y" using x(2) y(2) by (simp add: same_sale_def)
  moreover have "y = p \<or> (\<lambda>a b. b \<in> set (next_status a))\<^sup>+\<^sup>+ (fp_status p) (fp_status y)"
    using x(3) y(3) by (auto intro: tranclp.intros)
  ultimately show ?thesis using y(1) by blast
qed

theorem receipts_move_forward_witness:
  "\<exists>p \<in> set (preparations (till 2)). \<exists>p' \<in> set (preparations (till 3)). same_sale p p'"
proof -
  obtain r s' where run: "pos_handle till_env 4 (Some (demo_key 2)) (till_requests ! 2) (till 2) = (r, s')" by fastforce
  obtain p where p: "p \<in> set (preparations (till 2))" using till_prepared by (auto simp: till_view_def)
  have "till 3 = s'" using till_Suc [of 2] run by (simp add: till_requests_def numeral_3_eq_3)
  then show ?thesis using receipts_move_forward [OF till_reachable till_assignments run p] p by blast
qed

end
