(* ===== verification/PosReplay.thy ===== *)
theory PosReplay
  imports PosGuarantees
begin

text \<open>
  What a request of the POS service leaves alone. Its transaction writes no idempotency key but its
  own, and it writes no sale of a client transaction but the one that it names. So an answer that
  was recorded is given again, and a client that keeps its transaction identifier to itself finds at
  most one sale for it.
\<close>

section \<open>Bodies\<close>

text \<open>The sales of a client transaction, and no preparation for it.\<close>

definition sold :: "jsstr \<Rightarrow> pos_db \<Rightarrow> SaleRow list" where
  "sold t s = filter (\<lambda>x. sa_transaction x = t) (sales s)"

definition unprepared :: "jsstr \<Rightarrow> pos_db \<Rightarrow> bool" where
  "unprepared t s \<longleftrightarrow> list_all (\<lambda>p. sq_clientTransactionId (fp_request p) \<noteq> t) (preparations s)"

definition apart :: "jsstr \<Rightarrow> pos_db \<Rightarrow> pos_db \<Rightarrow> bool" where
  "apart t s s' \<longleftrightarrow> pos_keys s' = pos_keys s \<and> map sale_entry (sold t s') = map sale_entry (sold t s) \<and>
     (unprepared t s \<longrightarrow> unprepared t s')"

interpretation apart: step_relation "apart t" for t
  by unfold_locales (auto simp: apart_def)

lemma sold_entries: "map sale_entry (sold t s) = filter (\<lambda>x. sa_transaction x = t) (map sale_entry (sales s))"
  by (simp add: sold_def filter_map comp_def)

lemma calm_apart: "calm s s' \<Longrightarrow> apart t s s'"
proof -
  assume c: "calm s s'"
  then have "reg_at (register_of s) (fresh_id (inv s)) s'" using reg_at_self by (simp add: calm_def)
  with c show ?thesis by (simp add: calm_def apart_def sold_entries unprepared_def reg_at_def)
qed

lemma apart_calm: "tx_within calm m \<Longrightarrow> tx_within (apart t) m"
  by (auto simp: tx_within_def intro: calm_apart)

lemma apartI: "pos_keys s' = pos_keys s \<Longrightarrow> sales s' = sales s \<Longrightarrow>
   map (sq_clientTransactionId \<circ> fp_request) (preparations s') = map (sq_clientTransactionId \<circ> fp_request) (preparations s) \<Longrightarrow>
   apart t s s'"
proof -
  assume a: "pos_keys s' = pos_keys s" "sales s' = sales s"
    and m: "map (sq_clientTransactionId \<circ> fp_request) (preparations s') = map (sq_clientTransactionId \<circ> fp_request) (preparations s)"
  have "unprepared t x \<longleftrightarrow> t \<notin> set (map (sq_clientTransactionId \<circ> fp_request) (preparations x))" for x
    by (auto simp: unprepared_def list_all_iff)
  with m have "unprepared t s \<longleftrightarrow> unprepared t s'" by metis
  with a show ?thesis by (simp add: apart_def sold_def)
qed

lemma apart_rows:
  "tx_within (apart t) (insert_shift x)" "tx_within (apart t) (close_shift_row i a c v)" "tx_within (apart t) (set_sequence d o' n)"
  "tx_within (apart t) (insert_lease l)" "tx_within (apart t) (claim_lease u w p)" "tx_within (apart t) (insert_report r)"
  "tx_within (apart t) (update_report i f)" "tx_within (apart t) (close_with_z r sh a)"
  unfolding insert_shift_def close_shift_row_def set_sequence_def insert_lease_def claim_lease_def insert_report_def update_report_def
    close_with_z_def required_row_def
  by (intro apart.within apartI; simp)+

lemma apart_sequences: "tx_within (apart t) (top_up_leases r a d o' k m)" "tx_within (apart t) (choose_unp r a d o' q)"
proof -
  show "tx_within (apart t) (top_up_leases r a d o' k m)" unfolding top_up_leases_def by (intro apart.within apart_rows)
  have list: "tx_within (apart t) (case ls of [] \<Rightarrow> m | l # ls' \<Rightarrow> g l ls')" if "tx_within (apart t) m" "\<And>l ls'. tx_within (apart t) (g l ls')"
    for ls and m :: "(jsstr \<times> bool) pos_tx" and g :: "unp_lease_row \<Rightarrow> unp_lease_row list \<Rightarrow> (jsstr \<times> bool) pos_tx"
    using that by (cases ls) auto
  then show "tx_within (apart t) (choose_unp r a d o' q)"
    unfolding choose_unp_def by (intro apart.within_bind list apart.within apart_rows apart_calm [OF calm_ensure])
qed

lemma apart_update: "(\<And>p. fp_request (f p) = fp_request p) \<Longrightarrow> tx_within (apart t) (update_preparation i f)"
  unfolding update_preparation_def by (intro apart.within apartI) (simp_all add: update_where_def)

lemma apart_insert:
  "sq_clientTransactionId (fp_request p) \<noteq> t \<Longrightarrow> tx_within (apart t) (insert_preparation p)"
  "sa_transaction x \<noteq> t \<Longrightarrow> tx_within (apart t) (insert_sale x)"
  unfolding insert_preparation_def insert_sale_def nonneg_def
  by (auto simp: tx_within_def tx_simps apart_def sold_def unprepared_def)

lemma apart_consume: "tx_within (apart t) (consume_holds i a x)"
  unfolding consume_holds_def
  by (intro apart.within_bind apart_calm [OF calm_holds(4)] apart_calm [OF calm_holds(5)] apart_calm [OF calm_lift]
      apart.within_writes apartI draws_writes) (simp_all add: update_where_def)

lemma apart_prepare:
  assumes "sq_clientTransactionId b \<noteq> t"
  shows "tx_within (apart t) (prepareFiscalSale_body env a b d o' u key)"
proof -
  have "tx_within (apart t) (new_preparation env a sh tm b d o' u dg key)" for sh tm dg
    unfolding new_preparation_def Let_def
    by (intro apart.within apart_sequences apart_insert apart_rows calm_simple [THEN apart_calm]) (use assms in simp_all)
  then show ?thesis unfolding prepareFiscalSale_body_def Let_def
    by (intro apart.within calm_simple [THEN apart_calm])
qed

lemma apart_complete:
  assumes "sq_clientTransactionId b \<noteq> t"
  shows "tx_within (apart t) (completeSale_body env a b hold key)"
proof -
  have "tx_within (apart t) (record_sale env a sh tm b hold p sn key)" for sh tm p sn
    unfolding record_sale_def Let_def
    by (intro apart.within_bind apart.within_option apart.within_for apart.within_return apart_insert apart_consume
        apart_calm [OF calm_authorization] calm_simple [THEN apart_calm]) (use assms in simp_all)
  then show ?thesis unfolding completeSale_body_def by (intro apart.within calm_simple [THEN apart_calm])
qed

lemma apart_bodies:
  "tx_within (apart t) (openShift_body env a r c key)" "tx_within (apart t) (closeShift_body env a i c v key)"
  "tx_within (apart t) (reserveDatecsUnpLease_body env a d o' i key)" "tx_within (apart t) (markFiscalSalePrinting_body a i key)"
  "tx_within (apart t) (markFiscalSaleOutcomeUnknown_body a i key)" "tx_within (apart t) (cancelFiscalSalePreparation_body a i e key)"
  "tx_within (apart t) (confirmReceipt_body a i rc key)" "tx_within (apart t) (prepareFiscalDailyReport_body env a rq cash key)"
  "tx_within (apart t) (updateFiscalDailyReportState_body a i w key)" "tx_within (apart t) (rejectFiscalDailyReport_body a i rs key)"
  "tx_within (apart t) (confirmFiscalDailyReport_body env a i res key)"
  unfolding openShift_body_def closeShift_body_def reserveDatecsUnpLease_body_def markFiscalSalePrinting_body_def
    markFiscalSaleOutcomeUnknown_body_def cancelFiscalSalePreparation_body_def confirmReceipt_body_def
    prepareFiscalDailyReport_body_def updateFiscalDailyReportState_body_def rejectFiscalDailyReport_body_def
    confirmFiscalDailyReport_body_def required_row_def Let_def
  by (intro apart.within apart_rows apart_sequences apart_update calm_simple [THEN apart_calm] apart_calm [OF calm_ensure]; simp)+

section \<open>Commands\<close>

text \<open>The row of an idempotency key after its command was answered.\<close>

definition answered :: "jsstr \<Rightarrow> pos_response \<Rightarrow> pos_key_row" where
  "answered h v = \<lparr>pk_request_hash = h, pk_status = Completed, pk_response = Some v\<rparr>"

definition claimed :: "string \<times> jsstr \<Rightarrow> jsstr \<Rightarrow> pos_db \<Rightarrow> pos_db" where
  "claimed K h s = s\<lparr>pos_keys := AList.update K \<lparr>pk_request_hash = h, pk_status = Processing, pk_response = None\<rparr> (pos_keys s)\<rparr>"

text \<open>A command fails and changes nothing, finds its recorded answer, or runs its body and records the answer.\<close>

lemma command_cases:
  assumes "transact (pos_command scope key h f action) s = (r, s')" and "\<And>k. tx_within (apart t) (action k)"
  obtains (failed) e where "r = Inl e" "s' = s"
  | (replayed) k row v where "pos_validKey key = Inr k" "map_of (pos_keys s) (scope, k) = Some row" "r = Inr v" "s' = s"
  | (ran) k v s2 where "pos_validKey key = Inr k" "map_of (pos_keys s) (scope, k) = None" "action k (claimed (scope, k) h s) = Inr (v, s2)"
      "r = Inr v" "pos_keys s2 = pos_keys (claimed (scope, k) h s)"
      "s' = s2\<lparr>pos_keys := AList.update (scope, k) (answered h v) (pos_keys s2)\<rparr>"
proof (cases r)
  case (Inl e)
  with assms(1) failed show ?thesis by (auto simp: transact_def split: sum.splits)
next
  case (Inr v)
  with assms(1) have run: "pos_command scope key h f action s = Inr (v, s')" by (auto simp: transact_def split: sum.splits)
  then obtain k w s1 where k: "pos_validKey key = Inr k" and c: "pos_claim scope k h f s = Inr (w, s1)"
    and rest: "(case w of Some u \<Rightarrow> tx_return u | None \<Rightarrow> tx_bind (action k) (\<lambda>result.
        tx_bind (pos_complete_key scope k result) (\<lambda>_. tx_return result))) s1 = Inr (v, s')"
    by (auto simp: pos_command_def tx_simps)
  show ?thesis
  proof (cases "map_of (pos_keys s) (scope, k)")
    case None
    then have w: "w = None" "s1 = claimed (scope, k) h s" using c by (auto simp: pos_claim_def claimed_def tx_simps)
    then obtain s2 where a: "action k (claimed (scope, k) h s) = Inr (v, s2)" and d: "pos_complete_key scope k v s2 = Inr ((), s')"
      using rest by (auto simp: tx_simps)
    have keys: "pos_keys s2 = pos_keys (claimed (scope, k) h s)" using tx_withinD [OF assms(2) a] by (simp add: apart_def)
    with d have "s' = s2\<lparr>pos_keys := AList.update (scope, k) (answered h v) (pos_keys s2)\<rparr>"
      by (auto simp: pos_complete_key_def tx_simps claimed_def answered_def)
    with ran k None a keys Inr show ?thesis by blast
  next
    case (Some row)
    then have "s1 = s" "w \<noteq> None" using c by (auto simp: pos_claim_def tx_simps split: option.splits if_splits)
    then have "s' = s" using rest by (auto simp: tx_simps)
    with replayed k Some Inr show ?thesis by blast
  qed
qed

text \<open>The rest of the database as another client transaction sees it.\<close>

definition leaves :: "jsstr \<Rightarrow> string \<times> jsstr \<Rightarrow> pos_db \<Rightarrow> pos_db \<Rightarrow> bool" where
  "leaves t K s s' \<longleftrightarrow> map_of (pos_keys s') K = map_of (pos_keys s) K \<and> map sale_entry (sold t s') = map sale_entry (sold t s) \<and>
     (unprepared t s \<longrightarrow> unprepared t s')"

lemma leaves_refl: "leaves t K s s" and leaves_trans: "leaves t K s s' \<Longrightarrow> leaves t K s' s'' \<Longrightarrow> leaves t K s s''"
  by (auto simp: leaves_def)

lemma command_leaves:
  assumes "transact (pos_command scope key h f action) s = (r, s')" and "\<And>k. tx_within (apart t) (action k)"
    and "\<And>k. pos_validKey key = Inr k \<Longrightarrow> (scope, k) \<noteq> K"
  shows "leaves t K s s'"
  using assms(1,2)
proof (cases rule: command_cases)
  case (ran k v s2)
  have "apart t (claimed (scope, k) h s) s2" by (rule tx_withinD [OF assms(2) ran(3)])
  moreover have "(scope, k) \<noteq> K" using assms(3) ran(1) by blast
  ultimately show ?thesis using ran(5,6) by (auto simp: leaves_def apart_def claimed_def sold_def unprepared_def)
qed (use leaves_refl in auto)

text \<open>An answer is recorded for good.\<close>

lemma command_keeps:
  assumes "transact (pos_command scope key h f action) s = (r, s')" and "\<And>k. tx_within (apart t) (action k)"
    and "map_of (pos_keys s) K = Some row"
  shows "map_of (pos_keys s') K = Some row"
  using assms(1,2)
proof (cases rule: command_cases)
  case (ran k v s2)
  then show ?thesis using assms(3) by (auto simp: claimed_def)
qed (use assms(3) in auto)

lemma command_replays:
  assumes "pos_validKey key = Inr k" and "map_of (pos_keys s) (scope, k) = Some (answered h' v)" and "f v"
  shows "transact (pos_command scope key h f action) s = (if h' = h then Inr v else Inl (Api ''IDEMPOTENCY_KEY_REUSED''), s)"
  using assms by (simp add: transact_def pos_command_def tx_bind_def tx_res_def pos_claim_def tx_reads_def answered_def tx_require_def
      tx_return_def tx_throw_def)

section \<open>Requests\<close>

text \<open>The texts of \<open>crypto.randomUUID()\<close> are 36 hexadecimal digits and hyphens.\<close>

definition uuid_format :: "jsstr \<Rightarrow> bool" where
  "uuid_format t \<longleftrightarrow> length t = 36 \<and> list_all (\<lambda>c. is_digit c \<or> 97 \<le> c \<and> c \<le> 102 \<or> c = 45) t"

lemma trim_keeps: "c \<in> set t \<Longrightarrow> \<not> is_space c \<Longrightarrow> c \<in> set (trim t)"
proof -
  have "c \<in> set (dropWhile is_space xs)" if "c \<in> set xs" "\<not> is_space c" for xs using that by (induction xs) auto
  then show "c \<in> set t \<Longrightarrow> \<not> is_space c \<Longrightarrow> c \<in> set (trim t)" by (simp add: trim_def)
qed

lemma uuid_key: "uuid_format t \<Longrightarrow> pos_validKey (Some t) = Inr t"
proof -
  assume u: "uuid_format t"
  then have "trim t = t" by (intro trim_id) (auto simp: uuid_format_def list_all_iff char_class_defs)
  with u show ?thesis by (auto simp: pos_validKey_def uuid_format_def)
qed

text \<open>The requests that concern the client transaction \<open>t\<close> or use it as their key.\<close>

definition concerns :: "jsstr \<Rightarrow> jsstr option \<Rightarrow> pos_request \<Rightarrow> bool" where
  "concerns t key q \<longleftrightarrow> (case q of
     CompleteSale b \<Rightarrow> sq_clientTransactionId b = t \<or> pos_validKey key = Inr t
   | PrepareSale p \<Rightarrow> sq_clientTransactionId (rq_sale p) = t
   | _ \<Rightarrow> False)"

lemma normal_sale: "normalizeSale b = Inr n \<Longrightarrow> sq_clientTransactionId n = sq_clientTransactionId b"
  by (auto simp: normalizeSale_def normalizeBasket_def res_bind_eq_Inr SaleRequest.defs split: if_splits)

abbreviation sale_key :: "jsstr \<Rightarrow> string \<times> jsstr" where
  "sale_key t \<equiv> (''pos.sale.complete'', t)"

lemma complete_leaves:
  assumes "completeSale env a key b hold s = (r, s')" and "sq_clientTransactionId b \<noteq> t" and "pos_validKey key \<noteq> Inr t"
  shows "leaves t (sale_key t) s s'"
proof (cases "normalizeSale b")
  case (Inl e)
  then show ?thesis using assms(1) leaves_refl by (simp add: completeSale_def)
next
  case (Inr n)
  with assms(1) have run: "transact (pos_command ''pos.sale.complete'' key (pe_digest env (SalePayload n)) is_sale
      (completeSale_body env a n hold)) s = (r, s')" by (simp add: completeSale_def)
  show ?thesis using assms(2,3) normal_sale [OF Inr] by (intro command_leaves [OF run] apart_complete) auto
qed

lemma finalize_valid: "pos_validKey (Some (finalize_key i)) = Inr k \<Longrightarrow> uuid_format t \<Longrightarrow> k \<noteq> t"
proof -
  assume k: "pos_validKey (Some (finalize_key i)) = Inr k" and u: "uuid_format t"
  have "116 \<in> set (finalize_key i)" unfolding finalize_key_def js_def by simp
  moreover have "k = trim (finalize_key i)" using k by (auto simp: pos_validKey_def Let_def split: if_splits)
  ultimately have "116 \<in> set k" using trim_keeps by (simp add: is_space_def)
  with u show ?thesis by (auto simp: uuid_format_def list_all_iff is_digit_def)
qed

lemma prepared_request: "unprepared t s \<Longrightarrow> p \<in> set (preparations s) \<Longrightarrow> sq_clientTransactionId (fp_request p) \<noteq> t"
  by (auto simp: unprepared_def list_all_iff)

lemma fiscal_completion_leaves:
  assumes "completeSale env a (Some (finalize_key i)) (fp_request p) hold s = (r, s')" and "uuid_format t" and "unprepared t s"
    and "p \<in> set (preparations s)"
  shows "leaves t (sale_key t) s s'"
  using complete_leaves [OF assms(1)] finalize_valid assms(2) prepared_request [OF assms(3,4)] by blast

lemma confirm_leaves:
  assumes "confirmFiscalSaleReceipt env a key i receipt s = (r, s')" and "uuid_format t" and "unprepared t s"
  shows "leaves t (sale_key t) s s'"
proof (cases "normalizeFiscalSaleReceipt receipt")
  case (Inl e)
  then show ?thesis using assms(1) leaves_refl by (auto simp: confirmFiscalSaleReceipt_def)
next
  case (Inr n)
  obtain r1 s1 where run: "transact (pos_command ''pos.fiscal-sale.receipt-confirm'' key
      (pe_digest env (ConfirmPayload i n)) is_preparation (confirmReceipt_body a i n)) s = (r1, s1)" by fastforce
  have one: "leaves t (sale_key t) s s1" by (rule command_leaves [OF run apart_bodies(7)]) simp
  with assms(3) have un: "unprepared t s1" by (simp add: leaves_def)
  have "leaves t (sale_key t) s1 s'"
    using assms(1) Inr run fiscal_completion_leaves [OF _ assms(2) un] leaves_refl
    by (auto simp: confirmFiscalSaleReceipt_def from_pool_def confirmed_request_def required_row_def tx_simps
        split: sum.splits pos_response.splits if_splits dest!: find_SomeD)
  with one show ?thesis using leaves_trans by blast
qed

lemma finalization_leaves:
  assumes "finalizeConfirmedFiscalSale env a i s = (r, s')" and "uuid_format t" and "unprepared t s"
  shows "leaves t (sale_key t) s s'"
  using assms(1) fiscal_completion_leaves [OF _ assms(2,3)] leaves_refl
  by (auto simp: finalizeConfirmedFiscalSale_def from_pool_def find_preparation_def required_row_def tx_row_def
      split: sum.splits option.splits if_splits dest!: find_SomeD)

lemma prepare_leaves:
  assumes "prepareFiscalSale env a key b s = (r, s')" and "sq_clientTransactionId (rq_sale b) \<noteq> t"
  shows "leaves t (sale_key t) s s'"
proof (cases "normalizeSale (rq_sale b)")
  case (Inl e)
  then show ?thesis using assms(1) leaves_refl by (auto simp: prepareFiscalSale_def)
next
  case (Inr n)
  then have n: "sq_clientTransactionId n \<noteq> t" using assms(2) normal_sale by metis
  show ?thesis using assms(1) Inr leaves_refl
    by (auto simp: prepareFiscalSale_def Let_def split: if_splits intro: command_leaves [OF _ apart_prepare [OF n]])
qed

lemma other_command_leaves:
  "(\<And>k. tx_within (apart t) (action k)) \<Longrightarrow> transact (pos_command scope key h f action) s = (r, s') \<Longrightarrow>
   scope \<noteq> ''pos.sale.complete'' \<Longrightarrow> leaves t (sale_key t) s s'"
  by (rule command_leaves) auto

lemmas bodies_leave = apart_bodies [THEN other_command_leaves]

lemma register_request_leaves:
  "openShift env a key i c s = (r, s') \<Longrightarrow> leaves t (sale_key t) s s'"
  "closeShift env a key i c v s = (r, s') \<Longrightarrow> leaves t (sale_key t) s s'"
  "reserveDatecsUnpLease env a key d o' i s = (r, s') \<Longrightarrow> leaves t (sale_key t) s s'"
  "markFiscalSalePrinting env a key i s = (r, s') \<Longrightarrow> leaves t (sale_key t) s s'"
  "markFiscalSaleOutcomeUnknown env a key i c s = (r, s') \<Longrightarrow> leaves t (sale_key t) s s'"
  "cancelFiscalSalePreparation env a key i e s = (r, s') \<Longrightarrow> leaves t (sale_key t) s s'"
  "prepareFiscalDailyReport env a key rq s = (r, s') \<Longrightarrow> leaves t (sale_key t) s s'"
  "updateFiscalDailyReportState env a key i w s = (r, s') \<Longrightarrow> leaves t (sale_key t) s s'"
  "rejectFiscalDailyReport env a key i c s = (r, s') \<Longrightarrow> leaves t (sale_key t) s s'"
  "confirmFiscalDailyReport env a key i res s = (r, s') \<Longrightarrow> leaves t (sale_key t) s s'"
  unfolding openShift_def closeShift_def reserveDatecsUnpLease_def markFiscalSalePrinting_def markFiscalSaleOutcomeUnknown_def
    cancelFiscalSalePreparation_def prepareFiscalDailyReport_def updateFiscalDailyReportState_def rejectFiscalDailyReport_def
    confirmFiscalDailyReport_def Let_def
  by (auto simp: leaves_refl split: sum.splits if_splits elim!: bodies_leave)

theorem request_leaves:
  assumes "pos_handle env a key q s = (r, s')" and "\<not> concerns t key q" and "uuid_format t" and "unprepared t s"
  shows "leaves t (sale_key t) s s'"
  using assms prepare_leaves complete_leaves confirm_leaves finalization_leaves register_request_leaves
  by (cases q) (simp_all only: pos_handle.simps concerns_def pos_request.case de_Morgan_disj, blast+)

section \<open>A new sale\<close>

lemma bind_sale_of:
  assumes "\<And>p. sale_entry (psa_sale p) \<in> set (g_sales T) \<Longrightarrow> sa_id (psa_sale p) = i \<Longrightarrow> tx_spec (reg_at T n) (f p) Q"
  shows "tx_spec (reg_at T n) (tx_bind (sale_of i) f) Q"
proof (rule bind_known [OF calm_sale(1), where A = "\<lambda>p. sale_entry (psa_sale p) \<in> set (g_sales T) \<and> sa_id (psa_sale p) = i"])
  fix s p s' assume at: "reg_at T n s" and run: "sale_of i s = Inr (p, s')"
  have "g_sales T = map sale_entry (sales s)" using at by (simp add: reg_at_def)
  with run show "sale_entry (psa_sale p) \<in> set (g_sales T) \<and> sa_id (psa_sale p) = i"
    by (auto simp: sale_of_def required_row_def tx_simps find_sale_def split: option.splits dest!: find_SomeD)
qed (use assms in blast)

text \<open>The response names the new sale.\<close>

definition answers_sale :: "register \<Rightarrow> jsstr \<Rightarrow> pos_response \<Rightarrow> pos_db \<Rightarrow> bool" where
  "answers_sale T t r s \<longleftrightarrow> (\<exists>p x. r = SaleDone p \<and> map sale_entry (sales s) = g_sales T @ [sale_entry x] \<and>
     preparations s = g_sales_pending T \<and> sa_transaction x = t \<and> sa_number (psa_sale p) = sa_number x)"

lemma answers_saleI:
  assumes "reg_at (T\<lparr>g_sales := g_sales T @ [sale_entry x]\<rparr>) n s" and "unique_rows sa_id m (g_sales T)" and "m \<le> sa_id x"
    and "sale_entry (psa_sale p) \<in> set (g_sales T @ [sale_entry x])" and "sa_id (psa_sale p) = sa_id x"
  shows "answers_sale T (sa_transaction x) (SaleDone p) s"
proof -
  have "sale_entry (psa_sale p) \<notin> set (g_sales T)"
  proof
    assume "sale_entry (psa_sale p) \<in> set (g_sales T)"
    then have "sa_id (sale_entry (psa_sale p)) < m" using assms(2) by (auto simp: unique_rows_def)
    then show False using assms(3,5) by simp
  qed
  then have "sale_entry (psa_sale p) = sale_entry x" using assms(4) by simp
  then have "sa_number (sale_entry (psa_sale p)) = sa_number (sale_entry x)" by (rule arg_cong)
  then have "sa_number (psa_sale p) = sa_number x" by simp
  with assms(1) show ?thesis by (auto simp: answers_sale_def reg_at_def)
qed

lemma record_sale_answers:
  assumes "unique_rows sa_id n (g_sales T)"
  shows "tx_spec (reg_at T n) (record_sale env a sh tm b None None sn key) (answers_sale T (sq_clientTransactionId b))"
  unfolding record_sale_def Let_def option.case tx_bind_return
  apply (intro bind_identifier bind_insert_sale bind_sale_of calm_binds bind_calm [OF calm.within_for] bind_calm [OF calm_authorization]
      bind_calm [OF calm.within_option] calm.within calm_simple spec_return)
  apply (drule answers_saleI [OF _ assms])
     apply simp_all
  done

lemma complete_answers:
  assumes "unique_rows sa_id n (g_sales T)" and "\<forall>x \<in> set (g_sales T). sa_transaction x \<noteq> sq_clientTransactionId b"
  shows "tx_spec (reg_at T n) (completeSale_body env a b None key) (answers_sale T (sq_clientTransactionId b))"
proof -
  have none: "tx_spec (reg_at T n) (tx_bind (tx_reads (\<lambda>s. find (\<lambda>x. sa_transaction x = sq_clientTransactionId b) (sales s))) f) Q"
    if "tx_spec (reg_at T n) (f None) Q" for f :: "SaleRow option \<Rightarrow> pos_response pos_tx" and Q
  proof (rule bind_known [OF calm.within_reads, where A = "\<lambda>v. v = None"])
    fix s v s' assume at: "reg_at T n s" and run: "tx_reads (\<lambda>s. find (\<lambda>x. sa_transaction x = sq_clientTransactionId b) (sales s)) s = Inr (v, s')"
    have "g_sales T = map sale_entry (sales s)" using at by (simp add: reg_at_def)
    with assms(2) run show "v = None" by (auto simp: tx_simps find_None_iff)
  qed (use that in simp)
  show ?thesis unfolding completeSale_body_def require_confirmed_def option.case tx_bind_return
    by (intro calm_binds none) (simp only: option.case, intro calm_binds record_sale_answers assms(1))
qed

text \<open>The first successful sale of a client transaction, under the key that is the transaction itself.\<close>

lemma first_sale:
  assumes "completeSale env a (Some t) b None s = (r, s')" and "reg_ok (register_of s)" and "uuid_format t"
    and "sq_clientTransactionId b = t" and "sold t s = []" and "map_of (pos_keys s) (sale_key t) = None"
  obtains (failed) e where "r = Inl e" "s' = s"
  | (booked) p x h n where "r = Inr (SaleDone p)" "normalizeSale b = Inr n" "sold t s' = [x]" "sa_number (psa_sale p) = sa_number x"
      "preparations s' = preparations s" "map_of (pos_keys s') (sale_key t) = Some (answered h (SaleDone p))"
proof (cases "normalizeSale b")
  case (Inl e)
  then show ?thesis using assms(1) failed [of e] by (auto simp: completeSale_def)
next
  case (Inr n)
  let ?h = "pe_digest env (SalePayload n)"
  have t: "sq_clientTransactionId n = t" using normal_sale [OF Inr] assms(4) by simp
  have run: "transact (pos_command ''pos.sale.complete'' (Some t) ?h is_sale (completeSale_body env a n None)) s = (r, s')"
    using assms(1) Inr by (simp add: completeSale_def)
  have other: "tx_within (apart (0 # t)) (completeSale_body env a n None k)" for k
    using t by (intro apart_complete) simp
  show ?thesis using run other
  proof (cases rule: command_cases)
    case (failed e)
    then show ?thesis using that(1) by blast
  next
    case (replayed k row v)
    then show ?thesis using assms(6) uuid_key [OF assms(3)] by simp
  next
    case (ran k v s2)
    have k: "k = t" using ran(1) uuid_key [OF assms(3)] by simp
    let ?c = "claimed (sale_key t) ?h s"
    have reg: "register_of ?c = register_of s" by (simp add: claimed_def register_of_def next_reference_def [abs_def])
    have "unique_rows sa_id (fresh_id (inv ?c)) (g_sales (register_of ?c))" using assms(2) unfolding reg by (simp add: reg_ok_def rows_ok_def claimed_def)
    moreover have "\<forall>x \<in> set (g_sales (register_of ?c)). sa_transaction x \<noteq> sq_clientTransactionId n"
      using assms(5) unfolding reg t by (simp add: sold_def filter_empty_conv)
    ultimately have "answers_sale (register_of ?c) t v s2"
      using tx_specD [OF complete_answers reg_at_self ran(3) [unfolded k]] t by metis
    then obtain p x where v: "v = SaleDone p" and x: "map sale_entry (sales s2) = map sale_entry (sales s) @ [sale_entry x]"
        "preparations s2 = preparations s" "sa_transaction x = t" "sa_number (psa_sale p) = sa_number x"
      unfolding reg answers_sale_def by auto
    have "map sale_entry (sold t s2) = [sale_entry x]"
      using x(1,3) assms(5) unfolding sold_entries by (simp add: sold_def filter_empty_conv)
    then obtain y where y: "sold t s2 = [y]" "sale_entry y = sale_entry x" by (auto simp: map_eq_Cons_conv)
    have "sa_number (sale_entry y) = sa_number (sale_entry x)" using y(2) by (rule arg_cong)
    then have "sa_number (psa_sale p) = sa_number y" using x(4) by simp
    moreover have "sold t s' = [y]" using ran(6) y(1) by (simp add: sold_def)
    moreover have "map_of (pos_keys s') (sale_key t) = Some (answered ?h (SaleDone p))" using ran(6) k v by simp
    moreover have "preparations s' = preparations s" using ran(6) x(2) by simp
    ultimately show ?thesis using that(2) Inr ran(4) v by blast
  qed
qed

text \<open>The same request later gets the same answer, or a conflict when its digest changed.\<close>

lemma repeated_sale:
  assumes "map_of (pos_keys s) (sale_key t) = Some (answered h (SaleDone p))" and "uuid_format t" and "normalizeSale b = Inr n"
  shows "completeSale env a (Some t) b None s =
    (if h = pe_digest env (SalePayload n) then Inr (SaleDone p) else Inl (Api ''IDEMPOTENCY_KEY_REUSED''), s)"
  using command_replays [OF uuid_key [OF assms(2)] assms(1), of is_sale] assms(3) by (simp add: completeSale_def)

end
