(* ===== verification/CheckoutJournal.thy ===== *)
theory CheckoutJournal
  imports PosReplay IndexedDb
begin

text \<open>
  The checkout of a register without a fiscal printer: the journal of the browser
  (\<open>apps/pos-web/src/checkout-store.ts\<close>), the durable submission and its rejection rule
  (\<open>checkout-recovery.ts\<close>), the recovery of a saved checkout (\<open>CheckoutRecovery.tsx\<close>) and the calls they
  make (\<open>api/client.ts\<close>, \<open>api/pos.ts\<close>, \<open>saleByTransaction\<close> of the POS service). Together with the
  service they sell a basket at most once and never lose track of it.
\<close>

section \<open>Journal\<close>

datatype checkout_kind = CkSaved | CkRetry | CkInterrupted | CkConfirmed | CkRejected

record SavedCheckout =
  ck_accountId :: uuid
  ck_request :: SaleRequest
  ck_savedAt :: jsstr

record CheckoutEvent =
  ce_accountId :: uuid
  ce_transactionId :: jsstr
  ce_kind :: checkout_kind
  ce_occurredAt :: jsstr
  ce_saleNumber :: "jsstr option"

text \<open>The object stores \<open>pending\<close>, by account, and \<open>history\<close>, with increasing keys.\<close>

record checkout_journal =
  pending :: "(uuid, SavedCheckout) object_store"
  history :: "CheckoutEvent list"

datatype journal_error = StorageUnavailable | CheckoutUnresolved

definition add_event :: "CheckoutEvent \<Rightarrow> checkout_journal \<Rightarrow> checkout_journal" where
  "add_event e j = j\<lparr>history := history j @ [e]\<rparr>"

definition readCheckout :: "bool \<Rightarrow> uuid \<Rightarrow> checkout_journal \<Rightarrow> (journal_error + SavedCheckout option) \<times> checkout_journal" where
  "readCheckout available account = transaction available StorageUnavailable (\<lambda>j. Inr (idb_get (pending j) account, j))"

definition saveCheckout :: "bool \<Rightarrow> SavedCheckout \<Rightarrow> checkout_journal \<Rightarrow> (journal_error + unit) \<times> checkout_journal" where
  "saveCheckout available checkout = transaction available StorageUnavailable (\<lambda>j.
     if idb_get (pending j) (ck_accountId checkout) \<noteq> None then Inl CheckoutUnresolved
     else Inr ((), add_event \<lparr>ce_accountId = ck_accountId checkout,
         ce_transactionId = sq_clientTransactionId (ck_request checkout), ce_kind = CkSaved,
         ce_occurredAt = ck_savedAt checkout, ce_saleNumber = None\<rparr>
       (j\<lparr>pending := idb_put (ck_accountId checkout) checkout (pending j)\<rparr>)))"

definition holds_transaction :: "uuid \<Rightarrow> jsstr \<Rightarrow> checkout_journal \<Rightarrow> bool" where
  "holds_transaction account transactionId j \<longleftrightarrow> (case idb_get (pending j) account of None \<Rightarrow> False
     | Some current \<Rightarrow> sq_clientTransactionId (ck_request current) = transactionId)"

definition clearCheckout :: "bool \<Rightarrow> uuid \<Rightarrow> jsstr \<Rightarrow> (checkout_kind \<times> jsstr option) option \<Rightarrow> jsstr \<Rightarrow> checkout_journal \<Rightarrow>
    (journal_error + unit) \<times> checkout_journal" where
  "clearCheckout available account transactionId outcome now = transaction available StorageUnavailable (\<lambda>j. Inr ((),
     if holds_transaction account transactionId j then
       let cleared = j\<lparr>pending := idb_delete account (pending j)\<rparr> in
       (case outcome of None \<Rightarrow> cleared
        | Some (kind, saleNumber) \<Rightarrow> add_event \<lparr>ce_accountId = account, ce_transactionId = transactionId, ce_kind = kind,
            ce_occurredAt = now, ce_saleNumber = saleNumber\<rparr> cleared)
     else j))"

definition recordCheckoutAttempt :: "bool \<Rightarrow> uuid \<Rightarrow> jsstr \<Rightarrow> checkout_kind \<Rightarrow> jsstr \<Rightarrow> checkout_journal \<Rightarrow>
    (journal_error + unit) \<times> checkout_journal" where
  "recordCheckoutAttempt available account transactionId kind now = transaction available StorageUnavailable (\<lambda>j. Inr ((),
     if holds_transaction account transactionId j
     then add_event \<lparr>ce_accountId = account, ce_transactionId = transactionId, ce_kind = kind, ce_occurredAt = now,
       ce_saleNumber = None\<rparr> j
     else j))"

text \<open>The newest fifty events of the account.\<close>

definition readCheckoutHistory :: "bool \<Rightarrow> uuid \<Rightarrow> checkout_journal \<Rightarrow> (journal_error + CheckoutEvent list) \<times> checkout_journal" where
  "readCheckoutHistory available account = transaction available StorageUnavailable (\<lambda>j.
     Inr (take 50 (rev (filter (\<lambda>e. ce_accountId e = account) (history j))), j))"

section \<open>Calls\<close>

text \<open>
  How a call ends: the client reads the answer, the answer is lost after the service handled the
  request, or the request never gets to the service.
\<close>

datatype delivery = Answered | Lost | Unsent

datatype call_error = ApiClientError nat string | NetworkFailure | JournalFailure journal_error

text \<open>
  The HTTP status of an exception, by the exception filter: the one that the service gives to each of
  its codes, and 500 for what is no HTTP exception. The codes are those of the modelled requests.
\<close>

definition http_status :: "inv_error \<Rightarrow> nat" where
  "http_status e = (case e of
     Api c \<Rightarrow>
       if c \<in> {''IDEMPOTENCY_KEY_REQUIRED'', ''POS_ACCOUNT_TENDER_NOT_ALLOWED'', ''POS_ADVANCE_LINK_NOT_ALLOWED'',
          ''POS_ADVANCE_REQUIRED'', ''POS_ADVANCE_TENDER_NOT_ALLOWED'', ''POS_BASKET_PRODUCT_DUPLICATE'', ''POS_BATCH_NOT_ALLOWED'',
          ''POS_CARD_TENDER_INVALID'', ''POS_CASH_TENDER_INSUFFICIENT'', ''POS_CUSTOMER_LOCATION_REQUIRED'',
          ''POS_CUSTOMER_PAYMENT_REQUIRES_CUSTOMER'', ''POS_DATECS_CASH_PAYMENT_REQUIRED'', ''POS_DATECS_IDENTITY_INVALID'',
          ''POS_DECIMAL_INVALID'', ''POS_DISCOUNT_PERCENTAGE_INVALID'', ''POS_FISCAL_REPORT_CLOSE_SNAPSHOT_INVALID'',
          ''POS_FISCAL_REPORT_RECORD_INVALID'', ''POS_FISCAL_REPORT_TOTAL_INVALID'', ''POS_PAYMENT_METHOD_DUPLICATE'',
          ''POS_PAYMENT_TOTAL_MISMATCH'', ''POS_QUANTITY_INVALID'', ''POS_SERIAL_INVALID'', ''POS_SERIAL_NOT_ALLOWED''} then 400
       else if c \<in> {''POS_DISCOUNT_AUTHORIZATION_REQUIRED'', ''POS_FISCAL_SIMULATOR_FORBIDDEN'',
          ''POS_PAYMENT_SIMULATOR_FORBIDDEN'', ''POS_REGISTER_NOT_ASSIGNED''} then 403
       else if c \<in> {''POS_CUSTOMER_NOT_FOUND'', ''POS_FISCAL_PREPARATION_NOT_FOUND'', ''POS_SALE_NOT_FOUND''} then 404
       else if c \<in> {''POS_FISCAL_ADAPTER_UNAVAILABLE'', ''POS_PAYMENT_ADAPTER_UNAVAILABLE''} then 503
       else 409
   | DtoRejected \<Rightarrow> 400
   | _ \<Rightarrow> 500)"

definition error_code :: "inv_error \<Rightarrow> string" where
  "error_code e = (case e of Api c \<Rightarrow> c | DtoRejected \<Rightarrow> ''REQUEST_INVALID'' | _ \<Rightarrow> ''INTERNAL_ERROR'')"

definition api_error :: "inv_error \<Rightarrow> call_error" where
  "api_error e = ApiClientError (http_status e) (error_code e)"

text \<open>\<open>unwrapApiResponse\<close>: whatever is not an answer becomes the status 0.\<close>

definition unwrapApiResponse :: "delivery \<Rightarrow> (pos_db \<Rightarrow> (inv_error + 'r) \<times> pos_db) \<Rightarrow> pos_db \<Rightarrow> (call_error + 'r) \<times> pos_db" where
  "unwrapApiResponse d request s = (case d of
     Answered \<Rightarrow> (case request s of (Inl e, s') \<Rightarrow> (Inl (api_error e), s') | (Inr r, s') \<Rightarrow> (Inr r, s'))
   | Lost \<Rightarrow> (Inl (ApiClientError 0 ''UNAVAILABLE''), snd (request s))
   | Unsent \<Rightarrow> (Inl (ApiClientError 0 ''UNAVAILABLE''), s))"

definition as_sale :: "(inv_error + pos_response) \<times> pos_db \<Rightarrow> (inv_error + PosSale) \<times> pos_db" where
  "as_sale result = (case result of (Inr (SaleDone p), s) \<Rightarrow> (Inr p, s) | (Inl e, s) \<Rightarrow> (Inl e, s)
     | (_, s) \<Rightarrow> (Inl (InternalError ''not a sale''), s))"

definition completePosSale :: "pos_env \<Rightarrow> uuid \<Rightarrow> delivery \<Rightarrow> SaleRequest \<Rightarrow> jsstr \<Rightarrow> pos_db \<Rightarrow> (call_error + PosSale) \<times> pos_db" where
  "completePosSale env account d input idempotencyKey =
     unwrapApiResponse d (\<lambda>s. as_sale (completeSale env account (Some idempotencyKey) input None s))"

definition saleByTransaction :: "pos_env \<Rightarrow> uuid \<Rightarrow> jsstr \<Rightarrow> pos_db \<Rightarrow> inv_error + PosSale" where
  "saleByTransaction env account transactionId s =
     (case find (\<lambda>x. sa_transaction x = transactionId \<and> pe_operator_account env (sa_operator x) = Some account) (sales s) of
        None \<Rightarrow> Inl (Api ''POS_SALE_NOT_FOUND'')
      | Some row \<Rightarrow> from_pool (sale_of (sa_id row)) s)"

definition findPosCheckout :: "pos_env \<Rightarrow> uuid \<Rightarrow> delivery \<Rightarrow> jsstr \<Rightarrow> pos_db \<Rightarrow> call_error + PosSale option" where
  "findPosCheckout env account d transactionId s =
     (if d \<noteq> Answered then Inl NetworkFailure
      else case saleByTransaction env account transactionId s of
        Inr sale \<Rightarrow> Inr (Some sale)
      | Inl e \<Rightarrow> if http_status e = 404 \<and> error_code e = ''POS_SALE_NOT_FOUND'' then Inr None else Inl (api_error e))"

section \<open>Checkout\<close>

definition definitelyRejected :: "call_error \<Rightarrow> bool" where
  "definitelyRejected error = (case error of
     ApiClientError st c \<Rightarrow> st \<in> {400, 422} \<or> st = 409 \<and> c \<in> {''POS_STOCK_UNAVAILABLE'', ''POS_BATCH_UNAVAILABLE'',
       ''POS_SERIAL_UNAVAILABLE'', ''POS_PRICE_UNAVAILABLE'', ''POS_PRODUCT_UNAVAILABLE'', ''POS_SHIFT_NOT_OPEN'',
       ''POS_PAYMENT_TOTAL_MISMATCH'', ''POS_LOYALTY_BALANCE_EXCEEDED'', ''POS_ADVANCE_BALANCE_EXCEEDED'',
       ''POS_ACCOUNT_CREDIT_EXCEEDED'', ''POS_CARD_PAYMENT_DECLINED''}
   | _ \<Rightarrow> False)"

text \<open>
  The flows run on the journal and the service. \<open>up\<close> and \<open>clock\<close> say for each access to the journal whether
  the storage works and what the clock says, \<open>d\<close> how each call ends. The answer is the sale or the error.
\<close>

type_synonym checkout_state = "checkout_journal \<times> pos_db"

definition settle_failure :: "(nat \<Rightarrow> bool) \<Rightarrow> (nat \<Rightarrow> jsstr) \<Rightarrow> uuid \<Rightarrow> jsstr \<Rightarrow> call_error \<Rightarrow> checkout_state \<Rightarrow>
    (call_error + PosSale) \<times> checkout_state" where
  "settle_failure up clock account transactionId error w = (case w of (j, s) \<Rightarrow>
     if definitelyRejected error
     then (case clearCheckout (up 3) account transactionId (Some (CkRejected, None)) (clock 3) j of
         (Inl e, j') \<Rightarrow> (Inl (JournalFailure e), j', s) | (Inr _, j') \<Rightarrow> (Inl error, j', s))
     else (Inl error, snd (recordCheckoutAttempt (up 3) account transactionId CkInterrupted (clock 3) j), s))"

definition confirm_checkout :: "(nat \<Rightarrow> bool) \<Rightarrow> (nat \<Rightarrow> jsstr) \<Rightarrow> uuid \<Rightarrow> jsstr \<Rightarrow> PosSale \<Rightarrow> checkout_state \<Rightarrow>
    (call_error + PosSale) \<times> checkout_state" where
  "confirm_checkout up clock account transactionId sale w = (case w of (j, s) \<Rightarrow>
     (case clearCheckout (up 2) account transactionId (Some (CkConfirmed, Some (sa_number (psa_sale sale)))) (clock 2) j of
        (Inl e, j') \<Rightarrow> settle_failure up clock account transactionId (JournalFailure e) (j', s)
      | (Inr _, j') \<Rightarrow> (Inr sale, j', s)))"

definition complete_checkout :: "pos_env \<Rightarrow> (nat \<Rightarrow> bool) \<Rightarrow> (nat \<Rightarrow> jsstr) \<Rightarrow> delivery \<Rightarrow> uuid \<Rightarrow> SaleRequest \<Rightarrow> checkout_state \<Rightarrow>
    (call_error + PosSale) \<times> checkout_state" where
  "complete_checkout env up clock d account request w = (case w of (j, s) \<Rightarrow>
     (case completePosSale env account d request (sq_clientTransactionId request) s of
        (Inl error, s') \<Rightarrow> settle_failure up clock account (sq_clientTransactionId request) error (j, s')
      | (Inr sale, s') \<Rightarrow> confirm_checkout up clock account (sq_clientTransactionId request) sale (j, s')))"

definition submitDurableCheckout :: "pos_env \<Rightarrow> (nat \<Rightarrow> bool) \<Rightarrow> (nat \<Rightarrow> jsstr) \<Rightarrow> delivery \<Rightarrow> uuid \<Rightarrow> SaleRequest \<Rightarrow> checkout_state \<Rightarrow>
    (call_error + PosSale) \<times> checkout_state" where
  "submitDurableCheckout env up clock d account request w = (case w of (j, s) \<Rightarrow>
     (case saveCheckout (up 0) \<lparr>ck_accountId = account, ck_request = request, ck_savedAt = clock 0\<rparr> j of
        (Inl e, j') \<Rightarrow> (Inl (JournalFailure e), j', s)
      | (Inr _, j') \<Rightarrow> complete_checkout env up clock d account request (j', s)))"

text \<open>\<open>retry\<close> of the recovery notice, on the saved checkout; \<open>d 0\<close> and \<open>d 1\<close> are its two calls.\<close>

definition retry :: "pos_env \<Rightarrow> (nat \<Rightarrow> bool) \<Rightarrow> (nat \<Rightarrow> jsstr) \<Rightarrow> (nat \<Rightarrow> delivery) \<Rightarrow> uuid \<Rightarrow> SaleRequest \<Rightarrow> checkout_state \<Rightarrow>
    (call_error + PosSale) \<times> checkout_state" where
  "retry env up clock d account request w = (let transactionId = sq_clientTransactionId request in case w of (j, s) \<Rightarrow>
     (case findPosCheckout env account (d 0) transactionId s of
        Inl error \<Rightarrow> settle_failure up clock account transactionId error (j, s)
      | Inr (Some existing) \<Rightarrow> confirm_checkout up clock account transactionId existing (j, s)
      | Inr None \<Rightarrow> (case recordCheckoutAttempt (up 1) account transactionId CkRetry (clock 1) j of
            (Inl e, j') \<Rightarrow> settle_failure up clock account transactionId (JournalFailure e) (j', s)
          | (Inr _, j') \<Rightarrow> complete_checkout env up clock (d 1) account request (j', s))))"

text \<open>\<open>check\<close>, which runs every ten seconds and when the connection returns; its errors only change the notice.\<close>

definition check :: "pos_env \<Rightarrow> bool \<Rightarrow> jsstr \<Rightarrow> delivery \<Rightarrow> uuid \<Rightarrow> SaleRequest \<Rightarrow> checkout_state \<Rightarrow> PosSale option \<times> checkout_state" where
  "check env up now d account request w = (let transactionId = sq_clientTransactionId request in case w of (j, s) \<Rightarrow>
     (case findPosCheckout env account d transactionId s of
        Inr (Some sale) \<Rightarrow> (case clearCheckout up account transactionId (Some (CkConfirmed, Some (sa_number (psa_sale sale)))) now j of
            (Inl e, j') \<Rightarrow> (None, j', s) | (Inr _, j') \<Rightarrow> (Some sale, j', s))
      | _ \<Rightarrow> (None, j, s)))"

end
