(* ===== verification/CheckoutGuarantees.thy ===== *)
theory CheckoutGuarantees
  imports CheckoutJournal
begin

text \<open>
  The guarantees of the checkout over all interleavings of its flows with the other requests to the
  service. \<open>checkout_run\<close> follows one client transaction of one account; calls may be lost before or
  after the service handled them, or be handled late, after the client gave up; the terminal may submit
  the transaction again at any time, with any basket; the browser's storage may fail, and everybody else
  may do anything with other transactions. Each flow runs as one step: the recovery notice is paused while
  the terminal submits (\<open>paused\<close> of \<open>CheckoutRecovery.tsx\<close>), and two tabs are not interleaved inside one.
\<close>

section \<open>One client transaction\<close>

definition events_of :: "jsstr \<Rightarrow> checkout_journal \<Rightarrow> CheckoutEvent list" where
  "events_of t j = filter (\<lambda>e. ce_transactionId e = t) (history j)"

definition pending_of :: "uuid \<Rightarrow> jsstr \<Rightarrow> checkout_journal \<Rightarrow> SavedCheckout option" where
  "pending_of a t j = (case idb_get (pending j) a of None \<Rightarrow> None
     | Some c \<Rightarrow> if sq_clientTransactionId (ck_request c) = t then Some c else None)"

definition unsold :: "jsstr \<Rightarrow> pos_db \<Rightarrow> bool" where
  "unsold t s \<longleftrightarrow> sold t s = [] \<and> map_of (pos_keys s) (sale_key t) = None"

text \<open>
  The identifier is fresh at the start. The terminal keeps the transaction with the saved basket, so it may
  submit it again after a rejection, but also after a recovered sale; the notice retries and checks what the
  journal holds. A call of a checkout that was saved may be handled \<open>late\<close>, whatever its basket was; the flag
  says that this happened.
\<close>

inductive checkout_run :: "uuid \<Rightarrow> jsstr \<Rightarrow> bool \<Rightarrow> checkout_state \<Rightarrow> bool" for a t where
  start: "pos_reachable s \<Longrightarrow> unsold t s \<Longrightarrow> unprepared t s \<Longrightarrow> events_of t j = [] \<Longrightarrow> pending_of a t j = None \<Longrightarrow>
    checkout_run a t False (j, s)"
| submit: "checkout_run a t l (j, s) \<Longrightarrow> assignments_ok env \<Longrightarrow> sq_clientTransactionId b = t \<Longrightarrow>
    submitDurableCheckout env up clock d a b (j, s) = (r, w) \<Longrightarrow> checkout_run a t l w"
| retry: "checkout_run a t l (j, s) \<Longrightarrow> assignments_ok env \<Longrightarrow> pending_of a t j = Some c \<Longrightarrow>
    retry env up clock ds a (ck_request c) (j, s) = (r, w) \<Longrightarrow> checkout_run a t l w"
| check: "checkout_run a t l (j, s) \<Longrightarrow> pending_of a t j = Some c \<Longrightarrow>
    check env ok now d a (ck_request c) (j, s) = (found, w) \<Longrightarrow> checkout_run a t l w"
| late: "checkout_run a t l (j, s) \<Longrightarrow> assignments_ok env \<Longrightarrow> events_of t j \<noteq> [] \<Longrightarrow> sq_clientTransactionId b = t \<Longrightarrow>
    completeSale env a (Some t) b None s = (r, s') \<Longrightarrow> checkout_run a t True (j, s')"
| service: "checkout_run a t l (j, s) \<Longrightarrow> assignments_ok env \<Longrightarrow> pos_handle env account key q s = (r, s') \<Longrightarrow>
    \<not> concerns t key q \<Longrightarrow> checkout_run a t l (j, s')"
| elsewhere: "checkout_run a t l (j, s) \<Longrightarrow> elsewhere s s' \<Longrightarrow>
    map_of (pos_keys s') (sale_key t) = map_of (pos_keys s) (sale_key t) \<Longrightarrow> checkout_run a t l (j, s')"
| browser: "checkout_run a t l (j, s) \<Longrightarrow> events_of t j' = events_of t j \<Longrightarrow> pending_of a t j' = pending_of a t j \<Longrightarrow>
    checkout_run a t l (j', s)"

definition checkout_world :: "uuid \<Rightarrow> jsstr \<Rightarrow> checkout_state \<Rightarrow> bool" where
  "checkout_world a t w \<longleftrightarrow> (\<exists>l. checkout_run a t l w)"

definition sold_once :: "jsstr \<Rightarrow> pos_db \<Rightarrow> bool" where
  "sold_once t s \<longleftrightarrow> (\<exists>x p h. sold t s = [x] \<and> map_of (pos_keys s) (sale_key t) = Some (answered h (SaleDone p)) \<and>
     sa_number (psa_sale p) = sa_number x)"

text \<open>What the journal says of the transaction is true of the service.\<close>

definition confirmed_true :: "jsstr \<Rightarrow> checkout_state \<Rightarrow> bool" where
  "confirmed_true t w \<longleftrightarrow> (\<forall>e \<in> set (events_of t (fst w)). ce_kind e = CkConfirmed \<longrightarrow>
     (\<exists>x. sold t (snd w) = [x] \<and> ce_saleNumber e = Some (sa_number x)))"

definition known_sold :: "jsstr \<Rightarrow> bool \<Rightarrow> checkout_journal \<Rightarrow> bool" where
  "known_sold t l j \<longleftrightarrow> l \<or> list_ex (\<lambda>e. ce_kind e = CkConfirmed) (events_of t j)"

definition journal_settled :: "jsstr \<Rightarrow> bool \<Rightarrow> checkout_state \<Rightarrow> bool" where
  "journal_settled t l w \<longleftrightarrow> (case rev (events_of t (fst w)) of [] \<Rightarrow> unsold t (snd w)
     | e # _ \<Rightarrow> ce_kind e = CkConfirmed \<or> ce_kind e = CkRejected \<and> (unsold t (snd w) \<or> known_sold t l (fst w)))"

definition checkout_ok :: "uuid \<Rightarrow> jsstr \<Rightarrow> bool \<Rightarrow> checkout_state \<Rightarrow> bool" where
  "checkout_ok a t l w \<longleftrightarrow> pos_reachable (snd w) \<and> unprepared t (snd w) \<and> (unsold t (snd w) \<or> sold_once t (snd w)) \<and> confirmed_true t w \<and>
     (case pending_of a t (fst w) of None \<Rightarrow> journal_settled t l w
      | Some c \<Rightarrow> sold_once t (snd w) \<longrightarrow> (\<exists>n. normalizeSale (ck_request c) = Inr n) \<or> known_sold t l (fst w))"

section \<open>The journal\<close>

lemma pending_transaction: "pending_of a t j = Some c \<Longrightarrow> sq_clientTransactionId (ck_request c) = t \<and> holds_transaction a t j"
  by (auto simp: pending_of_def holds_transaction_def split: option.splits if_splits)

lemma add_event_simps [simp]:
  "pending_of a t (add_event e j) = pending_of a t j"
  "events_of t (add_event e j) = events_of t j @ (if ce_transactionId e = t then [e] else [])"
  by (simp_all add: add_event_def pending_of_def events_of_def)

lemma pending_update_simps [simp]: "events_of t (j\<lparr>pending := x\<rparr>) = events_of t j"
  by (simp add: events_of_def)

lemma clear_cases:
  assumes "clearCheckout up a t (Some (k, n)) now j = (r, j')" and "pending_of a t j = Some c"
  obtains (failed) e where "r = Inl e" "j' = j"
  | (cleared) e where "r = Inr ()" "pending_of a t j' = None" "events_of t j' = events_of t j @ [e]" "ce_kind e = k" "ce_saleNumber e = n"
proof (cases up)
  case False
  with assms(1) failed show ?thesis by (auto simp: clearCheckout_def transaction_def)
next
  case True
  let ?e = "\<lparr>ce_accountId = a, ce_transactionId = t, ce_kind = k, ce_occurredAt = now, ce_saleNumber = n\<rparr>"
  have "r = Inr ()" "j' = add_event ?e (j\<lparr>pending := idb_delete a (pending j)\<rparr>)"
    using True assms pending_transaction [OF assms(2)] by (auto simp: clearCheckout_def transaction_def)
  moreover have "pending_of a t (j\<lparr>pending := idb_delete a (pending j)\<rparr>) = None" by (simp add: pending_of_def)
  ultimately show ?thesis using cleared [of ?e] by simp
qed

lemma attempt_cases:
  assumes "recordCheckoutAttempt up a t k now j = (r, j')"
  shows "pending_of a t j' = pending_of a t j \<and> (\<exists>es. events_of t j' = events_of t j @ es \<and> (\<forall>e \<in> set es. ce_kind e = k))"
  using assms by (auto simp: recordCheckoutAttempt_def transaction_def split: if_splits)

lemma save_cases:
  assumes "saveCheckout up \<lparr>ck_accountId = a, ck_request = b, ck_savedAt = now\<rparr> j = (r, j')" and "sq_clientTransactionId b = t"
  obtains (failed) e where "r = Inl e" "j' = j"
  | (saved) e where "r = Inr ()" "pending_of a t j = None" "pending_of a t j' = Some \<lparr>ck_accountId = a, ck_request = b, ck_savedAt = now\<rparr>"
      "events_of t j' = events_of t j @ [e]" "ce_kind e = CkSaved"
proof (cases "up \<and> idb_get (pending j) a = None")
  case False
  with assms(1) failed show ?thesis by (auto simp: saveCheckout_def transaction_def split: if_splits)
next
  case True
  let ?c = "\<lparr>ck_accountId = a, ck_request = b, ck_savedAt = now\<rparr>"
  let ?e = "\<lparr>ce_accountId = a, ce_transactionId = t, ce_kind = CkSaved, ce_occurredAt = now, ce_saleNumber = None\<rparr>"
  have "r = Inr ()" "j' = add_event ?e (j\<lparr>pending := idb_put a ?c (pending j)\<rparr>)"
    using True assms by (auto simp: saveCheckout_def transaction_def)
  moreover have "pending_of a t (j\<lparr>pending := idb_put a ?c (pending j)\<rparr>) = Some ?c" "pending_of a t j = None"
    using True assms(2) by (simp_all add: pending_of_def)
  ultimately show ?thesis using saved [of ?e] by simp
qed

section \<open>Steps\<close>

lemma ok_pending: "pending_of a t j = Some c \<Longrightarrow> checkout_ok a t l (j, s) \<longleftrightarrow> pos_reachable s \<and> unprepared t s \<and>
   (unsold t s \<or> sold_once t s) \<and> confirmed_true t (j, s) \<and>
   (sold_once t s \<longrightarrow> (\<exists>n. normalizeSale (ck_request c) = Inr n) \<or> known_sold t l j)"
  by (simp add: checkout_ok_def)

lemma unbooked: "unsold t s \<Longrightarrow> \<not> sold_once t s"
  by (auto simp: unsold_def sold_once_def)

lemma attempt_ok:
  assumes "recordCheckoutAttempt up a t k now j = (r, j')" and "k \<noteq> CkConfirmed" and "pending_of a t j = Some c" and "checkout_ok a t l (j, s)"
  shows "checkout_ok a t l (j', s) \<and> pending_of a t j' = Some c"
proof -
  from attempt_cases [OF assms(1)] obtain es where es: "pending_of a t j' = Some c" "events_of t j' = events_of t j @ es"
      "\<forall>e \<in> set es. ce_kind e = k" using assms(3) by auto
  have "confirmed_true t (j, s)" using assms(3,4) by (simp add: ok_pending)
  then have "confirmed_true t (j', s)" using es(2,3) assms(2) by (auto simp: confirmed_true_def)
  moreover have "known_sold t l j \<Longrightarrow> known_sold t l j'" using es(2) by (auto simp: known_sold_def)
  ultimately show ?thesis using assms(3,4) es(1) by (auto simp: ok_pending)
qed

lemma failure_ok:
  assumes "settle_failure up clock a t err (j, s) = (r, w)" and "pending_of a t j = Some c" and "checkout_ok a t l (j, s)"
    and "definitelyRejected err \<Longrightarrow> unsold t s \<or> known_sold t l j"
  shows "checkout_ok a t l w"
proof (cases "definitelyRejected err")
  case True
  obtain r' j' where clear: "clearCheckout (up 3) a t (Some (CkRejected, None)) (clock 3) j = (r', j')" by fastforce
  then have w: "w = (j', s)" using assms(1) True by (auto simp: settle_failure_def split: sum.splits)
  from clear assms(2) show ?thesis
  proof (cases rule: clear_cases)
    case (failed e)
    then show ?thesis using assms(3) w by simp
  next
    case (cleared e)
    have "confirmed_true t (j, s)" using assms(2,3) by (simp add: ok_pending)
    then have "confirmed_true t w" using cleared w by (auto simp: confirmed_true_def)
    moreover have "journal_settled t l w" using cleared w assms(4) [OF True] by (auto simp: journal_settled_def known_sold_def)
    ultimately show ?thesis using assms(2,3) cleared(2) w by (simp add: ok_pending) (simp add: checkout_ok_def)
  qed
next
  case False
  obtain r' j' where note': "recordCheckoutAttempt (up 3) a t CkInterrupted (clock 3) j = (r', j')" by fastforce
  then have "w = (j', s)" using assms(1) False by (auto simp: settle_failure_def)
  then show ?thesis using attempt_ok [OF note' _ assms(2,3)] by simp
qed

lemma confirm_ok:
  assumes "confirm_checkout up clock a t p (j, s) = (r, w)" and "pending_of a t j = Some c" and "checkout_ok a t l (j, s)"
    and "sold t s = [x]" and "sa_number (psa_sale p) = sa_number x"
  shows "checkout_ok a t l w"
proof -
  obtain r' j' where clear: "clearCheckout (up 2) a t (Some (CkConfirmed, Some (sa_number (psa_sale p)))) (clock 2) j = (r', j')" by fastforce
  from clear assms(2) show ?thesis
  proof (cases rule: clear_cases)
    case (failed e)
    then have "settle_failure up clock a t (JournalFailure e) (j, s) = (r, w)" using assms(1) clear by (simp add: confirm_checkout_def)
    then show ?thesis by (rule failure_ok [OF _ assms(2,3)]) (simp add: definitelyRejected_def)
  next
    case (cleared e)
    then have w: "w = (j', s)" using assms(1) clear by (simp add: confirm_checkout_def)
    have "confirmed_true t (j, s)" using assms(2,3) by (simp add: ok_pending)
    then have "confirmed_true t w" using cleared w assms(4,5) by (auto simp: confirmed_true_def)
    moreover have "journal_settled t l w" using cleared w by (simp add: journal_settled_def)
    ultimately show ?thesis using assms(2,3) cleared(2) w by (simp add: ok_pending) (simp add: checkout_ok_def)
  qed
qed

text \<open>A call of the service, answered or not.\<close>

lemma completion_reachable:
  assumes "pos_reachable s" and "assignments_ok env" and "completeSale env a (Some t) b None s = (r, s')"
  shows "pos_reachable s'"
  using pos_reachable.request [OF assms(1,2), of a "Some t" "CompleteSale b"] assms(3) by simp

lemma completion_cases:
  assumes "completeSale env a (Some t) b None s = (r, s')" and "pos_reachable s" and "assignments_ok env" and "uuid_format t"
    and "sq_clientTransactionId b = t" and "unprepared t s" and "unsold t s \<or> sold_once t s"
  obtains (refused) e where "r = Inl e" "s' = s" "unsold t s \<or> e = Api ''IDEMPOTENCY_KEY_REUSED'' \<or> normalizeSale b = Inl e"
  | (booked) p x where "r = Inr (SaleDone p)" "pos_reachable s'" "unprepared t s'" "sold_once t s'" "sold t s' = [x]"
      "sa_number (psa_sale p) = sa_number x" "\<exists>n. normalizeSale b = Inr n" "sold t s \<noteq> [] \<Longrightarrow> s' = s"
proof -
  note reach = completion_reachable [OF assms(2,3,1)]
  show ?thesis using assms(7)
  proof
    assume "unsold t s"
    then have un: "sold t s = []" "map_of (pos_keys s) (sale_key t) = None" by (simp_all add: unsold_def)
    from assms(1) pos_reachable_ok [OF assms(2)] assms(4,5) un show ?thesis
    proof (cases rule: first_sale)
      case (failed e)
      then show ?thesis using refused [of e] \<open>unsold t s\<close> by blast
    next
      case (booked p x h n)
      then show ?thesis using that(2) [of p x] reach assms(6) un(1) by (auto simp: sold_once_def unprepared_def)
    qed
  next
    assume old: "sold_once t s"
    then obtain x p h where x: "sold t s = [x]" "map_of (pos_keys s) (sale_key t) = Some (answered h (SaleDone p))"
        "sa_number (psa_sale p) = sa_number x" by (auto simp: sold_once_def)
    show ?thesis
    proof (cases "normalizeSale b")
      case (Inl e)
      then show ?thesis using refused [of e] assms(1) by (simp add: completeSale_def)
    next
      case n: (Inr n)
      have "(r, s') = (if h = pe_digest env (SalePayload n) then Inr (SaleDone p) else Inl (Api ''IDEMPOTENCY_KEY_REUSED''), s)"
        using assms(1) repeated_sale [OF x(2) assms(4) n, of env a] by simp
      then show ?thesis using refused [of "Api ''IDEMPOTENCY_KEY_REUSED''"] that(2) [of p x] x n old assms(2,6) by (auto split: if_splits)
    qed
  qed
qed

lemma not_rejected [simp]:
  "\<not> definitelyRejected (ApiClientError 0 c)" "\<not> definitelyRejected NetworkFailure" "\<not> definitelyRejected (JournalFailure e)"
  "\<not> definitelyRejected (api_error (Api ''IDEMPOTENCY_KEY_REUSED''))"
  by (simp_all add: definitelyRejected_def api_error_def http_status_def error_code_def)

text \<open>The completion of a saved checkout: a refusal changes nothing, an answer names the sale.\<close>

definition completion_answer :: "jsstr \<Rightarrow> bool \<Rightarrow> pos_db \<Rightarrow> inv_error + pos_response \<Rightarrow> pos_db \<Rightarrow> bool" where
  "completion_answer t known s r s' \<longleftrightarrow> (case r of
     Inl e \<Rightarrow> s' = s \<and> (definitelyRejected (api_error e) \<longrightarrow> unsold t s \<or> known)
   | Inr v \<Rightarrow> (\<exists>p x. v = SaleDone p \<and> sold t s' = [x] \<and> sa_number (psa_sale p) = sa_number x))"

lemma completion_ok:
  assumes "completeSale env a (Some t) (ck_request c) None s = (r, s')" and "pending_of a t j = Some c" and "checkout_ok a t l (j, s)"
    and "assignments_ok env" and "uuid_format t"
  shows "checkout_ok a t l (j, s') \<and> completion_answer t (known_sold t l j) s r s'"
  using assms(1)
proof (rule completion_cases)
  note ok = assms(3) [unfolded ok_pending [OF assms(2)]]
  show "pos_reachable s" "unprepared t s" "unsold t s \<or> sold_once t s" using ok by auto
  show "sq_clientTransactionId (ck_request c) = t" using pending_transaction [OF assms(2)] by simp
  show "?thesis" if "r = Inl e" "s' = s" "unsold t s \<or> e = Api ''IDEMPOTENCY_KEY_REUSED'' \<or> normalizeSale (ck_request c) = Inl e" for e
    using that assms(3) ok by (auto simp: completion_answer_def)
  show "?thesis" if b: "r = Inr (SaleDone p)" "pos_reachable s'" "unprepared t s'" "sold_once t s'" "sold t s' = [x]"
    "sa_number (psa_sale p) = sa_number x" "\<exists>n. normalizeSale (ck_request c) = Inr n" "sold t s \<noteq> [] \<Longrightarrow> s' = s" for p x
  proof -
    have "confirmed_true t (j, s')" using ok b(8) by (cases "sold t s = []") (auto simp: confirmed_true_def)
    then show ?thesis using b by (simp add: ok_pending [OF assms(2)] completion_answer_def)
  qed
qed (use assms(4,5) in simp_all)

lemma complete_ok:
  assumes "complete_checkout env up clock d a (ck_request c) (j, s) = (r, w)" and "pending_of a t j = Some c" and "checkout_ok a t l (j, s)"
    and "assignments_ok env" and "uuid_format t"
  shows "checkout_ok a t l w"
proof -
  obtain r1 s1 where run: "completeSale env a (Some t) (ck_request c) None s = (r1, s1)" by fastforce
  note later = completion_ok [OF run assms(2-5)]
  note defs = complete_checkout_def completePosSale_def unwrapApiResponse_def as_sale_def
  have t: "sq_clientTransactionId (ck_request c) = t" using pending_transaction [OF assms(2)] by simp
  show ?thesis
  proof (cases d)
    case Answered
    show ?thesis
    proof (cases r1)
      case (Inl e)
      then have fail: "settle_failure up clock a t (api_error e) (j, s) = (r, w)" using assms(1) run later Answered t
        by (simp add: defs completion_answer_def)
      show ?thesis by (rule failure_ok [OF fail assms(2,3)]) (use later Inl in \<open>simp add: completion_answer_def\<close>)
    next
      case (Inr v)
      then obtain p x where p: "v = SaleDone p" "sold t s1 = [x]" "sa_number (psa_sale p) = sa_number x"
        using later by (auto simp: completion_answer_def)
      then have conf: "confirm_checkout up clock a t p (j, s1) = (r, w)" using assms(1) run Inr Answered t by (simp add: defs)
      show ?thesis by (rule confirm_ok [OF conf assms(2) _ p(2,3)]) (use later in simp)
    qed
  next
    case Lost
    have "snd (as_sale (r1, s1)) = s1" by (simp add: as_sale_def split: sum.split pos_response.split)
    then have fail: "settle_failure up clock a t (ApiClientError 0 ''UNAVAILABLE'') (j, s1) = (r, w)" using assms(1) run Lost t
      by (simp add: complete_checkout_def completePosSale_def unwrapApiResponse_def)
    show ?thesis by (rule failure_ok [OF fail assms(2)]) (use later in simp_all)
  next
    case Unsent
    then have fail: "settle_failure up clock a t (ApiClientError 0 ''UNAVAILABLE'') (j, s) = (r, w)" using assms(1) run t
      by (simp add: defs)
    show ?thesis by (rule failure_ok [OF fail assms(2,3)]) simp
  qed
qed

text \<open>What the service finds for the transaction.\<close>

lemma found_sale:
  assumes "findPosCheckout env a d t s = Inr (Some p)" and "pos_reachable s" and "unsold t s \<or> sold_once t s"
  obtains x where "sold t s = [x]" "sa_number (psa_sale p) = sa_number x"
proof -
  from assms(1) obtain x where x: "find (\<lambda>x. sa_transaction x = t \<and> pe_operator_account env (sa_operator x) = Some a) (sales s) = Some x"
      and p: "from_pool (sale_of (sa_id x)) s = Inr p"
    by (auto simp: findPosCheckout_def saleByTransaction_def split: if_splits option.splits sum.splits)
  have xs: "x \<in> set (sold t s)" using find_SomeD [OF x] by (simp add: sold_def)
  then have one: "sold t s = [x]" using assms(3) by (auto simp: unsold_def sold_once_def)
  from p obtain y where y: "find (\<lambda>y. sa_id y = sa_id x) (sales s) = Some y" "psa_sale p = y"
    by (auto simp: from_pool_def sale_of_def required_row_def tx_row_def find_sale_def split: option.splits sum.splits)
  have "distinct (map sa_id (map sale_entry (sales s)))"
    using pos_reachable_ok [OF assms(2)] by (simp add: reg_ok_def rows_ok_def unique_rows_def)
  then have "distinct (map sa_id (sales s))" by (simp add: comp_def)
  then have "y = x" using find_SomeD [OF y(1)] xs by (auto simp: sold_def distinct_map dest: inj_onD)
  then show ?thesis using that one y(2) by simp
qed

lemma find_error: "findPosCheckout env a d t s = Inl e \<Longrightarrow> \<not> definitelyRejected e"
  by (auto simp: findPosCheckout_def saleByTransaction_def from_pool_def sale_of_def required_row_def tx_row_def definitelyRejected_def
      api_error_def http_status_def error_code_def split: if_splits option.splits sum.splits)

lemma retry_ok:
  assumes "retry env up clock ds a (ck_request c) (j, s) = (r, w)" and "pending_of a t j = Some c" and "checkout_ok a t l (j, s)"
    and "assignments_ok env" and "uuid_format t"
  shows "checkout_ok a t l w"
proof -
  have t: "sq_clientTransactionId (ck_request c) = t" using pending_transaction [OF assms(2)] by simp
  note ok = assms(3) [unfolded ok_pending [OF assms(2)]]
  consider (err) e where "findPosCheckout env a (ds 0) t s = Inl e" | (found) p where "findPosCheckout env a (ds 0) t s = Inr (Some p)"
    | (none) "findPosCheckout env a (ds 0) t s = Inr None" by (metis not_Some_eq sum.exhaust)
  then show ?thesis
  proof cases
    case (err e)
    then have fail: "settle_failure up clock a t e (j, s) = (r, w)" using assms(1) t by (simp add: retry_def)
    show ?thesis by (rule failure_ok [OF fail assms(2,3)]) (use find_error [OF err] in simp)
  next
    case (found p)
    then have conf: "confirm_checkout up clock a t p (j, s) = (r, w)" using assms(1) t by (simp add: retry_def)
    from found_sale [OF found] ok obtain x where "sold t s = [x]" "sa_number (psa_sale p) = sa_number x" by blast
    then show ?thesis by (rule confirm_ok [OF conf assms(2,3)])
  next
    case none
    obtain r' j' where att: "recordCheckoutAttempt (up 1) a t CkRetry (clock 1) j = (r', j')" by fastforce
    note ok' = attempt_ok [OF att _ assms(2,3)]
    show ?thesis
    proof (cases r')
      case (Inl e)
      then have fail: "settle_failure up clock a t (JournalFailure e) (j', s) = (r, w)" using assms(1) t none att by (simp add: retry_def)
      show ?thesis by (rule failure_ok [OF fail]) (use ok' in simp_all)
    next
      case (Inr u)
      then have comp: "complete_checkout env up clock (ds 1) a (ck_request c) (j', s) = (r, w)" using assms(1) t none att by (simp add: retry_def)
      show ?thesis by (rule complete_ok [OF comp _ _ assms(4,5)]) (use ok' in simp_all)
    qed
  qed
qed

lemma submit_ok:
  assumes "submitDurableCheckout env up clock d a b (j, s) = (r, w)" and "checkout_ok a t l (j, s)" and "assignments_ok env"
    and "uuid_format t" and "sq_clientTransactionId b = t"
  shows "checkout_ok a t l w"
proof -
  obtain r' j' where save: "saveCheckout (up 0) \<lparr>ck_accountId = a, ck_request = b, ck_savedAt = clock 0\<rparr> j = (r', j')" by fastforce
  from save assms(5) show ?thesis
  proof (cases rule: save_cases)
    case (failed e)
    then have "w = (j, s)" using assms(1) save by (simp add: submitDurableCheckout_def)
    then show ?thesis using assms(2) by simp
  next
    case (saved e)
    let ?c = "\<lparr>ck_accountId = a, ck_request = b, ck_savedAt = clock 0\<rparr>"
    have ok: "pos_reachable s" "unprepared t s" "unsold t s \<or> sold_once t s" "confirmed_true t (j, s)" "journal_settled t l (j, s)"
      using assms(2) saved(2) by (simp_all add: checkout_ok_def)
    have "unsold t s \<or> known_sold t l j"
    proof (cases "rev (events_of t j)")
      case (Cons e' es)
      then have "e' \<in> set (events_of t j)" by (metis list.set_intros(1) set_rev)
      then show ?thesis using ok(5) Cons by (auto simp: journal_settled_def known_sold_def list_ex_iff)
    qed (use ok(5) in \<open>simp add: journal_settled_def\<close>)
    then have "unsold t s \<or> known_sold t l j'" using saved(4) by (auto simp: known_sold_def)
    moreover have "confirmed_true t (j', s)" using ok(4) saved(4,5) by (auto simp: confirmed_true_def)
    ultimately have "checkout_ok a t l (j', s)" using ok unbooked by (auto simp: ok_pending [OF saved(3)])
    moreover have "complete_checkout env up clock d a (ck_request ?c) (j', s) = (r, w)"
      using assms(1) save saved(1) by (simp add: submitDurableCheckout_def)
    ultimately show ?thesis using complete_ok [OF _ saved(3) _ assms(3,4)] by blast
  qed
qed

lemma check_ok:
  assumes "check env ok now d a (ck_request c) (j, s) = (found, w)" and "pending_of a t j = Some c" and "checkout_ok a t l (j, s)"
  shows "checkout_ok a t l w"
proof -
  have t: "sq_clientTransactionId (ck_request c) = t" using pending_transaction [OF assms(2)] by simp
  note inv = assms(3) [unfolded ok_pending [OF assms(2)]]
  show ?thesis
  proof (cases "\<exists>p. findPosCheckout env a d t s = Inr (Some p)")
    case False
    then have "w = (j, s)" using assms(1) t by (auto simp: check_def split: sum.splits option.splits)
    then show ?thesis using assms(3) by simp
  next
    case True
    then obtain p where p: "findPosCheckout env a d t s = Inr (Some p)" by blast
    from found_sale [OF p] inv obtain x where x: "sold t s = [x]" "sa_number (psa_sale p) = sa_number x" by blast
    obtain r' j' where clear: "clearCheckout ok a t (Some (CkConfirmed, Some (sa_number (psa_sale p)))) now j = (r', j')" by fastforce
    then have w: "w = (j', s)" using assms(1) t p by (auto simp: check_def split: sum.splits)
    from clear assms(2) show ?thesis
    proof (cases rule: clear_cases)
      case (failed e)
      then show ?thesis using assms(3) w by simp
    next
      case (cleared e)
      have "confirmed_true t w" using inv cleared w x by (auto simp: confirmed_true_def)
      moreover have "journal_settled t l w" using cleared w by (simp add: journal_settled_def)
      ultimately show ?thesis using inv cleared(2) w by (simp add: checkout_ok_def)
    qed
  qed
qed

text \<open>What others do.\<close>

lemma leaves_ok:
  assumes "leaves t (sale_key t) s s'" and "checkout_ok a t l (j, s)" and "pos_reachable s'"
  shows "checkout_ok a t l (j, s')"
proof -
  have m: "map sale_entry (sold t s') = map sale_entry (sold t s)" and k: "map_of (pos_keys s') (sale_key t) = map_of (pos_keys s) (sale_key t)"
    and u: "unprepared t s \<longrightarrow> unprepared t s'" using assms(1) by (simp_all add: leaves_def)
  have one: "\<exists>y. sold t s' = [y] \<and> sa_number y = sa_number x" if "sold t s = [x]" for x
  proof -
    from m that obtain y where y: "sold t s' = [y]" "sale_entry y = sale_entry x" by (auto simp: map_eq_Cons_conv)
    have "sa_number (sale_entry y) = sa_number (sale_entry x)" using y(2) by (rule arg_cong)
    with y(1) show ?thesis by simp
  qed
  have un: "unsold t s' = unsold t s" using m k by (auto simp: unsold_def)
  have b: "sold_once t s' = sold_once t s"
  proof
    show "sold_once t s \<Longrightarrow> sold_once t s'" using one k by (fastforce simp: sold_once_def)
    assume "sold_once t s'"
    then show "sold_once t s" using assms(2) un unbooked by (auto simp: checkout_ok_def)
  qed
  have "confirmed_true t (j, s')" using assms(2) one by (fastforce simp: checkout_ok_def confirmed_true_def)
  moreover have "journal_settled t l (j, s') = journal_settled t l (j, s)" by (simp add: journal_settled_def un split: list.split)
  ultimately show ?thesis using assms(2,3) u un b by (simp add: checkout_ok_def split: option.splits)
qed

lemma elsewhere_leaves: "elsewhere s s' \<Longrightarrow> map_of (pos_keys s') K = map_of (pos_keys s) K \<Longrightarrow> leaves t K s s'"
  by (auto simp: elsewhere_def leaves_def sold_def unprepared_def)

text \<open>A call that is handled after its client gave up.\<close>

lemma late_ok:
  assumes "completeSale env a (Some t) b None s = (r, s')" and "checkout_ok a t l (j, s)" and "assignments_ok env" and "uuid_format t"
    and "sq_clientTransactionId b = t" and "events_of t j \<noteq> []"
  shows "checkout_ok a t True (j, s')"
proof -
  have ok: "pos_reachable s" "unprepared t s" "unsold t s \<or> sold_once t s" "confirmed_true t (j, s)" using assms(2) by (simp_all add: checkout_ok_def)
  obtain e es where ev: "rev (events_of t j) = e # es" using assms(6) by (cases "rev (events_of t j)") auto
  have last: "ce_kind e = CkConfirmed \<or> ce_kind e = CkRejected" if "pending_of a t j = None"
    using assms(2) that ev by (auto simp: checkout_ok_def journal_settled_def)
  have known: "known_sold t True j" by (simp add: known_sold_def)
  have "checkout_ok a t True (j, s'')" if "pos_reachable s''" "unprepared t s''" "unsold t s'' \<or> sold_once t s''" "confirmed_true t (j, s'')" for s''
    using that last ev known by (auto simp: checkout_ok_def journal_settled_def split: option.split)
  note settled = this
  from assms(1) ok(1) assms(3-5) ok(2,3) show ?thesis
  proof (cases rule: completion_cases)
    case (refused e')
    then show ?thesis using settled ok by simp
  next
    case (booked p x)
    then have "confirmed_true t (j, s')" using ok(4) by (cases "sold t s = []") (auto simp: confirmed_true_def)
    then show ?thesis using settled booked by simp
  qed
qed

lemma checkout_run_ok: "checkout_run a t l w \<Longrightarrow> uuid_format t \<Longrightarrow> checkout_ok a t l w"
proof (induction rule: checkout_run.induct)
  case (start s j)
  then show ?case by (simp add: checkout_ok_def confirmed_true_def journal_settled_def)
next
  case (submit l j s env b up clock d r w)
  then show ?case using submit_ok by blast
next
  case (retry l j s env c up clock ds r w)
  then show ?case using retry_ok by blast
next
  case (check l j s c env ok now d found w)
  then show ?case using check_ok by blast
next
  case (late l j s env b r s')
  then show ?case using late_ok by blast
next
  case (service l j s env account key q r s')
  have ok: "checkout_ok a t l (j, s)" using service by blast
  then have s: "pos_reachable s" "unprepared t s" by (simp_all add: checkout_ok_def)
  have "leaves t (sale_key t) s s'" by (rule request_leaves [OF service(3,4,6) s(2)])
  then show ?case by (rule leaves_ok [OF _ ok pos_reachable.request [OF s(1) service(2,3)]])
next
  case (elsewhere l j s s')
  have ok: "checkout_ok a t l (j, s)" using elsewhere by blast
  then have "pos_reachable s" by (simp add: checkout_ok_def)
  then show ?case by (rule leaves_ok [OF elsewhere_leaves [OF elsewhere(2,3)] ok pos_reachable.elsewhere [OF _ elsewhere(2)]])
next
  case (browser l j s j')
  then have "journal_settled t l (j', s) = journal_settled t l (j, s)" "known_sold t l j' = known_sold t l j"
    by (simp_all only: journal_settled_def known_sold_def fst_conv snd_conv)
  then show ?case using browser by (cases "pending_of a t j") (simp_all add: checkout_ok_def confirmed_true_def)
qed

section \<open>A shop\<close>

text \<open>The register of the till with the fiscal simulator. The answer to the checkout is lost.\<close>

definition shop_env :: pos_env where
  "shop_env = till_env\<lparr>pe_assignment := (\<lambda>a r. if a = 4 \<and> r = 2 then Some (till_terminal\<lparr>as_fiscal_mode := FiscalSimulator\<rparr>) else None),
     pe_production := False\<rparr>"

definition shop_transaction :: jsstr where
  "shop_transaction = js ''8f14e45f-ceea-467f-a0e6-2f8b1c4d9e01''"

definition shop_request :: SaleRequest where
  "shop_request = till_sale\<lparr>sq_clientTransactionId := shop_transaction\<rparr>"

definition shop_open :: pos_db where
  "shop_open = snd (pos_handle shop_env 4 (Some (demo_key 0)) (OpenShift 2 (js ''100'')) till_db)"

definition shop_lost :: checkout_state where
  "shop_lost = snd (submitDurableCheckout shop_env (\<lambda>_. True) (\<lambda>_. []) Lost 4 shop_request (\<lparr>pending = [], history = []\<rparr>, shop_open))"

definition shop_view :: "checkout_state \<Rightarrow> checkout_kind list \<times> jsstr option \<times> (uuid \<times> int) list" where
  "shop_view w = (case w of (j, s) \<Rightarrow> (map ce_kind (history j),
     map_option (sq_clientTransactionId \<circ> ck_request) (pending_of 4 shop_transaction j),
     map (\<lambda>x. (sa_operator x, sa_gross x)) (sold shop_transaction s)))"

lemma shop_lost_eval: "shop_view shop_lost = ([CkSaved, CkInterrupted], Some shop_transaction, [(3, 30000)])"
  by code_simp

definition untouched :: "pos_db \<Rightarrow> bool" where
  "untouched s \<longleftrightarrow> sold shop_transaction s = [] \<and> map_of (pos_keys s) (sale_key shop_transaction) = None \<and> unprepared shop_transaction s"

lemma shop_open_eval: "untouched shop_open" "uuid_format shop_transaction"
  by code_simp+

lemma shop_run: "checkout_run 4 shop_transaction False shop_lost"
proof -
  have env: "assignments_ok shop_env" by (simp add: assignments_ok_def shop_env_def till_terminal_def)
  have "pos_reachable till_db" using till_reachable [of 0] by (simp add: till_def)
  then have "pos_reachable shop_open" unfolding shop_open_def by (rule pos_reachable.request [OF _ env]) (rule prod.collapse [symmetric])
  then have "checkout_run 4 shop_transaction False (\<lparr>pending = [], history = []\<rparr>, shop_open)"
    using shop_open_eval by (intro checkout_run.start) (simp_all add: untouched_def unsold_def events_of_def pending_of_def)
  then show ?thesis unfolding shop_lost_def
    by (rule checkout_run.submit [OF _ env _ prod.collapse [symmetric]]) (simp add: shop_request_def)
qed

lemma shop_world: "checkout_world 4 shop_transaction shop_lost"
  using shop_run by (auto simp: checkout_world_def)

section \<open>Guarantees\<close>



text \<open>
  C15: A checkout whose sale was made is recovered. While it is saved, one answered check with a
  working storage returns the sale, ends the saved checkout with its number, and changes nothing on
  the service; so does a retry.
\<close>

theorem sold_checkout_is_recovered:
  assumes "checkout_world a t (j, s)" and "uuid_format t" and "pending_of a t j = Some c" and "sold t s = [x]"
    and "pe_operator_account env (sa_operator x) = Some a"
  shows "(\<exists>p j'. check env True now Answered a (ck_request c) (j, s) = (Some p, (j', s)) \<and> sa_number (psa_sale p) = sa_number x \<and>
       pending_of a t j' = None \<and> ce_saleNumber (last (events_of t j')) = Some (sa_number x)) \<and>
    (\<exists>p j'. retry env (\<lambda>_. True) clock (\<lambda>_. Answered) a (ck_request c) (j, s) = (Inr p, (j', s)) \<and> sa_number (psa_sale p) = sa_number x \<and>
       pending_of a t j' = None \<and> ce_saleNumber (last (events_of t j')) = Some (sa_number x))"
proof -
  obtain l where "checkout_run a t l (j, s)" using assms(1) by (auto simp: checkout_world_def)
  then have ok: "checkout_ok a t l (j, s)" by (rule checkout_run_ok [OF _ assms(2)])
  then have reach: "pos_reachable s" "unsold t s \<or> sold_once t s" by (simp_all add: checkout_ok_def)
  have t: "sq_clientTransactionId (ck_request c) = t" "holds_transaction a t j" using pending_transaction [OF assms(3)] by simp_all
  have "\<exists>p. findPosCheckout env a Answered t s = Inr (Some p)"
  proof -
    have xs: "x \<in> set (sales s)" "sa_transaction x = t" using assms(4) by (auto simp: sold_def filter_eq_Cons_iff)
    then have "find (\<lambda>x. sa_transaction x = t \<and> pe_operator_account env (sa_operator x) = Some a) (sales s) \<noteq> None"
      using assms(5) by (auto simp: find_None_iff)
    then obtain y where y: "find (\<lambda>x. sa_transaction x = t \<and> pe_operator_account env (sa_operator x) = Some a) (sales s) = Some y"
      by blast
    have "find (\<lambda>z. sa_id z = sa_id y) (sales s) \<noteq> None" using find_SomeD [OF y] by (auto simp: find_None_iff)
    then obtain p where "find_sale s (sa_id y) = Some p" by (auto simp: find_sale_def)
    then have "from_pool (sale_of (sa_id y)) s = Inr p" by (simp add: from_pool_def sale_of_def required_row_def tx_row_def)
    then show ?thesis using y by (simp add: findPosCheckout_def saleByTransaction_def)
  qed
  then obtain p where p: "findPosCheckout env a Answered t s = Inr (Some p)" by blast
  obtain z where "sold t s = [z]" "sa_number (psa_sale p) = sa_number z" by (rule found_sale [OF p reach])
  then have n: "sa_number (psa_sale p) = sa_number x" using assms(4) by simp
  have clear: "\<exists>j'. clearCheckout True a t (Some (CkConfirmed, Some (sa_number x))) z j = (Inr (), j') \<and> pending_of a t j' = None \<and>
      ce_saleNumber (last (events_of t j')) = Some (sa_number x)" for z
  proof -
    obtain r' j' where run: "clearCheckout True a t (Some (CkConfirmed, Some (sa_number x))) z j = (r', j')" by fastforce
    then have "r' = Inr ()" by (auto simp: clearCheckout_def transaction_def)
    then show ?thesis using run clear_cases [OF run assms(3)] by (metis Inl_Inr_False last_snoc)
  qed
  obtain j1 where j1: "clearCheckout True a t (Some (CkConfirmed, Some (sa_number x))) now j = (Inr (), j1)" "pending_of a t j1 = None"
      "ce_saleNumber (last (events_of t j1)) = Some (sa_number x)" using clear by blast
  obtain j2 where j2: "clearCheckout True a t (Some (CkConfirmed, Some (sa_number x))) (clock 2) j = (Inr (), j2)" "pending_of a t j2 = None"
      "ce_saleNumber (last (events_of t j2)) = Some (sa_number x)" using clear by blast
  show ?thesis using j1 j2 p n t(1) by (simp add: check_def retry_def confirm_checkout_def)
qed

theorem sold_checkout_is_recovered_witness:
  "\<exists>(c :: SavedCheckout) p j'. check shop_env True [] Answered 4 (ck_request c) shop_lost = (Some p, (j', snd shop_lost)) \<and>
     pending_of 4 shop_transaction j' = None \<and> sa_gross (hd (sold shop_transaction (snd shop_lost))) = 30000"
proof -
  obtain j s where js: "shop_lost = (j, s)" by fastforce
  then have w: "checkout_world 4 shop_transaction (j, s)" using shop_world by simp
  obtain c x where c: "pending_of 4 shop_transaction j = Some c" and
      x: "sold shop_transaction s = [x]" "sa_operator x = 3" "sa_gross x = 30000"
    using shop_lost_eval by (auto simp: shop_view_def js)
  have "pe_operator_account shop_env (sa_operator x) = Some 4" using x(2) by (simp add: shop_env_def till_env_def)
  from sold_checkout_is_recovered [OF w shop_open_eval(2) c x(1) this, of "[]" "\<lambda>_. []"] obtain p j' where
    "check shop_env True [] Answered 4 (ck_request c) (j, s) = (Some p, (j', s))" "pending_of 4 shop_transaction j' = None" by blast
  then show ?thesis unfolding js using x(1,3) by (intro exI [of _ c] exI [of _ p] exI [of _ j']) simp
qed

end
